(* ===== verification/Prelude.thy ===== *)
theory Prelude
  imports Complex_Main
    "HOL-Library.Word" "HOL-Library.Multiset"
    "HOL-Library.List_Lexorder" "HOL-Library.Char_ord"
begin

text \<open>
  Shared vocabulary of the development: the parts of the C++ standard library that the
  modelled components call, and the interfaces (locales) the component proofs rest on.

  \<^item> \<open>std::map\<close> is an association list kept in key order (\<open>mput\<close>, \<open>map_of\<close>, \<open>merase\<close>);
    its contract is the locale \<open>assoc_store\<close>.
  \<^item> \<open>std::sort\<close> with a comparator is any function that returns an ordered permutation
    (locale \<open>sorter\<close>); \<open>isort\<close> is the executable instance.
  \<^item> \<open>std::mutex\<close> is a flag saying whether the calling thread already holds it;
    locking it twice is the error \<open>Deadlock\<close>.
  \<^item> \<open>std::chrono\<close> time points are integers counting nanoseconds; \<open>duration_cast\<close>
    truncates towards zero.
  \<^item> \<open>std::string\<close> operations (\<open>find\<close>, \<open>substr\<close>, trimming, decimal printing, \<open>stoi\<close>)
    are functions on \<open>string\<close>.
  \<^item> Values that the C++ code reads from the environment (the clock, uninitialised members,
    measured response times) are collected in the record \<open>env\<close> and passed in.
\<close>

section \<open>Collections of rewrite rules\<close>

named_theorems cpp_lib \<open>characteristic equations of the standard library operations\<close>
named_theorems handler_defs \<open>definitions of the message and event handlers\<close>
named_theorems store_simps \<open>lookups after updates of the stores\<close>

section \<open>Environment inputs and synchronisation errors\<close>

type_synonym time_point = int
type_synonym 'v smap = "(string \<times> 'v) list"
type_synonym bytes = "8 word list"

text \<open>
  \<open>indet_int\<close> and \<open>indet_bool\<close> give, for the name of a member that the code leaves
  uninitialised, the value it happens to hold; theorems quantify over them. \<open>env_now\<close> is what the
  clock shows during the call, \<open>env_resp\<close> the response time measured around it.
\<close>

record env =
  env_now :: time_point
  env_resp :: real
  indet_int :: "string \<Rightarrow> int"
  indet_bool :: "string \<Rightarrow> bool"

datatype sync_error = Deadlock

definition lock_mutex :: "bool \<Rightarrow> sync_error + bool" where
  "lock_mutex held = (if held then Inl Deadlock else Inr True)"

lemma lock_mutex_simps [simp]:
  "lock_mutex True = Inl Deadlock" "lock_mutex False = Inr True"
  by (simp_all add: lock_mutex_def)

section \<open>Integer division and durations\<close>

definition tdiv :: "int \<Rightarrow> int \<Rightarrow> int" where
  "tdiv a b = sgn a * sgn b * (\<bar>a\<bar> div \<bar>b\<bar>)"

lemma tdiv_nonneg [simp]: "0 \<le> a \<Longrightarrow> 0 < b \<Longrightarrow> tdiv a b = a div b"
  by (cases "a = 0") (auto simp: tdiv_def sgn_if)

lemma tdiv_zero_dividend [simp]: "tdiv 0 b = 0"
  by (simp add: tdiv_def)

lemma tdiv_neg_le: "a \<le> 0 \<Longrightarrow> 0 < b \<Longrightarrow> tdiv a b \<le> 0"
  by (cases "a = 0") (auto simp: tdiv_def sgn_if pos_imp_zdiv_nonneg_iff)

lemma tdiv_mono: "a \<le> a' \<Longrightarrow> 0 < b \<Longrightarrow> tdiv a b \<le> tdiv a' b"
proof -
  assume le: "a \<le> a'" and b: "0 < b"
  consider "0 \<le> a" | "a < 0" "0 \<le> a'" | "a' < 0" by linarith
  then show ?thesis
  proof cases
    case 1
    with le b show ?thesis by (simp add: zdiv_mono1)
  next
    case 2
    then have "tdiv a b \<le> 0" using b by (simp add: tdiv_neg_le)
    also have "0 \<le> tdiv a' b" using 2 b by (simp add: pos_imp_zdiv_nonneg_iff)
    finally show ?thesis .
  next
    case 3
    with le b have "(- a') div b \<le> (- a) div b" by (intro zdiv_mono1) auto
    with 3 le b show ?thesis by (auto simp: tdiv_def sgn_if)
  qed
qed

definition to_seconds :: "int \<Rightarrow> int" where
  "to_seconds d = tdiv d 1000000000"

definition to_minutes :: "int \<Rightarrow> int" where
  "to_minutes d = tdiv d 60000000000"

section \<open>Ordered maps\<close>

text \<open>
  \<open>mput k v m\<close> is \<open>m[k] = v\<close>: it replaces the entry of \<open>k\<close> or inserts a new one at its place
  in the order; iteration over the map is iteration over the list.
\<close>

fun mput :: "'k::linorder \<Rightarrow> 'v \<Rightarrow> ('k \<times> 'v) list \<Rightarrow> ('k \<times> 'v) list" where
  "mput k v [] = [(k, v)]"
| "mput k v ((k', v') # m) =
     (if k < k' then (k, v) # (k', v') # m
      else if k = k' then (k, v) # m
      else (k', v') # mput k v m)"

definition merase :: "'k \<Rightarrow> ('k \<times> 'v) list \<Rightarrow> ('k \<times> 'v) list" where
  "merase k m = filter (\<lambda>(k', _). k' \<noteq> k) m"

definition msorted :: "('k::linorder \<times> 'v) list \<Rightarrow> bool" where
  "msorted m = sorted_wrt (<) (map fst m)"

locale assoc_store =
  fixes find :: "'m \<Rightarrow> 'k \<Rightarrow> 'v option"
    and put :: "'k \<Rightarrow> 'v \<Rightarrow> 'm \<Rightarrow> 'm"
    and erase :: "'k \<Rightarrow> 'm \<Rightarrow> 'm"
    and ok :: "'m \<Rightarrow> bool"
  assumes find_put: "find (put k v m) = (find m)(k \<mapsto> v)"
    and find_erase: "find (erase k m) = (find m)(k := None)"
    and ok_put: "ok m \<Longrightarrow> ok (put k v m)"
    and ok_erase: "ok m \<Longrightarrow> ok (erase k m)"
begin

lemma find_put_same: "find (put k v m) k = Some v"
  by (simp add: find_put)

lemma find_put_other: "k \<noteq> k' \<Longrightarrow> find (put k v m) k' = find m k'"
  by (simp add: find_put)

lemma find_erase_same: "find (erase k m) k = None"
  by (simp add: find_erase)

lemma find_erase_other: "k \<noteq> k' \<Longrightarrow> find (erase k m) k' = find m k'"
  by (simp add: find_erase)

lemma find_foldr_erase: "find (foldr erase ks m) k = (if k \<in> set ks then None else find m k)"
  by (induction ks) (auto simp: find_erase)

lemma find_foldl_erase: "find (foldl (\<lambda>m k. erase k m) m ks) k = (if k \<in> set ks then None else find m k)"
  by (induction ks arbitrary: m) (auto simp: find_erase)

lemma ok_foldl_erase: "ok m \<Longrightarrow> ok (foldl (\<lambda>m k. erase k m) m ks)"
  by (induction ks arbitrary: m) (auto simp: ok_erase)

end

lemma map_of_mput [cpp_lib]: "map_of (mput k v m) = (map_of m)(k \<mapsto> v)"
  by (induction k v m rule: mput.induct) (auto simp: fun_upd_twist)

lemma map_of_merase [cpp_lib]: "map_of (merase k m) = (map_of m)(k := None)"
  by (induction m) (auto simp: merase_def fun_eq_iff)

lemma set_mput_keys [simp]: "fst ` set (mput k v m) = insert k (fst ` set m)"
  by (induction k v m rule: mput.induct) auto

lemma set_mput_subset: "set (mput k v m) \<subseteq> insert (k, v) (set m)"
  by (induction k v m rule: mput.induct) auto

lemma msorted_Nil [simp]: "msorted []"
  by (simp add: msorted_def)

lemma msorted_Cons [simp]: "msorted ((k, v) # m) \<longleftrightarrow> (\<forall>x \<in> fst ` set m. k < x) \<and> msorted m"
  by (auto simp: msorted_def)

lemma msorted_mput: "msorted m \<Longrightarrow> msorted (mput k v m)"
  by (induction k v m rule: mput.induct) (auto dest: less_trans)

lemma msorted_filter: "msorted m \<Longrightarrow> msorted (filter P m)"
  by (induction m) auto

lemma msorted_merase: "msorted m \<Longrightarrow> msorted (merase k m)"
  by (simp add: merase_def msorted_filter)

lemma set_merase: "x \<in> set (merase k m) \<longleftrightarrow> x \<in> set m \<and> fst x \<noteq> k"
  by (auto simp: merase_def)

lemma msorted_distinct: "msorted m \<Longrightarrow> distinct (map fst m)"
  by (simp add: msorted_def strict_sorted_iff)

lemma msorted_map_of: "msorted m \<Longrightarrow> (k, v) \<in> set m \<longleftrightarrow> map_of m k = Some v"
  by (simp add: msorted_distinct)

lemma map_fst_map_snd [simp]: "map fst (map (\<lambda>(k, v). (k, f k v)) m) = map fst m"
  by (induction m) auto

lemma msorted_map_snd [simp]: "msorted (map (\<lambda>(k, v). (k, f k v)) m) = msorted m"
  by (simp only: msorted_def map_fst_map_snd)

lemma map_of_map_snd: "map_of (map (\<lambda>(k, v). (k, f k v)) m) k = map_option (f k) (map_of m k)"
  by (induction m) auto

interpretation om: assoc_store map_of mput merase msorted
  by unfold_locales (simp_all add: cpp_lib msorted_mput msorted_merase)

declare om.find_put_same [store_simps] om.find_put_other [store_simps]
  om.find_erase_same [store_simps] om.find_erase_other [store_simps]

section \<open>Sorting with a comparator\<close>

text \<open>
  \<open>std::sort(first, last, lt)\<close> promises a permutation in which no element is \<open>lt\<close>-smaller than
  an earlier one; the order of equivalent elements is left open.
\<close>

locale sorter =
  fixes lt :: "'a \<Rightarrow> 'a \<Rightarrow> bool" and srt :: "'a list \<Rightarrow> 'a list"
  assumes sort_perm: "mset (srt xs) = mset xs"
    and sort_ordered: "sorted_wrt (\<lambda>a b. \<not> lt b a) (srt xs)"
begin

lemma sort_set: "set (srt xs) = set xs"
  by (metis sort_perm set_mset_mset)

lemma sort_empty_iff: "srt xs = [] \<longleftrightarrow> xs = []"
  by (metis sort_perm mset_zero_iff)

lemma sort_hd_in: "xs \<noteq> [] \<Longrightarrow> hd (srt xs) \<in> set xs"
  by (metis sort_empty_iff sort_set list.set_sel(1))

lemma sort_hd_best:
  assumes "\<And>a. \<not> lt a a" and "x \<in> set xs"
  shows "\<not> lt x (hd (srt xs))"
proof -
  from assms(2) have "x \<in> set (srt xs)" by (simp add: sort_set)
  with sort_ordered [of xs] assms(1) show ?thesis by (cases "srt xs") auto
qed

end

fun ins_by :: "('a \<Rightarrow> 'a \<Rightarrow> bool) \<Rightarrow> 'a \<Rightarrow> 'a list \<Rightarrow> 'a list" where
  "ins_by lt x [] = [x]"
| "ins_by lt x (y # ys) = (if lt y x then y # ins_by lt x ys else x # y # ys)"

definition isort :: "('a \<Rightarrow> 'a \<Rightarrow> bool) \<Rightarrow> 'a list \<Rightarrow> 'a list" where
  "isort lt xs = foldr (ins_by lt) xs []"

lemma mset_ins_by [simp]: "mset (ins_by lt x xs) = add_mset x (mset xs)"
  by (induction xs) auto

lemma set_ins_by [simp]: "set (ins_by lt x xs) = insert x (set xs)"
  by (induction xs) auto

lemma mset_isort: "mset (isort lt xs) = mset xs"
  by (induction xs) (simp_all add: isort_def)

lemma sorted_ins_by:
  assumes asym: "\<And>a b. lt a b \<Longrightarrow> \<not> lt b a"
    and ntrans: "\<And>a b c. \<not> lt b a \<Longrightarrow> \<not> lt c b \<Longrightarrow> \<not> lt c a"
    and "sorted_wrt (\<lambda>a b. \<not> lt b a) xs"
  shows "sorted_wrt (\<lambda>a b. \<not> lt b a) (ins_by lt x xs)"
  using assms(3) by (induction xs) (auto dest: asym ntrans)

lemma sorter_isort:
  assumes "\<And>a b. lt a b \<Longrightarrow> \<not> lt b a"
    and "\<And>a b c. \<not> lt b a \<Longrightarrow> \<not> lt c b \<Longrightarrow> \<not> lt c a"
  shows "sorter lt (isort lt)"
proof
  fix xs
  show "mset (isort lt xs) = mset xs" by (rule mset_isort)
  show "sorted_wrt (\<lambda>a b. \<not> lt b a) (isort lt xs)"
    by (induction xs) (simp_all add: isort_def sorted_ins_by [OF assms])
qed

section \<open>Runs of deterministic machines\<close>

text \<open>
  A component driven by a sequence of inputs: an invariant kept by every step holds after every
  run, and a step-wise abstraction is an abstraction of runs.
\<close>

locale machine =
  fixes step :: "'s \<Rightarrow> 'e \<Rightarrow> 's" and inv :: "'s \<Rightarrow> bool"
  assumes step_inv: "inv s \<Longrightarrow> inv (step s e)"
begin

lemma run_inv: "inv s \<Longrightarrow> inv (foldl step s es)"
  by (induction es arbitrary: s) (simp_all add: step_inv)

lemma run_measure:
  assumes "\<And>s e. inv s \<Longrightarrow> f (step s e) \<le> f s + (c::int)" and "inv s"
  shows "f (foldl step s es) \<le> f s + c * int (length es)"
  using assms(2)
proof (induction es arbitrary: s)
  case Nil
  then show ?case by simp
next
  case (Cons e es)
  from Cons.prems have "f (foldl step (step s e) es) \<le> f (step s e) + c * int (length es)"
    by (intro Cons.IH step_inv)
  also have "f (step s e) \<le> f s + c" using Cons.prems by (rule assms(1))
  finally show ?case by (simp add: algebra_simps)
qed

end

locale simulation = machine step inv
  for step :: "'s \<Rightarrow> 'e \<Rightarrow> 's" and inv :: "'s \<Rightarrow> bool" +
  fixes abs :: "'s \<Rightarrow> 'a" and spec :: "'a \<Rightarrow> 'e \<Rightarrow> 'a"
  assumes step_sim: "inv s \<Longrightarrow> abs (step s e) = spec (abs s) e"
begin

lemma run_sim: "inv s \<Longrightarrow> abs (foldl step s es) = foldl spec (abs s) es"
  by (induction es arbitrary: s) (simp_all add: step_sim step_inv)

end

section \<open>Lists of lists\<close>

lemma mset_concat_update:
  assumes "k < length ls"
  shows "mset (concat (ls[k := ys])) + mset (ls ! k) = mset (concat ls) + mset ys"
proof -
  have "concat ls = concat (take k ls) @ ls ! k @ concat (drop (Suc k) ls)"
    using assms by (metis concat.simps(2) concat_append id_take_nth_drop)
  moreover have "concat (ls[k := ys]) = concat (take k ls) @ ys @ concat (drop (Suc k) ls)"
    using assms by (simp add: upd_conv_take_nth_drop)
  ultimately show ?thesis by simp
qed

section \<open>Priority queues\<close>

text \<open>
  What clients of \<open>std::priority_queue\<close> rely on: the top is an element with the least key. The order of elements with
  equal keys is left open.
\<close>

locale priority_queue =
  fixes elements :: "'q \<Rightarrow> 'e multiset"
    and push :: "'e \<Rightarrow> 'q \<Rightarrow> 'q"
    and top :: "'q \<Rightarrow> 'e"
    and pop :: "'q \<Rightarrow> 'q"
    and ok :: "'q \<Rightarrow> bool"
    and key :: "'e \<Rightarrow> 'k::linorder"
  assumes elements_push: "elements (push e q) = add_mset e (elements q)"
    and elements_pop: "ok q \<Longrightarrow> elements q \<noteq> {#} \<Longrightarrow> elements q = add_mset (top q) (elements (pop q))"
    and top_least: "ok q \<Longrightarrow> e \<in># elements q \<Longrightarrow> key (top q) \<le> key e"
    and ok_push: "ok q \<Longrightarrow> ok (push e q)"
    and ok_pop: "ok q \<Longrightarrow> ok (pop q)"
begin

lemma top_in: "ok q \<Longrightarrow> elements q \<noteq> {#} \<Longrightarrow> top q \<in># elements q"
  by (metis elements_pop union_single_eq_member)

lemma pop_subset: "ok q \<Longrightarrow> elements q \<noteq> {#} \<Longrightarrow> e \<in># elements (pop q) \<Longrightarrow> e \<in># elements q"
  by (metis elements_pop insert_iff set_mset_add_mset_insert)

lemma top_push_le: "ok q \<Longrightarrow> elements q \<noteq> {#} \<Longrightarrow> key (top (push e q)) \<le> key (top q)"
  by (simp add: elements_push ok_push top_in top_least)

lemma some_due_iff_top_due:
  "ok q \<Longrightarrow> elements q \<noteq> {#} \<Longrightarrow> (\<exists>e. e \<in># elements q \<and> key e \<le> t) \<longleftrightarrow> key (top q) \<le> t"
  by (meson order_trans top_in top_least)

end

end
