(* ===== verification/CppString.thy ===== *)
theory CppString
  imports Prelude
begin

text \<open>
  The \<open>std::string\<close> operations the components use: searching, trimming blanks with
  \<open>find_first_not_of\<close>/\<open>find_last_not_of\<close>, splitting into lines with \<open>std::getline\<close>,
  printing integers in base 10 or 16, \<open>std::stoi\<close> and \<open>std::stoll\<close>, and reading words from a
  stream. Lemmas: printing and parsing are
  inverse, line splitting inverts line joining, trimming is idempotent and leaves
  blank-free ends alone.
\<close>

datatype std_error = OutOfRange | InvalidArgument

section \<open>Searching\<close>

fun find_char :: "char \<Rightarrow> string \<Rightarrow> nat option" where
  "find_char c [] = None"
| "find_char c (x # xs) = (if x = c then Some 0 else map_option Suc (find_char c xs))"

fun is_prefix :: "string \<Rightarrow> string \<Rightarrow> bool" where
  "is_prefix [] s = True"
| "is_prefix (p # ps) [] = False"
| "is_prefix (p # ps) (x # xs) = (p = x \<and> is_prefix ps xs)"

text \<open>\<open>find_sub pat s\<close> is \<open>s.find(pat)\<close>, \<open>contains_sub pat s\<close> is \<open>s.find(pat) != npos\<close>.\<close>

fun find_sub :: "string \<Rightarrow> string \<Rightarrow> nat option" where
  "find_sub pat [] = (if pat = [] then Some 0 else None)"
| "find_sub pat (x # xs) = (if is_prefix pat (x # xs) then Some 0 else map_option Suc (find_sub pat xs))"

fun contains_sub :: "string \<Rightarrow> string \<Rightarrow> bool" where
  "contains_sub pat [] = (pat = [])"
| "contains_sub pat (x # xs) = (is_prefix pat (x # xs) \<or> contains_sub pat xs)"

text \<open>\<open>s.substr(pos)\<close> throws \<open>std::out_of_range\<close> when \<open>pos > s.size()\<close>.\<close>

definition substr_from :: "nat \<Rightarrow> string \<Rightarrow> std_error + string" where
  "substr_from pos s = (if length s < pos then Inl OutOfRange else Inr (drop pos s))"

lemma find_char_None: "find_char c s = None \<longleftrightarrow> c \<notin> set s"
  by (induction s) auto

lemma find_char_append: "c \<notin> set a \<Longrightarrow> find_char c (a @ c # b) = Some (length a)"
  by (induction a) auto

lemma find_char_Some: "find_char c s = Some n \<Longrightarrow> n < length s \<and> s ! n = c \<and> c \<notin> set (take n s)"
  by (induction s arbitrary: n) (auto split: if_splits)

lemma is_prefix_iff: "is_prefix p s \<longleftrightarrow> (\<exists>t. s = p @ t)"
  by (induction p s rule: is_prefix.induct) auto

lemma contains_sub_iff: "contains_sub p s \<longleftrightarrow> (\<exists>a b. s = a @ p @ b)"
proof (induction p s rule: contains_sub.induct)
  case (1 pat)
  then show ?case by auto
next
  case (2 pat x xs)
  have "(\<exists>a b. x # xs = a @ pat @ b) \<longleftrightarrow> (\<exists>b. x # xs = pat @ b) \<or> (\<exists>a b. xs = a @ pat @ b)"
    by (metis append_Cons append_Nil list.inject neq_Nil_conv)
  with 2 show ?case by (simp add: is_prefix_iff)
qed

lemma contains_sub_append1 [intro]: "contains_sub p s \<Longrightarrow> contains_sub p (s @ t)"
  by (fastforce simp: contains_sub_iff)

lemma contains_sub_append2 [intro]: "contains_sub p t \<Longrightarrow> contains_sub p (s @ t)"
  unfolding contains_sub_iff by (metis append.assoc)

section \<open>Trimming blanks\<close>

definition is_blank :: "char \<Rightarrow> bool" where
  "is_blank c \<longleftrightarrow> c = CHR '' '' \<or> c = CHR 0x09"

text \<open>
  \<open>s.erase(0, s.find_first_not_of(" \t")); s.erase(s.find_last_not_of(" \t") + 1);\<close>
  when every character is blank both searches return \<open>npos\<close> and the string becomes empty.
\<close>

definition trim_blanks :: "string \<Rightarrow> string" where
  "trim_blanks s = rev (dropWhile is_blank (rev (dropWhile is_blank s)))"

definition trimmed :: "string \<Rightarrow> bool" where
  "trimmed s \<longleftrightarrow> s = [] \<or> (\<not> is_blank (hd s) \<and> \<not> is_blank (last s))"

lemma dropWhile_id: "s = [] \<or> \<not> P (hd s) \<Longrightarrow> dropWhile P s = s"
  by (cases s) auto

lemma trim_blanks_id: "trimmed s \<Longrightarrow> trim_blanks s = s"
  by (auto simp: trim_blanks_def trimmed_def dropWhile_id hd_rev)

lemma last_dropWhile_eq: "dropWhile P xs \<noteq> [] \<Longrightarrow> last (dropWhile P xs) = last xs"
  by (induction xs) (auto split: if_splits)

lemma trimmed_rev_drop:
  assumes "t = [] \<or> \<not> is_blank (hd t)"
  shows "trimmed (rev (dropWhile is_blank (rev t)))"
proof (cases "dropWhile is_blank (rev t) = []")
  case True
  then show ?thesis by (simp add: trimmed_def)
next
  case False
  then have "t \<noteq> []" by auto
  with assms have "\<not> is_blank (last (dropWhile is_blank (rev t)))"
    using last_dropWhile_eq [OF False] by (simp add: last_rev)
  with hd_dropWhile [OF False] show ?thesis
    by (auto simp: trimmed_def hd_rev last_rev)
qed

lemma trimmed_trim_blanks: "trimmed (trim_blanks s)"
  unfolding trim_blanks_def by (rule trimmed_rev_drop) (metis hd_dropWhile)

lemma trim_blanks_idem: "trim_blanks (trim_blanks s) = trim_blanks s"
  by (simp add: trim_blanks_id trimmed_trim_blanks)

section \<open>Lines\<close>

abbreviation LF :: char where "LF \<equiv> CHR 0x0A"
abbreviation CR :: char where "CR \<equiv> CHR 0x0D"
abbreviation CRLF :: string where "CRLF \<equiv> [CR, LF]"

text \<open>
  The pieces that a \<open>while (std::getline(stream, piece, d))\<close> loop sees: the text is cut at every
  delimiter, and a last piece without delimiter counts only when it is not empty. Without the third
  argument the delimiter is the newline.
\<close>

function getdelims :: "char \<Rightarrow> string \<Rightarrow> string list" where
  "getdelims d s =
     (if s = [] then []
      else takeWhile (\<lambda>c. c \<noteq> d) s # getdelims d (drop (Suc (length (takeWhile (\<lambda>c. c \<noteq> d) s))) s))"
  by pat_completeness auto
termination
  by (relation "measure (\<lambda>(d, s). length s)") auto

declare getdelims.simps [simp del]

abbreviation getlines :: "string \<Rightarrow> string list" where
  "getlines \<equiv> getdelims LF"

lemma getdelims_Nil [simp]: "getdelims d [] = []"
  by (simp add: getdelims.simps)

lemma getdelims_piece: "d \<notin> set l \<Longrightarrow> getdelims d (l @ d # s) = l # getdelims d s"
proof -
  assume "d \<notin> set l"
  then have "takeWhile (\<lambda>c. c \<noteq> d) (l @ d # s) = l"
    by (subst takeWhile_append2) auto
  then show ?thesis by (subst getdelims.simps) simp
qed

lemma getdelims_last: "d \<notin> set l \<Longrightarrow> getdelims d l = (if l = [] then [] else [l])"
proof -
  assume "d \<notin> set l"
  then have "takeWhile (\<lambda>c. c \<noteq> d) l = l" by (auto simp: takeWhile_eq_all_conv)
  from getdelims.simps [of d l, unfolded this] show ?thesis by simp
qed

lemmas getlines_line = getdelims_piece [of LF]

lemma getlines_concat:
  "(\<forall>l \<in> set ls. LF \<notin> set l) \<Longrightarrow> getlines (concat (map (\<lambda>l. l @ [LF]) ls)) = ls"
  by (induction ls) (simp_all add: getlines_line)

section \<open>Printing numbers\<close>

fun digits_of :: "nat \<Rightarrow> nat \<Rightarrow> nat list" where
  "digits_of b n = (if b < 2 \<or> n < b then [n] else digits_of b (n div b) @ [n mod b])"

declare digits_of.simps [simp del]

definition dec_char :: "nat \<Rightarrow> char" where
  "dec_char d = char_of (48 + d)"

definition nat_dec :: "nat \<Rightarrow> string" where
  "nat_dec n = map dec_char (digits_of 10 n)"

text \<open>\<open>std::to_string(int)\<close> and \<open>operator<<\<close> on \<open>int\<close>.\<close>

definition int_dec :: "int \<Rightarrow> string" where
  "int_dec i = (if i < 0 then CHR ''-'' # nat_dec (nat (- i)) else nat_dec (nat i))"

lemma digits_of_bound: "2 \<le> b \<Longrightarrow> d \<in> set (digits_of b n) \<Longrightarrow> d < b"
proof (induction b n rule: digits_of.induct)
  case (1 b n)
  then show ?case by (auto simp: digits_of.simps [of b n] split: if_splits)
qed

lemma digits_of_value: "foldl (\<lambda>a d. b * a + d) 0 (digits_of b n) = n"
proof (induction b n rule: digits_of.induct)
  case (1 b n)
  show ?case
  proof (cases "b < 2 \<or> n < b")
    case True
    then show ?thesis by (subst digits_of.simps) simp
  next
    case False
    with 1 show ?thesis by (subst digits_of.simps) simp
  qed
qed

lemma digits_of_nonempty [simp]: "digits_of b n \<noteq> []"
  by (subst digits_of.simps) simp

lemma digits_of_hd_nonzero: "2 \<le> b \<Longrightarrow> 0 < n \<Longrightarrow> hd (digits_of b n) \<noteq> 0"
proof (induction b n rule: digits_of.induct)
  case (1 b n)
  show ?case
  proof (cases "n < b")
    case True
    with 1 show ?thesis by (subst digits_of.simps) simp
  next
    case False
    with 1 have "hd (digits_of b (n div b)) \<noteq> 0" by (auto simp: div_greater_zero_iff)
    with False 1 show ?thesis by (subst digits_of.simps) simp
  qed
qed

lemma nat_dec_nonempty [simp]: "nat_dec n \<noteq> []"
  by (simp add: nat_dec_def)

section \<open>Parsing numbers: std::stoi\<close>

definition is_digit :: "char \<Rightarrow> bool" where
  "is_digit c \<longleftrightarrow> (48::nat) \<le> of_char c \<and> (of_char c :: nat) \<le> 57"

definition is_space :: "char \<Rightarrow> bool" where
  "is_space c \<longleftrightarrow> c = CHR '' '' \<or> (9::nat) \<le> of_char c \<and> (of_char c :: nat) \<le> 13"

definition digits_value :: "string \<Rightarrow> nat" where
  "digits_value ds = foldl (\<lambda>a c. 10 * a + (of_char c - 48)) 0 ds"

text \<open>
  \<open>std::stoi\<close> and \<open>std::stoll\<close>: skip white space, read an optional sign and the longest run of digits;
  no digit is \<open>std::invalid_argument\<close>, a value outside the range of the type is
  \<open>std::out_of_range\<close>; what follows the digits is ignored.
\<close>

definition sto_signed :: "int \<Rightarrow> int \<Rightarrow> string \<Rightarrow> std_error + int" where
  "sto_signed lo hi s =
     (let t = dropWhile is_space s;
          neg = (t \<noteq> [] \<and> hd t = CHR ''-'');
          u = (if t \<noteq> [] \<and> (hd t = CHR ''-'' \<or> hd t = CHR ''+'') then tl t else t);
          ds = takeWhile is_digit u;
          v = (if neg then - int (digits_value ds) else int (digits_value ds))
      in if ds = [] then Inl InvalidArgument
         else if v < lo \<or> hi < v then Inl OutOfRange
         else Inr v)"

definition stoi :: "string \<Rightarrow> std_error + int" where
  "stoi = sto_signed (- 2147483648) 2147483647"

definition stoll :: "string \<Rightarrow> std_error + int" where
  "stoll = sto_signed (- 9223372036854775808) 9223372036854775807"

lemma of_char_dec_char [simp]: "d < 10 \<Longrightarrow> (of_char (dec_char d) :: nat) = 48 + d"
  by (simp add: dec_char_def)

lemma is_digit_dec_char [simp]: "d < 10 \<Longrightarrow> is_digit (dec_char d)"
  by (simp add: is_digit_def)

lemma is_digit_nat_dec: "c \<in> set (nat_dec n) \<Longrightarrow> is_digit c"
  using digits_of_bound [of 10] by (auto simp: nat_dec_def)

lemma digits_value_map:
  "(\<forall>d \<in> set ds. d < 10) \<Longrightarrow> foldl (\<lambda>a c. 10 * a + (of_char c - 48)) a (map dec_char ds)
     = foldl (\<lambda>a d. 10 * a + d) a ds"
  by (induction ds arbitrary: a) auto

lemma digits_value_nat_dec [simp]: "digits_value (nat_dec n) = n"
  using digits_of_bound [of 10]
  by (simp add: digits_value_def nat_dec_def digits_value_map digits_of_value)

lemma nat_dec_inject [simp]: "nat_dec a = nat_dec b \<longleftrightarrow> a = b"
  by (metis digits_value_nat_dec)

lemma is_digit_not_space: "is_digit c \<Longrightarrow> \<not> is_space c"
  by (auto simp: is_digit_def is_space_def)

lemma is_digit_not_sign: "is_digit c \<Longrightarrow> c \<noteq> CHR ''-'' \<and> c \<noteq> CHR ''+''"
  by (auto simp: is_digit_def)

lemma is_digit_not_blank: "is_digit c \<Longrightarrow> \<not> is_blank c \<and> c \<noteq> LF"
  by (auto simp: is_digit_def is_blank_def)

lemma nat_dec_hd: "is_digit (hd (nat_dec n))"
  by (rule is_digit_nat_dec [of _ n]) simp

lemma takeWhile_digits [simp]: "takeWhile is_digit (nat_dec n) = nat_dec n"
  by (simp add: takeWhile_eq_all_conv is_digit_nat_dec)

lemma sto_signed_int_dec:
  assumes "lo \<le> i" and "i \<le> hi"
  shows "sto_signed lo hi (int_dec i) = Inr i"
proof (cases "i < 0")
  case True
  have "dropWhile is_space (int_dec i) = int_dec i"
    using True by (simp add: int_dec_def is_space_def)
  with True assms show ?thesis
    by (simp add: sto_signed_def int_dec_def Let_def)
next
  case False
  have h: "is_digit (hd (nat_dec (nat i)))" by (rule nat_dec_hd)
  then have "dropWhile is_space (nat_dec (nat i)) = nat_dec (nat i)"
    by (simp add: dropWhile_id is_digit_not_space)
  with False assms h show ?thesis
    using is_digit_not_sign [OF h] by (simp add: sto_signed_def int_dec_def Let_def)
qed

lemma stoi_int_dec:
  assumes "- 2147483648 \<le> i" and "i \<le> 2147483647"
  shows "stoi (int_dec i) = Inr i"
  using assms by (simp add: stoi_def sto_signed_int_dec)

lemma int_dec_trimmed: "trimmed (int_dec i) \<and> LF \<notin> set (int_dec i)"
proof -
  have n: "\<not> is_blank c \<and> c \<noteq> LF" if "c \<in> set (int_dec i)" for c
    using that is_digit_nat_dec is_digit_not_blank
    by (auto simp: int_dec_def is_blank_def split: if_splits)
  have "int_dec i \<noteq> []" by (simp add: int_dec_def)
  with n show ?thesis by (auto simp: trimmed_def)
qed

section \<open>Words of a stream\<close>

text \<open>\<open>stream >> word\<close>: the next word and the rest of the text.\<close>

definition next_word :: "string \<Rightarrow> string \<times> string" where
  "next_word s =
     (let t = dropWhile is_space s
      in (takeWhile (\<lambda>c. \<not> is_space c) t, dropWhile (\<lambda>c. \<not> is_space c) t))"

definition is_word :: "string \<Rightarrow> bool" where
  "is_word w \<longleftrightarrow> w \<noteq> [] \<and> list_all (\<lambda>c. \<not> is_space c) w"

lemma next_word_first:
  assumes "is_word w" and "is_space c"
  shows "next_word (w @ c # r) = (w, c # r)"
proof -
  have "\<not> is_space (hd w)" "w \<noteq> []" using assms by (auto simp: is_word_def list_all_iff)
  then have "dropWhile is_space (w @ c # r) = w @ c # r" by (simp add: dropWhile_id)
  with assms show ?thesis
    by (simp add: next_word_def Let_def is_word_def list_all_iff takeWhile_append2 dropWhile_append2)
qed

lemma next_word_last: "is_word w \<Longrightarrow> next_word w = (w, [])"
  by (cases w) (auto simp: next_word_def Let_def is_word_def list_all_iff takeWhile_eq_all_conv dropWhile_eq_Nil_conv)

lemma next_word_skip: "is_space c \<Longrightarrow> next_word (c # r) = next_word r"
  by (simp add: next_word_def)

lemma is_space_chars [simp]: "is_space (CHR '' '')" "is_space CR" "is_space LF"
  by (simp_all add: is_space_def)

lemma word_no_newline: "is_word w \<Longrightarrow> LF \<notin> set w"
  by (auto simp: is_word_def list_all_iff)

section \<open>Letters\<close>

text \<open>\<open>std::tolower\<close> in the C locale.\<close>

definition lower_char :: "char \<Rightarrow> char" where
  "lower_char c =
     (if (65::nat) \<le> of_char c \<and> (of_char c :: nat) \<le> 90 then char_of (of_char c + 32 :: nat) else c)"

end
