(* ===== verification/Ue_Context.thy ===== *)
theory Ue_Context
  imports CppString
begin

text \<open>
  UE contexts and their manager (\<open>5gc/amf/include/UeContext.h\<close>, \<open>5gc/amf/src/UeContext.cpp\<close>).

  A \<open>UeContext\<close> is a record with one field per C++ member; operations return the changed
  record. The manager holds \<open>ueContexts_\<close> and \<open>gutiToSupi_\<close> as ordered maps. The C++ map stores
  \<open>std::shared_ptr<UeContext>\<close>, so a caller that obtains a context and calls a setter changes
  the stored object: \<open>modifyUe\<close> is that write through the pointer.
  The clock and the members that the constructors leave uninitialised come from \<open>env\<close>.

  The interface the AMF state machine relies on is the locale \<open>context_store\<close>,
  interpreted here on the manager's operations.
\<close>

section \<open>Data\<close>

record FiveGIdentifiers =
  id_supi :: string
  id_pei :: string
  id_gpsi :: string
  id_guti :: string
  id_tmsi :: string

record NetworkSlice =
  ns_sst :: int
  ns_sd :: string
  ns_plmnId :: string
  ns_snssai :: string

record LocationInfo =
  loc_tai :: string
  loc_cellId :: string
  loc_plmnId :: string
  loc_tac :: int
  loc_ratType :: string
  loc_lastUpdate :: time_point

record SecurityContext =
  sec_kAmf :: string
  sec_kSeaf :: string
  sec_kAusf :: string
  sec_ngKsi :: int
  sec_authVector :: string
  sec_isAuthenticated :: bool
  sec_authTime :: time_point

record PduSession =
  pdu_sessionId :: int
  pdu_dnn :: string
  pdu_sNssai :: string
  pdu_pduType :: string
  pdu_smfId :: string
  pdu_upfId :: string
  pdu_qosFlowId :: string
  pdu_state :: string
  pdu_isActive :: bool
  pdu_establishTime :: time_point

record AccessInfo =
  acc_accessType :: string
  acc_anType :: string
  acc_ranNodeId :: string
  acc_anIpAddress :: string
  acc_anPort :: int
  acc_isConnected :: bool

record MobilityInfo =
  mob_allowedNssai :: "string list"
  mob_configuredNssai :: "string list"
  mob_serviceAreaRestriction :: string
  mob_forbiddenAreas :: "string list"
  mob_isRoaming :: bool
  mob_homeNetworkPlmn :: string

record SubscriptionInfo =
  sub_subscriptionId :: string
  sub_subscribedSlices :: "NetworkSlice list"
  sub_accessRestriction :: string
  sub_coreNetworkType :: string
  sub_isEmergencyRegistered :: bool
  sub_additionalInfo :: "string smap"

record UeContext =
  ue_identifiers :: FiveGIdentifiers
  ue_locationInfo :: LocationInfo
  ue_securityContext :: SecurityContext
  ue_pduSessions :: "PduSession list"
  ue_accessInfo :: AccessInfo
  ue_mobilityInfo :: MobilityInfo
  ue_subscriptionInfo :: SubscriptionInfo
  ue_registrationState :: string
  ue_connectionState :: string
  ue_lastActivity :: time_point
  ue_creationTime :: time_point

record UeContextManager =
  ueContexts :: "UeContext smap"
  gutiToSupi :: "string smap"

section \<open>Operations of a context\<close>

definition NetworkSlice_toString :: "NetworkSlice \<Rightarrow> string" where
  "NetworkSlice_toString s =
     ''SST:'' @ int_dec (ns_sst s) @ '',SD:'' @ ns_sd s @ '',PLMN:'' @ ns_plmnId s"

definition UeContext_new :: "env \<Rightarrow> string \<Rightarrow> UeContext" where
  "UeContext_new e supi = \<lparr>
     ue_identifiers = \<lparr>id_supi = supi, id_pei = [], id_gpsi = [], id_guti = [], id_tmsi = []\<rparr>,
     ue_locationInfo = \<lparr>loc_tai = [], loc_cellId = [], loc_plmnId = [], loc_tac = indet_int e ''tac'',
       loc_ratType = [], loc_lastUpdate = 0\<rparr>,
     ue_securityContext = \<lparr>sec_kAmf = [], sec_kSeaf = [], sec_kAusf = [], sec_ngKsi = 0,
       sec_authVector = [], sec_isAuthenticated = False, sec_authTime = 0\<rparr>,
     ue_pduSessions = [],
     ue_accessInfo = \<lparr>acc_accessType = [], acc_anType = [], acc_ranNodeId = [],
       acc_anIpAddress = [], acc_anPort = 0, acc_isConnected = False\<rparr>,
     ue_mobilityInfo = \<lparr>mob_allowedNssai = [], mob_configuredNssai = [],
       mob_serviceAreaRestriction = [], mob_forbiddenAreas = [], mob_isRoaming = False,
       mob_homeNetworkPlmn = []\<rparr>,
     ue_subscriptionInfo = \<lparr>sub_subscriptionId = [], sub_subscribedSlices = [],
       sub_accessRestriction = [], sub_coreNetworkType = [],
       sub_isEmergencyRegistered = indet_bool e ''isEmergencyRegistered'', sub_additionalInfo = []\<rparr>,
     ue_registrationState = ''DEREGISTERED'',
     ue_connectionState = ''IDLE'',
     ue_lastActivity = env_now e,
     ue_creationTime = env_now e\<rparr>"

definition updateLastActivity :: "env \<Rightarrow> UeContext \<Rightarrow> UeContext" where
  "updateLastActivity e c = c\<lparr>ue_lastActivity := env_now e\<rparr>"

definition setIdentifiers :: "FiveGIdentifiers \<Rightarrow> UeContext \<Rightarrow> UeContext" where
  "setIdentifiers ids c = c\<lparr>ue_identifiers := ids\<rparr>"

definition setRegistrationState :: "string \<Rightarrow> UeContext \<Rightarrow> UeContext" where
  "setRegistrationState st c = c\<lparr>ue_registrationState := st\<rparr>"

definition setConnectionState :: "string \<Rightarrow> UeContext \<Rightarrow> UeContext" where
  "setConnectionState st c = c\<lparr>ue_connectionState := st\<rparr>"

definition setRanNodeId :: "string \<Rightarrow> UeContext \<Rightarrow> UeContext" where
  "setRanNodeId n c = c\<lparr>ue_accessInfo := (ue_accessInfo c)\<lparr>acc_ranNodeId := n\<rparr>\<rparr>"

definition setTai :: "string \<Rightarrow> UeContext \<Rightarrow> UeContext" where
  "setTai t c = c\<lparr>ue_locationInfo := (ue_locationInfo c)\<lparr>loc_tai := t\<rparr>\<rparr>"

definition updateLocation :: "env \<Rightarrow> LocationInfo \<Rightarrow> UeContext \<Rightarrow> UeContext" where
  "updateLocation e l c =
     updateLastActivity e (c\<lparr>ue_locationInfo := l\<lparr>loc_lastUpdate := env_now e\<rparr>\<rparr>)"

definition updateSecurityContext :: "env \<Rightarrow> SecurityContext \<Rightarrow> UeContext \<Rightarrow> UeContext" where
  "updateSecurityContext e s c =
     updateLastActivity e (c\<lparr>ue_securityContext := s\<lparr>sec_authTime := env_now e\<rparr>\<rparr>)"

definition isAuthenticated :: "UeContext \<Rightarrow> bool" where
  "isAuthenticated c = sec_isAuthenticated (ue_securityContext c)"

text \<open>\<open>std::find_if\<close> on the session vector: the first session with the identifier.\<close>

fun find_session :: "int \<Rightarrow> PduSession list \<Rightarrow> PduSession option" where
  "find_session i [] = None"
| "find_session i (s # ss) = (if pdu_sessionId s = i then Some s else find_session i ss)"

fun replace_session :: "PduSession \<Rightarrow> PduSession list \<Rightarrow> PduSession list" where
  "replace_session s [] = []"
| "replace_session s (t # ts) =
     (if pdu_sessionId t = pdu_sessionId s then s # ts else t # replace_session s ts)"

definition addPduSession :: "env \<Rightarrow> PduSession \<Rightarrow> UeContext \<Rightarrow> UeContext" where
  "addPduSession e s c =
     updateLastActivity e
       (c\<lparr>ue_pduSessions :=
           (case find_session (pdu_sessionId s) (ue_pduSessions c) of
              Some _ \<Rightarrow> replace_session s (ue_pduSessions c)
            | None \<Rightarrow> ue_pduSessions c @ [s])\<rparr>)"

definition removePduSession :: "env \<Rightarrow> int \<Rightarrow> UeContext \<Rightarrow> UeContext" where
  "removePduSession e i c =
     updateLastActivity e
       (c\<lparr>ue_pduSessions := filter (\<lambda>s. pdu_sessionId s \<noteq> i) (ue_pduSessions c)\<rparr>)"

definition getActivePduSessions :: "UeContext \<Rightarrow> PduSession list" where
  "getActivePduSessions c = filter pdu_isActive (ue_pduSessions c)"

definition getPduSession :: "UeContext \<Rightarrow> int \<Rightarrow> PduSession option" where
  "getPduSession c i = find_session i (ue_pduSessions c)"

definition updateAccessInfo :: "env \<Rightarrow> AccessInfo \<Rightarrow> UeContext \<Rightarrow> UeContext" where
  "updateAccessInfo e a c = updateLastActivity e (c\<lparr>ue_accessInfo := a\<rparr>)"

definition isConnected :: "UeContext \<Rightarrow> bool" where
  "isConnected c = acc_isConnected (ue_accessInfo c)"

definition updateMobilityInfo :: "env \<Rightarrow> MobilityInfo \<Rightarrow> UeContext \<Rightarrow> UeContext" where
  "updateMobilityInfo e m c = updateLastActivity e (c\<lparr>ue_mobilityInfo := m\<rparr>)"

definition updateSubscriptionInfo :: "env \<Rightarrow> SubscriptionInfo \<Rightarrow> UeContext \<Rightarrow> UeContext" where
  "updateSubscriptionInfo e s c = updateLastActivity e (c\<lparr>ue_subscriptionInfo := s\<rparr>)"

definition UeContext_toJson :: "UeContext \<Rightarrow> string" where
  \<open>UeContext_toJson c =
     ''{'' @ [LF] @
     ''  "supi": "'' @ id_supi (ue_identifiers c) @ ''",'' @ [LF] @
     ''  "guti": "'' @ id_guti (ue_identifiers c) @ ''",'' @ [LF] @
     ''  "pei": "'' @ id_pei (ue_identifiers c) @ ''",'' @ [LF] @
     ''  "registrationState": "'' @ ue_registrationState c @ ''",'' @ [LF] @
     ''  "connectionState": "'' @ ue_connectionState c @ ''",'' @ [LF] @
     ''  "isAuthenticated": '' @ (if isAuthenticated c then ''true'' else ''false'') @ '','' @ [LF] @
     ''  "isConnected": '' @ (if isConnected c then ''true'' else ''false'') @ '','' @ [LF] @
     ''  "location": {'' @ [LF] @
     ''    "tai": "'' @ loc_tai (ue_locationInfo c) @ ''",'' @ [LF] @
     ''    "cellId": "'' @ loc_cellId (ue_locationInfo c) @ ''",'' @ [LF] @
     ''    "ratType": "'' @ loc_ratType (ue_locationInfo c) @ ''"'' @ [LF] @
     ''  },'' @ [LF] @
     ''  "activePduSessions": '' @ nat_dec (length (getActivePduSessions c)) @ [LF] @
     ''}''\<close>

definition UeContext_toString :: "UeContext \<Rightarrow> string" where
  "UeContext_toString c =
     ''UE Context [SUPI: '' @ id_supi (ue_identifiers c) @
     '', State: '' @ ue_registrationState c @ ''/'' @ ue_connectionState c @
     '', Auth: '' @ (if isAuthenticated c then ''YES'' else ''NO'') @
     '', Connected: '' @ (if isConnected c then ''YES'' else ''NO'') @
     '', Sessions: '' @ nat_dec (length (getActivePduSessions c)) @ '']''"

section \<open>Operations of the manager\<close>

definition UeContextManager_init :: UeContextManager where
  "UeContextManager_init = \<lparr>ueContexts = [], gutiToSupi = []\<rparr>"

definition createUeContext :: "env \<Rightarrow> string \<Rightarrow> UeContextManager \<Rightarrow> UeContextManager" where
  "createUeContext e supi m = m\<lparr>ueContexts := mput supi (UeContext_new e supi) (ueContexts m)\<rparr>"

definition getUeContext :: "UeContextManager \<Rightarrow> string \<Rightarrow> UeContext option" where
  "getUeContext m supi = map_of (ueContexts m) supi"

text \<open>The same method entered with \<open>contextMutex_\<close> already held or not by the caller.\<close>

definition getUeContext_locked ::
  "bool \<Rightarrow> UeContextManager \<Rightarrow> string \<Rightarrow> sync_error + UeContext option" where
  "getUeContext_locked held m supi =
     (case lock_mutex held of Inl err \<Rightarrow> Inl err | Inr _ \<Rightarrow> Inr (getUeContext m supi))"

definition getUeContextByGuti ::
  "UeContextManager \<Rightarrow> string \<Rightarrow> sync_error + UeContext option" where
  "getUeContextByGuti m guti =
     (case lock_mutex False of
        Inl err \<Rightarrow> Inl err
      | Inr held \<Rightarrow>
          (case map_of (gutiToSupi m) guti of
             Some supi \<Rightarrow> getUeContext_locked held m supi
           | None \<Rightarrow> Inr None))"

definition erase_guti :: "string \<Rightarrow> string smap \<Rightarrow> string smap" where
  "erase_guti guti g = (if guti \<noteq> [] then merase guti g else g)"

definition removeUeContext :: "string \<Rightarrow> UeContextManager \<Rightarrow> UeContextManager" where
  "removeUeContext supi m =
     (case map_of (ueContexts m) supi of
        Some c \<Rightarrow> m\<lparr>gutiToSupi := erase_guti (id_guti (ue_identifiers c)) (gutiToSupi m),
                    ueContexts := merase supi (ueContexts m)\<rparr>
      | None \<Rightarrow> m)"

definition modifyUe ::
  "string \<Rightarrow> (UeContext \<Rightarrow> UeContext) \<Rightarrow> UeContextManager \<Rightarrow> UeContextManager" where
  "modifyUe supi f m =
     (case getUeContext m supi of
        Some c \<Rightarrow> m\<lparr>ueContexts := mput supi (f c) (ueContexts m)\<rparr>
      | None \<Rightarrow> m)"

definition getAllUeContexts :: "UeContextManager \<Rightarrow> UeContext list" where
  "getAllUeContexts m = map snd (ueContexts m)"

definition getUeContextsBySlice :: "UeContextManager \<Rightarrow> NetworkSlice \<Rightarrow> UeContext list" where
  "getUeContextsBySlice m sl =
     filter (\<lambda>c. list_ex (\<lambda>s. ns_sst s = ns_sst sl \<and> ns_sd s = ns_sd sl)
                   (sub_subscribedSlices (ue_subscriptionInfo c)))
       (map snd (ueContexts m))"

definition getUeContextsByLocation :: "UeContextManager \<Rightarrow> string \<Rightarrow> UeContext list" where
  "getUeContextsByLocation m t =
     filter (\<lambda>c. loc_tai (ue_locationInfo c) = t) (map snd (ueContexts m))"

definition getRegisteredUeCount :: "UeContextManager \<Rightarrow> nat" where
  "getRegisteredUeCount m =
     length (filter (\<lambda>(_, c). ue_registrationState c \<noteq> ''DEREGISTERED'') (ueContexts m))"

definition getConnectedUeCount :: "UeContextManager \<Rightarrow> nat" where
  "getConnectedUeCount m = length (filter (\<lambda>(_, c). isConnected c) (ueContexts m))"

definition getActiveSessionCount :: "UeContextManager \<Rightarrow> nat" where
  "getActiveSessionCount m =
     foldl (\<lambda>n (_, c). n + length (getActivePduSessions c)) 0 (ueContexts m)"

definition is_stale :: "time_point \<Rightarrow> int \<Rightarrow> UeContext \<Rightarrow> bool" where
  "is_stale now thr c \<longleftrightarrow>
     thr < to_minutes (now - ue_lastActivity c) \<and> ue_registrationState c = ''DEREGISTERED''"

text \<open>The iterator loop of \<open>cleanupInactiveContexts\<close>: entries kept and the GUTI map left.\<close>

fun cleanup_loop ::
  "time_point \<Rightarrow> int \<Rightarrow> UeContext smap \<Rightarrow> string smap \<Rightarrow> UeContext smap \<times> string smap" where
  "cleanup_loop now thr [] g = ([], g)"
| "cleanup_loop now thr ((k, c) # m) g =
     (if is_stale now thr c
      then cleanup_loop now thr m (erase_guti (id_guti (ue_identifiers c)) g)
      else (case cleanup_loop now thr m g of (m', g') \<Rightarrow> ((k, c) # m', g')))"

definition cleanupInactiveContexts :: "env \<Rightarrow> int \<Rightarrow> UeContextManager \<Rightarrow> UeContextManager" where
  "cleanupInactiveContexts e thr m =
     (case cleanup_loop (env_now e) thr (ueContexts m) (gutiToSupi m) of
        (cs, g) \<Rightarrow> m\<lparr>ueContexts := cs, gutiToSupi := g\<rparr>)"

section \<open>PDU sessions of a context\<close>

lemmas context_update_defs =
  updateLastActivity_def setIdentifiers_def setRegistrationState_def setConnectionState_def
  setRanNodeId_def setTai_def updateLocation_def updateSecurityContext_def addPduSession_def
  removePduSession_def updateAccessInfo_def updateMobilityInfo_def updateSubscriptionInfo_def

definition sessions_ok :: "UeContext \<Rightarrow> bool" where
  "sessions_ok c = distinct (map pdu_sessionId (ue_pduSessions c))"

datatype session_op = AddSession PduSession | RemoveSession int

fun session_step :: "env \<Rightarrow> UeContext \<Rightarrow> session_op \<Rightarrow> UeContext" where
  "session_step e c (AddSession s) = addPduSession e s c"
| "session_step e c (RemoveSession i) = removePduSession e i c"

fun session_spec :: "(int \<rightharpoonup> PduSession) \<Rightarrow> session_op \<Rightarrow> (int \<rightharpoonup> PduSession)" where
  "session_spec f (AddSession s) = f(pdu_sessionId s \<mapsto> s)"
| "session_spec f (RemoveSession i) = f(i := None)"

lemma find_session_None: "find_session i ss = None \<longleftrightarrow> i \<notin> pdu_sessionId ` set ss"
  by (induction ss) auto

lemma find_session_id: "find_session i ss = Some s \<Longrightarrow> pdu_sessionId s = i \<and> s \<in> set ss"
  by (induction ss) (auto split: if_splits)

lemma find_session_snoc:
  "find_session i (ss @ [s]) =
     (case find_session i ss of Some t \<Rightarrow> Some t | None \<Rightarrow> if pdu_sessionId s = i then Some s else None)"
  by (induction ss) auto

lemma find_session_replace:
  "find_session (pdu_sessionId s) ss \<noteq> None \<Longrightarrow>
     find_session i (replace_session s ss) = (if i = pdu_sessionId s then Some s else find_session i ss)"
  by (induction ss) auto

lemma find_session_filter:
  "find_session j (filter (\<lambda>s. pdu_sessionId s \<noteq> i) ss) = (if j = i then None else find_session j ss)"
  by (induction ss) auto

lemma replace_session_ids: "map pdu_sessionId (replace_session s ss) = map pdu_sessionId ss"
  by (induction ss) auto

lemma getPduSession_add:
  "getPduSession (addPduSession e s c) = (getPduSession c)(pdu_sessionId s \<mapsto> s)"
  by (auto simp: getPduSession_def context_update_defs fun_eq_iff find_session_replace
      find_session_snoc split: option.splits)

lemma getPduSession_remove: "getPduSession (removePduSession e i c) = (getPduSession c)(i := None)"
  by (auto simp: getPduSession_def context_update_defs fun_eq_iff find_session_filter)

lemma sessions_ok_add: "sessions_ok c \<Longrightarrow> sessions_ok (addPduSession e s c)"
  by (auto simp: sessions_ok_def context_update_defs replace_session_ids find_session_None
      split: option.splits)

lemma sessions_ok_remove: "sessions_ok c \<Longrightarrow> sessions_ok (removePduSession e i c)"
  by (simp add: sessions_ok_def context_update_defs distinct_map_filter)

lemma sessions_ok_new [simp]: "sessions_ok (UeContext_new e supi)"
  by (simp add: sessions_ok_def UeContext_new_def)

lemma sessions_ok_step: "sessions_ok c \<Longrightarrow> sessions_ok (session_step e c op)"
  by (cases op) (simp_all add: sessions_ok_add sessions_ok_remove)

interpretation ses: simulation "session_step e" sessions_ok getPduSession session_spec for e
proof
  fix c op
  show "sessions_ok c \<Longrightarrow> sessions_ok (session_step e c op)" by (rule sessions_ok_step)
  show "getPduSession (session_step e c op) = session_spec (getPduSession c) op"
    by (cases op) (simp_all add: getPduSession_add getPduSession_remove)
qed

text \<open>
  C18. The session vector of a UE context behaves as a finite map from session identifiers to
  sessions: after any sequence of \<open>addPduSession\<close> and \<open>removePduSession\<close> calls on a new context,
  \<open>getPduSession\<close> returns what the same sequence of map updates and deletions gives, and no two
  sessions of the vector share an identifier.
\<close>

theorem pdu_sessions_refine_map:
  "getPduSession (foldl (session_step e) (UeContext_new e supi) ops) = foldl session_spec Map.empty ops
   \<and> sessions_ok (foldl (session_step e) (UeContext_new e supi) ops)"
proof -
  have "getPduSession (UeContext_new e supi) = Map.empty"
    by (simp add: getPduSession_def UeContext_new_def fun_eq_iff)
  then show ?thesis
    using ses.run_sim [OF sessions_ok_new [of e supi], where e = e and es = ops]
      ses.run_inv [OF sessions_ok_new [of e supi], where e = e and es = ops]
    by simp
qed

section \<open>The context store\<close>

locale context_store =
  fixes get :: "'m \<Rightarrow> 'k \<Rightarrow> 'c option"
    and create :: "'k \<Rightarrow> 'm \<Rightarrow> 'm"
    and modify :: "'k \<Rightarrow> ('c \<Rightarrow> 'c) \<Rightarrow> 'm \<Rightarrow> 'm"
    and remove :: "'k \<Rightarrow> 'm \<Rightarrow> 'm"
    and fresh :: "'k \<Rightarrow> 'c"
  assumes get_create: "get (create k m) = (get m)(k \<mapsto> fresh k)"
    and get_modify: "get (modify k f m) = (get m)(k := map_option f (get m k))"
    and get_remove: "get (remove k m) = (get m)(k := None)"
begin

lemma get_modify_same: "get (modify k f m) k = map_option f (get m k)"
  by (simp add: get_modify)

lemma get_modify_other: "k \<noteq> k' \<Longrightarrow> get (modify k f m) k' = get m k'"
  by (simp add: get_modify)

lemma modify_absent: "get m k = None \<Longrightarrow> get (modify k f m) = get m"
  by (simp add: get_modify fun_eq_iff)

lemma get_modify_modify: "get (modify k g (modify k f m)) = get (modify k (g \<circ> f) m)"
  by (simp add: get_modify fun_eq_iff option.map_comp)

text \<open>Obtain the context or create it, then change it: the pattern of the registration handler.\<close>

lemma get_ensure_modify:
  "get (modify k f (if get m k = None then create k m else m)) =
     (get m)(k \<mapsto> f (case get m k of None \<Rightarrow> fresh k | Some c \<Rightarrow> c))"
  by (auto simp: get_modify get_create fun_eq_iff split: option.splits)

end

lemma getUeContext_create: "getUeContext (createUeContext e k m) = (getUeContext m)(k \<mapsto> UeContext_new e k)"
  by (simp add: getUeContext_def createUeContext_def cpp_lib fun_eq_iff)

lemma getUeContext_modify: "getUeContext (modifyUe k f m) = (getUeContext m)(k := map_option f (getUeContext m k))"
  by (auto simp: getUeContext_def modifyUe_def cpp_lib fun_eq_iff split: option.splits)

lemma getUeContext_remove: "getUeContext (removeUeContext k m) = (getUeContext m)(k := None)"
  by (auto simp: getUeContext_def removeUeContext_def cpp_lib fun_eq_iff split: option.splits)

interpretation ues: context_store getUeContext "createUeContext e" modifyUe removeUeContext "UeContext_new e" for e
  by unfold_locales (rule getUeContext_create getUeContext_modify getUeContext_remove)+

declare ues.get_create [store_simps] ues.get_modify [store_simps] ues.get_remove [store_simps]

section \<open>Invariant of the manager\<close>

definition mgr_ok :: "UeContextManager \<Rightarrow> bool" where
  "mgr_ok m \<longleftrightarrow> msorted (ueContexts m) \<and> (\<forall>(k, c) \<in> set (ueContexts m). sessions_ok c)"

lemma mgr_ok_init [simp]: "mgr_ok UeContextManager_init"
  by (simp add: mgr_ok_def UeContextManager_init_def)

lemma mgr_ok_put:
  "mgr_ok m \<Longrightarrow> sessions_ok c \<Longrightarrow> mgr_ok (m\<lparr>ueContexts := mput k c (ueContexts m)\<rparr>)"
  using set_mput_subset [of k c "ueContexts m"] by (auto simp: mgr_ok_def msorted_mput)

lemma mgr_ok_create: "mgr_ok m \<Longrightarrow> mgr_ok (createUeContext e k m)"
  by (simp add: createUeContext_def mgr_ok_put)

lemma mgr_ok_modify:
  assumes "mgr_ok m" and "\<And>c. sessions_ok c \<Longrightarrow> sessions_ok (f c)"
  shows "mgr_ok (modifyUe k f m)"
proof (cases "getUeContext m k")
  case None
  with assms show ?thesis by (simp add: modifyUe_def)
next
  case (Some c)
  then have "(k, c) \<in> set (ueContexts m)" by (auto simp: getUeContext_def dest: map_of_SomeD)
  with assms have "sessions_ok (f c)" by (auto simp: mgr_ok_def)
  with Some assms(1) show ?thesis by (simp add: modifyUe_def mgr_ok_put)
qed

lemma mgr_ok_remove: "mgr_ok m \<Longrightarrow> mgr_ok (removeUeContext k m)"
  by (auto simp: mgr_ok_def removeUeContext_def msorted_merase split: option.splits)
     (auto simp: merase_def)

lemma cleanup_loop_fst: "fst (cleanup_loop now thr m g) = filter (\<lambda>(k, c). \<not> is_stale now thr c) m"
  by (induction now thr m g rule: cleanup_loop.induct) (auto split: prod.splits)

lemma ueContexts_cleanup:
  "ueContexts (cleanupInactiveContexts e thr m) = filter (\<lambda>(k, c). \<not> is_stale (env_now e) thr c) (ueContexts m)"
  using cleanup_loop_fst [of "env_now e" thr "ueContexts m" "gutiToSupi m"]
  by (auto simp: cleanupInactiveContexts_def split: prod.splits)

lemma mgr_ok_cleanup: "mgr_ok m \<Longrightarrow> mgr_ok (cleanupInactiveContexts e thr m)"
  by (auto simp: mgr_ok_def ueContexts_cleanup msorted_filter)

lemma map_of_filter_distinct:
  "distinct (map fst m) \<Longrightarrow>
     map_of (filter (\<lambda>(k, v). P v) m) k = (case map_of m k of Some v \<Rightarrow> if P v then Some v else None | None \<Rightarrow> None)"
  by (induction m) (auto simp: map_of_eq_None_iff rev_image_eqI split: option.splits)


lemma getUeContext_cleanup:
  "mgr_ok m \<Longrightarrow> getUeContext (cleanupInactiveContexts e thr m) k =
     (case getUeContext m k of Some c \<Rightarrow> if is_stale (env_now e) thr c then None else Some c | None \<Rightarrow> None)"
  by (auto simp: getUeContext_def ueContexts_cleanup mgr_ok_def msorted_distinct
      map_of_filter_distinct [where P = "\<lambda>c. \<not> is_stale (env_now e) thr c"] split: option.splits)

lemma registered_not_stale: "ue_registrationState c \<noteq> ''DEREGISTERED'' \<Longrightarrow> \<not> is_stale now thr c"
  by (simp add: is_stale_def)

text \<open>
  \<open>cleanupInactiveContexts\<close> removes exactly the contexts that are deregistered and have been
  inactive for more than the threshold: any other context is found unchanged afterwards, the
  manager's invariant is kept, and the number of registered UEs does not change.
\<close>

theorem cleanup_exact:
  assumes "mgr_ok m"
  shows "getUeContext (cleanupInactiveContexts e thr m) k =
           (case getUeContext m k of
              Some c \<Rightarrow> if is_stale (env_now e) thr c then None else Some c
            | None \<Rightarrow> None)
         \<and> mgr_ok (cleanupInactiveContexts e thr m)
         \<and> getRegisteredUeCount (cleanupInactiveContexts e thr m) = getRegisteredUeCount m"
proof -
  have "filter (\<lambda>(_, c). ue_registrationState c \<noteq> ''DEREGISTERED'')
      (filter (\<lambda>(k, c). \<not> is_stale (env_now e) thr c) (ueContexts m))
      = filter (\<lambda>(_, c). ue_registrationState c \<noteq> ''DEREGISTERED'') (ueContexts m)"
    by (auto simp: filter_filter registered_not_stale intro!: filter_cong split: prod.splits)
  then show ?thesis
    using assms by (simp add: getUeContext_cleanup mgr_ok_cleanup getRegisteredUeCount_def ueContexts_cleanup)
qed

definition example_env :: env where
  "example_env = \<lparr>env_now = 7200000000000, env_resp = 0, indet_int = (\<lambda>_. 0), indet_bool = (\<lambda>_. False)\<rparr>"

definition example_mgr :: UeContextManager where
  "example_mgr = modifyUe ''imsi-2'' (setRegistrationState ''REGISTERED'')
     (createUeContext (example_env\<lparr>env_now := 0\<rparr>) ''imsi-2''
       (createUeContext (example_env\<lparr>env_now := 0\<rparr>) ''imsi-1'' UeContextManager_init))"

lemma mgr_ok_example: "mgr_ok example_mgr"
  unfolding example_mgr_def
  by (intro mgr_ok_modify mgr_ok_create mgr_ok_init) (simp add: sessions_ok_def setRegistrationState_def)

theorem cleanup_exact_witness:
  "mgr_ok example_mgr \<and> getUeContext example_mgr ''imsi-1'' \<noteq> None
   \<and> getUeContext (cleanupInactiveContexts example_env 30 example_mgr) ''imsi-1'' = None
   \<and> getUeContext (cleanupInactiveContexts example_env 30 example_mgr) ''imsi-2'' =
       getUeContext example_mgr ''imsi-2''"
  using cleanup_exact [OF mgr_ok_example, of example_env 30 "''imsi-1''"]
    cleanup_exact [OF mgr_ok_example, of example_env 30 "''imsi-2''"] mgr_ok_example
  by (simp add: example_mgr_def example_env_def store_simps is_stale_def to_minutes_def
      UeContext_new_def setRegistrationState_def)

text \<open>
  Looking a UE up by its GUTI never yields a context: for an unknown GUTI the method returns
  null, and for a known one it calls \<open>getUeContext\<close> while it holds the non-recursive
  \<open>contextMutex_\<close>, so the thread blocks on itself.
\<close>

theorem guti_lookup_deadlocks:
  "getUeContextByGuti m guti =
     (if map_of (gutiToSupi m) guti = None then Inr None else Inl Deadlock)"
  by (simp add: getUeContextByGuti_def getUeContext_locked_def split: option.splits)

end
