(* ===== verification/N1N2_Interface.thy ===== *)
theory N1N2_Interface
  imports CppString
begin

text \<open>
  The N1 (AMF to UE) and N2 (AMF to gNB) interface manager
  (\<open>5gc/amf/include/N1N2Interface.h\<close>, \<open>5gc/amf/src/N1N2Interface.cpp\<close>).

  The message type enumerations keep the constructors and the order of the source; the order
  is the key order of the callback maps. A registered callback is a number; calling it is
  recorded in the fields \<open>n1Invoked\<close> and \<open>n2Invoked\<close>. Console output is left out.
\<close>

section \<open>Message types\<close>

datatype N1MessageType =
    REGISTRATION_REQUEST | REGISTRATION_ACCEPT | REGISTRATION_REJECT
  | REGISTRATION_COMPLETE | DEREGISTRATION_REQUEST_UE_ORIG | DEREGISTRATION_REQUEST_UE_TERM
  | DEREGISTRATION_ACCEPT_UE_ORIG | DEREGISTRATION_ACCEPT_UE_TERM | SERVICE_REQUEST
  | SERVICE_ACCEPT | SERVICE_REJECT | AUTHENTICATION_REQUEST
  | AUTHENTICATION_RESPONSE | AUTHENTICATION_RESULT | AUTHENTICATION_FAILURE
  | AUTHENTICATION_REJECT | SECURITY_MODE_COMMAND | SECURITY_MODE_COMPLETE
  | SECURITY_MODE_REJECT | IDENTITY_REQUEST | IDENTITY_RESPONSE
  | CONFIGURATION_UPDATE_COMMAND | CONFIGURATION_UPDATE_COMPLETE | DL_NAS_TRANSPORT
  | UL_NAS_TRANSPORT

datatype N2MessageType =
    INITIAL_CONTEXT_SETUP_REQUEST | INITIAL_CONTEXT_SETUP_RESPONSE | INITIAL_CONTEXT_SETUP_FAILURE
  | UE_CONTEXT_RELEASE_COMMAND | UE_CONTEXT_RELEASE_COMPLETE | UE_CONTEXT_RELEASE_REQUEST
  | UE_CONTEXT_MODIFICATION_REQUEST | UE_CONTEXT_MODIFICATION_RESPONSE | UE_CONTEXT_MODIFICATION_FAILURE
  | HANDOVER_REQUIRED | HANDOVER_REQUEST | HANDOVER_REQUEST_ACKNOWLEDGE
  | HANDOVER_FAILURE | HANDOVER_NOTIFY | HANDOVER_CANCEL
  | PAGING | PATH_SWITCH_REQUEST | PATH_SWITCH_REQUEST_ACKNOWLEDGE
  | PATH_SWITCH_REQUEST_FAILURE | ERROR_INDICATION | NG_RESET
  | NG_RESET_ACKNOWLEDGE | NG_SETUP_REQUEST | NG_SETUP_RESPONSE
  | NG_SETUP_FAILURE | AMF_CONFIGURATION_UPDATE | AMF_CONFIGURATION_UPDATE_ACKNOWLEDGE
  | AMF_CONFIGURATION_UPDATE_FAILURE | RAN_CONFIGURATION_UPDATE | RAN_CONFIGURATION_UPDATE_ACKNOWLEDGE
  | RAN_CONFIGURATION_UPDATE_FAILURE

text \<open>\<open>static_cast<int>(type)\<close>: the position in the enumeration.\<close>

definition n1_index :: "N1MessageType \<Rightarrow> nat" where
  "n1_index t = (case t of
        N1MessageType.REGISTRATION_REQUEST \<Rightarrow> 0 | N1MessageType.REGISTRATION_ACCEPT \<Rightarrow> 1 | N1MessageType.REGISTRATION_REJECT \<Rightarrow> 2
      | N1MessageType.REGISTRATION_COMPLETE \<Rightarrow> 3 | N1MessageType.DEREGISTRATION_REQUEST_UE_ORIG \<Rightarrow> 4 | N1MessageType.DEREGISTRATION_REQUEST_UE_TERM \<Rightarrow> 5
      | N1MessageType.DEREGISTRATION_ACCEPT_UE_ORIG \<Rightarrow> 6 | N1MessageType.DEREGISTRATION_ACCEPT_UE_TERM \<Rightarrow> 7 | N1MessageType.SERVICE_REQUEST \<Rightarrow> 8
      | N1MessageType.SERVICE_ACCEPT \<Rightarrow> 9 | N1MessageType.SERVICE_REJECT \<Rightarrow> 10 | N1MessageType.AUTHENTICATION_REQUEST \<Rightarrow> 11
      | N1MessageType.AUTHENTICATION_RESPONSE \<Rightarrow> 12 | N1MessageType.AUTHENTICATION_RESULT \<Rightarrow> 13 | N1MessageType.AUTHENTICATION_FAILURE \<Rightarrow> 14
      | N1MessageType.AUTHENTICATION_REJECT \<Rightarrow> 15 | N1MessageType.SECURITY_MODE_COMMAND \<Rightarrow> 16 | N1MessageType.SECURITY_MODE_COMPLETE \<Rightarrow> 17
      | N1MessageType.SECURITY_MODE_REJECT \<Rightarrow> 18 | N1MessageType.IDENTITY_REQUEST \<Rightarrow> 19 | N1MessageType.IDENTITY_RESPONSE \<Rightarrow> 20
      | N1MessageType.CONFIGURATION_UPDATE_COMMAND \<Rightarrow> 21 | N1MessageType.CONFIGURATION_UPDATE_COMPLETE \<Rightarrow> 22 | N1MessageType.DL_NAS_TRANSPORT \<Rightarrow> 23
      | N1MessageType.UL_NAS_TRANSPORT \<Rightarrow> 24)"

definition all_n1 :: "N1MessageType list" where
  "all_n1 =
    [N1MessageType.REGISTRATION_REQUEST, N1MessageType.REGISTRATION_ACCEPT, N1MessageType.REGISTRATION_REJECT,
     N1MessageType.REGISTRATION_COMPLETE, N1MessageType.DEREGISTRATION_REQUEST_UE_ORIG, N1MessageType.DEREGISTRATION_REQUEST_UE_TERM,
     N1MessageType.DEREGISTRATION_ACCEPT_UE_ORIG, N1MessageType.DEREGISTRATION_ACCEPT_UE_TERM, N1MessageType.SERVICE_REQUEST,
     N1MessageType.SERVICE_ACCEPT, N1MessageType.SERVICE_REJECT, N1MessageType.AUTHENTICATION_REQUEST,
     N1MessageType.AUTHENTICATION_RESPONSE, N1MessageType.AUTHENTICATION_RESULT, N1MessageType.AUTHENTICATION_FAILURE,
     N1MessageType.AUTHENTICATION_REJECT, N1MessageType.SECURITY_MODE_COMMAND, N1MessageType.SECURITY_MODE_COMPLETE,
     N1MessageType.SECURITY_MODE_REJECT, N1MessageType.IDENTITY_REQUEST, N1MessageType.IDENTITY_RESPONSE,
     N1MessageType.CONFIGURATION_UPDATE_COMMAND, N1MessageType.CONFIGURATION_UPDATE_COMPLETE, N1MessageType.DL_NAS_TRANSPORT,
     N1MessageType.UL_NAS_TRANSPORT]"

lemma all_n1_nth [simp]: "all_n1 ! n1_index t = t"
  by (cases t) (simp_all add: all_n1_def n1_index_def)

lemma n1_index_inject [simp]: "n1_index s = n1_index t \<longleftrightarrow> s = t"
  by (metis all_n1_nth)

instantiation N1MessageType :: linorder
begin

definition less_eq_N1MessageType :: "N1MessageType \<Rightarrow> N1MessageType \<Rightarrow> bool" where
  "less_eq_N1MessageType s t \<longleftrightarrow> n1_index s \<le> n1_index t"

definition less_N1MessageType :: "N1MessageType \<Rightarrow> N1MessageType \<Rightarrow> bool" where
  "less_N1MessageType s t \<longleftrightarrow> n1_index s < n1_index t"

instance
  by intro_classes (auto simp: less_eq_N1MessageType_def less_N1MessageType_def)

end

definition n2_index :: "N2MessageType \<Rightarrow> nat" where
  "n2_index t = (case t of
        N2MessageType.INITIAL_CONTEXT_SETUP_REQUEST \<Rightarrow> 0 | N2MessageType.INITIAL_CONTEXT_SETUP_RESPONSE \<Rightarrow> 1 | N2MessageType.INITIAL_CONTEXT_SETUP_FAILURE \<Rightarrow> 2
      | N2MessageType.UE_CONTEXT_RELEASE_COMMAND \<Rightarrow> 3 | N2MessageType.UE_CONTEXT_RELEASE_COMPLETE \<Rightarrow> 4 | N2MessageType.UE_CONTEXT_RELEASE_REQUEST \<Rightarrow> 5
      | N2MessageType.UE_CONTEXT_MODIFICATION_REQUEST \<Rightarrow> 6 | N2MessageType.UE_CONTEXT_MODIFICATION_RESPONSE \<Rightarrow> 7 | N2MessageType.UE_CONTEXT_MODIFICATION_FAILURE \<Rightarrow> 8
      | N2MessageType.HANDOVER_REQUIRED \<Rightarrow> 9 | N2MessageType.HANDOVER_REQUEST \<Rightarrow> 10 | N2MessageType.HANDOVER_REQUEST_ACKNOWLEDGE \<Rightarrow> 11
      | N2MessageType.HANDOVER_FAILURE \<Rightarrow> 12 | N2MessageType.HANDOVER_NOTIFY \<Rightarrow> 13 | N2MessageType.HANDOVER_CANCEL \<Rightarrow> 14
      | N2MessageType.PAGING \<Rightarrow> 15 | N2MessageType.PATH_SWITCH_REQUEST \<Rightarrow> 16 | N2MessageType.PATH_SWITCH_REQUEST_ACKNOWLEDGE \<Rightarrow> 17
      | N2MessageType.PATH_SWITCH_REQUEST_FAILURE \<Rightarrow> 18 | N2MessageType.ERROR_INDICATION \<Rightarrow> 19 | N2MessageType.NG_RESET \<Rightarrow> 20
      | N2MessageType.NG_RESET_ACKNOWLEDGE \<Rightarrow> 21 | N2MessageType.NG_SETUP_REQUEST \<Rightarrow> 22 | N2MessageType.NG_SETUP_RESPONSE \<Rightarrow> 23
      | N2MessageType.NG_SETUP_FAILURE \<Rightarrow> 24 | N2MessageType.AMF_CONFIGURATION_UPDATE \<Rightarrow> 25 | N2MessageType.AMF_CONFIGURATION_UPDATE_ACKNOWLEDGE \<Rightarrow> 26
      | N2MessageType.AMF_CONFIGURATION_UPDATE_FAILURE \<Rightarrow> 27 | N2MessageType.RAN_CONFIGURATION_UPDATE \<Rightarrow> 28 | N2MessageType.RAN_CONFIGURATION_UPDATE_ACKNOWLEDGE \<Rightarrow> 29
      | N2MessageType.RAN_CONFIGURATION_UPDATE_FAILURE \<Rightarrow> 30)"

definition all_n2 :: "N2MessageType list" where
  "all_n2 =
    [N2MessageType.INITIAL_CONTEXT_SETUP_REQUEST, N2MessageType.INITIAL_CONTEXT_SETUP_RESPONSE, N2MessageType.INITIAL_CONTEXT_SETUP_FAILURE,
     N2MessageType.UE_CONTEXT_RELEASE_COMMAND, N2MessageType.UE_CONTEXT_RELEASE_COMPLETE, N2MessageType.UE_CONTEXT_RELEASE_REQUEST,
     N2MessageType.UE_CONTEXT_MODIFICATION_REQUEST, N2MessageType.UE_CONTEXT_MODIFICATION_RESPONSE, N2MessageType.UE_CONTEXT_MODIFICATION_FAILURE,
     N2MessageType.HANDOVER_REQUIRED, N2MessageType.HANDOVER_REQUEST, N2MessageType.HANDOVER_REQUEST_ACKNOWLEDGE,
     N2MessageType.HANDOVER_FAILURE, N2MessageType.HANDOVER_NOTIFY, N2MessageType.HANDOVER_CANCEL,
     N2MessageType.PAGING, N2MessageType.PATH_SWITCH_REQUEST, N2MessageType.PATH_SWITCH_REQUEST_ACKNOWLEDGE,
     N2MessageType.PATH_SWITCH_REQUEST_FAILURE, N2MessageType.ERROR_INDICATION, N2MessageType.NG_RESET,
     N2MessageType.NG_RESET_ACKNOWLEDGE, N2MessageType.NG_SETUP_REQUEST, N2MessageType.NG_SETUP_RESPONSE,
     N2MessageType.NG_SETUP_FAILURE, N2MessageType.AMF_CONFIGURATION_UPDATE, N2MessageType.AMF_CONFIGURATION_UPDATE_ACKNOWLEDGE,
     N2MessageType.AMF_CONFIGURATION_UPDATE_FAILURE, N2MessageType.RAN_CONFIGURATION_UPDATE, N2MessageType.RAN_CONFIGURATION_UPDATE_ACKNOWLEDGE,
     N2MessageType.RAN_CONFIGURATION_UPDATE_FAILURE]"

lemma all_n2_nth [simp]: "all_n2 ! n2_index t = t"
  by (cases t) (simp_all add: all_n2_def n2_index_def)

lemma n2_index_inject [simp]: "n2_index s = n2_index t \<longleftrightarrow> s = t"
  by (metis all_n2_nth)

instantiation N2MessageType :: linorder
begin

definition less_eq_N2MessageType :: "N2MessageType \<Rightarrow> N2MessageType \<Rightarrow> bool" where
  "less_eq_N2MessageType s t \<longleftrightarrow> n2_index s \<le> n2_index t"

definition less_N2MessageType :: "N2MessageType \<Rightarrow> N2MessageType \<Rightarrow> bool" where
  "less_N2MessageType s t \<longleftrightarrow> n2_index s < n2_index t"

instance
  by intro_classes (auto simp: less_eq_N2MessageType_def less_N2MessageType_def)

end

section \<open>Messages\<close>

record N1Message =
  n1_messageType :: N1MessageType
  n1_ueId :: string
  n1_nasMessageContainer :: string
  n1_ieList :: "string smap"
  n1_timestamp :: time_point

record N2Message =
  n2_messageType :: N2MessageType
  n2_ranNodeId :: string
  n2_ueNgapId :: string
  n2_amfUeNgapId :: string
  n2_ngapContainer :: string
  n2_ieList :: "string smap"
  n2_timestamp :: time_point

definition ie_text :: "string smap \<Rightarrow> string" where
  "ie_text ies = concat (map (\<lambda>(k, v). '','' @ k @ '':'' @ v) ies)"

definition N1Message_toString :: "N1Message \<Rightarrow> string" where
  "N1Message_toString m =
     ''N1Message{type:'' @ nat_dec (n1_index (n1_messageType m)) @ '',ue_id:'' @ n1_ueId m @
     ie_text (n1_ieList m) @
     '',payload_size:'' @ nat_dec (length (n1_nasMessageContainer m)) @ ''}''"

definition N2Message_toString :: "N2Message \<Rightarrow> string" where
  "N2Message_toString m =
     ''N2Message{type:'' @ nat_dec (n2_index (n2_messageType m)) @
     '',ran_node_id:'' @ n2_ranNodeId m @ '',ue_ngap_id:'' @ n2_ueNgapId m @
     '',amf_ue_ngap_id:'' @ n2_amfUeNgapId m @
     ie_text (n2_ieList m) @
     '',payload_size:'' @ nat_dec (length (n2_ngapContainer m)) @ ''}''"

section \<open>The interface manager\<close>

record N1N2InterfaceManager =
  connectedRanNodes :: "bool smap"
  n1MessageCount :: nat
  n2MessageCount :: nat
  serviceRunning :: bool
  bindAddress :: string
  n2Port :: int
  n1Callbacks :: "(N1MessageType \<times> nat) list"
  n2Callbacks :: "(N2MessageType \<times> nat) list"
  n1Invoked :: "(nat \<times> N1Message) list"
  n2Invoked :: "(nat \<times> N2Message) list"

text \<open>The instance is a function-local static, so \<open>n2Port_\<close> starts zero-initialised.\<close>

definition N1N2InterfaceManager_init :: N1N2InterfaceManager where
  "N1N2InterfaceManager_init = \<lparr>connectedRanNodes = [], n1MessageCount = 0, n2MessageCount = 0,
     serviceRunning = False, bindAddress = [], n2Port = 0,
     n1Callbacks = [], n2Callbacks = [], n1Invoked = [], n2Invoked = []\<rparr>"

definition registerN1Callback :: "N1MessageType \<Rightarrow> nat \<Rightarrow> N1N2InterfaceManager \<Rightarrow> N1N2InterfaceManager" where
  "registerN1Callback t cb m = m\<lparr>n1Callbacks := mput t cb (n1Callbacks m)\<rparr>"

definition registerN2Callback :: "N2MessageType \<Rightarrow> nat \<Rightarrow> N1N2InterfaceManager \<Rightarrow> N1N2InterfaceManager" where
  "registerN2Callback t cb m = m\<lparr>n2Callbacks := mput t cb (n2Callbacks m)\<rparr>"

definition startN1N2Service :: "string \<Rightarrow> int \<Rightarrow> N1N2InterfaceManager \<Rightarrow> bool \<times> N1N2InterfaceManager" where
  "startN1N2Service addr port m =
     (if serviceRunning m then (True, m)
      else (True, m\<lparr>bindAddress := addr, n2Port := port, serviceRunning := True\<rparr>))"

definition stopN1N2Service :: "N1N2InterfaceManager \<Rightarrow> N1N2InterfaceManager" where
  "stopN1N2Service m = (if \<not> serviceRunning m then m else m\<lparr>serviceRunning := False\<rparr>)"

definition mgr_sendN1Message :: "N1Message \<Rightarrow> N1N2InterfaceManager \<Rightarrow> bool \<times> N1N2InterfaceManager" where
  "mgr_sendN1Message msg m =
     (if \<not> serviceRunning m then (False, m)
      else (True, m\<lparr>n1MessageCount := n1MessageCount m + 1\<rparr>))"

definition mgr_sendN2Message :: "N2Message \<Rightarrow> N1N2InterfaceManager \<Rightarrow> bool \<times> N1N2InterfaceManager" where
  "mgr_sendN2Message msg m =
     (if \<not> serviceRunning m then (False, m)
      else (True, m\<lparr>n2MessageCount := n2MessageCount m + 1\<rparr>))"

definition mgr_handleN1Message :: "N1Message \<Rightarrow> N1N2InterfaceManager \<Rightarrow> N1N2InterfaceManager" where
  "mgr_handleN1Message msg m =
     (case map_of (n1Callbacks m) (n1_messageType msg) of
        Some cb \<Rightarrow> m\<lparr>n1Invoked := n1Invoked m @ [(cb, msg)]\<rparr>
      | None \<Rightarrow> m)"

definition mgr_handleN2Message :: "N2Message \<Rightarrow> N1N2InterfaceManager \<Rightarrow> N1N2InterfaceManager" where
  "mgr_handleN2Message msg m =
     (case map_of (n2Callbacks m) (n2_messageType msg) of
        Some cb \<Rightarrow> m\<lparr>n2Invoked := n2Invoked m @ [(cb, msg)]\<rparr>
      | None \<Rightarrow> m)"

definition isRanNodeConnected :: "N1N2InterfaceManager \<Rightarrow> string \<Rightarrow> bool" where
  "isRanNodeConnected m r = (map_of (connectedRanNodes m) r = Some True)"

definition getConnectedRanNodes :: "N1N2InterfaceManager \<Rightarrow> string list" where
  "getConnectedRanNodes m = map fst (filter snd (connectedRanNodes m))"

section \<open>Names of message types\<close>

definition n1MessageTypeToString :: "N1MessageType \<Rightarrow> string" where
  "n1MessageTypeToString t = (case t of
       N1MessageType.REGISTRATION_REQUEST \<Rightarrow> ''REGISTRATION_REQUEST''
     | N1MessageType.REGISTRATION_ACCEPT \<Rightarrow> ''REGISTRATION_ACCEPT''
     | N1MessageType.AUTHENTICATION_REQUEST \<Rightarrow> ''AUTHENTICATION_REQUEST''
     | N1MessageType.AUTHENTICATION_RESPONSE \<Rightarrow> ''AUTHENTICATION_RESPONSE''
     | _ \<Rightarrow> ''UNKNOWN'')"

definition n2MessageTypeToString :: "N2MessageType \<Rightarrow> string" where
  "n2MessageTypeToString t = (case t of
       N2MessageType.INITIAL_CONTEXT_SETUP_REQUEST \<Rightarrow> ''INITIAL_CONTEXT_SETUP_REQUEST''
     | N2MessageType.UE_CONTEXT_RELEASE_COMMAND \<Rightarrow> ''UE_CONTEXT_RELEASE_COMMAND''
     | N2MessageType.HANDOVER_REQUEST \<Rightarrow> ''HANDOVER_REQUEST''
     | N2MessageType.PAGING \<Rightarrow> ''PAGING''
     | _ \<Rightarrow> ''UNKNOWN'')"

definition stringToN1MessageType :: "string \<Rightarrow> N1MessageType" where
  "stringToN1MessageType s =
     (if s = ''REGISTRATION_REQUEST'' then N1MessageType.REGISTRATION_REQUEST
      else if s = ''REGISTRATION_ACCEPT'' then N1MessageType.REGISTRATION_ACCEPT
      else if s = ''AUTHENTICATION_REQUEST'' then N1MessageType.AUTHENTICATION_REQUEST
      else if s = ''AUTHENTICATION_RESPONSE'' then N1MessageType.AUTHENTICATION_RESPONSE
      else N1MessageType.REGISTRATION_REQUEST)"

definition stringToN2MessageType :: "string \<Rightarrow> N2MessageType" where
  "stringToN2MessageType s =
     (if s = ''INITIAL_CONTEXT_SETUP_REQUEST'' then N2MessageType.INITIAL_CONTEXT_SETUP_REQUEST
      else if s = ''UE_CONTEXT_RELEASE_COMMAND'' then N2MessageType.UE_CONTEXT_RELEASE_COMMAND
      else if s = ''HANDOVER_REQUEST'' then N2MessageType.HANDOVER_REQUEST
      else if s = ''PAGING'' then N2MessageType.PAGING
      else N2MessageType.INITIAL_CONTEXT_SETUP_REQUEST)"

section \<open>Sending: what the counters count\<close>

lemmas n1n2_defs [handler_defs] =
  startN1N2Service_def stopN1N2Service_def mgr_sendN1Message_def mgr_sendN2Message_def

datatype n1n2_op = Start string int | Stop | SendN1 N1Message | SendN2 N2Message

text \<open>An operation with the value it returns (\<open>stopN1N2Service\<close> returns nothing).\<close>

fun n1n2_exec :: "n1n2_op \<Rightarrow> N1N2InterfaceManager \<Rightarrow> bool \<times> N1N2InterfaceManager" where
  "n1n2_exec (Start addr port) m = startN1N2Service addr port m"
| "n1n2_exec Stop m = (True, stopN1N2Service m)"
| "n1n2_exec (SendN1 msg) m = mgr_sendN1Message msg m"
| "n1n2_exec (SendN2 msg) m = mgr_sendN2Message msg m"

fun n1n2_run :: "n1n2_op list \<Rightarrow> N1N2InterfaceManager \<Rightarrow> bool list \<times> N1N2InterfaceManager" where
  "n1n2_run [] m = ([], m)"
| "n1n2_run (op # ops) m =
     (case n1n2_exec op m of (r, m') \<Rightarrow> case n1n2_run ops m' of (rs, m'') \<Rightarrow> (r # rs, m''))"

fun is_sendN1 :: "n1n2_op \<Rightarrow> bool" where
  "is_sendN1 (SendN1 _) = True"
| "is_sendN1 _ = False"

fun is_sendN2 :: "n1n2_op \<Rightarrow> bool" where
  "is_sendN2 (SendN2 _) = True"
| "is_sendN2 _ = False"

lemma n1n2_exec_counts:
  assumes "n1n2_exec op m = (r, m')"
  shows "n1MessageCount m' = n1MessageCount m + (if is_sendN1 op \<and> r then 1 else 0)
       \<and> n2MessageCount m' = n2MessageCount m + (if is_sendN2 op \<and> r then 1 else 0)"
  using assms by (cases op) (auto simp: n1n2_defs split: if_splits)

text \<open>
  The two message counters are exact: after any sequence of starts, stops and sends, the N1
  (N2) counter has grown by the number of N1 (N2) sends that reported success, so sends made while
  the service is stopped are never counted.
\<close>

theorem n1n2_counters_exact:
  assumes "n1n2_run ops m = (rs, m')"
  shows "n1MessageCount m' = n1MessageCount m + length (filter (\<lambda>(op, r). is_sendN1 op \<and> r) (zip ops rs))
       \<and> n2MessageCount m' = n2MessageCount m + length (filter (\<lambda>(op, r). is_sendN2 op \<and> r) (zip ops rs))"
  using assms
proof (induction ops arbitrary: m rs)
  case Nil
  then show ?case by simp
next
  case (Cons op ops)
  obtain r m1 where step: "n1n2_exec op m = (r, m1)" by (cases "n1n2_exec op m")
  obtain rs' m2 where rest: "n1n2_run ops m1 = (rs', m2)" by (cases "n1n2_run ops m1")
  from Cons.prems step rest have "rs = r # rs'" and "m' = m2" by auto
  with Cons.IH [of m1 rs'] rest n1n2_exec_counts [OF step] show ?case by auto
qed

definition example_n1 :: N1Message where
  "example_n1 = \<lparr>n1_messageType = N1MessageType.REGISTRATION_ACCEPT, n1_ueId = ''imsi-1'',
     n1_nasMessageContainer = [], n1_ieList = [], n1_timestamp = 0\<rparr>"

theorem n1n2_counters_exact_witness:
  "\<exists>m. n1n2_run [SendN1 example_n1, Start ''0.0.0.0'' 38412, SendN1 example_n1] N1N2InterfaceManager_init
        = ([False, True, True], m) \<and> n1MessageCount m = 1 \<and> n2MessageCount m = 0"
proof -
  let ?m0 = N1N2InterfaceManager_init
  let ?ops = "[SendN1 example_n1, Start ''0.0.0.0'' 38412, SendN1 example_n1]"
  obtain m where m: "n1n2_run ?ops ?m0 = ([False, True, True], m)"
    by (simp add: n1n2_defs N1N2InterfaceManager_init_def)
  from n1n2_counters_exact [OF m] have "n1MessageCount m = 1 \<and> n2MessageCount m = 0"
    by (simp add: N1N2InterfaceManager_init_def)
  with m show ?thesis by blast
qed

text \<open>
  Printing a message type and reading the name back gives the type for exactly the types the
  printer names; every other type is printed as \<open>UNKNOWN\<close> and read back as the first one.
\<close>

theorem message_type_names_roundtrip:
  "stringToN1MessageType (n1MessageTypeToString t) =
     (if n1MessageTypeToString t \<noteq> ''UNKNOWN'' then t else N1MessageType.REGISTRATION_REQUEST)
   \<and> stringToN2MessageType (n2MessageTypeToString u) =
     (if n2MessageTypeToString u \<noteq> ''UNKNOWN'' then u else N2MessageType.INITIAL_CONTEXT_SETUP_REQUEST)"
proof
  show "stringToN1MessageType (n1MessageTypeToString t) =
     (if n1MessageTypeToString t \<noteq> ''UNKNOWN'' then t else N1MessageType.REGISTRATION_REQUEST)"
    by (cases t) (simp_all add: stringToN1MessageType_def n1MessageTypeToString_def)
  show "stringToN2MessageType (n2MessageTypeToString u) =
     (if n2MessageTypeToString u \<noteq> ''UNKNOWN'' then u else N2MessageType.INITIAL_CONTEXT_SETUP_REQUEST)"
    by (cases u) (simp_all add: stringToN2MessageType_def n2MessageTypeToString_def)
qed

end
