(* ===== verification/Nf_Management.thy ===== *)
theory Nf_Management
  imports CppString
begin

text \<open>
  Network function registry and the AMF's own profile
  (\<open>5gc/amf/include/NfManagement.h\<close>, \<open>5gc/amf/src/NfManagement.cpp\<close>).

  \<open>NfManager\<close> keeps the registered instances by identifier (\<open>nfInstances\<close>) and an index from
  type to identifiers (\<open>nfInstancesByType\<close>), both ordered maps. Discovery filters and sorts;
  the sorting function is an argument that satisfies the contract of \<open>std::sort\<close> (locale
  \<open>sorter\<close>). \<open>AmfNfInstance\<close> keeps the AMF's profile; its methods take \<open>instanceMutex_\<close>, and
  a method called by another one is entered with the mutex held. Starting and joining threads
  is reduced to the flags that the threads read; each operation is one atomic step that reads
  the clock once, so the window between the two critical sections of \<open>selectNfInstance\<close> is not
  modelled.
\<close>

section \<open>Data\<close>

datatype NfType =
    AMF | SMF | UPF | AUSF | UDM | UDR
  | PCF | NRF | NSSF | NEF | UNKNOWN

datatype NfStatus =
    REGISTERED | SUSPENDED | UNDISCOVERABLE | DEREGISTERED

definition nf_type_index :: "NfType \<Rightarrow> nat" where
  "nf_type_index t = (case t of
        NfType.AMF \<Rightarrow> 0 | NfType.SMF \<Rightarrow> 1 | NfType.UPF \<Rightarrow> 2
      | NfType.AUSF \<Rightarrow> 3 | NfType.UDM \<Rightarrow> 4 | NfType.UDR \<Rightarrow> 5
      | NfType.PCF \<Rightarrow> 6 | NfType.NRF \<Rightarrow> 7 | NfType.NSSF \<Rightarrow> 8
      | NfType.NEF \<Rightarrow> 9 | NfType.UNKNOWN \<Rightarrow> 10)"

definition all_nf_types :: "NfType list" where
  "all_nf_types =
    [NfType.AMF, NfType.SMF, NfType.UPF,
     NfType.AUSF, NfType.UDM, NfType.UDR,
     NfType.PCF, NfType.NRF, NfType.NSSF,
     NfType.NEF, NfType.UNKNOWN]"

lemma all_nf_types_nth [simp]: "all_nf_types ! nf_type_index t = t"
  by (cases t) (simp_all add: all_nf_types_def nf_type_index_def)

lemma nf_type_index_inject [simp]: "nf_type_index s = nf_type_index t \<longleftrightarrow> s = t"
  by (metis all_nf_types_nth)

instantiation NfType :: linorder
begin

definition less_eq_NfType :: "NfType \<Rightarrow> NfType \<Rightarrow> bool" where
  "less_eq_NfType s t \<longleftrightarrow> nf_type_index s \<le> nf_type_index t"

definition less_NfType :: "NfType \<Rightarrow> NfType \<Rightarrow> bool" where
  "less_NfType s t \<longleftrightarrow> nf_type_index s < nf_type_index t"

instance
  by intro_classes (auto simp: less_eq_NfType_def less_NfType_def)

end

text \<open>\<open>nfs_status\<close> is \<open>None\<close> while the member is uninitialised.\<close>

record NfService =
  nfs_serviceInstanceId :: string
  nfs_serviceName :: string
  nfs_versions :: "string list"
  nfs_scheme :: string
  nfs_fqdn :: string
  nfs_ipv4Address :: string
  nfs_ipv6Address :: string
  nfs_port :: int
  nfs_apiPrefix :: string
  nfs_supportedFeatures :: "string smap"
  nfs_status :: "NfStatus option"

record NfInstance =
  nf_instanceId :: string
  nf_type :: NfType
  nf_status :: NfStatus
  nf_heartBeatTimer :: string
  nf_plmnId :: string
  nf_sNssais :: "string list"
  nf_taiList :: "string list"
  nf_fqdn :: string
  nf_ipv4Address :: string
  nf_ipv6Address :: string
  nf_priority :: int
  nf_capacity :: int
  nf_load :: int
  nf_services :: "NfService list"
  nf_registrationTime :: time_point
  nf_lastHeartbeat :: time_point
  nf_customInfo :: "string smap"

record NfDiscoveryQuery =
  q_targetNfType :: NfType
  q_requesterNfType :: string
  q_requesterNfInstanceId :: string
  q_targetPlmnId :: string
  q_targetNfInstanceId :: string
  q_requesterSNssais :: "string list"
  q_targetSNssais :: "string list"
  q_dnn :: string
  q_snssai :: string
  q_serviceName :: string
  q_maxNfInstances :: int

section \<open>Operations of an instance\<close>

definition NfService_default :: "env \<Rightarrow> string \<Rightarrow> NfService" where
  "NfService_default e site = \<lparr>nfs_serviceInstanceId = [], nfs_serviceName = [], nfs_versions = [],
     nfs_scheme = [], nfs_fqdn = [], nfs_ipv4Address = [], nfs_ipv6Address = [],
     nfs_port = indet_int e (site @ ''.port''), nfs_apiPrefix = [],
     nfs_supportedFeatures = [], nfs_status = None\<rparr>"

definition NfInstance_new :: "string \<Rightarrow> NfType \<Rightarrow> NfInstance" where
  "NfInstance_new i t = \<lparr>nf_instanceId = i, nf_type = t, nf_status = REGISTERED,
     nf_heartBeatTimer = [], nf_plmnId = [], nf_sNssais = [], nf_taiList = [], nf_fqdn = [],
     nf_ipv4Address = [], nf_ipv6Address = [], nf_priority = 100, nf_capacity = 100, nf_load = 0,
     nf_services = [], nf_registrationTime = 0, nf_lastHeartbeat = 0, nf_customInfo = []\<rparr>"

definition addService :: "NfService \<Rightarrow> NfInstance \<Rightarrow> NfInstance" where
  "addService s i = i\<lparr>nf_services := nf_services i @ [s]\<rparr>"

fun erase_service :: "string \<Rightarrow> NfService list \<Rightarrow> NfService list option" where
  "erase_service n [] = None"
| "erase_service n (s # ss) =
     (if nfs_serviceName s = n then Some ss else map_option ((#) s) (erase_service n ss))"

definition removeService :: "string \<Rightarrow> NfInstance \<Rightarrow> bool \<times> NfInstance" where
  "removeService n i =
     (case erase_service n (nf_services i) of
        Some ss \<Rightarrow> (True, i\<lparr>nf_services := ss\<rparr>)
      | None \<Rightarrow> (False, i))"

definition getService :: "NfInstance \<Rightarrow> string \<Rightarrow> NfService option" where
  "getService i n = List.find (\<lambda>s. nfs_serviceName s = n) (nf_services i)"

definition NfInstance_updateLoad :: "env \<Rightarrow> int \<Rightarrow> NfInstance \<Rightarrow> NfInstance" where
  "NfInstance_updateLoad e l i =
     i\<lparr>nf_load := max 0 (min 100 l), nf_lastHeartbeat := env_now e\<rparr>"

definition isHealthy :: "env \<Rightarrow> NfInstance \<Rightarrow> bool" where
  "isHealthy e i \<longleftrightarrow> nf_status i = REGISTERED \<and> to_seconds (env_now e - nf_lastHeartbeat i) < 60"

section \<open>The registry\<close>

record NfManager =
  nfInstances :: "NfInstance smap"
  nfInstancesByType :: "(NfType \<times> string list) list"
  nfRunning :: bool

definition NfManager_init :: NfManager where
  "NfManager_init = \<lparr>nfInstances = [], nfInstancesByType = [], nfRunning = False\<rparr>"

text \<open>\<open>nfInstancesByType_[t]\<close> creates an empty vector for an absent key.\<close>

definition type_ids :: "NfManager \<Rightarrow> NfType \<Rightarrow> string list" where
  "type_ids m t = (case map_of (nfInstancesByType m) t of Some ids \<Rightarrow> ids | None \<Rightarrow> [])"

definition performHealthCheck :: "env \<Rightarrow> NfManager \<Rightarrow> NfManager" where
  "performHealthCheck e m =
     m\<lparr>nfInstances := map (\<lambda>(k, i). (k, if \<not> isHealthy e i then i\<lparr>nf_status := SUSPENDED\<rparr> else i))
        (nfInstances m)\<rparr>"

definition is_expired :: "env \<Rightarrow> NfInstance \<Rightarrow> bool" where
  "is_expired e i \<longleftrightarrow> 120 < to_seconds (env_now e - nf_lastHeartbeat i)"

definition remove_expired :: "NfManager \<Rightarrow> string \<Rightarrow> NfManager" where
  "remove_expired m k =
     (case map_of (nfInstances m) k of
        Some i \<Rightarrow>
          m\<lparr>nfInstancesByType :=
               mput (nf_type i) (filter (\<lambda>x. x \<noteq> k) (type_ids m (nf_type i))) (nfInstancesByType m),
             nfInstances := merase k (nfInstances m)\<rparr>
      | None \<Rightarrow> m)"

definition cleanupExpiredNfInstances :: "env \<Rightarrow> NfManager \<Rightarrow> NfManager" where
  "cleanupExpiredNfInstances e m =
     foldl remove_expired m
       (map (\<lambda>(_, i). nf_instanceId i) (filter (\<lambda>(_, i). is_expired e i) (nfInstances m)))"

text \<open>One pass of \<open>healthCheckLoop\<close> after its ten seconds of sleep.\<close>

definition healthCheck_pass :: "env \<Rightarrow> NfManager \<Rightarrow> NfManager" where
  "healthCheck_pass e m =
     (if \<not> nfRunning m then m else cleanupExpiredNfInstances e (performHealthCheck e m))"

definition nf_start :: "NfManager \<Rightarrow> bool \<times> NfManager" where
  "nf_start m = (if nfRunning m then (False, m) else (True, m\<lparr>nfRunning := True\<rparr>))"

definition nf_stop :: "NfManager \<Rightarrow> NfManager" where
  "nf_stop m = (if \<not> nfRunning m then m else m\<lparr>nfRunning := False\<rparr>)"

definition registerNfInstance :: "env \<Rightarrow> NfInstance \<Rightarrow> NfManager \<Rightarrow> bool \<times> NfManager" where
  "registerNfInstance e i m =
     (case map_of (nfInstances m) (nf_instanceId i) of
        Some _ \<Rightarrow> (False, m)
      | None \<Rightarrow>
          (True,
           m\<lparr>nfInstances := mput (nf_instanceId i) (i\<lparr>nf_lastHeartbeat := env_now e\<rparr>) (nfInstances m),
             nfInstancesByType :=
               mput (nf_type i) (type_ids m (nf_type i) @ [nf_instanceId i]) (nfInstancesByType m)\<rparr>))"

definition deregisterNfInstance :: "string \<Rightarrow> NfManager \<Rightarrow> bool \<times> NfManager" where
  "deregisterNfInstance k m =
     (case map_of (nfInstances m) k of
        None \<Rightarrow> (False, m)
      | Some _ \<Rightarrow> (True, m\<lparr>nfInstances := merase k (nfInstances m)\<rparr>))"

definition query_matches :: "env \<Rightarrow> NfDiscoveryQuery \<Rightarrow> NfInstance \<Rightarrow> bool" where
  "query_matches e q i \<longleftrightarrow>
     \<not> (q_targetNfType q \<noteq> UNKNOWN \<and> nf_type i \<noteq> q_targetNfType q) \<and>
     isHealthy e i \<and>
     (q_serviceName q \<noteq> [] \<longrightarrow> list_ex (\<lambda>s. nfs_serviceName s = q_serviceName q) (nf_services i))"

text \<open>The comparator given to \<open>std::sort\<close>: higher priority first, then lower load.\<close>

definition nf_before :: "NfInstance \<Rightarrow> NfInstance \<Rightarrow> bool" where
  "nf_before a b =
     (if nf_priority a \<noteq> nf_priority b then nf_priority b < nf_priority a
      else nf_load a < nf_load b)"

definition discoverNfInstances ::
  "(NfInstance list \<Rightarrow> NfInstance list) \<Rightarrow> env \<Rightarrow> NfDiscoveryQuery \<Rightarrow> NfManager \<Rightarrow> NfInstance list" where
  "discoverNfInstances srt e q m = srt (filter (query_matches e q) (map snd (nfInstances m)))"

definition updateNfStatus :: "env \<Rightarrow> string \<Rightarrow> NfStatus \<Rightarrow> NfManager \<Rightarrow> bool \<times> NfManager" where
  "updateNfStatus e k st m =
     (case map_of (nfInstances m) k of
        None \<Rightarrow> (False, m)
      | Some i \<Rightarrow>
          (True, m\<lparr>nfInstances :=
             mput k (i\<lparr>nf_status := st, nf_lastHeartbeat := env_now e\<rparr>) (nfInstances m)\<rparr>))"

definition processHeartbeat :: "env \<Rightarrow> string \<Rightarrow> NfManager \<Rightarrow> NfManager" where
  "processHeartbeat e k m =
     (case map_of (nfInstances m) k of
        None \<Rightarrow> m
      | Some i \<Rightarrow> m\<lparr>nfInstances := mput k (i\<lparr>nf_lastHeartbeat := env_now e\<rparr>) (nfInstances m)\<rparr>)"

definition empty_query :: "env \<Rightarrow> NfType \<Rightarrow> NfDiscoveryQuery" where
  "empty_query e t = \<lparr>q_targetNfType = t, q_requesterNfType = [], q_requesterNfInstanceId = [],
     q_targetPlmnId = [], q_targetNfInstanceId = [], q_requesterSNssais = [], q_targetSNssais = [],
     q_dnn = [], q_snssai = [], q_serviceName = [],
     q_maxNfInstances = indet_int e ''query.maxNfInstances''\<rparr>"

definition selectNfInstance ::
  "(NfInstance list \<Rightarrow> NfInstance list) \<Rightarrow> env \<Rightarrow> NfType \<Rightarrow> string \<Rightarrow> NfManager \<Rightarrow> NfInstance option" where
  "selectNfInstance srt e t plmnId m =
     (let q = (if plmnId \<noteq> [] then (empty_query e t)\<lparr>q_targetPlmnId := plmnId\<rparr> else empty_query e t);
          candidates = discoverNfInstances srt e q m
      in case candidates of
           [] \<Rightarrow> None
         | c # _ \<Rightarrow> map_of (nfInstances m) (nf_instanceId c))"

definition getNfStatistics :: "NfManager \<Rightarrow> (NfType \<times> nat) list" where
  "getNfStatistics m =
     foldl (\<lambda>stats (t, ids). mput t (length ids) stats) [] (nfInstancesByType m)"

section \<open>The AMF's own profile\<close>

record AmfNfInstance =
  amfInstance :: NfInstance
  nrfUri :: string
  registered :: bool
  heartbeatRunning :: bool
  heartbeatInterval :: int

text \<open>The singleton has static storage: its profile starts zero-initialised.\<close>

definition AmfNfInstance_init :: AmfNfInstance where
  "AmfNfInstance_init = \<lparr>
     amfInstance = (NfInstance_new [] AMF)\<lparr>nf_priority := 0, nf_capacity := 0\<rparr>,
     nrfUri = [], registered = False, heartbeatRunning = False, heartbeatInterval = 30\<rparr>"

definition amf_service :: "env \<Rightarrow> string \<Rightarrow> string \<Rightarrow> NfService" where
  "amf_service e name prefix = (NfService_default e name)\<lparr>nfs_serviceName := name, nfs_scheme := ''http'',
     nfs_fqdn := ''amf.5gc.mnc001.mcc460.3gppnetwork.org'', nfs_port := 8080, nfs_apiPrefix := prefix\<rparr>"

definition AmfNfInstance_initialize ::
  "env \<Rightarrow> string \<Rightarrow> string \<Rightarrow> AmfNfInstance \<Rightarrow> bool \<times> AmfNfInstance" where
  "AmfNfInstance_initialize e amfInstanceId plmnId s =
     (True, s\<lparr>amfInstance := (amfInstance s)\<lparr>
        nf_instanceId := amfInstanceId, nf_type := AMF, nf_plmnId := plmnId, nf_status := REGISTERED,
        nf_services := nf_services (amfInstance s) @
          [amf_service e ''namf-comm'' ''/namf-comm/v1'', amf_service e ''namf-evts'' ''/namf-evts/v1'',
           amf_service e ''namf-mt'' ''/namf-mt/v1'', amf_service e ''namf-loc'' ''/namf-loc/v1'']\<rparr>\<rparr>)"

definition stopHeartbeatService :: "AmfNfInstance \<Rightarrow> AmfNfInstance" where
  "stopHeartbeatService s = s\<lparr>heartbeatRunning := False\<rparr>"

definition startHeartbeatService :: "bool \<Rightarrow> int \<Rightarrow> AmfNfInstance \<Rightarrow> (sync_error + unit) \<times> AmfNfInstance" where
  "startHeartbeatService held interval s =
     (case lock_mutex held of
        Inl err \<Rightarrow> (Inl err, s)
      | Inr _ \<Rightarrow> (Inr (), (stopHeartbeatService s)\<lparr>heartbeatInterval := interval, heartbeatRunning := True\<rparr>))"

definition registerWithNrf :: "string \<Rightarrow> AmfNfInstance \<Rightarrow> (sync_error + bool) \<times> AmfNfInstance" where
  "registerWithNrf uri s =
     (case lock_mutex False of
        Inl err \<Rightarrow> (Inl err, s)
      | Inr held \<Rightarrow>
          (let s1 = s\<lparr>nrfUri := uri, registered := True\<rparr>
           in case startHeartbeatService held 30 s1 of
                (Inl err, s2) \<Rightarrow> (Inl err, s2)
              | (Inr _, s2) \<Rightarrow> (Inr True, s2)))"

definition sendHeartbeat :: "env \<Rightarrow> AmfNfInstance \<Rightarrow> bool \<times> AmfNfInstance" where
  "sendHeartbeat e s =
     (if \<not> registered s then (False, s)
      else (True, s\<lparr>amfInstance := (amfInstance s)\<lparr>nf_lastHeartbeat := env_now e\<rparr>\<rparr>))"

definition amf_updateStatus :: "NfStatus \<Rightarrow> AmfNfInstance \<Rightarrow> AmfNfInstance" where
  "amf_updateStatus st s = s\<lparr>amfInstance := (amfInstance s)\<lparr>nf_status := st\<rparr>\<rparr>"

definition amf_updateLoad :: "int \<Rightarrow> AmfNfInstance \<Rightarrow> AmfNfInstance" where
  "amf_updateLoad l s = s\<lparr>amfInstance := (amfInstance s)\<lparr>nf_load := l\<rparr>\<rparr>"

definition amf_updateCapacity :: "int \<Rightarrow> AmfNfInstance \<Rightarrow> AmfNfInstance" where
  "amf_updateCapacity c s = s\<lparr>amfInstance := (amfInstance s)\<lparr>nf_capacity := c\<rparr>\<rparr>"

section \<open>Names\<close>

definition nfTypeToString :: "NfType \<Rightarrow> string" where
  "nfTypeToString t = (case t of
       AMF \<Rightarrow> ''AMF'' | SMF \<Rightarrow> ''SMF'' | UPF \<Rightarrow> ''UPF'' | AUSF \<Rightarrow> ''AUSF'' | UDM \<Rightarrow> ''UDM''
     | UDR \<Rightarrow> ''UDR'' | PCF \<Rightarrow> ''PCF'' | NRF \<Rightarrow> ''NRF'' | NSSF \<Rightarrow> ''NSSF'' | NEF \<Rightarrow> ''NEF''
     | _ \<Rightarrow> ''UNKNOWN'')"

definition nfStatusToString :: "NfStatus \<Rightarrow> string" where
  "nfStatusToString s = (case s of
       REGISTERED \<Rightarrow> ''REGISTERED'' | SUSPENDED \<Rightarrow> ''SUSPENDED''
     | UNDISCOVERABLE \<Rightarrow> ''UNDISCOVERABLE'' | DEREGISTERED \<Rightarrow> ''DEREGISTERED'')"

definition stringToNfType :: "string \<Rightarrow> NfType" where
  "stringToNfType s =
     (if s = ''AMF'' then AMF else if s = ''SMF'' then SMF else if s = ''UPF'' then UPF
      else if s = ''AUSF'' then AUSF else if s = ''UDM'' then UDM else if s = ''UDR'' then UDR
      else if s = ''PCF'' then PCF else if s = ''NRF'' then NRF else if s = ''NSSF'' then NSSF
      else if s = ''NEF'' then NEF else UNKNOWN)"

definition stringToNfStatus :: "string \<Rightarrow> NfStatus" where
  "stringToNfStatus s =
     (if s = ''REGISTERED'' then REGISTERED else if s = ''SUSPENDED'' then SUSPENDED
      else if s = ''UNDISCOVERABLE'' then UNDISCOVERABLE
      else if s = ''DEREGISTERED'' then DEREGISTERED else DEREGISTERED)"

section \<open>Discovery and selection\<close>

lemma nf_before_asym: "nf_before a b \<Longrightarrow> \<not> nf_before b a"
  by (auto simp: nf_before_def split: if_splits)

lemma nf_before_ntrans: "\<not> nf_before b a \<Longrightarrow> \<not> nf_before c b \<Longrightarrow> \<not> nf_before c a"
  by (auto simp: nf_before_def split: if_splits)

lemma nf_before_irrefl: "\<not> nf_before a a"
  by (simp add: nf_before_def)

interpretation nfs: sorter nf_before "isort nf_before"
  by (rule sorter_isort) (auto dest: nf_before_asym nf_before_ntrans)

definition healthy_of :: "env \<Rightarrow> NfManager \<Rightarrow> NfType \<Rightarrow> NfInstance set" where
  "healthy_of e m t =
     {i \<in> snd ` set (nfInstances m). isHealthy e i \<and> (t = UNKNOWN \<or> nf_type i = t)}"

definition nf_ok :: "NfManager \<Rightarrow> bool" where
  "nf_ok m \<longleftrightarrow> msorted (nfInstances m) \<and> msorted (nfInstancesByType m) \<and>
     (\<forall>(k, i) \<in> set (nfInstances m). nf_instanceId i = k \<and> k \<in> set (type_ids m (nf_type i)))"

lemma nf_ok_find: "nf_ok m \<Longrightarrow> (k, i) \<in> set (nfInstances m) \<longleftrightarrow> map_of (nfInstances m) k = Some i"
  by (simp add: nf_ok_def msorted_map_of)

lemma nf_ok_id: "nf_ok m \<Longrightarrow> map_of (nfInstances m) k = Some i \<Longrightarrow> nf_instanceId i = k"
  by (auto simp: nf_ok_def dest: map_of_SomeD)

lemma nf_ok_find_self: "nf_ok m \<Longrightarrow> i \<in> snd ` set (nfInstances m) \<Longrightarrow> map_of (nfInstances m) (nf_instanceId i) = Some i"
  by (auto simp: nf_ok_find [symmetric]) (auto simp: nf_ok_def)


definition example_nf :: "string \<Rightarrow> int \<Rightarrow> int \<Rightarrow> NfInstance" where
  "example_nf k prio ld = (NfInstance_new k SMF)\<lparr>nf_priority := prio, nf_load := ld\<rparr>"

definition example_nf_env :: env where
  "example_nf_env = \<lparr>env_now = 1000000000000, env_resp = 0, indet_int = (\<lambda>_. 0), indet_bool = (\<lambda>_. False)\<rparr>"

definition example_nfm :: NfManager where
  "example_nfm = snd (registerNfInstance example_nf_env (example_nf ''smf-2'' 10 5)
     (snd (registerNfInstance example_nf_env (example_nf ''smf-1'' 10 50) NfManager_init)))"

lemma example_nfm_instances:
  "nfInstances example_nfm =
     [(''smf-1'', (example_nf ''smf-1'' 10 50)\<lparr>nf_lastHeartbeat := 1000000000000\<rparr>),
      (''smf-2'', (example_nf ''smf-2'' 10 5)\<lparr>nf_lastHeartbeat := 1000000000000\<rparr>)]"
  by (simp add: example_nfm_def registerNfInstance_def NfManager_init_def example_nf_def
      NfInstance_new_def example_nf_env_def)


lemma selectNfInstance_plmn: "selectNfInstance srt e t p m = selectNfInstance srt e t [] m"
proof -
  have "query_matches e ((empty_query e t)\<lparr>q_targetPlmnId := p\<rparr>) = query_matches e (empty_query e t)"
    by (simp add: query_matches_def fun_eq_iff)
  then show ?thesis
    by (simp add: selectNfInstance_def discoverNfInstances_def Let_def)
qed

lemma healthy_of_candidates:
  "set (filter (query_matches e (empty_query e t)) (map snd (nfInstances m))) = healthy_of e m t"
  by (auto simp: healthy_of_def query_matches_def empty_query_def)

lemma selection_optimal:
  assumes "sorter nf_before srt" and "nf_ok m"
  shows "selectNfInstance srt e t plmn m = selectNfInstance srt e t [] m
    \<and> (case selectNfInstance srt e t plmn m of
         None \<Rightarrow> healthy_of e m t = {}
       | Some i \<Rightarrow> i \<in> healthy_of e m t \<and> (\<forall>j \<in> healthy_of e m t. \<not> nf_before j i))"
proof -
  let ?cs = "filter (query_matches e (empty_query e t)) (map snd (nfInstances m))"
  have sel: "selectNfInstance srt e t [] m =
      (case srt ?cs of [] \<Rightarrow> None | c # _ \<Rightarrow> map_of (nfInstances m) (nf_instanceId c))"
    by (simp add: selectNfInstance_def discoverNfInstances_def)
  have "case selectNfInstance srt e t [] m of
         None \<Rightarrow> healthy_of e m t = {}
       | Some i \<Rightarrow> i \<in> healthy_of e m t \<and> (\<forall>j \<in> healthy_of e m t. \<not> nf_before j i)"
  proof (cases "?cs = []")
    case True
    with sel sorter.sort_empty_iff [OF assms(1), of ?cs] show ?thesis
      using healthy_of_candidates [of e t m] by simp
  next
    case False
    then have ne: "srt ?cs \<noteq> []" by (simp add: sorter.sort_empty_iff [OF assms(1)])
    have hd: "hd (srt ?cs) \<in> healthy_of e m t"
      using sorter.sort_hd_in [OF assms(1) False] unfolding healthy_of_candidates .
    then have "hd (srt ?cs) \<in> snd ` set (nfInstances m)" by (simp add: healthy_of_def)
    then have "map_of (nfInstances m) (nf_instanceId (hd (srt ?cs))) = Some (hd (srt ?cs))"
      by (rule nf_ok_find_self [OF assms(2)])
    with ne sel have "selectNfInstance srt e t [] m = Some (hd (srt ?cs))"
      by (cases "srt ?cs") auto
    moreover have "\<not> nf_before j (hd (srt ?cs))" if "j \<in> healthy_of e m t" for j
      using that sorter.sort_hd_best [OF assms(1) nf_before_irrefl] healthy_of_candidates [of e t m] by metis
    ultimately show ?thesis using hd by simp
  qed
  then show ?thesis by (simp add: selectNfInstance_plmn [of srt e t plmn m])
qed

text \<open>
  Selection returns null exactly when no healthy instance of the type is registered. Otherwise
  it returns a registered healthy instance of that type, and no other such instance has a higher
  priority, or the same priority and a lower load. The PLMN identifier has no influence.
\<close>

theorem selection_best:
  assumes "sorter nf_before srt" and "nf_ok m"
  shows "selectNfInstance srt e t plmn m = selectNfInstance srt e t [] m
    \<and> (case selectNfInstance srt e t plmn m of
         None \<Rightarrow> healthy_of e m t = {}
       | Some i \<Rightarrow> i \<in> healthy_of e m t \<and> (\<forall>j \<in> healthy_of e m t. \<not> nf_before j i))"
  by (rule selection_optimal [OF assms])

theorem selection_best_witness:
  "sorter nf_before (isort nf_before) \<and> nf_ok example_nfm \<and>
   map_option nf_instanceId (selectNfInstance (isort nf_before) example_nf_env SMF ''46001'' example_nfm) = Some ''smf-2''"
proof -
  have s: "sorter nf_before (isort nf_before)" by (rule nfs.sorter_axioms)
  have ok: "nf_ok example_nfm"
    by (simp add: example_nfm_def registerNfInstance_def NfManager_init_def example_nf_def
        NfInstance_new_def example_nf_env_def nf_ok_def type_ids_def)
  have h: "healthy_of example_nf_env example_nfm SMF =
      {(example_nf ''smf-1'' 10 50)\<lparr>nf_lastHeartbeat := 1000000000000\<rparr>,
       (example_nf ''smf-2'' 10 5)\<lparr>nf_lastHeartbeat := 1000000000000\<rparr>}"
    by (auto simp: healthy_of_def example_nfm_instances isHealthy_def example_nf_def NfInstance_new_def
        example_nf_env_def to_seconds_def)
  show ?thesis
    using selection_best [OF s ok, of example_nf_env SMF "''46001''"] s ok unfolding h
    by (auto simp: nf_before_def example_nf_def NfInstance_new_def split: option.splits)
qed

section \<open>Invariant of the registry\<close>

datatype nf_op =
    NfRegister env NfInstance
  | NfDeregister string
  | NfSetStatus env string NfStatus
  | NfHeartbeat env string
  | NfHealthPass env
  | NfStart
  | NfStop

fun nf_step :: "NfManager \<Rightarrow> nf_op \<Rightarrow> NfManager" where
  "nf_step m (NfRegister e i) = snd (registerNfInstance e i m)"
| "nf_step m (NfDeregister k) = snd (deregisterNfInstance k m)"
| "nf_step m (NfSetStatus e k st) = snd (updateNfStatus e k st m)"
| "nf_step m (NfHeartbeat e k) = processHeartbeat e k m"
| "nf_step m (NfHealthPass e) = healthCheck_pass e m"
| "nf_step m NfStart = snd (nf_start m)"
| "nf_step m NfStop = nf_stop m"

lemma type_ids_mput [simp]:
  "type_ids (m\<lparr>nfInstances := x, nfInstancesByType := mput t ids (nfInstancesByType m)\<rparr>) t' =
     (if t' = t then ids else type_ids m t')"
  by (simp add: type_ids_def cpp_lib)

lemma type_ids_remove [simp]:
  "type_ids (m\<lparr>nfInstancesByType := mput t ids (nfInstancesByType m)\<rparr>) t' =
     (if t' = t then ids else type_ids m t')"
  by (simp add: type_ids_def cpp_lib)

lemma type_ids_instances [simp]: "type_ids (m\<lparr>nfInstances := x\<rparr>) t = type_ids m t"
  by (simp add: type_ids_def)

lemma type_ids_running [simp]: "type_ids (m\<lparr>nfRunning := b\<rparr>) t = type_ids m t"
  by (simp add: type_ids_def)

lemma nf_ok_init [simp]: "nf_ok NfManager_init"
  by (simp add: nf_ok_def NfManager_init_def)

lemma nf_ok_running [simp]: "nf_ok (m\<lparr>nfRunning := b\<rparr>) = nf_ok m"
  by (simp add: nf_ok_def)

lemma nf_ok_register: "nf_ok m \<Longrightarrow> nf_ok (snd (registerNfInstance e i m))"
  using set_mput_subset [of "nf_instanceId i" "i\<lparr>nf_lastHeartbeat := env_now e\<rparr>" "nfInstances m"]
  by (fastforce simp: registerNfInstance_def nf_ok_def msorted_mput split: option.splits)

lemma nf_ok_deregister: "nf_ok m \<Longrightarrow> nf_ok (snd (deregisterNfInstance k m))"
  by (auto simp: deregisterNfInstance_def nf_ok_def msorted_merase set_merase split: option.splits)

lemma nf_ok_put:
  assumes "nf_ok m" and "map_of (nfInstances m) k = Some i"
    and "nf_instanceId j = nf_instanceId i" and "nf_type j = nf_type i"
  shows "nf_ok (m\<lparr>nfInstances := mput k j (nfInstances m)\<rparr>)"
proof -
  have "(k, i) \<in> set (nfInstances m)" using assms(1,2) by (simp add: nf_ok_find)
  with assms set_mput_subset [of k j "nfInstances m"] show ?thesis
    by (fastforce simp: nf_ok_def msorted_mput)
qed

lemma nf_ok_status: "nf_ok m \<Longrightarrow> nf_ok (snd (updateNfStatus e k st m))"
  by (auto simp: updateNfStatus_def split: option.splits intro: nf_ok_put)

lemma nf_ok_heartbeat: "nf_ok m \<Longrightarrow> nf_ok (processHeartbeat e k m)"
  by (auto simp: processHeartbeat_def split: option.splits intro: nf_ok_put)

lemma nf_ok_health: "nf_ok m \<Longrightarrow> nf_ok (performHealthCheck e m)"
  by (fastforce simp: nf_ok_def performHealthCheck_def)

lemma nf_ok_remove_expired:
  assumes "nf_ok m"
  shows "nf_ok (remove_expired m k)"
proof (cases "map_of (nfInstances m) k")
  case None
  with assms show ?thesis by (simp add: remove_expired_def)
next
  case (Some j)
  with assms show ?thesis
    by (auto simp: nf_ok_def remove_expired_def msorted_merase msorted_mput set_merase) force
qed

lemma nf_ok_remove_all: "nf_ok m \<Longrightarrow> nf_ok (foldl remove_expired m ks)"
  by (induction ks arbitrary: m) (auto simp: nf_ok_remove_expired)

lemma nf_ok_pass: "nf_ok m \<Longrightarrow> nf_ok (healthCheck_pass e m)"
  by (simp add: healthCheck_pass_def cleanupExpiredNfInstances_def nf_ok_health nf_ok_remove_all)

lemma nf_ok_step: "nf_ok m \<Longrightarrow> nf_ok (nf_step m op)"
  by (cases op) (simp_all add: nf_ok_register nf_ok_deregister nf_ok_status nf_ok_heartbeat nf_ok_pass
      nf_start_def nf_stop_def)

interpretation nfm: machine nf_step nf_ok
  by unfold_locales (rule nf_ok_step)

text \<open>
  After every sequence of registrations, deregistrations, status updates, heartbeats and
  health check passes, the registry is consistent: both maps are in key order, every instance is
  stored under its own identifier, and every stored instance is listed in the index of its type.
\<close>

theorem registry_consistent:
  "msorted (nfInstances (foldl nf_step NfManager_init ops))
   \<and> msorted (nfInstancesByType (foldl nf_step NfManager_init ops))
   \<and> (\<forall>k i. map_of (nfInstances (foldl nf_step NfManager_init ops)) k = Some i \<longrightarrow>
        nf_instanceId i = k \<and> k \<in> set (type_ids (foldl nf_step NfManager_init ops) (nf_type i)))"
  using nfm.run_inv [OF nf_ok_init, of ops] by (auto simp: nf_ok_def dest!: map_of_SomeD)

theorem registry_consistent_witness:
  "''smf-1'' \<in> set (type_ids (foldl nf_step NfManager_init [NfRegister example_nf_env (example_nf ''smf-1'' 10 50)]) SMF)"
proof -
  let ?m = "foldl nf_step NfManager_init [NfRegister example_nf_env (example_nf ''smf-1'' 10 50)]"
  let ?i = "(example_nf ''smf-1'' 10 50)\<lparr>nf_lastHeartbeat := env_now example_nf_env\<rparr>"
  have "map_of (nfInstances ?m) ''smf-1'' = Some ?i"
    by (simp add: registerNfInstance_def NfManager_init_def example_nf_def NfInstance_new_def)
  then have "''smf-1'' \<in> set (type_ids ?m (nf_type ?i))"
    using registry_consistent [of "[NfRegister example_nf_env (example_nf ''smf-1'' 10 50)]"] by blast
  then show ?thesis by (simp add: example_nf_def NfInstance_new_def)
qed

section \<open>Health checks\<close>

lemma remove_expired_instances: "nfInstances (remove_expired m k) = merase k (nfInstances m)"
  by (auto simp: remove_expired_def merase_def map_of_eq_None_iff rev_image_eqI
      intro!: filter_True [symmetric] split: option.splits)

lemma remove_all_instances:
  "nfInstances (foldl remove_expired m ks) = foldl (\<lambda>is k. merase k is) (nfInstances m) ks"
  by (induction ks arbitrary: m) (simp_all add: remove_expired_instances)

lemma expired_ids:
  assumes "nf_ok m"
  shows "k \<in> set (map (\<lambda>(_, i). nf_instanceId i) (filter (\<lambda>(_, i). is_expired e i) (nfInstances m)))
    \<longleftrightarrow> (\<exists>i. map_of (nfInstances m) k = Some i \<and> is_expired e i)"
  using assms by (auto simp: nf_ok_find nf_ok_id image_iff split: prod.splits) (metis nf_ok_id)

lemma cleanup_find:
  "nf_ok m \<Longrightarrow> map_of (nfInstances (cleanupExpiredNfInstances e m)) k =
     (case map_of (nfInstances m) k of Some i \<Rightarrow> if is_expired e i then None else Some i | None \<Rightarrow> None)"
  unfolding cleanupExpiredNfInstances_def remove_all_instances om.find_foldl_erase expired_ids
  by (auto split: option.splits)

lemma health_find:
  "map_of (nfInstances (performHealthCheck e m)) k =
     map_option (\<lambda>i. if isHealthy e i then i else i\<lparr>nf_status := SUSPENDED\<rparr>) (map_of (nfInstances m) k)"
  by (cases "map_of (nfInstances m) k") (simp_all add: performHealthCheck_def map_of_map_snd)

text \<open>
  One pass of the health check loop removes exactly the instances whose last heartbeat is
  more than 120 seconds old, suspends exactly the others that are not healthy (heartbeat of
  60 seconds or older, or not registered) and leaves the healthy ones unchanged.
\<close>

theorem health_pass_exact:
  assumes "nf_ok m" and "nfRunning m"
  shows "map_of (nfInstances (healthCheck_pass e m)) k =
    (case map_of (nfInstances m) k of
       None \<Rightarrow> None
     | Some i \<Rightarrow>
         if 120 < to_seconds (env_now e - nf_lastHeartbeat i) then None
         else if nf_status i = REGISTERED \<and> to_seconds (env_now e - nf_lastHeartbeat i) < 60 then Some i
         else Some (i\<lparr>nf_status := SUSPENDED\<rparr>))"
  using assms
  by (auto simp: healthCheck_pass_def cleanup_find [OF nf_ok_health] health_find is_expired_def
      isHealthy_def split: option.splits)

theorem health_pass_exact_witness:
  "nf_ok (example_nfm\<lparr>nfRunning := True\<rparr>) \<and>
   map_option nf_status (map_of (nfInstances (healthCheck_pass
     (example_nf_env\<lparr>env_now := 1090000000000\<rparr>) (example_nfm\<lparr>nfRunning := True\<rparr>))) ''smf-1'') = Some SUSPENDED \<and>
   map_of (nfInstances (healthCheck_pass
     (example_nf_env\<lparr>env_now := 1121000000000\<rparr>) (example_nfm\<lparr>nfRunning := True\<rparr>))) ''smf-1'' = None"
proof -
  have "nf_ok example_nfm"
    unfolding example_nfm_def by (intro nf_ok_register nf_ok_init)
  then have ok: "nf_ok (example_nfm\<lparr>nfRunning := True\<rparr>)" and run: "nfRunning (example_nfm\<lparr>nfRunning := True\<rparr>)"
    by simp_all
  show ?thesis
    using ok health_pass_exact [OF ok run, of "example_nf_env\<lparr>env_now := 1090000000000\<rparr>" "''smf-1''"]
      health_pass_exact [OF ok run, of "example_nf_env\<lparr>env_now := 1121000000000\<rparr>" "''smf-1''"]
    by (simp add: example_nfm_instances example_nf_def NfInstance_new_def to_seconds_def)
qed

text \<open>A suspended instance is only restored by an explicit status update or a new registration.\<close>

fun restores :: "string \<Rightarrow> nf_op \<Rightarrow> bool" where
  "restores k (NfRegister e i) = (nf_instanceId i = k)"
| "restores k (NfSetStatus e k' st) = (k' = k)"
| "restores k _ = False"

definition not_registered :: "string \<Rightarrow> NfManager \<Rightarrow> bool" where
  "not_registered k m = (\<forall>i. map_of (nfInstances m) k = Some i \<longrightarrow> nf_status i \<noteq> REGISTERED)"

lemma not_registered_pass:
  "nf_ok m \<Longrightarrow> not_registered k m \<Longrightarrow> not_registered k (healthCheck_pass e m)"
  by (auto simp: not_registered_def healthCheck_pass_def cleanup_find [OF nf_ok_health] health_find
      split: option.splits if_splits)

lemma not_registered_mono:
  "not_registered k m \<Longrightarrow> map_of (nfInstances m') k \<in> {None, map_of (nfInstances m) k} \<Longrightarrow> not_registered k m'"
  by (auto simp: not_registered_def)

lemma not_registered_heartbeat: "not_registered k m \<Longrightarrow> not_registered k (processHeartbeat e k' m)"
  by (auto simp: not_registered_def processHeartbeat_def cpp_lib split: option.split)

lemma not_registered_step:
  assumes "nf_ok m" "not_registered k m" "\<not> restores k op"
  shows "not_registered k (nf_step m op)"
proof (cases op)
  case (NfRegister e i)
  with assms(3) have "map_of (nfInstances (nf_step m op)) k = map_of (nfInstances m) k"
    by (simp add: registerNfInstance_def cpp_lib split: option.split)
  with assms(2) show ?thesis by (simp add: not_registered_def)
next
  case (NfSetStatus e k' st)
  with assms(3) have "map_of (nfInstances (nf_step m op)) k = map_of (nfInstances m) k"
    by (simp add: updateNfStatus_def cpp_lib split: option.split)
  with assms(2) show ?thesis by (simp add: not_registered_def)
next
  case (NfDeregister k')
  then have "map_of (nfInstances (nf_step m op)) k \<in> {None, map_of (nfInstances m) k}"
    by (simp add: deregisterNfInstance_def cpp_lib split: option.split)
  with assms(2) show ?thesis by (rule not_registered_mono)
next
  case (NfHeartbeat e k')
  with assms(2) show ?thesis by (simp add: not_registered_heartbeat)
next
  case (NfHealthPass e)
  with assms show ?thesis by (simp add: not_registered_pass)
next
  case NfStart
  with assms(2) show ?thesis by (simp add: nf_start_def not_registered_def)
next
  case NfStop
  with assms(2) show ?thesis by (simp add: nf_stop_def not_registered_def)
qed

lemma not_registered_run:
  "nf_ok m \<Longrightarrow> not_registered k m \<Longrightarrow> list_all (\<lambda>op. \<not> restores k op) ops \<Longrightarrow>
     not_registered k (foldl nf_step m ops) \<and> nf_ok (foldl nf_step m ops)"
  by (induction ops arbitrary: m) (auto simp: not_registered_step nf_ok_step)

text \<open>
  Heartbeats do not bring a suspended instance back: as long as nobody sets its status or
  registers it anew, no sequence of heartbeats, health check passes and operations on other
  instances makes discovery return an instance under its identifier.
\<close>

theorem suspended_stays_undiscoverable:
  assumes "sorter nf_before srt" and "nf_ok m"
    and "map_option nf_status (map_of (nfInstances m) k) = Some SUSPENDED"
    and "list_all (\<lambda>op. \<not> restores k op) ops"
  shows "k \<notin> nf_instanceId ` set (discoverNfInstances srt e q (foldl nf_step m ops))"
proof -
  let ?m = "foldl nf_step m ops"
  have "not_registered k m" using assms(3) by (auto simp: not_registered_def)
  with assms have *: "not_registered k ?m" "nf_ok ?m" using not_registered_run by blast+
  have "nf_instanceId i \<noteq> k" if "i \<in> set (discoverNfInstances srt e q ?m)" for i
  proof
    assume id: "nf_instanceId i = k"
    from that have "i \<in> snd ` set (nfInstances ?m)" "isHealthy e i"
      by (auto simp: discoverNfInstances_def sorter.sort_set [OF assms(1)] query_matches_def)
    then have "map_of (nfInstances ?m) k = Some i" "nf_status i = REGISTERED"
      using nf_ok_find_self [OF *(2)] id by (auto simp: isHealthy_def)
    with *(1) show False by (auto simp: not_registered_def)
  qed
  then show ?thesis by auto
qed

theorem suspended_stays_undiscoverable_witness:
  "''smf-1'' \<notin> nf_instanceId ` set (discoverNfInstances (isort nf_before) example_nf_env (empty_query example_nf_env SMF)
     (foldl nf_step (snd (updateNfStatus example_nf_env ''smf-1'' SUSPENDED example_nfm))
       [NfHeartbeat example_nf_env ''smf-1'', NfHealthPass example_nf_env, NfDeregister ''smf-2'']))"
proof -
  have "nf_ok example_nfm"
    unfolding example_nfm_def by (intro nf_ok_register nf_ok_init)
  then have ok: "nf_ok (snd (updateNfStatus example_nf_env ''smf-1'' SUSPENDED example_nfm))"
    by (rule nf_ok_status)
  show ?thesis
    by (rule suspended_stays_undiscoverable [OF nfs.sorter_axioms ok])
       (simp_all add: updateNfStatus_def example_nfm_instances)
qed

section \<open>Statistics, registration with the NRF, names\<close>

lemma getNfStatistics_find:
  "distinct (map fst (nfInstancesByType m)) \<Longrightarrow>
     map_of (getNfStatistics m) t = map_option length (map_of (nfInstancesByType m) t)"
proof -
  have "distinct (map fst xs) \<Longrightarrow> map_of (foldl (\<lambda>stats (t, ids). mput t (length ids) stats) acc xs) t =
      (case map_of xs t of Some ids \<Rightarrow> Some (length ids) | None \<Rightarrow> map_of acc t)"
    for xs :: "(NfType \<times> string list) list" and acc
    by (induction xs arbitrary: acc)
       (auto simp: cpp_lib map_of_eq_None_iff rev_image_eqI split: option.splits)
  then show "distinct (map fst (nfInstancesByType m)) \<Longrightarrow> ?thesis"
    by (auto simp: getNfStatistics_def split: option.splits)
qed

definition register_cycle :: "env \<Rightarrow> NfInstance \<Rightarrow> NfManager \<Rightarrow> NfManager" where
  "register_cycle e i m = snd (deregisterNfInstance (nf_instanceId i) (snd (registerNfInstance e i m)))"

lemma register_cycles:
  "nfInstances ((register_cycle e i ^^ n) NfManager_init) = [] \<and>
   nfInstancesByType ((register_cycle e i ^^ n) NfManager_init) =
     (if n = 0 then [] else [(nf_type i, replicate n (nf_instanceId i))])"
proof (induction n)
  case 0
  then show ?case by (simp add: NfManager_init_def)
next
  case (Suc n)
  then show ?case
    by (auto simp: register_cycle_def registerNfInstance_def deregisterNfInstance_def merase_def
        type_ids_def replicate_append_same)
qed

text \<open>
  Deregistering leaves the entry of the type index behind: after \<open>n + 1\<close> cycles of registering
  and deregistering one instance the registry is empty, yet \<open>getNfStatistics\<close> reports \<open>n + 1\<close>
  instances of its type.
\<close>

theorem statistics_count_deregistered:
  "nfInstances ((register_cycle e i ^^ Suc n) NfManager_init) = []
   \<and> map_of (getNfStatistics ((register_cycle e i ^^ Suc n) NfManager_init)) (nf_type i) = Some (Suc n)"
  using register_cycles [of "Suc n" e i] getNfStatistics_find [of "(register_cycle e i ^^ Suc n) NfManager_init"]
  by (simp del: funpow.simps)

text \<open>
  \<open>registerWithNrf\<close> never returns: it calls \<open>startHeartbeatService\<close> while it holds
  \<open>instanceMutex_\<close>, and that method locks the same mutex. By then the profile is marked as
  registered, but no heartbeat service has been started.
\<close>

theorem register_with_nrf_blocks:
  "registerWithNrf uri s = (Inl Deadlock, s\<lparr>nrfUri := uri, registered := True\<rparr>)"
  by (simp add: registerWithNrf_def startHeartbeatService_def)

lemma nf_names_roundtrip:
  "stringToNfType (nfTypeToString t) = t" "stringToNfStatus (nfStatusToString st) = st"
  by (cases t; simp add: stringToNfType_def nfTypeToString_def)
     (cases st; simp add: stringToNfStatus_def nfStatusToString_def)

end
