(* ===== verification/Sbi_Message.thy ===== *)
theory Sbi_Message
  imports CppString
begin

text \<open>
  Messages of the service based interface and the factory that builds requests
  (\<open>5gc/amf/include/SbiMessage.h\<close>, \<open>src/SbiMessage.cpp\<close>, \<open>src/SbiMessageFactory.cpp\<close>).

  The enumerations keep the source's constructors in order. A message is a record; the
  factory functions take the random identifiers they draw as arguments, and
  \<open>generateUuid\<close> takes the 31 draws of the uniform distribution.
\<close>

section \<open>Enumerations\<close>

datatype SbiServiceType =
    NAMF_COMMUNICATION | NAMF_EVENT_EXPOSURE | NAMF_LOCATION
  | NAMF_MT | NSMF_PDU_SESSION | NUDM_SDM
  | NUDM_UE_AUTHENTICATION | NAUSF_UE_AUTHENTICATION | NPCF_AM_POLICY_CONTROL
  | NRF_NFM | NRF_NFD

datatype HttpMethod =
    GET | POST | PUT | DELETE | PATCH

datatype SbiMessageType =
    UE_CONTEXT_CREATE_REQUEST | UE_CONTEXT_CREATE_RESPONSE
  | UE_CONTEXT_UPDATE_REQUEST | UE_CONTEXT_UPDATE_RESPONSE
  | UE_CONTEXT_RELEASE_REQUEST | UE_CONTEXT_RELEASE_RESPONSE
  | UE_AUTHENTICATION_REQUEST | UE_AUTHENTICATION_RESPONSE
  | UE_AUTHENTICATION_RESULT_REQUEST | UE_AUTHENTICATION_RESULT_RESPONSE
  | PDU_SESSION_CREATE_SM_CONTEXT_REQUEST | PDU_SESSION_CREATE_SM_CONTEXT_RESPONSE
  | PDU_SESSION_UPDATE_SM_CONTEXT_REQUEST | PDU_SESSION_UPDATE_SM_CONTEXT_RESPONSE
  | PDU_SESSION_RELEASE_SM_CONTEXT_REQUEST | PDU_SESSION_RELEASE_SM_CONTEXT_RESPONSE
  | AM_POLICY_CONTROL_CREATE_REQUEST | AM_POLICY_CONTROL_CREATE_RESPONSE
  | AM_POLICY_CONTROL_UPDATE_REQUEST | AM_POLICY_CONTROL_UPDATE_RESPONSE
  | AM_POLICY_CONTROL_DELETE_REQUEST | AM_POLICY_CONTROL_DELETE_RESPONSE
  | EVENT_EXPOSURE_SUBSCRIBE_REQUEST | EVENT_EXPOSURE_SUBSCRIBE_RESPONSE
  | EVENT_EXPOSURE_NOTIFY_REQUEST | EVENT_EXPOSURE_NOTIFY_RESPONSE
  | EVENT_EXPOSURE_UNSUBSCRIBE_REQUEST | EVENT_EXPOSURE_UNSUBSCRIBE_RESPONSE
  | NF_REGISTER_REQUEST | NF_REGISTER_RESPONSE
  | NF_UPDATE_REQUEST | NF_UPDATE_RESPONSE
  | NF_DEREGISTER_REQUEST | NF_DEREGISTER_RESPONSE
  | NF_STATUS_NOTIFY_REQUEST | NF_STATUS_NOTIFY_RESPONSE
  | NF_DISCOVER_REQUEST | NF_DISCOVER_RESPONSE
  | PROBLEM_DETAILS | ERROR_RESPONSE

datatype SbiMessageStatus =
    PENDING | SUCCESS | FAILED | TIMEOUT

definition sbi_type_index :: "SbiMessageType \<Rightarrow> nat" where
  "sbi_type_index t = (case t of
        SbiMessageType.UE_CONTEXT_CREATE_REQUEST \<Rightarrow> 0 | SbiMessageType.UE_CONTEXT_CREATE_RESPONSE \<Rightarrow> 1 | SbiMessageType.UE_CONTEXT_UPDATE_REQUEST \<Rightarrow> 2
      | SbiMessageType.UE_CONTEXT_UPDATE_RESPONSE \<Rightarrow> 3 | SbiMessageType.UE_CONTEXT_RELEASE_REQUEST \<Rightarrow> 4 | SbiMessageType.UE_CONTEXT_RELEASE_RESPONSE \<Rightarrow> 5
      | SbiMessageType.UE_AUTHENTICATION_REQUEST \<Rightarrow> 6 | SbiMessageType.UE_AUTHENTICATION_RESPONSE \<Rightarrow> 7 | SbiMessageType.UE_AUTHENTICATION_RESULT_REQUEST \<Rightarrow> 8
      | SbiMessageType.UE_AUTHENTICATION_RESULT_RESPONSE \<Rightarrow> 9 | SbiMessageType.PDU_SESSION_CREATE_SM_CONTEXT_REQUEST \<Rightarrow> 10 | SbiMessageType.PDU_SESSION_CREATE_SM_CONTEXT_RESPONSE \<Rightarrow> 11
      | SbiMessageType.PDU_SESSION_UPDATE_SM_CONTEXT_REQUEST \<Rightarrow> 12 | SbiMessageType.PDU_SESSION_UPDATE_SM_CONTEXT_RESPONSE \<Rightarrow> 13 | SbiMessageType.PDU_SESSION_RELEASE_SM_CONTEXT_REQUEST \<Rightarrow> 14
      | SbiMessageType.PDU_SESSION_RELEASE_SM_CONTEXT_RESPONSE \<Rightarrow> 15 | SbiMessageType.AM_POLICY_CONTROL_CREATE_REQUEST \<Rightarrow> 16 | SbiMessageType.AM_POLICY_CONTROL_CREATE_RESPONSE \<Rightarrow> 17
      | SbiMessageType.AM_POLICY_CONTROL_UPDATE_REQUEST \<Rightarrow> 18 | SbiMessageType.AM_POLICY_CONTROL_UPDATE_RESPONSE \<Rightarrow> 19 | SbiMessageType.AM_POLICY_CONTROL_DELETE_REQUEST \<Rightarrow> 20
      | SbiMessageType.AM_POLICY_CONTROL_DELETE_RESPONSE \<Rightarrow> 21 | SbiMessageType.EVENT_EXPOSURE_SUBSCRIBE_REQUEST \<Rightarrow> 22 | SbiMessageType.EVENT_EXPOSURE_SUBSCRIBE_RESPONSE \<Rightarrow> 23
      | SbiMessageType.EVENT_EXPOSURE_NOTIFY_REQUEST \<Rightarrow> 24 | SbiMessageType.EVENT_EXPOSURE_NOTIFY_RESPONSE \<Rightarrow> 25 | SbiMessageType.EVENT_EXPOSURE_UNSUBSCRIBE_REQUEST \<Rightarrow> 26
      | SbiMessageType.EVENT_EXPOSURE_UNSUBSCRIBE_RESPONSE \<Rightarrow> 27 | SbiMessageType.NF_REGISTER_REQUEST \<Rightarrow> 28 | SbiMessageType.NF_REGISTER_RESPONSE \<Rightarrow> 29
      | SbiMessageType.NF_UPDATE_REQUEST \<Rightarrow> 30 | SbiMessageType.NF_UPDATE_RESPONSE \<Rightarrow> 31 | SbiMessageType.NF_DEREGISTER_REQUEST \<Rightarrow> 32
      | SbiMessageType.NF_DEREGISTER_RESPONSE \<Rightarrow> 33 | SbiMessageType.NF_STATUS_NOTIFY_REQUEST \<Rightarrow> 34 | SbiMessageType.NF_STATUS_NOTIFY_RESPONSE \<Rightarrow> 35
      | SbiMessageType.NF_DISCOVER_REQUEST \<Rightarrow> 36 | SbiMessageType.NF_DISCOVER_RESPONSE \<Rightarrow> 37 | SbiMessageType.PROBLEM_DETAILS \<Rightarrow> 38
      | SbiMessageType.ERROR_RESPONSE \<Rightarrow> 39)"

definition all_sbi_types :: "SbiMessageType list" where
  "all_sbi_types =
    [SbiMessageType.UE_CONTEXT_CREATE_REQUEST, SbiMessageType.UE_CONTEXT_CREATE_RESPONSE, SbiMessageType.UE_CONTEXT_UPDATE_REQUEST,
     SbiMessageType.UE_CONTEXT_UPDATE_RESPONSE, SbiMessageType.UE_CONTEXT_RELEASE_REQUEST, SbiMessageType.UE_CONTEXT_RELEASE_RESPONSE,
     SbiMessageType.UE_AUTHENTICATION_REQUEST, SbiMessageType.UE_AUTHENTICATION_RESPONSE, SbiMessageType.UE_AUTHENTICATION_RESULT_REQUEST,
     SbiMessageType.UE_AUTHENTICATION_RESULT_RESPONSE, SbiMessageType.PDU_SESSION_CREATE_SM_CONTEXT_REQUEST, SbiMessageType.PDU_SESSION_CREATE_SM_CONTEXT_RESPONSE,
     SbiMessageType.PDU_SESSION_UPDATE_SM_CONTEXT_REQUEST, SbiMessageType.PDU_SESSION_UPDATE_SM_CONTEXT_RESPONSE, SbiMessageType.PDU_SESSION_RELEASE_SM_CONTEXT_REQUEST,
     SbiMessageType.PDU_SESSION_RELEASE_SM_CONTEXT_RESPONSE, SbiMessageType.AM_POLICY_CONTROL_CREATE_REQUEST, SbiMessageType.AM_POLICY_CONTROL_CREATE_RESPONSE,
     SbiMessageType.AM_POLICY_CONTROL_UPDATE_REQUEST, SbiMessageType.AM_POLICY_CONTROL_UPDATE_RESPONSE, SbiMessageType.AM_POLICY_CONTROL_DELETE_REQUEST,
     SbiMessageType.AM_POLICY_CONTROL_DELETE_RESPONSE, SbiMessageType.EVENT_EXPOSURE_SUBSCRIBE_REQUEST, SbiMessageType.EVENT_EXPOSURE_SUBSCRIBE_RESPONSE,
     SbiMessageType.EVENT_EXPOSURE_NOTIFY_REQUEST, SbiMessageType.EVENT_EXPOSURE_NOTIFY_RESPONSE, SbiMessageType.EVENT_EXPOSURE_UNSUBSCRIBE_REQUEST,
     SbiMessageType.EVENT_EXPOSURE_UNSUBSCRIBE_RESPONSE, SbiMessageType.NF_REGISTER_REQUEST, SbiMessageType.NF_REGISTER_RESPONSE,
     SbiMessageType.NF_UPDATE_REQUEST, SbiMessageType.NF_UPDATE_RESPONSE, SbiMessageType.NF_DEREGISTER_REQUEST,
     SbiMessageType.NF_DEREGISTER_RESPONSE, SbiMessageType.NF_STATUS_NOTIFY_REQUEST, SbiMessageType.NF_STATUS_NOTIFY_RESPONSE,
     SbiMessageType.NF_DISCOVER_REQUEST, SbiMessageType.NF_DISCOVER_RESPONSE, SbiMessageType.PROBLEM_DETAILS,
     SbiMessageType.ERROR_RESPONSE]"

lemma all_sbi_types_nth [simp]: "all_sbi_types ! sbi_type_index t = t"
  by (cases t) (simp_all add: all_sbi_types_def sbi_type_index_def)

lemma sbi_type_index_inject [simp]: "sbi_type_index s = sbi_type_index t \<longleftrightarrow> s = t"
  by (metis all_sbi_types_nth)

instantiation SbiMessageType :: linorder
begin

definition less_eq_SbiMessageType :: "SbiMessageType \<Rightarrow> SbiMessageType \<Rightarrow> bool" where
  "less_eq_SbiMessageType s t \<longleftrightarrow> sbi_type_index s \<le> sbi_type_index t"

definition less_SbiMessageType :: "SbiMessageType \<Rightarrow> SbiMessageType \<Rightarrow> bool" where
  "less_SbiMessageType s t \<longleftrightarrow> sbi_type_index s < sbi_type_index t"

instance
  by intro_classes (auto simp: less_eq_SbiMessageType_def less_SbiMessageType_def)

end

definition sbi_service_index :: "SbiServiceType \<Rightarrow> nat" where
  "sbi_service_index t = (case t of
        SbiServiceType.NAMF_COMMUNICATION \<Rightarrow> 0 | SbiServiceType.NAMF_EVENT_EXPOSURE \<Rightarrow> 1 | SbiServiceType.NAMF_LOCATION \<Rightarrow> 2
      | SbiServiceType.NAMF_MT \<Rightarrow> 3 | SbiServiceType.NSMF_PDU_SESSION \<Rightarrow> 4 | SbiServiceType.NUDM_SDM \<Rightarrow> 5
      | SbiServiceType.NUDM_UE_AUTHENTICATION \<Rightarrow> 6 | SbiServiceType.NAUSF_UE_AUTHENTICATION \<Rightarrow> 7 | SbiServiceType.NPCF_AM_POLICY_CONTROL \<Rightarrow> 8
      | SbiServiceType.NRF_NFM \<Rightarrow> 9 | SbiServiceType.NRF_NFD \<Rightarrow> 10)"

definition http_method_index :: "HttpMethod \<Rightarrow> nat" where
  "http_method_index t = (case t of
        HttpMethod.GET \<Rightarrow> 0 | HttpMethod.POST \<Rightarrow> 1 | HttpMethod.PUT \<Rightarrow> 2 | HttpMethod.DELETE \<Rightarrow> 3 | HttpMethod.PATCH \<Rightarrow> 4)"

definition sbi_status_index :: "SbiMessageStatus \<Rightarrow> nat" where
  "sbi_status_index t = (case t of
        SbiMessageStatus.PENDING \<Rightarrow> 0 | SbiMessageStatus.SUCCESS \<Rightarrow> 1 | SbiMessageStatus.FAILED \<Rightarrow> 2 | SbiMessageStatus.TIMEOUT \<Rightarrow> 3)"

section \<open>Messages\<close>

record SbiMessage =
  sbi_serviceType :: SbiServiceType
  sbi_messageType :: SbiMessageType
  sbi_httpMethod :: HttpMethod
  sbi_uri :: string
  sbi_body :: string
  sbi_headers :: "string smap"
  sbi_status :: SbiMessageStatus
  sbi_statusCode :: int

definition SbiMessage_new :: "SbiServiceType \<Rightarrow> SbiMessageType \<Rightarrow> HttpMethod \<Rightarrow> SbiMessage" where
  "SbiMessage_new service type httpMethod = \<lparr>
     sbi_serviceType = service, sbi_messageType = type, sbi_httpMethod = httpMethod,
     sbi_uri = [], sbi_body = [],
     sbi_headers = mput ''Accept'' ''application/json'' (mput ''Content-Type'' ''application/json'' []),
     sbi_status = PENDING, sbi_statusCode = 0\<rparr>"

definition setUri :: "string \<Rightarrow> SbiMessage \<Rightarrow> SbiMessage" where
  "setUri u m = m\<lparr>sbi_uri := u\<rparr>"

definition setBody :: "string \<Rightarrow> SbiMessage \<Rightarrow> SbiMessage" where
  "setBody b m = m\<lparr>sbi_body := b\<rparr>"

definition addHeader :: "string \<Rightarrow> string \<Rightarrow> SbiMessage \<Rightarrow> SbiMessage" where
  "addHeader k v m = m\<lparr>sbi_headers := mput k v (sbi_headers m)\<rparr>"

definition setStatus :: "SbiMessageStatus \<Rightarrow> SbiMessage \<Rightarrow> SbiMessage" where
  "setStatus s m = m\<lparr>sbi_status := s\<rparr>"

definition setStatusCode :: "int \<Rightarrow> SbiMessage \<Rightarrow> SbiMessage" where
  "setStatusCode c m = m\<lparr>sbi_statusCode := c\<rparr>"

definition method_text :: "HttpMethod \<Rightarrow> string" where
  "method_text h = (case h of
       GET \<Rightarrow> ''GET'' | POST \<Rightarrow> ''POST'' | PUT \<Rightarrow> ''PUT'' | DELETE \<Rightarrow> ''DELETE'' | PATCH \<Rightarrow> ''PATCH'')"

definition service_text :: "SbiServiceType \<Rightarrow> string" where
  "service_text s = (case s of
       NAMF_COMMUNICATION \<Rightarrow> ''Namf_Communication''
     | NAMF_EVENT_EXPOSURE \<Rightarrow> ''Namf_EventExposure''
     | NAMF_LOCATION \<Rightarrow> ''Namf_Location''
     | NAMF_MT \<Rightarrow> ''Namf_MT''
     | NSMF_PDU_SESSION \<Rightarrow> ''Nsmf_PDUSession''
     | NUDM_SDM \<Rightarrow> ''Nudm_SDM''
     | NUDM_UE_AUTHENTICATION \<Rightarrow> ''Nudm_UEAuthentication''
     | NAUSF_UE_AUTHENTICATION \<Rightarrow> ''Nausf_UEAuthentication''
     | NPCF_AM_POLICY_CONTROL \<Rightarrow> ''Npcf_AMPolicyControl''
     | NRF_NFM \<Rightarrow> ''Nnrf_NFManagement''
     | NRF_NFD \<Rightarrow> ''Nnrf_NFDiscovery'')"

definition message_type_text :: "SbiMessageType \<Rightarrow> string" where
  "message_type_text t = (case t of
       UE_CONTEXT_CREATE_REQUEST \<Rightarrow> ''UeContextCreateRequest''
     | UE_CONTEXT_CREATE_RESPONSE \<Rightarrow> ''UeContextCreateResponse''
     | UE_AUTHENTICATION_REQUEST \<Rightarrow> ''UeAuthenticationRequest''
     | UE_AUTHENTICATION_RESPONSE \<Rightarrow> ''UeAuthenticationResponse''
     | PDU_SESSION_CREATE_SM_CONTEXT_REQUEST \<Rightarrow> ''PduSessionCreateSmContextRequest''
     | PDU_SESSION_CREATE_SM_CONTEXT_RESPONSE \<Rightarrow> ''PduSessionCreateSmContextResponse''
     | NF_REGISTER_REQUEST \<Rightarrow> ''NfRegisterRequest''
     | NF_REGISTER_RESPONSE \<Rightarrow> ''NfRegisterResponse''
     | _ \<Rightarrow> ''UnknownMessage'')"

definition SbiMessage_toString :: "SbiMessage \<Rightarrow> string" where
  "SbiMessage_toString m =
     ''SBI Message: '' @ service_text (sbi_serviceType m) @ '' - '' @
       message_type_text (sbi_messageType m) @ [LF] @
     ''Method: '' @ method_text (sbi_httpMethod m) @ [LF] @
     ''URI: '' @ sbi_uri m @ [LF] @
     ''Status: '' @ nat_dec (sbi_status_index (sbi_status m)) @
       '' (Code: '' @ int_dec (sbi_statusCode m) @ '')'' @ [LF] @
     (if sbi_headers m \<noteq> []
      then ''Headers:'' @ [LF] @
           concat (map (\<lambda>(k, v). ''  '' @ k @ '': '' @ v @ [LF]) (sbi_headers m))
      else []) @
     (if sbi_body m \<noteq> []
      then ''Body: '' @ take 100 (sbi_body m) @
           (if 100 < length (sbi_body m) then ''...'' else []) @ [LF]
      else [])"

definition isRequest :: "SbiMessage \<Rightarrow> bool" where
  "isRequest m = (case sbi_messageType m of
       UE_CONTEXT_CREATE_REQUEST \<Rightarrow> True
     | UE_CONTEXT_UPDATE_REQUEST \<Rightarrow> True
     | UE_CONTEXT_RELEASE_REQUEST \<Rightarrow> True
     | UE_AUTHENTICATION_REQUEST \<Rightarrow> True
     | UE_AUTHENTICATION_RESULT_REQUEST \<Rightarrow> True
     | PDU_SESSION_CREATE_SM_CONTEXT_REQUEST \<Rightarrow> True
     | PDU_SESSION_UPDATE_SM_CONTEXT_REQUEST \<Rightarrow> True
     | PDU_SESSION_RELEASE_SM_CONTEXT_REQUEST \<Rightarrow> True
     | AM_POLICY_CONTROL_CREATE_REQUEST \<Rightarrow> True
     | AM_POLICY_CONTROL_UPDATE_REQUEST \<Rightarrow> True
     | AM_POLICY_CONTROL_DELETE_REQUEST \<Rightarrow> True
     | EVENT_EXPOSURE_SUBSCRIBE_REQUEST \<Rightarrow> True
     | EVENT_EXPOSURE_NOTIFY_REQUEST \<Rightarrow> True
     | EVENT_EXPOSURE_UNSUBSCRIBE_REQUEST \<Rightarrow> True
     | NF_REGISTER_REQUEST \<Rightarrow> True
     | NF_UPDATE_REQUEST \<Rightarrow> True
     | NF_DEREGISTER_REQUEST \<Rightarrow> True
     | NF_STATUS_NOTIFY_REQUEST \<Rightarrow> True
     | NF_DISCOVER_REQUEST \<Rightarrow> True
     | _ \<Rightarrow> False)"

definition isResponse :: "SbiMessage \<Rightarrow> bool" where
  "isResponse m \<longleftrightarrow> \<not> isRequest m \<and> sbi_messageType m \<noteq> PROBLEM_DETAILS"

definition isSuccess :: "SbiMessage \<Rightarrow> bool" where
  "isSuccess m \<longleftrightarrow> sbi_status m = SUCCESS \<and> 200 \<le> sbi_statusCode m \<and> sbi_statusCode m < 300"

section \<open>The request factory\<close>

definition hex_lower :: "nat \<Rightarrow> char" where
  "hex_lower d = char_of (if d < 10 then 48 + d else 87 + d)"

definition generateUuid :: "nat list \<Rightarrow> string" where
  "generateUuid ds =
     map hex_lower (take 8 ds) @ ''-'' @ map hex_lower (take 4 (drop 8 ds)) @ ''-4'' @
     map hex_lower (take 3 (drop 12 ds)) @ ''-'' @ map hex_lower (take 1 (drop 15 ds)) @
     map hex_lower (take 3 (drop 16 ds)) @ ''-'' @ map hex_lower (take 12 (drop 19 ds))"

definition setCommonHeaders :: "string \<Rightarrow> SbiMessage \<Rightarrow> SbiMessage" where
  "setCommonHeaders uuid m =
     addHeader ''3gpp-Sbi-Request-Id'' uuid
       (addHeader ''3gpp-Sbi-Target-apiRoot'' ''https://example.com''
         (addHeader ''User-Agent'' ''5G-AMF/1.0''
           (addHeader ''Accept'' ''application/json''
             (addHeader ''Content-Type'' ''application/json'' m))))"

definition createUeContextCreateRequest ::
  "string \<Rightarrow> string \<Rightarrow> string \<Rightarrow> std_error + SbiMessage" where
  \<open>createUeContextCreateRequest uuid supi pei =
     (case substr_from 5 supi of
        Inl err \<Rightarrow> Inl err
      | Inr msisdn \<Rightarrow> Inr (setCommonHeaders uuid (setBody
          (''{"supi":"'' @ supi @ ''"'' @
           (if pei \<noteq> [] then '',"pei":"'' @ pei @ ''"'' else []) @
           '',"gpsi":"msisdn-'' @ msisdn @ ''"'' @
           '',"accessType":"3GPP_ACCESS"'' @
           '',"ratType":"NR"'' @
           ''}'')
          (setUri ''/namf-comm/v1/ue-contexts''
            (SbiMessage_new NAMF_COMMUNICATION UE_CONTEXT_CREATE_REQUEST POST)))))\<close>

definition createUeContextReleaseRequest :: "string \<Rightarrow> string \<Rightarrow> string \<Rightarrow> SbiMessage" where
  \<open>createUeContextReleaseRequest uuid ueContextId cause =
     setCommonHeaders uuid (setBody
       (''{"cause":"'' @ cause @ ''"'' @
        '',"ngApCause":{"group":"radioNetwork","value":"normal-release"}'' @
        ''}'')
       (setUri (''/namf-comm/v1/ue-contexts/'' @ ueContextId @ ''/release'')
         (SbiMessage_new NAMF_COMMUNICATION UE_CONTEXT_RELEASE_REQUEST POST)))\<close>

definition createAuthenticationRequest ::
  "string \<Rightarrow> string \<Rightarrow> string \<Rightarrow> string \<Rightarrow> string \<Rightarrow> SbiMessage" where
  \<open>createAuthenticationRequest rand_uuid trace_uuid uuid supi servingNetworkName =
     setCommonHeaders uuid (setBody
       (''{"supi":"'' @ supi @ ''"'' @
        '',"servingNetworkName":"'' @ servingNetworkName @ ''"'' @
        '',"resynchronizationInfo":{"rand":"'' @ rand_uuid @ ''"}'' @
        '',"traceData":{"traceRef":"'' @ trace_uuid @ ''"}'' @
        ''}'')
       (setUri ''/nausf-auth/v1/ue-authentications''
         (SbiMessage_new NAUSF_UE_AUTHENTICATION UE_AUTHENTICATION_REQUEST POST)))\<close>

definition createPduSessionCreateRequest :: "string \<Rightarrow> int \<Rightarrow> string \<Rightarrow> int \<Rightarrow> SbiMessage" where
  \<open>createPduSessionCreateRequest uuid pduSessionId dnn sst =
     setCommonHeaders uuid (setBody
       (''{"pduSessionId":'' @ int_dec pduSessionId @
        '',"dnn":"'' @ dnn @ ''"'' @
        '',"sNssai":{"sst":'' @ int_dec sst @ ''}'' @
        '',"pduSessionType":"IPV4"'' @
        '',"requestType":"INITIAL_REQUEST"'' @
        '',"priority":"PRIORITY_LEVEL_1"'' @
        ''}'')
       (setUri ''/nsmf-pdusession/v1/sm-contexts''
         (SbiMessage_new NSMF_PDU_SESSION PDU_SESSION_CREATE_SM_CONTEXT_REQUEST POST)))\<close>

definition createPduSessionReleaseRequest :: "string \<Rightarrow> string \<Rightarrow> string \<Rightarrow> SbiMessage" where
  \<open>createPduSessionReleaseRequest uuid smContextId cause =
     setCommonHeaders uuid (setBody
       (''{"cause":"'' @ cause @ ''"'' @
        '',"ngApCause":{"group":"nas","value":"normal-release"}'' @
        '',"5gMmCauseValue":"REGULAR_DEACTIVATION"'' @
        ''}'')
       (setUri (''/nsmf-pdusession/v1/sm-contexts/'' @ smContextId @ ''/release'')
         (SbiMessage_new NSMF_PDU_SESSION PDU_SESSION_RELEASE_SM_CONTEXT_REQUEST POST)))\<close>

definition createAmPolicyControlCreateRequest :: "string \<Rightarrow> string \<Rightarrow> string \<Rightarrow> SbiMessage" where
  \<open>createAmPolicyControlCreateRequest uuid supi notificationUri =
     setCommonHeaders uuid (setBody
       (''{"supi":"'' @ supi @ ''"'' @
        '',"notificationUri":"'' @ notificationUri @ ''"'' @
        '',"accessType":"3GPP_ACCESS"'' @
        '',"ratType":"NR"'' @
        '',"servingPlmn":{"mcc":"001","mnc":"001"}'' @
        '',"userLocationInfo":{"nrLocation":{"tai":{"plmnId":{"mcc":"001","mnc":"001"},"tac":"000001"}}}'' @
        ''}'')
       (setUri ''/npcf-am-policy-control/v1/policies''
         (SbiMessage_new NPCF_AM_POLICY_CONTROL AM_POLICY_CONTROL_CREATE_REQUEST POST)))\<close>

definition createNfRegisterRequest :: "string \<Rightarrow> string \<Rightarrow> string \<Rightarrow> SbiMessage" where
  \<open>createNfRegisterRequest uuid nfInstanceId nfType =
     setCommonHeaders uuid (setBody
       (''{"nfInstanceId":"'' @ nfInstanceId @ ''"'' @
        '',"nfType":"'' @ nfType @ ''"'' @
        '',"nfStatus":"REGISTERED"'' @
        '',"plmnList":[{"mcc":"001","mnc":"001"}]'' @
        '',"nfServices":[{"serviceInstanceId":"service-1","serviceName":"namf-comm"}]'' @
        '',"heartBeatTimer":60'' @
        ''}'')
       (setUri (''/nnrf-nfm/v1/nf-instances/'' @ nfInstanceId)
         (SbiMessage_new NRF_NFM NF_REGISTER_REQUEST PUT)))\<close>

definition createNfDiscoverRequest :: "string \<Rightarrow> string \<Rightarrow> string \<Rightarrow> SbiMessage" where
  \<open>createNfDiscoverRequest uuid targetNfType requesterNfType =
     setCommonHeaders uuid
       (setUri (''/nnrf-disc/v1/nf-instances'' @ ''?target-nf-type='' @ targetNfType @
                ''&requester-nf-type='' @ requesterNfType)
         (SbiMessage_new NRF_NFD NF_DISCOVER_REQUEST GET))\<close>

section \<open>Properties of the factory\<close>

lemmas sbi_set_defs = setUri_def setBody_def addHeader_def setStatus_def setStatusCode_def

datatype factory_call =
    UeCreate string string
  | UeRelease string string
  | Authentication string string
  | PduCreate int string int
  | PduRelease string string
  | PolicyCreate string string
  | NfRegister string string
  | NfDiscover string string

fun factory_build :: "string \<Rightarrow> string \<Rightarrow> string \<Rightarrow> factory_call \<Rightarrow> std_error + SbiMessage" where
  "factory_build u1 u2 u3 (UeCreate supi pei) = createUeContextCreateRequest u3 supi pei"
| "factory_build u1 u2 u3 (UeRelease i cause) = Inr (createUeContextReleaseRequest u3 i cause)"
| "factory_build u1 u2 u3 (Authentication supi net) = Inr (createAuthenticationRequest u1 u2 u3 supi net)"
| "factory_build u1 u2 u3 (PduCreate i dnn sst) = Inr (createPduSessionCreateRequest u3 i dnn sst)"
| "factory_build u1 u2 u3 (PduRelease i cause) = Inr (createPduSessionReleaseRequest u3 i cause)"
| "factory_build u1 u2 u3 (PolicyCreate supi uri) = Inr (createAmPolicyControlCreateRequest u3 supi uri)"
| "factory_build u1 u2 u3 (NfRegister i ty) = Inr (createNfRegisterRequest u3 i ty)"
| "factory_build u1 u2 u3 (NfDiscover ty req) = Inr (createNfDiscoverRequest u3 ty req)"

lemmas factory_defs =
  createUeContextCreateRequest_def createUeContextReleaseRequest_def createAuthenticationRequest_def
  createPduSessionCreateRequest_def createPduSessionReleaseRequest_def
  createAmPolicyControlCreateRequest_def createNfRegisterRequest_def createNfDiscoverRequest_def

definition common_headers :: "string \<Rightarrow> string smap" where
  "common_headers uuid =
     [(''3gpp-Sbi-Request-Id'', uuid), (''3gpp-Sbi-Target-apiRoot'', ''https://example.com''),
      (''Accept'', ''application/json''), (''Content-Type'', ''application/json''),
      (''User-Agent'', ''5G-AMF/1.0'')]"

lemma setCommonHeaders_new:
  "sbi_headers m = sbi_headers (SbiMessage_new s t h) \<Longrightarrow>
     sbi_headers (setCommonHeaders uuid m) = common_headers uuid"
  by (simp add: setCommonHeaders_def common_headers_def SbiMessage_new_def addHeader_def)

lemma setCommonHeaders_sel [simp]:
  "sbi_messageType (setCommonHeaders uuid m) = sbi_messageType m"
  "sbi_serviceType (setCommonHeaders uuid m) = sbi_serviceType m"
  "sbi_httpMethod (setCommonHeaders uuid m) = sbi_httpMethod m"
  "sbi_uri (setCommonHeaders uuid m) = sbi_uri m"
  "sbi_body (setCommonHeaders uuid m) = sbi_body m"
  "sbi_status (setCommonHeaders uuid m) = sbi_status m"
  "sbi_statusCode (setCommonHeaders uuid m) = sbi_statusCode m"
  by (simp_all add: setCommonHeaders_def addHeader_def)

lemma set_sel [simp]:
  "sbi_headers (setUri u m) = sbi_headers m" "sbi_headers (setBody b m) = sbi_headers m"
  "sbi_messageType (setUri u m) = sbi_messageType m" "sbi_messageType (setBody b m) = sbi_messageType m"
  "sbi_serviceType (setUri u m) = sbi_serviceType m" "sbi_serviceType (setBody b m) = sbi_serviceType m"
  "sbi_httpMethod (setUri u m) = sbi_httpMethod m" "sbi_httpMethod (setBody b m) = sbi_httpMethod m"
  "sbi_status (setUri u m) = sbi_status m" "sbi_status (setBody b m) = sbi_status m"
  "sbi_statusCode (setUri u m) = sbi_statusCode m" "sbi_statusCode (setBody b m) = sbi_statusCode m"
  "sbi_uri (setUri u m) = u" "sbi_uri (setBody b m) = sbi_uri m"
  "sbi_body (setUri u m) = sbi_body m" "sbi_body (setBody b m) = b"
  by (simp_all add: sbi_set_defs)

lemma new_sel [simp]:
  "sbi_serviceType (SbiMessage_new s t h) = s" "sbi_messageType (SbiMessage_new s t h) = t"
  "sbi_httpMethod (SbiMessage_new s t h) = h" "sbi_status (SbiMessage_new s t h) = PENDING"
  "sbi_statusCode (SbiMessage_new s t h) = 0" "sbi_uri (SbiMessage_new s t h) = []"
  by (simp_all add: SbiMessage_new_def)

text \<open>
  The factory fails for exactly one kind of call, a context creation whose SUPI is shorter than
  the five characters it strips (\<open>std::out_of_range\<close>). Every other call yields a pending request
  with status code 0 whose headers are the five common ones, carrying the request identifier drawn
  for it.
\<close>

theorem factory_builds_requests:
  "case factory_build u1 u2 u3 call of
     Inl err \<Rightarrow> err = OutOfRange \<and> (\<exists>supi pei. call = UeCreate supi pei \<and> length supi < 5)
   | Inr m \<Rightarrow> (\<forall>supi pei. call = UeCreate supi pei \<longrightarrow> 5 \<le> length supi)
       \<and> isRequest m \<and> \<not> isResponse m \<and> sbi_status m = PENDING \<and> sbi_statusCode m = 0
       \<and> sbi_headers m = common_headers u3"
  by (cases call)
     (auto simp: factory_defs substr_from_def isRequest_def isResponse_def setCommonHeaders_new)

theorem factory_builds_requests_witness:
  "factory_build [] [] ''id-1'' (UeCreate ''imsi-460'' []) \<noteq> Inl OutOfRange
   \<and> factory_build [] [] ''id-1'' (UeCreate ''imsi'' []) = Inl OutOfRange"
  using factory_builds_requests [where ?u1.0 = "[]" and ?u2.0 = "[]" and ?u3.0 = "''id-1''" and call = "UeCreate ''imsi-460'' []"]
    factory_builds_requests [where ?u1.0 = "[]" and ?u2.0 = "[]" and ?u3.0 = "''id-1''" and call = "UeCreate ''imsi'' []"]
  by (auto split: sum.splits)

lemma hex_lower_inj: "d < 16 \<Longrightarrow> d' < 16 \<Longrightarrow> hex_lower d = hex_lower d' \<longleftrightarrow> d = d'"
proof -
  have of: "(of_char (hex_lower d) :: nat) = (if d < 10 then 48 + d else 87 + d)" if "d < 16" for d
    using that by (simp add: hex_lower_def)
  assume d: "d < 16" "d' < 16"
  show ?thesis
  proof
    assume "hex_lower d = hex_lower d'"
    then have "(if d < 10 then 48 + d else 87 + d) = (if d' < 10 then 48 + d' else 87 + d')"
      using of [OF d(1)] of [OF d(2)] by simp
    then show "d = d'" by (simp split: if_splits)
  qed simp
qed

lemma map_hex_lower_inj:
  "\<forall>d \<in> set xs. d < 16 \<Longrightarrow> \<forall>d \<in> set ys. d < 16 \<Longrightarrow> map hex_lower xs = map hex_lower ys \<longleftrightarrow> xs = ys"
  by (auto intro!: map_inj_on [of hex_lower] inj_onI simp: hex_lower_inj)

definition pieces_31 :: "'a list \<Rightarrow> 'a list list" where
  "pieces_31 xs = [take 8 xs, take 4 (drop 8 xs), take 3 (drop 12 xs), take 1 (drop 15 xs),
     take 3 (drop 16 xs), take 12 (drop 19 xs)]"

lemma take_drop_join: "take k (drop n xs) @ drop (n + k) xs = drop n xs"
  by (metis append_take_drop_id drop_drop add.commute)

lemma concat_pieces_31: "length xs = 31 \<Longrightarrow> concat (pieces_31 xs) = xs"
  using take_drop_join [of 3 16 xs] take_drop_join [of 1 15 xs] take_drop_join [of 3 12 xs]
    take_drop_join [of 4 8 xs] append_take_drop_id [of 8 xs]
  by (simp add: pieces_31_def)

definition uuid_digits :: "string \<Rightarrow> string" where
  "uuid_digits u = concat [take 8 u, take 4 (drop 9 u), take 3 (drop 15 u), take 1 (drop 19 u),
     take 3 (drop 20 u), take 12 (drop 24 u)]"

lemma uuid_digits_generate:
  assumes "length ds = 31"
  shows "uuid_digits (generateUuid ds) = map hex_lower ds"
proof -
  have "uuid_digits (generateUuid ds) = map hex_lower (concat (pieces_31 ds))"
    using assms by (simp add: uuid_digits_def generateUuid_def pieces_31_def)
  with assms show ?thesis by (simp add: concat_pieces_31)
qed

text \<open>
  A generated identifier has the 8-4-4-4-12 layout of 36 characters with the version digit 4,
  and two different sequences of draws give two different identifiers.
\<close>

theorem uuid_layout_and_injective:
  assumes "length ds = 31" and "\<forall>d \<in> set ds. d < 16" and "length ds' = 31" and "\<forall>d \<in> set ds'. d < 16"
  shows "length (generateUuid ds) = 36
    \<and> map (\<lambda>i. generateUuid ds ! i) [8, 13, 14, 18, 23] = ''--4--''
    \<and> (generateUuid ds = generateUuid ds' \<longrightarrow> ds = ds')"
proof (intro conjI impI)
  show "length (generateUuid ds) = 36" using assms(1) by (simp add: generateUuid_def)
  show "map (\<lambda>i. generateUuid ds ! i) [8, 13, 14, 18, 23] = ''--4--''"
    using assms(1) by (simp add: generateUuid_def nth_append)
  assume "generateUuid ds = generateUuid ds'"
  then have "map hex_lower ds = map hex_lower ds'"
    using uuid_digits_generate assms(1,3) by metis
  with assms(2,4) show "ds = ds'" by (simp add: map_hex_lower_inj)
qed

theorem uuid_layout_and_injective_witness:
  "length (generateUuid (replicate 31 3)) = 36 \<and> generateUuid (replicate 31 3) \<noteq> generateUuid (replicate 31 12)"
  using uuid_layout_and_injective [of "replicate 31 3" "replicate 31 12"] by auto

end
