(* ===== verification/Amf_Configuration.thy ===== *)
theory Amf_Configuration
  imports CppString
begin

text \<open>
  AMF configuration (\<open>5gc/amf/include/AmfConfiguration.h\<close>, \<open>5gc/amf/src/AmfConfiguration.cpp\<close>):
  the record of settings, the defaults, and the \<open>key=value\<close> file that is read line by line and
  written back. A file that cannot be opened is \<open>None\<close>; \<open>std::stoi\<close> may throw in the middle of
  loading, so loading returns the exception together with the configuration as updated so far.
\<close>

section \<open>Settings\<close>

record AmfConfiguration =
  cfg_amfInstanceId :: string
  cfg_amfName :: string
  cfg_amfRegionId :: string
  cfg_amfSetId :: string
  cfg_amfPointer :: string
  cfg_plmnId :: string
  cfg_taiList :: "string list"
  cfg_plmnList :: "string list"
  cfg_sbiBindAddress :: string
  cfg_sbiPort :: int
  cfg_n1n2BindAddress :: string
  cfg_n2Port :: int
  cfg_amfKey :: string
  cfg_supportedAlgorithms :: "string list"
  cfg_authenticationTimeout :: int
  cfg_supportedSlices :: "string list"
  cfg_maxUeConnections :: int
  cfg_loadBalanceThreshold :: int
  cfg_t3510Timer :: int
  cfg_t3511Timer :: int
  cfg_t3513Timer :: int
  cfg_t3560Timer :: int
  cfg_nrfUri :: string
  cfg_nfHeartbeatInterval :: int
  cfg_logLevel :: string
  cfg_logFile :: string

definition getDefaultConfiguration :: AmfConfiguration where
  "getDefaultConfiguration = \<lparr>
     cfg_amfInstanceId = ''amf-001'', cfg_amfName = ''AMF-Beijing-001'', cfg_amfRegionId = ''01'',
     cfg_amfSetId = ''001'', cfg_amfPointer = ''01'', cfg_plmnId = ''46001'',
     cfg_taiList = [''46001-001'', ''46001-002'', ''46001-003''],
     cfg_plmnList = [''46001'', ''46000''],
     cfg_sbiBindAddress = ''0.0.0.0'', cfg_sbiPort = 8080,
     cfg_n1n2BindAddress = ''0.0.0.0'', cfg_n2Port = 38412,
     cfg_amfKey = ''0123456789abcdef0123456789abcdef'',
     cfg_supportedAlgorithms = [''5G-EA0'', ''5G-EA1'', ''5G-EA2'', ''5G-IA1'', ''5G-IA2''],
     cfg_authenticationTimeout = 30,
     cfg_supportedSlices = [''SST:1,SD:000001'', ''SST:2,SD:000002'', ''SST:3,SD:000003''],
     cfg_maxUeConnections = 10000, cfg_loadBalanceThreshold = 80,
     cfg_t3510Timer = 15, cfg_t3511Timer = 10, cfg_t3513Timer = 6, cfg_t3560Timer = 6,
     cfg_nrfUri = ''http://nrf.5gc.mnc001.mcc460.3gppnetwork.org:8080'', cfg_nfHeartbeatInterval = 30,
     cfg_logLevel = ''INFO'', cfg_logFile = ''/var/log/amf/amf.log''\<rparr>"

section \<open>Loading and saving\<close>

text \<open>A line that is skipped is \<open>None\<close>.\<close>

definition split_line :: "string \<Rightarrow> (string \<times> string) option" where
  "split_line line =
     (if line = [] \<or> hd line = CHR ''#'' then None
      else case find_char (CHR ''='') line of
             None \<Rightarrow> None
           | Some pos \<Rightarrow> Some (trim_blanks (take pos line), trim_blanks (drop (pos + 1) line)))"

definition apply_item :: "string \<Rightarrow> string \<Rightarrow> AmfConfiguration \<Rightarrow> std_error + AmfConfiguration" where
  "apply_item key val c =
     (if key = ''amf_instance_id'' then Inr (c\<lparr>cfg_amfInstanceId := val\<rparr>)
      else if key = ''amf_name'' then Inr (c\<lparr>cfg_amfName := val\<rparr>)
      else if key = ''plmn_id'' then Inr (c\<lparr>cfg_plmnId := val\<rparr>)
      else if key = ''sbi_bind_address'' then Inr (c\<lparr>cfg_sbiBindAddress := val\<rparr>)
      else if key = ''sbi_port'' then map_sum id (\<lambda>p. c\<lparr>cfg_sbiPort := p\<rparr>) (stoi val)
      else if key = ''n2_port'' then map_sum id (\<lambda>p. c\<lparr>cfg_n2Port := p\<rparr>) (stoi val)
      else if key = ''nrf_uri'' then Inr (c\<lparr>cfg_nrfUri := val\<rparr>)
      else if key = ''log_level'' then Inr (c\<lparr>cfg_logLevel := val\<rparr>)
      else if key = ''log_file'' then Inr (c\<lparr>cfg_logFile := val\<rparr>)
      else Inr c)"

fun load_lines :: "string list \<Rightarrow> AmfConfiguration \<Rightarrow> (std_error + bool) \<times> AmfConfiguration" where
  "load_lines [] c = (Inr True, c)"
| "load_lines (line # ls) c =
     (case split_line line of
        None \<Rightarrow> load_lines ls c
      | Some (key, val) \<Rightarrow>
          (case apply_item key val c of
             Inl err \<Rightarrow> (Inl err, c)
           | Inr c' \<Rightarrow> load_lines ls c'))"

definition loadConfigurationFromFile ::
  "string option \<Rightarrow> AmfConfiguration \<Rightarrow> (std_error + bool) \<times> AmfConfiguration" where
  "loadConfigurationFromFile file c =
     (case file of None \<Rightarrow> (Inr False, c) | Some txt \<Rightarrow> load_lines (getlines txt) c)"

definition config_lines :: "AmfConfiguration \<Rightarrow> string list" where
  "config_lines c =
     [''# AMF Configuration File'',
      ''amf_instance_id='' @ cfg_amfInstanceId c,
      ''amf_name='' @ cfg_amfName c,
      ''plmn_id='' @ cfg_plmnId c,
      ''sbi_bind_address='' @ cfg_sbiBindAddress c,
      ''sbi_port='' @ int_dec (cfg_sbiPort c),
      ''n2_port='' @ int_dec (cfg_n2Port c),
      ''nrf_uri='' @ cfg_nrfUri c,
      ''log_level='' @ cfg_logLevel c,
      ''log_file='' @ cfg_logFile c]"

text \<open>\<open>writable\<close> says whether the file can be opened; the second result is its new contents.\<close>

definition saveConfigurationToFile :: "bool \<Rightarrow> AmfConfiguration \<Rightarrow> bool \<times> string option" where
  "saveConfigurationToFile writable c =
     (if \<not> writable then (False, None)
      else (True, Some (concat (map (\<lambda>l. l @ [LF]) (config_lines c)))))"

section \<open>Reading back what was written\<close>

definition saved_value :: "string \<Rightarrow> bool" where
  "saved_value v \<longleftrightarrow> trimmed v \<and> LF \<notin> set v"

definition saveable :: "AmfConfiguration \<Rightarrow> bool" where
  "saveable c \<longleftrightarrow>
     list_all saved_value [cfg_amfInstanceId c, cfg_amfName c, cfg_plmnId c, cfg_sbiBindAddress c,
       cfg_nrfUri c, cfg_logLevel c, cfg_logFile c] \<and>
     list_all (\<lambda>p. - 2147483648 \<le> p \<and> p \<le> 2147483647) [cfg_sbiPort c, cfg_n2Port c]"

lemma split_line_item:
  assumes "CHR ''='' \<notin> set key" and "key \<noteq> []" and "hd key \<noteq> CHR ''#''" and "trimmed key"
    and "trimmed val"
  shows "split_line (key @ CHR ''='' # val) = Some (key, val)"
  using assms by (simp add: split_line_def find_char_append trim_blanks_id)

lemmas split_line_known =
  split_line_item [of "''amf_instance_id''", simplified] split_line_item [of "''amf_name''", simplified]
  split_line_item [of "''plmn_id''", simplified] split_line_item [of "''sbi_bind_address''", simplified]
  split_line_item [of "''sbi_port''", simplified] split_line_item [of "''n2_port''", simplified]
  split_line_item [of "''nrf_uri''", simplified] split_line_item [of "''log_level''", simplified]
  split_line_item [of "''log_file''", simplified]

lemma split_line_comment: "split_line (CHR ''#'' # s) = None"
  by (simp add: split_line_def)

lemma config_lines_no_newline:
  assumes "saveable c" and "l \<in> set (config_lines c)"
  shows "LF \<notin> set l"
  using assms int_dec_trimmed by (auto simp: config_lines_def saveable_def saved_value_def)

lemma load_config_lines:
  assumes "saveable c"
  shows "load_lines (config_lines c) c0 =
    (Inr True, c0\<lparr>cfg_amfInstanceId := cfg_amfInstanceId c, cfg_amfName := cfg_amfName c,
       cfg_plmnId := cfg_plmnId c, cfg_sbiBindAddress := cfg_sbiBindAddress c,
       cfg_sbiPort := cfg_sbiPort c, cfg_n2Port := cfg_n2Port c, cfg_nrfUri := cfg_nrfUri c,
       cfg_logLevel := cfg_logLevel c, cfg_logFile := cfg_logFile c\<rparr>)"
  using assms int_dec_trimmed
  by (simp add: config_lines_def saveable_def saved_value_def split_line_known split_line_comment
      trimmed_def is_blank_def apply_item_def stoi_int_dec)

text \<open>
  Saving a configuration and loading the file restores the nine saved settings and changes
  nothing else of the configuration loaded into, provided the saved texts have no newline and no
  blank at either end and the ports are \<open>int\<close> values.
\<close>

theorem save_load_roundtrip:
  assumes "saveable c"
  shows "loadConfigurationFromFile (snd (saveConfigurationToFile True c)) c0 =
    (Inr True, c0\<lparr>cfg_amfInstanceId := cfg_amfInstanceId c, cfg_amfName := cfg_amfName c,
       cfg_plmnId := cfg_plmnId c, cfg_sbiBindAddress := cfg_sbiBindAddress c,
       cfg_sbiPort := cfg_sbiPort c, cfg_n2Port := cfg_n2Port c, cfg_nrfUri := cfg_nrfUri c,
       cfg_logLevel := cfg_logLevel c, cfg_logFile := cfg_logFile c\<rparr>)"
  using getlines_concat [of "config_lines c"] config_lines_no_newline [OF assms]
    load_config_lines [OF assms]
  by (simp add: loadConfigurationFromFile_def saveConfigurationToFile_def)

theorem save_load_roundtrip_witness:
  "saveable getDefaultConfiguration \<and>
   loadConfigurationFromFile (snd (saveConfigurationToFile True getDefaultConfiguration)) getDefaultConfiguration
     = (Inr True, getDefaultConfiguration)"
proof -
  have s: "saveable getDefaultConfiguration"
    by (simp add: saveable_def saved_value_def getDefaultConfiguration_def trimmed_def is_blank_def)
  with save_load_roundtrip [OF s, of getDefaultConfiguration] show ?thesis by simp
qed

end
