(* ===== verification/Amf_Sm.thy ===== *)
theory Amf_Sm
  imports Ue_Context N1N2_Interface Nf_Management Sbi_Message Amf_Configuration
begin

text \<open>
  The AMF state machine (\<open>5gc/amf/include/AmfSm.h\<close>, \<open>5gc/amf/src/AmfSm.cpp\<close>).

  The record \<open>AmfSm\<close> has the members of the class, the state of the four singletons it points to,
  and the two function-local statics of \<open>updateResponseTimeStatistics\<close>. The constructor leaves
  the four manager pointers and four statistics uninitialised: the pointer flags
  (\<open>True\<close>: the pointer holds the address of the singleton; \<open>False\<close>: it is null) and the statistics are
  then whatever \<open>env\<close> says; a pointer holding any other address has no defined behaviour and is
  outside the model. Operations that have the same name with and without parameters in
  C++ carry the suffix \<open>_supi\<close> for the parametrised overload. Callbacks are numbered; calling one
  appends to a log. \<open>amfMutex_\<close> is a flag that stays set when the thread holding it blocks for ever.
  Console output is not modelled. Statistics of type \<open>int\<close> are unbounded integers; the bounds
  proved for them show how long no overflow can occur. \<open>double\<close> values are reals.
\<close>

section \<open>Data\<close>

datatype UeState =
    DEREGISTERED | REGISTERED_IDLE | REGISTERED_CONNECTED

datatype UeEvent =
    REGISTRATION_REQUEST | REGISTRATION_ACCEPT | REGISTRATION_REJECT
  | DEREGISTER_REQUEST | DEREGISTER_ACCEPT | SERVICE_REQUEST
  | SERVICE_ACCEPT | SERVICE_REJECT | AN_RELEASE
  | CONNECTION_RELEASE | PAGING_REQUEST | PAGING_RESPONSE
  | PAGING_FAILURE | HANDOVER_REQUEST | HANDOVER_COMMAND
  | HANDOVER_COMPLETE | HANDOVER_FAILURE | TRACKING_AREA_UPDATE
  | PERIODIC_REGISTRATION_UPDATE | AUTHENTICATION_REQUEST | AUTHENTICATION_RESPONSE
  | AUTHENTICATION_FAILURE | SECURITY_MODE_COMMAND | SECURITY_MODE_COMPLETE
  | SECURITY_MODE_REJECT | PDU_SESSION_ESTABLISHMENT_REQUEST | PDU_SESSION_ESTABLISHMENT_ACCEPT
  | PDU_SESSION_ESTABLISHMENT_REJECT | PDU_SESSION_MODIFICATION_REQUEST | PDU_SESSION_RELEASE_REQUEST
  | NETWORK_FAILURE | TIMEOUT_T3510 | TIMEOUT_T3511
  | TIMEOUT_T3513 | TIMEOUT_T3560 | CONFIGURATION_UPDATE_COMMAND
  | CONFIGURATION_UPDATE_COMPLETE | EMERGENCY_REGISTRATION | EMERGENCY_SERVICE_REQUEST

record AmfStatistics =
  st_totalUeRegistrations :: int
  st_activeUeConnections :: int
  st_totalUeContexts :: int
  st_totalPduSessions :: int
  st_activePduSessions :: int
  st_totalHandovers :: int
  st_totalAuthenticationAttempts :: int
  st_successfulAuthentications :: int
  st_totalSbiMessages :: int
  st_totalN1Messages :: int
  st_totalN2Messages :: int
  st_averageResponseTime :: real
  st_systemLoad :: int
  st_memoryUsage :: int
  st_cpuUsage :: int
  st_registeredNfInstances :: int
  st_healthyNfInstances :: int

record AmfSm =
  sm_config :: AmfConfiguration
  sm_currentState :: UeState
  sm_statistics :: AmfStatistics
  sm_isInitialized :: bool
  sm_isRunning :: bool
  sm_mutexHeld :: bool
  sm_pendingMessages :: "SbiMessage list"
  sm_sbiCallbacks :: "(SbiMessageType \<times> nat) list"
  sm_eventSubscriptions :: "nat smap"
  sm_hasUeMgr :: bool
  sm_hasN1N2 :: bool
  sm_hasNfMgr :: bool
  sm_hasAmfNf :: bool
  sm_monitoringRunning :: bool
  sm_ueMgr :: UeContextManager
  sm_n1n2 :: N1N2InterfaceManager
  sm_nfMgr :: NfManager
  sm_amfNf :: AmfNfInstance
  sm_respTotal :: real
  sm_respCount :: int
  sm_sbiInvoked :: "(nat \<times> SbiMessage) list"
  sm_eventInvoked :: "(nat \<times> string) list"

definition empty_config :: "env \<Rightarrow> AmfConfiguration" where
  "empty_config e = \<lparr>
     cfg_amfInstanceId = [], cfg_amfName = [], cfg_amfRegionId = [], cfg_amfSetId = [],
     cfg_amfPointer = [], cfg_plmnId = [], cfg_taiList = [], cfg_plmnList = [],
     cfg_sbiBindAddress = [], cfg_sbiPort = indet_int e ''sbiPort'', cfg_n1n2BindAddress = [],
     cfg_n2Port = indet_int e ''n2Port'', cfg_amfKey = [], cfg_supportedAlgorithms = [],
     cfg_authenticationTimeout = indet_int e ''authenticationTimeout'', cfg_supportedSlices = [],
     cfg_maxUeConnections = indet_int e ''maxUeConnections'',
     cfg_loadBalanceThreshold = indet_int e ''loadBalanceThreshold'',
     cfg_t3510Timer = indet_int e ''t3510Timer'', cfg_t3511Timer = indet_int e ''t3511Timer'',
     cfg_t3513Timer = indet_int e ''t3513Timer'', cfg_t3560Timer = indet_int e ''t3560Timer'',
     cfg_nrfUri = [], cfg_nfHeartbeatInterval = indet_int e ''nfHeartbeatInterval'',
     cfg_logLevel = [], cfg_logFile = []\<rparr>"

text \<open>A new state machine beside freshly created singletons.\<close>

definition AmfSm_new :: "env \<Rightarrow> AmfSm" where
  "AmfSm_new e = \<lparr>
     sm_config = empty_config e,
     sm_currentState = UeState.DEREGISTERED,
     sm_statistics = \<lparr>
       st_totalUeRegistrations = 0, st_activeUeConnections = 0,
       st_totalUeContexts = indet_int e ''totalUeContexts'',
       st_totalPduSessions = 0, st_activePduSessions = indet_int e ''activePduSessions'',
       st_totalHandovers = 0, st_totalAuthenticationAttempts = 0, st_successfulAuthentications = 0,
       st_totalSbiMessages = 0, st_totalN1Messages = 0, st_totalN2Messages = 0,
       st_averageResponseTime = 0, st_systemLoad = 0, st_memoryUsage = 0, st_cpuUsage = 0,
       st_registeredNfInstances = indet_int e ''registeredNfInstances'',
       st_healthyNfInstances = indet_int e ''healthyNfInstances''\<rparr>,
     sm_isInitialized = False, sm_isRunning = False, sm_mutexHeld = False,
     sm_pendingMessages = [], sm_sbiCallbacks = [], sm_eventSubscriptions = [],
     sm_hasUeMgr = indet_bool e ''ueContextManager_'',
     sm_hasN1N2 = indet_bool e ''n1n2InterfaceManager_'',
     sm_hasNfMgr = indet_bool e ''nfManager_'',
     sm_hasAmfNf = indet_bool e ''amfNfInstance_'',
     sm_monitoringRunning = False,
     sm_ueMgr = UeContextManager_init, sm_n1n2 = N1N2InterfaceManager_init,
     sm_nfMgr = NfManager_init, sm_amfNf = AmfNfInstance_init,
     sm_respTotal = 0, sm_respCount = 0, sm_sbiInvoked = [], sm_eventInvoked = []\<rparr>"

section \<open>UE contexts and UE procedures\<close>

text \<open>\<open>bump f\<close> is \<open>statistics_.f++\<close>; \<open>drop_connection\<close> is the guarded decrement.\<close>

definition bump :: "((int \<Rightarrow> int) \<Rightarrow> AmfStatistics \<Rightarrow> AmfStatistics) \<Rightarrow> AmfSm \<Rightarrow> AmfSm" where
  "bump f s = s\<lparr>sm_statistics := f (\<lambda>n. n + 1) (sm_statistics s)\<rparr>"

definition drop_connection :: "AmfSm \<Rightarrow> AmfSm" where
  "drop_connection s = s\<lparr>sm_statistics := (sm_statistics s)
     \<lparr>st_activeUeConnections := max 0 (st_activeUeConnections (sm_statistics s) - 1)\<rparr>\<rparr>"

definition sm_getUeContext :: "AmfSm \<Rightarrow> string \<Rightarrow> UeContext option" where
  "sm_getUeContext s supi = (if \<not> sm_hasUeMgr s then None else getUeContext (sm_ueMgr s) supi)"

definition sm_createUeContext :: "env \<Rightarrow> string \<Rightarrow> AmfSm \<Rightarrow> bool \<times> AmfSm" where
  "sm_createUeContext e supi s =
     (if \<not> sm_hasUeMgr s then (False, s)
      else (True, s\<lparr>sm_ueMgr := createUeContext e supi (sm_ueMgr s)\<rparr>))"

definition sm_removeUeContext :: "string \<Rightarrow> AmfSm \<Rightarrow> bool \<times> AmfSm" where
  "sm_removeUeContext supi s =
     (if \<not> sm_hasUeMgr s then (False, s)
      else (True, s\<lparr>sm_ueMgr := removeUeContext supi (sm_ueMgr s)\<rparr>))"

definition update_ue :: "string \<Rightarrow> (UeContext \<Rightarrow> UeContext) \<Rightarrow> AmfSm \<Rightarrow> AmfSm" where
  "update_ue supi f s = s\<lparr>sm_ueMgr := modifyUe supi f (sm_ueMgr s)\<rparr>"

text \<open>The shape shared by the procedures: no context, no effect.\<close>

definition with_ue :: "string \<Rightarrow> (AmfSm \<Rightarrow> AmfSm) \<Rightarrow> AmfSm \<Rightarrow> bool \<times> AmfSm" where
  "with_ue supi f s = (case sm_getUeContext s supi of None \<Rightarrow> (False, s) | Some _ \<Rightarrow> (True, f s))"

definition processDeregistrationRequest :: "string \<Rightarrow> string \<Rightarrow> AmfSm \<Rightarrow> bool \<times> AmfSm" where
  "processDeregistrationRequest supi deregCause s =
     with_ue supi
       (\<lambda>s. drop_connection
          (update_ue supi (\<lambda>c. setConnectionState ''IDLE'' (setRegistrationState ''DEREGISTERED'' c)) s)) s"

definition processHandoverRequest :: "string \<Rightarrow> string \<Rightarrow> AmfSm \<Rightarrow> bool \<times> AmfSm" where
  "processHandoverRequest supi targetRanId s =
     with_ue supi
       (\<lambda>s. bump st_totalHandovers_update (update_ue supi (setRanNodeId targetRanId) s)) s"

definition completeHandover :: "string \<Rightarrow> string \<Rightarrow> AmfSm \<Rightarrow> bool \<times> AmfSm" where
  "completeHandover supi gnbId s = with_ue supi (update_ue supi (setRanNodeId gnbId)) s"

definition new_pdu_session :: "env \<Rightarrow> int \<Rightarrow> string \<Rightarrow> PduSession" where
  "new_pdu_session e sessionId dnn = \<lparr>pdu_sessionId = sessionId, pdu_dnn = dnn, pdu_sNssai = [],
     pdu_pduType = [], pdu_smfId = [], pdu_upfId = [], pdu_qosFlowId = [], pdu_state = ''ACTIVE'',
     pdu_isActive = indet_bool e ''isActive'', pdu_establishTime = 0\<rparr>"

definition createPduSession :: "env \<Rightarrow> string \<Rightarrow> int \<Rightarrow> string \<Rightarrow> AmfSm \<Rightarrow> bool \<times> AmfSm" where
  "createPduSession e supi sessionId dnn s =
     with_ue supi
       (\<lambda>s. bump st_totalPduSessions_update
          (update_ue supi (addPduSession e (new_pdu_session e sessionId dnn)) s)) s"

definition releasePduSession :: "env \<Rightarrow> string \<Rightarrow> int \<Rightarrow> AmfSm \<Rightarrow> bool \<times> AmfSm" where
  "releasePduSession e supi sessionId s = with_ue supi (update_ue supi (removePduSession e sessionId)) s"

definition initiateAuthentication :: "string \<Rightarrow> AmfSm \<Rightarrow> bool \<times> AmfSm" where
  "initiateAuthentication supi s = with_ue supi (bump st_totalAuthenticationAttempts_update) s"

definition processAuthenticationResponse :: "string \<Rightarrow> string \<Rightarrow> AmfSm \<Rightarrow> bool \<times> AmfSm" where
  "processAuthenticationResponse supi authResponse s =
     with_ue supi (bump st_successfulAuthentications_update) s"

definition processTrackingAreaUpdate_supi :: "string \<Rightarrow> string \<Rightarrow> AmfSm \<Rightarrow> bool \<times> AmfSm" where
  "processTrackingAreaUpdate_supi supi newTai s = with_ue supi (update_ue supi (setTai newTai)) s"

definition processRegistrationRequest :: "env \<Rightarrow> string \<Rightarrow> string \<Rightarrow> AmfSm \<Rightarrow> bool \<times> AmfSm" where
  "processRegistrationRequest e supi registrationType s =
     (case (case sm_getUeContext s supi of
              Some _ \<Rightarrow> (True, s)
            | None \<Rightarrow> sm_createUeContext e supi s) of
        (False, s1) \<Rightarrow> (False, s1)
      | (True, s1) \<Rightarrow>
          (True,
           bump st_activeUeConnections_update (bump st_totalUeRegistrations_update
             (update_ue supi (\<lambda>c. setConnectionState ''CONNECTED'' (setRegistrationState ''REGISTERED'' c)) s1))))"

section \<open>The state machine\<close>

definition transitionTo :: "UeState \<Rightarrow> AmfSm \<Rightarrow> AmfSm" where
  "transitionTo newState s =
     (if sm_currentState s \<noteq> newState
      then (if newState = REGISTERED_CONNECTED then bump st_activeUeConnections_update s
            else if sm_currentState s = REGISTERED_CONNECTED then drop_connection s
            else s)\<lparr>sm_currentState := newState\<rparr>
      else s)"

definition handleDeregisteredState :: "env \<Rightarrow> UeEvent \<Rightarrow> AmfSm \<Rightarrow> AmfSm" where
  "handleDeregisteredState e ev s =
     (if ev = UeEvent.REGISTRATION_REQUEST then
        bump st_totalUeRegistrations_update (transitionTo REGISTERED_CONNECTED
          (snd (processRegistrationRequest e ''unknown_supi'' ''normal'' s)))
      else if ev = EMERGENCY_REGISTRATION then
        bump st_totalUeRegistrations_update (transitionTo REGISTERED_CONNECTED
          (snd (processRegistrationRequest e ''unknown_supi'' ''emergency'' s)))
      else s)"

definition handleRegisteredIdleState :: "env \<Rightarrow> UeEvent \<Rightarrow> AmfSm \<Rightarrow> AmfSm" where
  "handleRegisteredIdleState e ev s =
     (if ev = UeEvent.SERVICE_REQUEST \<or> ev = EMERGENCY_SERVICE_REQUEST \<or> ev = PAGING_RESPONSE then
        transitionTo REGISTERED_CONNECTED s
      else if ev = PDU_SESSION_ESTABLISHMENT_REQUEST then
        bump st_totalPduSessions_update (transitionTo REGISTERED_CONNECTED
          (snd (createPduSession e ''unknown_supi'' 1 ''internet'' s)))
      else if ev = UeEvent.HANDOVER_REQUEST then
        bump st_totalHandovers_update (transitionTo REGISTERED_CONNECTED
          (snd (processHandoverRequest ''unknown_supi'' ''gnb-001'' s)))
      else if ev = DEREGISTER_REQUEST \<or> ev = TIMEOUT_T3511 \<or> ev = NETWORK_FAILURE then
        transitionTo UeState.DEREGISTERED
          (snd (processDeregistrationRequest ''unknown_supi'' ''user_request'' s))
      else if ev = TRACKING_AREA_UPDATE then
        snd (processTrackingAreaUpdate_supi ''unknown_supi'' ''tai_001'' s)
      else if ev = PERIODIC_REGISTRATION_UPDATE then
        snd (processRegistrationRequest e ''unknown_supi'' ''periodic'' s)
      else s)"

definition handleRegisteredConnectedState :: "env \<Rightarrow> UeEvent \<Rightarrow> AmfSm \<Rightarrow> AmfSm" where
  "handleRegisteredConnectedState e ev s =
     (if ev = AN_RELEASE \<or> ev = CONNECTION_RELEASE then
        transitionTo REGISTERED_IDLE s
      else if ev = HANDOVER_COMPLETE then
        transitionTo REGISTERED_IDLE (snd (completeHandover ''unknown_supi'' ''gnb-001'' s))
      else if ev = PDU_SESSION_RELEASE_REQUEST then
        transitionTo REGISTERED_IDLE (snd (releasePduSession e ''unknown_supi'' 1 s))
      else if ev = DEREGISTER_REQUEST \<or> ev = DEREGISTER_ACCEPT \<or> ev = NETWORK_FAILURE
              \<or> ev = UeEvent.AUTHENTICATION_FAILURE then
        transitionTo UeState.DEREGISTERED
          (snd (processDeregistrationRequest ''unknown_supi'' ''user_request'' s))
      else if ev = UeEvent.AUTHENTICATION_REQUEST then
        bump st_totalAuthenticationAttempts_update (snd (initiateAuthentication ''unknown_supi'' s))
      else if ev = UeEvent.AUTHENTICATION_RESPONSE then
        bump st_successfulAuthentications_update
          (snd (processAuthenticationResponse ''unknown_supi'' ''auth_response_data'' s))
      else s)"

definition updateResponseTimeStatistics :: "real \<Rightarrow> AmfSm \<Rightarrow> AmfSm" where
  "updateResponseTimeStatistics responseTime s =
     (let total = sm_respTotal s + responseTime; cnt = sm_respCount s + 1
      in s\<lparr>sm_respTotal := total, sm_respCount := cnt,
           sm_statistics := (sm_statistics s)\<lparr>st_averageResponseTime := total / real_of_int cnt\<rparr>\<rparr>)"

definition handleEvent :: "env \<Rightarrow> UeEvent \<Rightarrow> AmfSm \<Rightarrow> AmfSm" where
  "handleEvent e ev s =
     updateResponseTimeStatistics (env_resp e)
       (case sm_currentState s of
          UeState.DEREGISTERED \<Rightarrow> handleDeregisteredState e ev s
        | REGISTERED_IDLE \<Rightarrow> handleRegisteredIdleState e ev s
        | REGISTERED_CONNECTED \<Rightarrow> handleRegisteredConnectedState e ev s)"

section \<open>N1 and N2 interface\<close>

definition sm_sendN1Message :: "N1Message \<Rightarrow> AmfSm \<Rightarrow> bool \<times> AmfSm" where
  "sm_sendN1Message msg s =
     (if \<not> sm_hasN1N2 s then (False, s)
      else case mgr_sendN1Message msg (sm_n1n2 s) of
             (result, m) \<Rightarrow>
               (result, (if result then bump st_totalN1Messages_update else id) (s\<lparr>sm_n1n2 := m\<rparr>)))"

definition sm_sendN2Message :: "N2Message \<Rightarrow> AmfSm \<Rightarrow> bool \<times> AmfSm" where
  "sm_sendN2Message msg s =
     (if \<not> sm_hasN1N2 s then (False, s)
      else case mgr_sendN2Message msg (sm_n1n2 s) of
             (result, m) \<Rightarrow>
               (result, (if result then bump st_totalN2Messages_update else id) (s\<lparr>sm_n1n2 := m\<rparr>)))"

definition sm_handleN1Message :: "env \<Rightarrow> N1Message \<Rightarrow> AmfSm \<Rightarrow> AmfSm" where
  "sm_handleN1Message e msg s =
     (let s1 = bump st_totalN1Messages_update s
      in case n1_messageType msg of
           N1MessageType.REGISTRATION_REQUEST \<Rightarrow> handleEvent e UeEvent.REGISTRATION_REQUEST s1
         | DEREGISTRATION_REQUEST_UE_ORIG \<Rightarrow> handleEvent e DEREGISTER_REQUEST s1
         | DEREGISTRATION_REQUEST_UE_TERM \<Rightarrow> handleEvent e DEREGISTER_REQUEST s1
         | N1MessageType.SERVICE_REQUEST \<Rightarrow> handleEvent e UeEvent.SERVICE_REQUEST s1
         | N1MessageType.AUTHENTICATION_RESPONSE \<Rightarrow> handleEvent e UeEvent.AUTHENTICATION_RESPONSE s1
         | N1MessageType.SECURITY_MODE_COMPLETE \<Rightarrow> handleEvent e UeEvent.SECURITY_MODE_COMPLETE s1
         | _ \<Rightarrow> s1)"

definition sm_handleN2Message :: "env \<Rightarrow> N2Message \<Rightarrow> AmfSm \<Rightarrow> AmfSm" where
  "sm_handleN2Message e msg s =
     (let s1 = bump st_totalN2Messages_update s
      in case n2_messageType msg of
           INITIAL_CONTEXT_SETUP_RESPONSE \<Rightarrow> s1
         | UE_CONTEXT_RELEASE_COMPLETE \<Rightarrow> handleEvent e CONNECTION_RELEASE s1
         | HANDOVER_REQUEST_ACKNOWLEDGE \<Rightarrow> s1
         | HANDOVER_NOTIFY \<Rightarrow> handleEvent e HANDOVER_COMPLETE s1
         | _ \<Rightarrow> s1)"

definition n1_message :: "N1MessageType \<Rightarrow> string \<Rightarrow> (string \<times> string) list \<Rightarrow> N1Message" where
  "n1_message t ueId ies = \<lparr>n1_messageType = t, n1_ueId = ueId, n1_nasMessageContainer = [],
     n1_ieList = foldl (\<lambda>m (k, v). mput k v m) [] ies, n1_timestamp = 0\<rparr>"

definition n2_message :: "N2MessageType \<Rightarrow> string \<Rightarrow> (string \<times> string) list \<Rightarrow> N2Message" where
  "n2_message t ranNodeId ies = \<lparr>n2_messageType = t, n2_ranNodeId = ranNodeId, n2_ueNgapId = [],
     n2_amfUeNgapId = [], n2_ngapContainer = [],
     n2_ieList = foldl (\<lambda>m (k, v). mput k v m) [] ies, n2_timestamp = 0\<rparr>"

definition send_n1_if_up :: "N1Message \<Rightarrow> AmfSm \<Rightarrow> AmfSm" where
  "send_n1_if_up msg s = (if sm_hasN1N2 s then snd (sm_sendN1Message msg s) else s)"

definition send_n2_if_up :: "N2Message \<Rightarrow> AmfSm \<Rightarrow> AmfSm" where
  "send_n2_if_up msg s = (if sm_hasN1N2 s then snd (sm_sendN2Message msg s) else s)"

definition processPeriodicRegistrationUpdate_supi :: "env \<Rightarrow> string \<Rightarrow> AmfSm \<Rightarrow> bool \<times> AmfSm" where
  "processPeriodicRegistrationUpdate_supi e supi s =
     with_ue supi
       (\<lambda>s. send_n1_if_up (n1_message N1MessageType.REGISTRATION_ACCEPT supi [(''registrationType'', ''periodic-updating'')])
          (update_ue supi (updateLastActivity e) s)) s"

definition processServiceRequest :: "AmfSm \<Rightarrow> AmfSm" where
  "processServiceRequest s =
     send_n2_if_up (n2_message INITIAL_CONTEXT_SETUP_REQUEST ''gnb-001'' [(''ueContext'', ''context-data'')]) s"

definition processServiceRequest_supi :: "string \<Rightarrow> string \<Rightarrow> AmfSm \<Rightarrow> AmfSm" where
  "processServiceRequest_supi supi serviceType s =
     send_n2_if_up (n2_message INITIAL_CONTEXT_SETUP_REQUEST ''gnb-001''
       [(''ueId'', supi), (''serviceType'', serviceType)]) s"

definition processConnectionRelease :: "AmfSm \<Rightarrow> AmfSm" where
  "processConnectionRelease s =
     send_n2_if_up (n2_message UE_CONTEXT_RELEASE_COMMAND ''gnb-001'' [(''releaseReason'', ''normal'')]) s"

definition processConnectionRelease_supi :: "string \<Rightarrow> string \<Rightarrow> AmfSm \<Rightarrow> bool \<times> AmfSm" where
  "processConnectionRelease_supi supi releaseReason s =
     (case sm_getUeContext s supi of
        None \<Rightarrow> (False, s)
      | Some c \<Rightarrow>
          (True, send_n2_if_up (n2_message UE_CONTEXT_RELEASE_COMMAND (acc_ranNodeId (ue_accessInfo c))
             [(''ueId'', supi), (''releaseReason'', releaseReason)])
             (update_ue supi (setConnectionState ''IDLE'') s)))"

definition processPagingRequest :: "AmfSm \<Rightarrow> AmfSm" where
  "processPagingRequest s =
     send_n2_if_up (n2_message PAGING ''gnb-001'' [(''pagingCause'', ''mt-call'')]) s"

definition processPagingRequest_supi :: "string \<Rightarrow> string \<Rightarrow> AmfSm \<Rightarrow> AmfSm" where
  "processPagingRequest_supi supi pagingCause s =
     send_n2_if_up (n2_message PAGING ''gnb-001''
       [(''ueId'', supi), (''pagingCause'', pagingCause), (''pagingPriority'', ''normal'')]) s"

section \<open>Network slices and load\<close>

definition validateNetworkSlice :: "AmfSm \<Rightarrow> string \<Rightarrow> bool" where
  "validateNetworkSlice s snssai = list_ex (\<lambda>x. x = snssai) (cfg_supportedSlices (sm_config s))"

definition getSupportedSlices :: "AmfSm \<Rightarrow> string list" where
  "getSupportedSlices s = cfg_supportedSlices (sm_config s)"

definition getAllowedSlices :: "AmfSm \<Rightarrow> string \<Rightarrow> NetworkSlice list" where
  "getAllowedSlices s supi =
     (case sm_getUeContext s supi of
        None \<Rightarrow> []
      | Some c \<Rightarrow> filter (\<lambda>sl. list_ex (\<lambda>x. x = ns_snssai sl) (getSupportedSlices s))
                    (sub_subscribedSlices (ue_subscriptionInfo c)))"

definition calculateCurrentLoad :: "AmfSm \<Rightarrow> int" where
  "calculateCurrentLoad s =
     (let maxConnections = cfg_maxUeConnections (sm_config s)
      in if maxConnections = 0 then 0
         else tdiv (st_activeUeConnections (sm_statistics s) * 100) maxConnections)"

definition checkLoadBalance :: "AmfSm \<Rightarrow> bool" where
  "checkLoadBalance s \<longleftrightarrow> calculateCurrentLoad s < cfg_loadBalanceThreshold (sm_config s)"

section \<open>Discovery of other network functions\<close>

definition amf_query :: "env \<Rightarrow> NfType \<Rightarrow> string \<Rightarrow> NfDiscoveryQuery" where
  "amf_query e t requesterId = (empty_query e t)
     \<lparr>q_requesterNfType := nfTypeToString AMF, q_requesterNfInstanceId := requesterId\<rparr>"

definition selectSmfForSession ::
  "(NfInstance list \<Rightarrow> NfInstance list) \<Rightarrow> env \<Rightarrow> string \<Rightarrow> NetworkSlice \<Rightarrow> AmfSm \<Rightarrow> NfInstance option" where
  "selectSmfForSession srt e dnn sl s =
     (if \<not> sm_hasNfMgr s \<or> \<not> sm_hasAmfNf s then None
      else let q = (amf_query e SMF (nf_instanceId (amfInstance (sm_amfNf s))))
                     \<lparr>q_dnn := dnn, q_snssai := ns_snssai sl\<rparr>
           in if discoverNfInstances srt e q (sm_nfMgr s) = [] then None
              else selectNfInstance srt e SMF (nf_plmnId (amfInstance (sm_amfNf s))) (sm_nfMgr s))"

definition selectAusfForAuthentication ::
  "(NfInstance list \<Rightarrow> NfInstance list) \<Rightarrow> env \<Rightarrow> AmfSm \<Rightarrow> NfInstance option" where
  "selectAusfForAuthentication srt e s =
     (if \<not> sm_hasNfMgr s \<or> \<not> sm_hasAmfNf s then None
      else if discoverNfInstances srt e
                (amf_query e AUSF (nf_instanceId (amfInstance (sm_amfNf s)))) (sm_nfMgr s) = [] then None
      else selectNfInstance srt e AUSF (nf_plmnId (amfInstance (sm_amfNf s))) (sm_nfMgr s))"

definition discoverNf ::
  "(NfInstance list \<Rightarrow> NfInstance list) \<Rightarrow> env \<Rightarrow> NfType \<Rightarrow> string \<Rightarrow> AmfSm \<Rightarrow> NfInstance list" where
  "discoverNf srt e t serviceName s =
     (if \<not> sm_hasNfMgr s then []
      else discoverNfInstances srt e
             ((amf_query e t (cfg_amfInstanceId (sm_config s)))\<lparr>q_serviceName := serviceName\<rparr>) (sm_nfMgr s))"

definition selectBestNf ::
  "(NfInstance list \<Rightarrow> NfInstance list) \<Rightarrow> env \<Rightarrow> NfType \<Rightarrow> string \<Rightarrow> AmfSm \<Rightarrow> NfInstance option" where
  "selectBestNf srt e t serviceName s =
     (if \<not> sm_hasNfMgr s then None
      else selectNfInstance srt e t (cfg_plmnId (sm_config s)) (sm_nfMgr s))"

section \<open>Events, statistics, configuration, health\<close>

definition subscribeToEvents :: "string \<Rightarrow> nat \<Rightarrow> AmfSm \<Rightarrow> AmfSm" where
  "subscribeToEvents eventType callback s =
     s\<lparr>sm_eventSubscriptions := mput eventType callback (sm_eventSubscriptions s)\<rparr>"

definition notifyEvent :: "string \<Rightarrow> string \<Rightarrow> AmfSm \<Rightarrow> AmfSm" where
  "notifyEvent eventType eventData s =
     (case map_of (sm_eventSubscriptions s) eventType of
        Some cb \<Rightarrow> s\<lparr>sm_eventInvoked := sm_eventInvoked s @ [(cb, eventData)]\<rparr>
      | None \<Rightarrow> s)"

definition healthy_sum :: "(NfType \<times> nat) list \<Rightarrow> int" where
  "healthy_sum nfStats = foldl (\<lambda>n (_, cnt). if 0 < cnt then n + int cnt else n) 0 nfStats"

definition live_statistics :: "AmfSm \<Rightarrow> AmfStatistics" where
  "live_statistics s =
     (let t1 = (if sm_hasUeMgr s
                then (sm_statistics s)\<lparr>st_totalUeContexts := int (getRegisteredUeCount (sm_ueMgr s)),
                        st_activePduSessions := int (getActiveSessionCount (sm_ueMgr s))\<rparr>
                else sm_statistics s)
      in if sm_hasNfMgr s
         then (let nfStats = getNfStatistics (sm_nfMgr s)
               in t1\<lparr>st_registeredNfInstances := int (length nfStats),
                     st_healthyNfInstances := healthy_sum nfStats\<rparr>)
         else t1)"

definition getStatistics :: "AmfSm \<Rightarrow> AmfStatistics" where
  "getStatistics s = live_statistics s"

text \<open>\<open>r1\<close> and \<open>r2\<close> are the two results of \<open>rand()\<close>.\<close>

definition updateStatistics :: "nat \<Rightarrow> nat \<Rightarrow> AmfSm \<Rightarrow> AmfSm" where
  "updateStatistics r1 r2 s =
     s\<lparr>sm_statistics := (live_statistics s)
        \<lparr>st_systemLoad := calculateCurrentLoad s,
         st_memoryUsage := 45 + int (r1 mod 20),
         st_cpuUsage := 30 + int (r2 mod 30)\<rparr>\<rparr>"

definition updateConfiguration :: "AmfConfiguration \<Rightarrow> AmfSm \<Rightarrow> bool \<times> AmfSm" where
  "updateConfiguration cfg s = (True, s\<lparr>sm_config := cfg\<rparr>)"

definition sm_performHealthCheck :: "AmfSm \<Rightarrow> bool" where
  "sm_performHealthCheck s \<longleftrightarrow>
     sm_isInitialized s \<and> sm_hasUeMgr s \<and> sm_hasN1N2 s \<and> sm_hasNfMgr s \<and>
     \<not> 90 < st_systemLoad (sm_statistics s)"

section \<open>SBI messages\<close>

definition createSbiResponse :: "SbiMessage \<Rightarrow> SbiMessageType \<Rightarrow> int \<Rightarrow> SbiMessage" where
  "createSbiResponse request responseType statusCode =
     addHeader ''Location'' (sbi_uri request @ ''/response'')
       (addHeader ''Content-Type'' ''application/json''
         (setStatus (if 200 \<le> statusCode \<and> statusCode < 300 then SUCCESS else FAILED)
           (setStatusCode statusCode
             (SbiMessage_new (sbi_serviceType request) responseType POST))))"

definition sendSbiMessage :: "SbiMessage \<Rightarrow> AmfSm \<Rightarrow> AmfSm" where
  "sendSbiMessage msg s =
     s\<lparr>sm_pendingMessages := sm_pendingMessages s @ [setStatus PENDING msg]\<rparr>"

definition registerSbiCallback :: "SbiMessageType \<Rightarrow> nat \<Rightarrow> AmfSm \<Rightarrow> AmfSm" where
  "registerSbiCallback t cb s = s\<lparr>sm_sbiCallbacks := mput t cb (sm_sbiCallbacks s)\<rparr>"

definition handleRegistrationSbiMessages :: "env \<Rightarrow> SbiMessage \<Rightarrow> AmfSm \<Rightarrow> AmfSm" where
  \<open>handleRegistrationSbiMessages e msg s =
     (case sbi_messageType msg of
        UE_CONTEXT_CREATE_REQUEST \<Rightarrow>
          (if sm_currentState s = UeState.DEREGISTERED then
             handleEvent e UeEvent.REGISTRATION_REQUEST
               (sendSbiMessage (setBody ''{"ueContextId":"ue-12345","status":"created"}''
                  (createSbiResponse msg UE_CONTEXT_CREATE_RESPONSE 201)) s)
           else
             sendSbiMessage (setBody ''{"error":"UE context already exists"}''
               (createSbiResponse msg UE_CONTEXT_CREATE_RESPONSE 409)) s)
      | SbiMessageType.UE_CONTEXT_RELEASE_REQUEST \<Rightarrow>
          handleEvent e DEREGISTER_REQUEST
            (sendSbiMessage (setBody ''{"status":"released"}''
               (createSbiResponse msg UE_CONTEXT_RELEASE_RESPONSE 200)) s)
      | _ \<Rightarrow> s)\<close>

definition handleSessionSbiMessages :: "env \<Rightarrow> SbiMessage \<Rightarrow> AmfSm \<Rightarrow> AmfSm" where
  \<open>handleSessionSbiMessages e msg s =
     (case sbi_messageType msg of
        PDU_SESSION_CREATE_SM_CONTEXT_REQUEST \<Rightarrow>
          (if sm_currentState s = REGISTERED_IDLE \<or> sm_currentState s = REGISTERED_CONNECTED then
             handleEvent e PDU_SESSION_ESTABLISHMENT_REQUEST
               (sendSbiMessage (setBody ''{"smContextId":"sm-67890","status":"created"}''
                  (createSbiResponse msg PDU_SESSION_CREATE_SM_CONTEXT_RESPONSE 201)) s)
           else
             sendSbiMessage (setBody ''{"error":"UE not registered"}''
               (createSbiResponse msg PDU_SESSION_CREATE_SM_CONTEXT_RESPONSE 403)) s)
      | PDU_SESSION_RELEASE_SM_CONTEXT_REQUEST \<Rightarrow>
          handleEvent e PDU_SESSION_RELEASE_REQUEST
            (sendSbiMessage (setBody ''{"status":"released"}''
               (createSbiResponse msg PDU_SESSION_RELEASE_SM_CONTEXT_RESPONSE 200)) s)
      | _ \<Rightarrow> s)\<close>

definition handleAuthenticationSbiMessages :: "env \<Rightarrow> SbiMessage \<Rightarrow> AmfSm \<Rightarrow> AmfSm" where
  \<open>handleAuthenticationSbiMessages e msg s =
     (case sbi_messageType msg of
        UE_AUTHENTICATION_REQUEST \<Rightarrow>
          handleEvent e UeEvent.AUTHENTICATION_REQUEST
            (sendSbiMessage (setBody ''{"authenticationVector":"av-12345","status":"success"}''
               (createSbiResponse msg UE_AUTHENTICATION_RESPONSE 200)) s)
      | _ \<Rightarrow> s)\<close>

definition handlePolicyControlSbiMessages :: "SbiMessage \<Rightarrow> AmfSm \<Rightarrow> AmfSm" where
  \<open>handlePolicyControlSbiMessages msg s =
     (case sbi_messageType msg of
        AM_POLICY_CONTROL_CREATE_REQUEST \<Rightarrow>
          sendSbiMessage (setBody ''{"policyId":"policy-12345","status":"created"}''
            (createSbiResponse msg AM_POLICY_CONTROL_CREATE_RESPONSE 201)) s
      | _ \<Rightarrow> s)\<close>

definition processSbiRequest :: "env \<Rightarrow> SbiMessage \<Rightarrow> AmfSm \<Rightarrow> AmfSm" where
  "processSbiRequest e msg s =
     (case sbi_serviceType msg of
        NAMF_COMMUNICATION \<Rightarrow> handleRegistrationSbiMessages e msg s
      | NSMF_PDU_SESSION \<Rightarrow> handleSessionSbiMessages e msg s
      | NAUSF_UE_AUTHENTICATION \<Rightarrow> handleAuthenticationSbiMessages e msg s
      | NUDM_UE_AUTHENTICATION \<Rightarrow> handleAuthenticationSbiMessages e msg s
      | NPCF_AM_POLICY_CONTROL \<Rightarrow> handlePolicyControlSbiMessages msg s
      | _ \<Rightarrow> s)"

definition processSbiResponse :: "SbiMessage \<Rightarrow> AmfSm \<Rightarrow> AmfSm" where
  "processSbiResponse msg s =
     (case map_of (sm_sbiCallbacks s) (sbi_messageType msg) of
        Some cb \<Rightarrow> s\<lparr>sm_sbiInvoked := sm_sbiInvoked s @ [(cb, msg)]\<rparr>
      | None \<Rightarrow> s)"

definition handleSbiMessage :: "env \<Rightarrow> SbiMessage \<Rightarrow> AmfSm \<Rightarrow> AmfSm" where
  "handleSbiMessage e msg s =
     (let s1 = bump st_totalSbiMessages_update s
      in if isRequest msg then processSbiRequest e msg s1
         else if isResponse msg then processSbiResponse msg s1
         else s1)"

section \<open>Initialisation, shutdown, monitoring\<close>

text \<open>
  The simulated network functions: a default-constructed profile (its \<open>priority\<close>, \<open>capacity\<close>,
  \<open>load\<close> are never set) with one default-constructed service.
\<close>

definition simulated_nf :: "env \<Rightarrow> string \<Rightarrow> NfType \<Rightarrow> NfInstance" where
  "simulated_nf e name t = \<lparr>nf_instanceId = name @ ''-001'', nf_type = t, nf_status = REGISTERED,
     nf_heartBeatTimer = [], nf_plmnId = ''plmn-001'', nf_sNssais = [], nf_taiList = [], nf_fqdn = [],
     nf_ipv4Address = [], nf_ipv6Address = [],
     nf_priority = indet_int e (name @ ''.priority''), nf_capacity = indet_int e (name @ ''.capacity''),
     nf_load = indet_int e (name @ ''.load''),
     nf_services = [(NfService_default e name)\<lparr>nfs_serviceInstanceId := name @ ''-service-001'',
                       nfs_serviceName := name @ ''-service''\<rparr>],
     nf_registrationTime = 0, nf_lastHeartbeat = 0, nf_customInfo = []\<rparr>"

definition registerOtherNfInstances :: "env \<Rightarrow> AmfSm \<Rightarrow> AmfSm" where
  "registerOtherNfInstances e s =
     (if \<not> sm_hasNfMgr s then s
      else s\<lparr>sm_nfMgr := foldl (\<lambda>m i. snd (registerNfInstance e i m)) (sm_nfMgr s)
        [simulated_nf e ''smf'' SMF, simulated_nf e ''upf'' UPF, simulated_nf e ''ausf'' AUSF,
         simulated_nf e ''udm'' UDM, simulated_nf e ''pcf'' PCF]\<rparr>)"

definition startMonitoring :: "AmfSm \<Rightarrow> AmfSm" where
  "startMonitoring s = s\<lparr>sm_monitoringRunning := True\<rparr>"

definition stopMonitoring :: "AmfSm \<Rightarrow> AmfSm" where
  "stopMonitoring s = s\<lparr>sm_monitoringRunning := False\<rparr>"

text \<open>One pass of \<open>monitoringLoop\<close>.\<close>

definition monitoring_pass :: "nat \<Rightarrow> nat \<Rightarrow> AmfSm \<Rightarrow> AmfSm" where
  "monitoring_pass r1 r2 s =
     (if \<not> sm_monitoringRunning s then s
      else let s1 = updateStatistics r1 r2 s
           in if sm_hasAmfNf s1
              then s1\<lparr>sm_amfNf := amf_updateLoad (st_systemLoad (sm_statistics s1)) (sm_amfNf s1)\<rparr>
              else s1)"

definition sm_initialize :: "env \<Rightarrow> AmfConfiguration \<Rightarrow> AmfSm \<Rightarrow> (sync_error + bool) \<times> AmfSm" where
  "sm_initialize e cfg s =
     (case lock_mutex (sm_mutexHeld s) of
        Inl err \<Rightarrow> (Inl err, s)
      | Inr _ \<Rightarrow>
          (if sm_isInitialized s then (Inr False, s)
           else
             let s1 = s\<lparr>sm_config := cfg, sm_hasUeMgr := True, sm_hasN1N2 := True\<rparr>;
                 (started, n) = startN1N2Service (cfg_n1n2BindAddress cfg) (cfg_n2Port cfg) (sm_n1n2 s1);
                 s2 = s1\<lparr>sm_n1n2 := n\<rparr>
             in if \<not> started then (Inr False, s2)
                else
                  let s3 = s2\<lparr>sm_hasNfMgr := True, sm_hasAmfNf := True\<rparr>;
                      (ok, a) = AmfNfInstance_initialize e (cfg_amfInstanceId cfg) (cfg_plmnId cfg) (sm_amfNf s3);
                      s4 = s3\<lparr>sm_amfNf := a\<rparr>
                  in if \<not> ok then (Inr False, s4)
                     else case registerWithNrf (cfg_nrfUri cfg) (sm_amfNf s4) of
                            (Inl err, a') \<Rightarrow> (Inl err, s4\<lparr>sm_amfNf := a', sm_mutexHeld := True\<rparr>)
                          | (Inr False, a') \<Rightarrow> (Inr False, s4\<lparr>sm_amfNf := a'\<rparr>)
                          | (Inr True, a') \<Rightarrow>
                              (Inr True, (startMonitoring (registerOtherNfInstances e (s4\<lparr>sm_amfNf := a'\<rparr>)))
                                 \<lparr>sm_isInitialized := True\<rparr>)))"

definition sm_shutdown :: "AmfSm \<Rightarrow> (sync_error + unit) \<times> AmfSm" where
  "sm_shutdown s =
     (case lock_mutex (sm_mutexHeld s) of
        Inl err \<Rightarrow> (Inl err, s)
      | Inr _ \<Rightarrow>
          (if \<not> sm_isInitialized s then (Inr (), s)
           else
             let s1 = stopMonitoring s;
                 s2 = (if sm_hasAmfNf s1
                       then (if sm_hasNfMgr s1
                             then s1\<lparr>sm_nfMgr := snd (deregisterNfInstance
                                    (nf_instanceId (amfInstance (sm_amfNf s1))) (sm_nfMgr s1))\<rparr>
                             else s1)\<lparr>sm_amfNf := stopHeartbeatService (sm_amfNf s1)\<rparr>
                       else s1);
                 s3 = (if sm_hasN1N2 s2 then s2\<lparr>sm_n1n2 := stopN1N2Service (sm_n1n2 s2)\<rparr> else s2)
             in (Inr (), s3\<lparr>sm_isRunning := False, sm_isInitialized := False\<rparr>)))"

lemmas procedure_defs [handler_defs] =
  processDeregistrationRequest_def processHandoverRequest_def completeHandover_def
  createPduSession_def releasePduSession_def initiateAuthentication_def
  processAuthenticationResponse_def processTrackingAreaUpdate_supi_def

lemmas state_handler_defs [handler_defs] =
  handleDeregisteredState_def handleRegisteredIdleState_def handleRegisteredConnectedState_def

lemmas sbi_handler_defs [handler_defs] =
  handleSbiMessage_def processSbiRequest_def processSbiResponse_def handleRegistrationSbiMessages_def
  handleSessionSbiMessages_def handleAuthenticationSbiMessages_def handlePolicyControlSbiMessages_def

end
