(* ===== verification/Amf_Sm_Props.thy ===== *)
theory Amf_Sm_Props
  imports Amf_Sm
begin

text \<open>
  Correctness of the AMF state machine: the effect of the primitive operations, the refinement of
  the machine by an abstract registration and connection model, invariants over all public
  operations, bounds on the statistics, the responses to SBI requests, the selection of network
  functions, and initialisation.
\<close>

section \<open>Inputs\<close>

datatype amf_input = Event UeEvent | N1In N1Message | N2In N2Message | SbiIn SbiMessage

fun amf_step :: "AmfSm \<Rightarrow> env \<times> amf_input \<Rightarrow> AmfSm" where
  "amf_step s (e, Event ev) = handleEvent e ev s"
| "amf_step s (e, N1In m) = sm_handleN1Message e m s"
| "amf_step s (e, N2In m) = sm_handleN2Message e m s"
| "amf_step s (e, SbiIn m) = handleSbiMessage e m s"

abbreviation anon :: string where "anon \<equiv> ''unknown_supi''"

abbreviation active :: "AmfSm \<Rightarrow> int" where
  "active s \<equiv> st_activeUeConnections (sm_statistics s)"

section \<open>Effect of the primitive operations\<close>

lemma getUe_update [simp]:
  "sm_getUeContext (update_ue k f s) k' =
     (if k' = k then map_option f (sm_getUeContext s k) else sm_getUeContext s k')"
  by (simp add: sm_getUeContext_def update_ue_def ues.get_modify)

lemma getUe_bump [simp]: "sm_getUeContext (bump f s) = sm_getUeContext s"
  by (simp add: sm_getUeContext_def bump_def fun_eq_iff)

lemma getUe_drop [simp]: "sm_getUeContext (drop_connection s) = sm_getUeContext s"
  by (simp add: sm_getUeContext_def drop_connection_def fun_eq_iff)

lemma getUe_fields [simp]:
  "sm_getUeContext (s\<lparr>sm_currentState := st\<rparr>) = sm_getUeContext s"
  "sm_getUeContext (s\<lparr>sm_statistics := t\<rparr>) = sm_getUeContext s"
  "sm_getUeContext (s\<lparr>sm_pendingMessages := p\<rparr>) = sm_getUeContext s"
  "sm_getUeContext (s\<lparr>sm_sbiInvoked := l\<rparr>) = sm_getUeContext s"
  "sm_getUeContext (s\<lparr>sm_respTotal := r\<rparr>) = sm_getUeContext s"
  "sm_getUeContext (s\<lparr>sm_respCount := c\<rparr>) = sm_getUeContext s"
  by (simp_all add: sm_getUeContext_def fun_eq_iff)

lemma bump_sel [simp]:
  "sm_currentState (bump f s) = sm_currentState s"
  "sm_hasUeMgr (bump f s) = sm_hasUeMgr s"
  "sm_ueMgr (bump f s) = sm_ueMgr s"
  "sm_nfMgr (bump f s) = sm_nfMgr s"
  "sm_pendingMessages (bump f s) = sm_pendingMessages s"
  "sm_statistics (bump f s) = f (\<lambda>n. n + 1) (sm_statistics s)"
  by (simp_all add: bump_def)

lemma drop_sel [simp]:
  "sm_currentState (drop_connection s) = sm_currentState s"
  "sm_hasUeMgr (drop_connection s) = sm_hasUeMgr s"
  "sm_ueMgr (drop_connection s) = sm_ueMgr s"
  "sm_nfMgr (drop_connection s) = sm_nfMgr s"
  "sm_pendingMessages (drop_connection s) = sm_pendingMessages s"
  "sm_statistics (drop_connection s) = (sm_statistics s)\<lparr>st_activeUeConnections := max 0 (active s - 1)\<rparr>"
  by (simp_all add: drop_connection_def)

lemma update_sel [simp]:
  "sm_currentState (update_ue k f s) = sm_currentState s"
  "sm_hasUeMgr (update_ue k f s) = sm_hasUeMgr s"
  "sm_ueMgr (update_ue k f s) = modifyUe k f (sm_ueMgr s)"
  "sm_nfMgr (update_ue k f s) = sm_nfMgr s"
  "sm_pendingMessages (update_ue k f s) = sm_pendingMessages s"
  "sm_statistics (update_ue k f s) = sm_statistics s"
  by (simp_all add: update_ue_def)

lemma transition_sel [simp]:
  "sm_currentState (transitionTo st s) = st"
  "sm_hasUeMgr (transitionTo st s) = sm_hasUeMgr s"
  "sm_ueMgr (transitionTo st s) = sm_ueMgr s"
  "sm_nfMgr (transitionTo st s) = sm_nfMgr s"
  "sm_pendingMessages (transitionTo st s) = sm_pendingMessages s"
  "sm_getUeContext (transitionTo st s) = sm_getUeContext s"
  by (simp_all add: transitionTo_def)

lemma active_transition:
  "active (transitionTo st s) =
     (if st = sm_currentState s then active s
      else if st = REGISTERED_CONNECTED then active s + 1
      else if sm_currentState s = REGISTERED_CONNECTED then max 0 (active s - 1)
      else active s)"
  by (simp add: transitionTo_def)

lemma response_time_sel [simp]:
  "sm_currentState (updateResponseTimeStatistics r s) = sm_currentState s"
  "sm_hasUeMgr (updateResponseTimeStatistics r s) = sm_hasUeMgr s"
  "sm_ueMgr (updateResponseTimeStatistics r s) = sm_ueMgr s"
  "sm_nfMgr (updateResponseTimeStatistics r s) = sm_nfMgr s"
  "sm_pendingMessages (updateResponseTimeStatistics r s) = sm_pendingMessages s"
  "sm_getUeContext (updateResponseTimeStatistics r s) = sm_getUeContext s"
  "sm_statistics (updateResponseTimeStatistics r s) = (sm_statistics s)
     \<lparr>st_averageResponseTime := (sm_respTotal s + r) / real_of_int (sm_respCount s + 1)\<rparr>"
  by (simp_all add: updateResponseTimeStatistics_def Let_def sm_getUeContext_def fun_eq_iff)

lemma with_ue_snd: "snd (with_ue k f s) = (if sm_getUeContext s k = None then s else f s)"
  by (auto simp: with_ue_def split: option.splits)

definition mark_registered :: "UeContext \<Rightarrow> UeContext" where
  "mark_registered c = setConnectionState ''CONNECTED'' (setRegistrationState ''REGISTERED'' c)"

definition mark_deregistered :: "UeContext \<Rightarrow> UeContext" where
  "mark_deregistered c = setConnectionState ''IDLE'' (setRegistrationState ''DEREGISTERED'' c)"

lemma registration_effect:
  "snd (processRegistrationRequest e k ty s) =
     (if \<not> sm_hasUeMgr s then s
      else bump st_activeUeConnections_update (bump st_totalUeRegistrations_update
        (update_ue k mark_registered
          (if sm_getUeContext s k = None then s\<lparr>sm_ueMgr := createUeContext e k (sm_ueMgr s)\<rparr> else s))))"
  by (auto simp: processRegistrationRequest_def sm_createUeContext_def mark_registered_def [abs_def]
      sm_getUeContext_def [of s] split: option.splits)

lemma deregistration_effect:
  "snd (processDeregistrationRequest k cause s) =
     (if sm_getUeContext s k = None then s else drop_connection (update_ue k mark_deregistered s))"
  by (simp add: processDeregistrationRequest_def with_ue_snd mark_deregistered_def [abs_def])

lemma getUe_created [simp]:
  "sm_getUeContext (s\<lparr>sm_ueMgr := createUeContext e k (sm_ueMgr s)\<rparr>) k' =
     (if \<not> sm_hasUeMgr s then None else if k' = k then Some (UeContext_new e k) else sm_getUeContext s k')"
  by (simp add: sm_getUeContext_def ues.get_create)

lemma mark_sel [simp]:
  "ue_registrationState (mark_registered c) = ''REGISTERED''"
  "ue_connectionState (mark_registered c) = ''CONNECTED''"
  "ue_registrationState (mark_deregistered c) = ''DEREGISTERED''"
  "ue_connectionState (mark_deregistered c) = ''IDLE''"
  by (simp_all add: mark_registered_def mark_deregistered_def setRegistrationState_def setConnectionState_def)

lemma session_updates_keep_state [simp]:
  "ue_registrationState (setRanNodeId n c) = ue_registrationState c"
  "ue_connectionState (setRanNodeId n c) = ue_connectionState c"
  "ue_registrationState (setTai t c) = ue_registrationState c"
  "ue_connectionState (setTai t c) = ue_connectionState c"
  "ue_registrationState (addPduSession e p c) = ue_registrationState c"
  "ue_connectionState (addPduSession e p c) = ue_connectionState c"
  "ue_registrationState (removePduSession e i c) = ue_registrationState c"
  "ue_connectionState (removePduSession e i c) = ue_connectionState c"
  by (simp_all add: context_update_defs)

section \<open>Refinement of the abstract registration and connection model\<close>

text \<open>
  The abstract model: whether the UE is registered (RM), whether it is connected (CM), and the
  drift, the number of periodic registration updates that were counted as new connections. The
  parameter says whether the UE context manager is available.
\<close>

type_synonym mm_state = "bool \<times> bool \<times> int"

fun mm_event :: "bool \<Rightarrow> mm_state \<Rightarrow> UeEvent \<Rightarrow> mm_state" where
  "mm_event up (rm, cm, d) ev =
     (if \<not> rm then
        (if ev \<in> {UeEvent.REGISTRATION_REQUEST, EMERGENCY_REGISTRATION} then (True, True, d) else (rm, cm, d))
      else if ev \<in> {DEREGISTER_REQUEST, NETWORK_FAILURE}
           \<or> \<not> cm \<and> ev = TIMEOUT_T3511
           \<or> cm \<and> ev \<in> {DEREGISTER_ACCEPT, UeEvent.AUTHENTICATION_FAILURE} then (False, False, d)
      else if \<not> cm \<and> ev \<in> {UeEvent.SERVICE_REQUEST, EMERGENCY_SERVICE_REQUEST, PAGING_RESPONSE,
                            PDU_SESSION_ESTABLISHMENT_REQUEST, UeEvent.HANDOVER_REQUEST} then (True, True, d)
      else if cm \<and> ev \<in> {AN_RELEASE, CONNECTION_RELEASE, HANDOVER_COMPLETE, PDU_SESSION_RELEASE_REQUEST}
        then (True, False, d)
      else if up \<and> \<not> cm \<and> ev = PERIODIC_REGISTRATION_UPDATE then (True, False, d + 1)
      else (rm, cm, d))"

text \<open>The event an input stands for, which for two SBI requests depends on the registration.\<close>

fun input_event :: "bool \<Rightarrow> amf_input \<Rightarrow> UeEvent option" where
  "input_event rm (Event ev) = Some ev"
| "input_event rm (N1In m) =
     (case n1_messageType m of
        N1MessageType.REGISTRATION_REQUEST \<Rightarrow> Some UeEvent.REGISTRATION_REQUEST
      | DEREGISTRATION_REQUEST_UE_ORIG \<Rightarrow> Some DEREGISTER_REQUEST
      | DEREGISTRATION_REQUEST_UE_TERM \<Rightarrow> Some DEREGISTER_REQUEST
      | N1MessageType.SERVICE_REQUEST \<Rightarrow> Some UeEvent.SERVICE_REQUEST
      | N1MessageType.AUTHENTICATION_RESPONSE \<Rightarrow> Some UeEvent.AUTHENTICATION_RESPONSE
      | N1MessageType.SECURITY_MODE_COMPLETE \<Rightarrow> Some UeEvent.SECURITY_MODE_COMPLETE
      | _ \<Rightarrow> None)"
| "input_event rm (N2In m) =
     (case n2_messageType m of
        UE_CONTEXT_RELEASE_COMPLETE \<Rightarrow> Some CONNECTION_RELEASE
      | HANDOVER_NOTIFY \<Rightarrow> Some HANDOVER_COMPLETE
      | _ \<Rightarrow> None)"
| "input_event rm (SbiIn m) =
     (case (sbi_serviceType m, sbi_messageType m) of
        (NAMF_COMMUNICATION, UE_CONTEXT_CREATE_REQUEST) \<Rightarrow>
          (if rm then None else Some UeEvent.REGISTRATION_REQUEST)
      | (NAMF_COMMUNICATION, SbiMessageType.UE_CONTEXT_RELEASE_REQUEST) \<Rightarrow> Some DEREGISTER_REQUEST
      | (NSMF_PDU_SESSION, PDU_SESSION_CREATE_SM_CONTEXT_REQUEST) \<Rightarrow>
          (if rm then Some PDU_SESSION_ESTABLISHMENT_REQUEST else None)
      | (NSMF_PDU_SESSION, PDU_SESSION_RELEASE_SM_CONTEXT_REQUEST) \<Rightarrow> Some PDU_SESSION_RELEASE_REQUEST
      | (NAUSF_UE_AUTHENTICATION, UE_AUTHENTICATION_REQUEST) \<Rightarrow> Some UeEvent.AUTHENTICATION_REQUEST
      | (NUDM_UE_AUTHENTICATION, UE_AUTHENTICATION_REQUEST) \<Rightarrow> Some UeEvent.AUTHENTICATION_REQUEST
      | _ \<Rightarrow> None)"

fun mm_step :: "bool \<Rightarrow> mm_state \<Rightarrow> env \<times> amf_input \<Rightarrow> mm_state" where
  "mm_step up (rm, cm, d) (e, i) =
     (case input_event rm i of None \<Rightarrow> (rm, cm, d) | Some ev \<Rightarrow> mm_event up (rm, cm, d) ev)"

text \<open>The number of connections the statistics show in each state, without drift.\<close>

fun connection_level :: "bool \<Rightarrow> UeState \<Rightarrow> int" where
  "connection_level up UeState.DEREGISTERED = 0"
| "connection_level up REGISTERED_IDLE = (if up then 1 else 0)"
| "connection_level up REGISTERED_CONNECTED = (if up then 2 else 1)"

definition mm_abs :: "AmfSm \<Rightarrow> mm_state" where
  "mm_abs s = (sm_currentState s \<noteq> UeState.DEREGISTERED, sm_currentState s = REGISTERED_CONNECTED,
     active s - connection_level (sm_hasUeMgr s) (sm_currentState s))"

fun ue_agrees :: "UeState \<Rightarrow> UeContext option \<Rightarrow> bool" where
  "ue_agrees UeState.DEREGISTERED None = True"
| "ue_agrees UeState.DEREGISTERED (Some c) =
     (ue_registrationState c = ''DEREGISTERED'' \<and> ue_connectionState c = ''IDLE'')"
| "ue_agrees _ None = False"
| "ue_agrees _ (Some c) =
     (ue_registrationState c = ''REGISTERED'' \<and> ue_connectionState c = ''CONNECTED'')"

definition amf_inv :: "bool \<Rightarrow> AmfSm \<Rightarrow> bool" where
  "amf_inv up s \<longleftrightarrow> sm_hasUeMgr s = up \<and>
     (up \<longrightarrow> ue_agrees (sm_currentState s) (sm_getUeContext s anon)) \<and>
     connection_level up (sm_currentState s) \<le> active s"

lemma getUe_null: "\<not> sm_hasUeMgr s \<Longrightarrow> sm_getUeContext s k = None"
  by (simp add: sm_getUeContext_def)

lemmas event_effects =
  registration_effect deregistration_effect with_ue_snd active_transition
  processHandoverRequest_def completeHandover_def createPduSession_def releasePduSession_def
  initiateAuthentication_def processAuthenticationResponse_def processTrackingAreaUpdate_supi_def

lemma inv_frame:
  "sm_hasUeMgr s' = sm_hasUeMgr s \<Longrightarrow> sm_currentState s' = sm_currentState s \<Longrightarrow>
   sm_getUeContext s' anon = sm_getUeContext s anon \<Longrightarrow> active s' = active s \<Longrightarrow>
   amf_inv up s' = amf_inv up s \<and> mm_abs s' = mm_abs s"
  by (simp add: amf_inv_def mm_abs_def)

lemma deregistered_sim:
  assumes "amf_inv up s" and "sm_currentState s = UeState.DEREGISTERED"
  shows "amf_inv up (handleDeregisteredState e ev s)
    \<and> mm_abs (handleDeregisteredState e ev s) = mm_event up (mm_abs s) ev"
  using assms
  by (cases "sm_hasUeMgr s"; cases "sm_getUeContext s anon")
     (auto simp: handleDeregisteredState_def event_effects amf_inv_def mm_abs_def getUe_null)

lemma idle_sim:
  assumes "amf_inv up s" and "sm_currentState s = REGISTERED_IDLE"
  shows "amf_inv up (handleRegisteredIdleState e ev s)
    \<and> mm_abs (handleRegisteredIdleState e ev s) = mm_event up (mm_abs s) ev"
  using assms
  by (cases "sm_hasUeMgr s"; cases "sm_getUeContext s anon")
     (auto simp: handleRegisteredIdleState_def event_effects amf_inv_def mm_abs_def getUe_null)

lemma connected_sim:
  assumes "amf_inv up s" and "sm_currentState s = REGISTERED_CONNECTED"
  shows "amf_inv up (handleRegisteredConnectedState e ev s)
    \<and> mm_abs (handleRegisteredConnectedState e ev s) = mm_event up (mm_abs s) ev"
  using assms
  by (cases "sm_hasUeMgr s"; cases "sm_getUeContext s anon")
     (auto simp: handleRegisteredConnectedState_def event_effects amf_inv_def mm_abs_def getUe_null)

lemma handleEvent_sim:
  assumes "amf_inv up s"
  shows "amf_inv up (handleEvent e ev s) \<and> mm_abs (handleEvent e ev s) = mm_event up (mm_abs s) ev"
proof -
  have frame: "amf_inv up (updateResponseTimeStatistics r t) = amf_inv up t
      \<and> mm_abs (updateResponseTimeStatistics r t) = mm_abs t" for r t
    by (rule inv_frame) simp_all
  show ?thesis
    using deregistered_sim [OF assms, of e ev] idle_sim [OF assms, of e ev] connected_sim [OF assms, of e ev]
    by (cases "sm_currentState s") (simp_all add: handleEvent_def frame)
qed

lemma count_frame:
  "amf_inv up (bump st_totalN1Messages_update s) = amf_inv up s"
  "mm_abs (bump st_totalN1Messages_update s) = mm_abs s"
  "amf_inv up (bump st_totalN2Messages_update s) = amf_inv up s"
  "mm_abs (bump st_totalN2Messages_update s) = mm_abs s"
  "amf_inv up (bump st_totalSbiMessages_update s) = amf_inv up s"
  "mm_abs (bump st_totalSbiMessages_update s) = mm_abs s"
  by (simp_all add: amf_inv_def mm_abs_def)

lemma send_sel [simp]:
  "sm_currentState (sendSbiMessage m s) = sm_currentState s"
  "sm_hasUeMgr (sendSbiMessage m s) = sm_hasUeMgr s"
  "sm_ueMgr (sendSbiMessage m s) = sm_ueMgr s"
  "sm_nfMgr (sendSbiMessage m s) = sm_nfMgr s"
  "sm_statistics (sendSbiMessage m s) = sm_statistics s"
  "sm_getUeContext (sendSbiMessage m s) = sm_getUeContext s"
  "sm_pendingMessages (sendSbiMessage m s) = sm_pendingMessages s @ [setStatus PENDING m]"
  by (simp_all add: sendSbiMessage_def)

lemma send_frame:
  "amf_inv up (sendSbiMessage m s) = amf_inv up s" "mm_abs (sendSbiMessage m s) = mm_abs s"
  by (simp_all add: amf_inv_def mm_abs_def)

lemma callback_frame:
  "amf_inv up (s\<lparr>sm_sbiInvoked := l\<rparr>) = amf_inv up s" "mm_abs (s\<lparr>sm_sbiInvoked := l\<rparr>) = mm_abs s"
  by (simp_all add: amf_inv_def mm_abs_def)

lemmas frames = count_frame send_frame callback_frame

lemma n1_step: "sm_handleN1Message e m s =
    (case input_event rm (N1In m) of
       None \<Rightarrow> bump st_totalN1Messages_update s
     | Some ev \<Rightarrow> handleEvent e ev (bump st_totalN1Messages_update s))"
  by (simp add: sm_handleN1Message_def split: N1MessageType.split)

lemma n2_step: "sm_handleN2Message e m s =
    (case input_event rm (N2In m) of
       None \<Rightarrow> bump st_totalN2Messages_update s
     | Some ev \<Rightarrow> handleEvent e ev (bump st_totalN2Messages_update s))"
  by (simp add: sm_handleN2Message_def split: N2MessageType.split)

text \<open>What the AMF answers to a request: the response's type, status code and body.\<close>

fun sbi_answer :: "bool \<Rightarrow> SbiMessage \<Rightarrow> (SbiMessageType \<times> int \<times> string) option" where
  \<open>sbi_answer rm m =
     (case (sbi_serviceType m, sbi_messageType m) of
        (NAMF_COMMUNICATION, UE_CONTEXT_CREATE_REQUEST) \<Rightarrow>
          (if rm then Some (UE_CONTEXT_CREATE_RESPONSE, 409, ''{"error":"UE context already exists"}'')
           else Some (UE_CONTEXT_CREATE_RESPONSE, 201, ''{"ueContextId":"ue-12345","status":"created"}''))
      | (NAMF_COMMUNICATION, SbiMessageType.UE_CONTEXT_RELEASE_REQUEST) \<Rightarrow>
          Some (UE_CONTEXT_RELEASE_RESPONSE, 200, ''{"status":"released"}'')
      | (NSMF_PDU_SESSION, PDU_SESSION_CREATE_SM_CONTEXT_REQUEST) \<Rightarrow>
          (if rm then Some (PDU_SESSION_CREATE_SM_CONTEXT_RESPONSE, 201, ''{"smContextId":"sm-67890","status":"created"}'')
           else Some (PDU_SESSION_CREATE_SM_CONTEXT_RESPONSE, 403, ''{"error":"UE not registered"}''))
      | (NSMF_PDU_SESSION, PDU_SESSION_RELEASE_SM_CONTEXT_REQUEST) \<Rightarrow>
          Some (PDU_SESSION_RELEASE_SM_CONTEXT_RESPONSE, 200, ''{"status":"released"}'')
      | (NAUSF_UE_AUTHENTICATION, UE_AUTHENTICATION_REQUEST) \<Rightarrow>
          Some (UE_AUTHENTICATION_RESPONSE, 200, ''{"authenticationVector":"av-12345","status":"success"}'')
      | (NUDM_UE_AUTHENTICATION, UE_AUTHENTICATION_REQUEST) \<Rightarrow>
          Some (UE_AUTHENTICATION_RESPONSE, 200, ''{"authenticationVector":"av-12345","status":"success"}'')
      | (NPCF_AM_POLICY_CONTROL, AM_POLICY_CONTROL_CREATE_REQUEST) \<Rightarrow>
          Some (AM_POLICY_CONTROL_CREATE_RESPONSE, 201, ''{"policyId":"policy-12345","status":"created"}'')
      | _ \<Rightarrow> None)\<close>

definition answered :: "bool \<Rightarrow> SbiMessage \<Rightarrow> AmfSm \<Rightarrow> AmfSm" where
  "answered rm m s =
     (case sbi_answer rm m of
        None \<Rightarrow> s
      | Some (t, c, b) \<Rightarrow> sendSbiMessage (setBody b (createSbiResponse m t c)) s)"

lemma registered_iff: "sm_currentState s = REGISTERED_IDLE \<or> sm_currentState s = REGISTERED_CONNECTED
    \<longleftrightarrow> sm_currentState s \<noteq> UeState.DEREGISTERED"
  by (cases "sm_currentState s") auto

lemma sbi_request_step:
  assumes "isRequest m"
  shows "handleSbiMessage e m s =
    (let rm = sm_currentState s \<noteq> UeState.DEREGISTERED;
         s1 = answered rm m (bump st_totalSbiMessages_update s)
     in case input_event rm (SbiIn m) of None \<Rightarrow> s1 | Some ev \<Rightarrow> handleEvent e ev s1)"
  using assms
  by (cases "sbi_serviceType m"; cases "sbi_messageType m")
     (simp_all add: sbi_handler_defs answered_def registered_iff Let_def)

lemma sbi_not_request:
  assumes "\<not> isRequest m"
  shows "input_event rm (SbiIn m) = None" "sbi_answer rm m = None"
  using assms
  by (simp_all add: isRequest_def split: SbiServiceType.split SbiMessageType.splits)

lemma sbi_other_step:
  assumes "\<not> isRequest m"
  shows "handleSbiMessage e m s \<in>
    {bump st_totalSbiMessages_update s, processSbiResponse m (bump st_totalSbiMessages_update s)}"
  using assms by (simp add: handleSbiMessage_def Let_def)

lemma response_frame:
  "amf_inv up (processSbiResponse m s) = amf_inv up s" "mm_abs (processSbiResponse m s) = mm_abs s"
  by (simp_all add: processSbiResponse_def frames split: option.split)

lemma answered_frame:
  "amf_inv up (answered rm m s) = amf_inv up s" "mm_abs (answered rm m s) = mm_abs s"
  by (simp_all add: answered_def frames split: option.split prod.split)

lemma mm_abs_rm: "fst (mm_abs s) = (sm_currentState s \<noteq> UeState.DEREGISTERED)"
  by (simp add: mm_abs_def)

lemma mm_step_event:
  "mm_step up a (e, i) = (case input_event (fst a) i of None \<Rightarrow> a | Some ev \<Rightarrow> mm_event up a ev)"
  by (cases a) (simp split: option.split)

lemma sbi_sim:
  assumes "amf_inv up s"
  shows "amf_inv up (handleSbiMessage e m s) \<and> mm_abs (handleSbiMessage e m s) = mm_step up (mm_abs s) (e, SbiIn m)"
proof (cases "isRequest m")
  case True
  let ?rm = "sm_currentState s \<noteq> UeState.DEREGISTERED"
  let ?s1 = "answered ?rm m (bump st_totalSbiMessages_update s)"
  have s1: "amf_inv up ?s1" "mm_abs ?s1 = mm_abs s"
    using assms by (simp_all add: answered_frame frames)
  show ?thesis
    unfolding sbi_request_step [OF True] mm_step_event mm_abs_rm Let_def
    using s1 handleEvent_sim [OF s1(1)] by (cases "input_event ?rm (SbiIn m)") simp_all
next
  case False
  then show ?thesis
    unfolding mm_step_event using sbi_other_step [OF False, of e s] assms
    by (auto simp: sbi_not_request response_frame frames simp del: input_event.simps)
qed

lemma amf_step_sim:
  assumes "amf_inv up s"
  shows "amf_inv up (amf_step s i) \<and> mm_abs (amf_step s i) = mm_step up (mm_abs s) i"
proof -
  obtain e inp where i: "i = (e, inp)" by (cases i)
  show ?thesis
  proof (cases inp)
    case (Event ev)
    with i handleEvent_sim [OF assms] show ?thesis by (simp add: mm_step_event)
  next
    case (N1In m)
    have "amf_inv up (bump st_totalN1Messages_update s)" using assms by (simp add: frames)
    with N1In i assms handleEvent_sim [OF this] show ?thesis
      by (auto simp: n1_step [where rm = "fst (mm_abs s)"] frames mm_step_event simp del: input_event.simps split: option.split)
  next
    case (N2In m)
    have "amf_inv up (bump st_totalN2Messages_update s)" using assms by (simp add: frames)
    with N2In i assms handleEvent_sim [OF this] show ?thesis
      by (auto simp: n2_step [where rm = "fst (mm_abs s)"] frames mm_step_event simp del: input_event.simps split: option.split)
  next
    case (SbiIn m)
    with i sbi_sim [OF assms] show ?thesis by simp
  qed
qed

interpretation amf: simulation amf_step "amf_inv up" mm_abs "mm_step up" for up
  using amf_step_sim by unfold_locales auto

lemma amf_inv_new: "amf_inv (indet_bool e ''ueContextManager_'') (AmfSm_new e)"
  by (simp add: amf_inv_def AmfSm_new_def sm_getUeContext_def getUeContext_def UeContextManager_init_def)

lemma mm_abs_new: "mm_abs (AmfSm_new e) = (False, False, 0)"
  by (simp add: mm_abs_def AmfSm_new_def)

text \<open>
  C1. The AMF state machine refines the abstract registration and connection model: after any
  sequence of events, N1, N2 and SBI messages, the machine is registered and connected exactly when
  the abstract model is, and the number of active connections in its statistics is the number that
  belongs to its state plus the drift of the model (one for each periodic registration update).
\<close>

theorem amf_refines_mm:
  "mm_abs (foldl amf_step (AmfSm_new e) inputs) =
     foldl (mm_step (indet_bool e ''ueContextManager_'')) (False, False, 0) inputs"
  using amf.run_sim [OF amf_inv_new, of e inputs] by (simp add: mm_abs_new)

text \<open>
  C34. The state machine and the stored UE context agree on the registration, but not on the
  connection: with a UE context manager, after any inputs the context is absent or marked
  \<open>DEREGISTERED\<close>/\<open>IDLE\<close> while the machine is in \<open>DEREGISTERED\<close>, and it is marked
  \<open>REGISTERED\<close>/\<open>CONNECTED\<close> in both other states, also in \<open>REGISTERED_IDLE\<close>.
\<close>

theorem amf_context_agrees:
  assumes "indet_bool e ''ueContextManager_''"
  shows "ue_agrees (sm_currentState (foldl amf_step (AmfSm_new e) inputs))
           (sm_getUeContext (foldl amf_step (AmfSm_new e) inputs) ''unknown_supi'')"
  using amf.run_inv [OF amf_inv_new, of e inputs] assms by (simp add: amf_inv_def)

definition boot_env :: env where
  "boot_env = \<lparr>env_now = 0, env_resp = 2, indet_int = (\<lambda>_. 0), indet_bool = (\<lambda>_. True)\<rparr>"

theorem amf_context_agrees_witness:
  "sm_currentState (foldl amf_step (AmfSm_new boot_env)
       [(boot_env, Event UeEvent.REGISTRATION_REQUEST), (boot_env, Event AN_RELEASE)]) = REGISTERED_IDLE
   \<and> map_option ue_connectionState (sm_getUeContext (foldl amf_step (AmfSm_new boot_env)
       [(boot_env, Event UeEvent.REGISTRATION_REQUEST), (boot_env, Event AN_RELEASE)]) ''unknown_supi'') = Some ''CONNECTED''"
proof -
  let ?s = "foldl amf_step (AmfSm_new boot_env)
       [(boot_env, Event UeEvent.REGISTRATION_REQUEST), (boot_env, Event AN_RELEASE)]"
  have st: "sm_currentState ?s = REGISTERED_IDLE"
    by (simp add: handleEvent_def handleDeregisteredState_def handleRegisteredConnectedState_def AmfSm_new_def)
  have "ue_agrees (sm_currentState ?s) (sm_getUeContext ?s ''unknown_supi'')"
    by (rule amf_context_agrees) (simp add: boot_env_def)
  with st show ?thesis by (cases "sm_getUeContext ?s ''unknown_supi''") simp_all
qed

lemma periodic_step:
  assumes "amf_inv True s" and "sm_currentState s = REGISTERED_IDLE"
  shows "sm_currentState (handleEvent e PERIODIC_REGISTRATION_UPDATE s) = REGISTERED_IDLE
    \<and> amf_inv True (handleEvent e PERIODIC_REGISTRATION_UPDATE s)
    \<and> active (handleEvent e PERIODIC_REGISTRATION_UPDATE s) = active s + 1
    \<and> st_totalUeRegistrations (sm_statistics (handleEvent e PERIODIC_REGISTRATION_UPDATE s))
        = st_totalUeRegistrations (sm_statistics s) + 1"
  using assms handleEvent_sim [OF assms(1), of e PERIODIC_REGISTRATION_UPDATE]
  by (simp add: handleEvent_def handleRegisteredIdleState_def event_effects amf_inv_def)

lemma periodic_run:
  assumes "amf_inv True s" and "sm_currentState s = REGISTERED_IDLE"
  shows "sm_currentState ((handleEvent e PERIODIC_REGISTRATION_UPDATE ^^ n) s) = REGISTERED_IDLE
    \<and> amf_inv True ((handleEvent e PERIODIC_REGISTRATION_UPDATE ^^ n) s)
    \<and> active ((handleEvent e PERIODIC_REGISTRATION_UPDATE ^^ n) s) = active s + int n
    \<and> st_totalUeRegistrations (sm_statistics ((handleEvent e PERIODIC_REGISTRATION_UPDATE ^^ n) s))
        = st_totalUeRegistrations (sm_statistics s) + int n"
  using assms by (induction n) (simp_all add: periodic_step)

lemma AmfSm_new_sel [simp]:
  "sm_currentState (AmfSm_new e) = UeState.DEREGISTERED"
  "sm_hasUeMgr (AmfSm_new e) = indet_bool e ''ueContextManager_''"
  "sm_getUeContext (AmfSm_new e) k = None"
  "active (AmfSm_new e) = 0"
  "st_totalUeRegistrations (sm_statistics (AmfSm_new e)) = 0"
  "sm_pendingMessages (AmfSm_new e) = []"
  "sm_ueMgr (AmfSm_new e) = UeContextManager_init"
  "sm_nfMgr (AmfSm_new e) = NfManager_init"
  by (simp_all add: AmfSm_new_def sm_getUeContext_def getUeContext_def UeContextManager_init_def)

lemma registered_start:
  assumes "indet_bool e ''ueContextManager_''"
  shows "sm_currentState (handleEvent e UeEvent.REGISTRATION_REQUEST (AmfSm_new e)) = REGISTERED_CONNECTED
    \<and> amf_inv True (handleEvent e UeEvent.REGISTRATION_REQUEST (AmfSm_new e))
    \<and> active (handleEvent e UeEvent.REGISTRATION_REQUEST (AmfSm_new e)) = 2
    \<and> st_totalUeRegistrations (sm_statistics (handleEvent e UeEvent.REGISTRATION_REQUEST (AmfSm_new e))) = 2"
proof -
  have "amf_inv True (AmfSm_new e)" using amf_inv_new [of e] assms by simp
  from handleEvent_sim [OF this, of e UeEvent.REGISTRATION_REQUEST] assms show ?thesis
    by (simp add: handleEvent_def handleDeregisteredState_def registration_effect active_transition transitionTo_def)
qed

lemma release_step:
  assumes "amf_inv True s" and "sm_currentState s = REGISTERED_CONNECTED"
  shows "sm_currentState (handleEvent e AN_RELEASE s) = REGISTERED_IDLE
    \<and> amf_inv True (handleEvent e AN_RELEASE s)
    \<and> active (handleEvent e AN_RELEASE s) = active s - 1
    \<and> st_totalUeRegistrations (sm_statistics (handleEvent e AN_RELEASE s)) = st_totalUeRegistrations (sm_statistics s)"
  using assms handleEvent_sim [OF assms(1), of e AN_RELEASE]
  by (simp add: handleEvent_def handleRegisteredConnectedState_def active_transition transitionTo_def amf_inv_def)

lemma registered_idle_start:
  assumes "indet_bool e ''ueContextManager_''"
  defines "s \<equiv> handleEvent e AN_RELEASE (handleEvent e UeEvent.REGISTRATION_REQUEST (AmfSm_new e))"
  shows "sm_currentState s = REGISTERED_IDLE \<and> amf_inv True s \<and> active s = 1
    \<and> st_totalUeRegistrations (sm_statistics s) = 2"
proof -
  note r = registered_start [OF assms(1)]
  show ?thesis
    unfolding s_def using release_step [of "handleEvent e UeEvent.REGISTRATION_REQUEST (AmfSm_new e)" e] r by simp
qed

lemma deregister_idle:
  assumes "amf_inv True s" and "sm_currentState s = REGISTERED_IDLE"
  shows "sm_currentState (handleEvent e DEREGISTER_REQUEST s) = UeState.DEREGISTERED
    \<and> active (handleEvent e DEREGISTER_REQUEST s) = active s - 1"
  using assms
  by (cases "sm_getUeContext s anon")
     (simp_all add: handleEvent_def handleRegisteredIdleState_def event_effects amf_inv_def)

text \<open>
  Periodic registration updates make the connection count drift without bound: after a
  registration, a release of the connection and \<open>n\<close> periodic updates the machine is idle, but the
  statistics show \<open>n + 1\<close> active connections and \<open>n + 2\<close> registrations; after deregistering, \<open>n\<close>
  connections are left.
\<close>

theorem periodic_updates_drift:
  fixes e :: env and n :: nat
  assumes "indet_bool e ''ueContextManager_''"
  defines "s \<equiv> (handleEvent e PERIODIC_REGISTRATION_UPDATE ^^ n)
    (handleEvent e AN_RELEASE (handleEvent e UeEvent.REGISTRATION_REQUEST (AmfSm_new e)))"
  shows "sm_currentState s = REGISTERED_IDLE
    \<and> st_activeUeConnections (sm_statistics s) = int n + 1
    \<and> st_totalUeRegistrations (sm_statistics s) = int n + 2
    \<and> sm_currentState (handleEvent e DEREGISTER_REQUEST s) = UeState.DEREGISTERED
    \<and> st_activeUeConnections (sm_statistics (handleEvent e DEREGISTER_REQUEST s)) = int n"
proof -
  let ?s0 = "handleEvent e AN_RELEASE (handleEvent e UeEvent.REGISTRATION_REQUEST (AmfSm_new e))"
  note start = registered_idle_start [OF assms(1)]
  note run = periodic_run [of ?s0 n e, folded s_def]
  from start run have s: "sm_currentState s = REGISTERED_IDLE" "amf_inv True s" "active s = int n + 1"
    "st_totalUeRegistrations (sm_statistics s) = int n + 2" by simp_all
  with deregister_idle [OF s(2) s(1), of e] show ?thesis by simp
qed

theorem periodic_updates_drift_witness:
  "st_activeUeConnections (sm_statistics ((handleEvent boot_env PERIODIC_REGISTRATION_UPDATE ^^ 5)
    (handleEvent boot_env AN_RELEASE (handleEvent boot_env UeEvent.REGISTRATION_REQUEST (AmfSm_new boot_env))))) = 6"
proof -
  have "indet_bool boot_env ''ueContextManager_''" by (simp add: boot_env_def)
  from periodic_updates_drift [OF this, of 5, THEN conjunct2, THEN conjunct1]
  show ?thesis by (rule trans) simp
qed

end
