(* ===== verification/Amf_Sm_Safety.thy ===== *)
theory Amf_Sm_Safety
  imports Amf_Sm_Props
begin

text \<open>
  Safety of the AMF: bounds on the statistics, the responses to SBI requests, invariants of every
  state that the public operations can reach, blocking of initialisation, selection of network
  functions, load and response times.
\<close>

section \<open>Bounds on the statistics\<close>

definition counter_fields :: "(AmfStatistics \<Rightarrow> int) list" where
  "counter_fields = [st_totalUeRegistrations, st_activeUeConnections, st_totalPduSessions,
     st_totalHandovers, st_totalAuthenticationAttempts, st_successfulAuthentications,
     st_totalSbiMessages, st_totalN1Messages, st_totalN2Messages]"

definition counters_ok :: "AmfSm \<Rightarrow> bool" where
  "counters_ok s = list_all (\<lambda>c. 0 \<le> c (sm_statistics s)) counter_fields"

definition grows_by :: "int \<Rightarrow> AmfSm \<Rightarrow> AmfSm \<Rightarrow> bool" where
  "grows_by k s s' =
     list_all (\<lambda>c. 0 \<le> c (sm_statistics s') \<and> c (sm_statistics s') \<le> c (sm_statistics s) + k) counter_fields"

lemma statistics_transition:
  "sm_statistics (transitionTo st s) = (sm_statistics s)\<lparr>st_activeUeConnections :=
     (if st = sm_currentState s then active s
      else if st = REGISTERED_CONNECTED then active s + 1
      else if sm_currentState s = REGISTERED_CONNECTED then max 0 (active s - 1)
      else active s)\<rparr>"
  by (simp add: transitionTo_def)

lemma statistics_registration:
  "sm_statistics (snd (processRegistrationRequest e k ty s)) =
     (if \<not> sm_hasUeMgr s then sm_statistics s
      else (sm_statistics s)\<lparr>st_totalUeRegistrations := st_totalUeRegistrations (sm_statistics s) + 1,
              st_activeUeConnections := active s + 1\<rparr>)"
  by (simp add: registration_effect)

lemma state_registration [simp]:
  "sm_currentState (snd (processRegistrationRequest e k ty s)) = sm_currentState s"
  by (simp add: registration_effect)

definition message_counters :: "AmfSm \<Rightarrow> int list" where
  "message_counters s = map (\<lambda>c. c (sm_statistics s))
     [st_totalSbiMessages, st_totalN1Messages, st_totalN2Messages]"

definition event_growth :: "AmfSm \<Rightarrow> AmfSm \<Rightarrow> bool" where
  "event_growth s s' \<longleftrightarrow> grows_by 2 s s' \<and> message_counters s' = message_counters s"

lemmas counter_defs = counters_ok_def grows_by_def counter_fields_def message_counters_def event_growth_def

lemma event_growth_if:
  "(P \<Longrightarrow> event_growth s a) \<Longrightarrow> (\<not> P \<Longrightarrow> event_growth s b) \<Longrightarrow> event_growth s (if P then a else b)"
  by simp

lemma event_growth_refl: "counters_ok s \<Longrightarrow> event_growth s s"
  by (simp add: counter_defs)

lemma deregistered_counters: "counters_ok s \<Longrightarrow> event_growth s (handleDeregisteredState e ev s)"
  unfolding handleDeregisteredState_def
  by (intro event_growth_if event_growth_refl)
     (simp_all add: counter_defs statistics_transition statistics_registration)

lemma idle_counters: "counters_ok s \<Longrightarrow> event_growth s (handleRegisteredIdleState e ev s)"
  unfolding handleRegisteredIdleState_def procedure_defs with_ue_snd deregistration_effect
  by (intro event_growth_if event_growth_refl)
     (simp_all add: counter_defs statistics_transition statistics_registration with_ue_snd)

lemma connected_counters: "counters_ok s \<Longrightarrow> event_growth s (handleRegisteredConnectedState e ev s)"
  unfolding handleRegisteredConnectedState_def procedure_defs with_ue_snd deregistration_effect
  by (intro event_growth_if event_growth_refl)
     (simp_all add: counter_defs statistics_transition with_ue_snd)

lemma event_grows: "counters_ok s \<Longrightarrow> event_growth s (handleEvent e ev s)"
  using deregistered_counters [of s e ev] idle_counters [of s e ev] connected_counters [of s e ev]
  by (cases "sm_currentState s") (simp_all add: handleEvent_def counter_defs)

lemma grows_trans_count:
  assumes "counters_ok s" and "event_growth (bump f s) s'"
    and "f = st_totalSbiMessages_update \<or> f = st_totalN1Messages_update \<or> f = st_totalN2Messages_update"
  shows "grows_by 2 s s'"
  using assms by (auto simp: counter_defs)

lemma counters_ok_bump:
  "f = st_totalSbiMessages_update \<or> f = st_totalN1Messages_update \<or> f = st_totalN2Messages_update \<Longrightarrow>
     counters_ok s \<Longrightarrow> counters_ok (bump f s)"
  by (auto simp: counter_defs)

lemma answered_sel [simp]:
  "sm_statistics (answered rm m s) = sm_statistics s"
  "sm_ueMgr (answered rm m s) = sm_ueMgr s"
  "sm_nfMgr (answered rm m s) = sm_nfMgr s"
  by (simp_all add: answered_def split: option.split prod.split)

lemma step_grows:
  assumes "counters_ok s"
  shows "grows_by 2 s (amf_step s i)"
proof -
  obtain e inp where i: "i = (e, inp)" by (cases i)
  have opt: "event_growth t (case x of None \<Rightarrow> t | Some ev \<Rightarrow> handleEvent e ev t)" if "counters_ok t" for t x
    using that by (cases x) (simp_all add: event_growth_refl event_grows)
  show ?thesis
  proof (cases inp)
    case (Event ev)
    with i event_grows [OF assms, of e ev] show ?thesis by (simp add: event_growth_def)
  next
    case (N1In m)
    have "counters_ok (bump st_totalN1Messages_update s)" using assms by (simp add: counters_ok_bump)
    from grows_trans_count [OF assms opt [OF this]] N1In i show ?thesis
      by (simp add: n1_step [where rm = True] del: input_event.simps)
  next
    case (N2In m)
    have "counters_ok (bump st_totalN2Messages_update s)" using assms by (simp add: counters_ok_bump)
    from grows_trans_count [OF assms opt [OF this]] N2In i show ?thesis
      by (simp add: n2_step [where rm = True] del: input_event.simps)
  next
    case (SbiIn m)
    let ?s1 = "bump st_totalSbiMessages_update s"
    let ?rm = "sm_currentState s \<noteq> UeState.DEREGISTERED"
    have ok: "counters_ok ?s1" using assms by (simp add: counters_ok_bump)
    have "counters_ok (answered ?rm m ?s1)" using ok by (simp add: counters_ok_def)
    from opt [OF this, of "input_event ?rm (SbiIn m)"]
    have req: "event_growth ?s1 (case input_event ?rm (SbiIn m) of
        None \<Rightarrow> answered ?rm m ?s1 | Some ev \<Rightarrow> handleEvent e ev (answered ?rm m ?s1))"
      by (simp add: counter_defs del: input_event.simps)
    have resp: "event_growth ?s1 (processSbiResponse m ?s1)"
      using event_growth_refl [OF ok] by (simp add: counter_defs processSbiResponse_def split: option.split)
    have "event_growth ?s1 (handleSbiMessage e m s)"
    proof (cases "isRequest m")
      case True
      with req show ?thesis by (simp add: sbi_request_step Let_def del: input_event.simps)
    next
      case False
      with sbi_other_step [OF False, of e s] resp event_growth_refl [OF ok] show ?thesis by auto
    qed
    from grows_trans_count [OF assms this] SbiIn i show ?thesis by simp
  qed
qed

interpretation ctr: machine amf_step counters_ok
  by unfold_locales (use step_grows in \<open>auto simp: grows_by_def counters_ok_def list_all_iff\<close>)

lemma counters_ok_new: "counters_ok (AmfSm_new e) \<and> list_all (\<lambda>c. c (sm_statistics (AmfSm_new e)) = 0) counter_fields"
  by (simp add: counter_defs AmfSm_new_def)

lemma counter_run:
  assumes "c \<in> set counter_fields"
  shows "0 \<le> c (sm_statistics (foldl amf_step (AmfSm_new e) inputs))
    \<and> c (sm_statistics (foldl amf_step (AmfSm_new e) inputs)) \<le> 2 * int (length inputs)"
proof -
  have "c (sm_statistics (amf_step s i)) \<le> c (sm_statistics s) + 2" if "counters_ok s" for s i
    using step_grows [OF that, of i] assms by (simp add: grows_by_def list_all_iff)
  then have "c (sm_statistics (foldl amf_step (AmfSm_new e) inputs)) \<le> c (sm_statistics (AmfSm_new e)) + 2 * int (length inputs)"
    using counters_ok_new by (intro ctr.run_measure) auto
  moreover have "counters_ok (foldl amf_step (AmfSm_new e) inputs)"
    using counters_ok_new by (intro ctr.run_inv) auto
  moreover have "c (sm_statistics (AmfSm_new e)) = 0"
    using assms counters_ok_new [of e] by (simp add: list_all_iff)
  ultimately show ?thesis
    using assms by (simp add: counters_ok_def list_all_iff)
qed

text \<open>
  No counter of the statistics is ever negative, and after \<open>n\<close> inputs none exceeds \<open>2 n\<close>: as
  \<open>int\<close> members they cannot overflow within the first \<open>2^30 - 1\<close> events and messages.
\<close>

theorem counters_bounded:
  "list_all (\<lambda>c. 0 \<le> c (sm_statistics (foldl amf_step (AmfSm_new e) inputs))
      \<and> c (sm_statistics (foldl amf_step (AmfSm_new e) inputs)) \<le> 2 * int (length inputs)) counter_fields"
  using counter_run by (simp add: list_all_iff)

section \<open>Responses to SBI requests\<close>

lemma with_ue_pending:
  "(\<And>t. sm_pendingMessages (f t) = sm_pendingMessages t) \<Longrightarrow>
     sm_pendingMessages (snd (with_ue k f s)) = sm_pendingMessages s"
  by (simp add: with_ue_snd)

lemma registration_pending [simp]:
  "sm_pendingMessages (snd (processRegistrationRequest e k ty s)) = sm_pendingMessages s"
  by (simp add: registration_effect)

lemma handleEvent_pending [simp]: "sm_pendingMessages (handleEvent e ev s) = sm_pendingMessages s"
  by (simp add: handleEvent_def state_handler_defs procedure_defs with_ue_snd split: UeState.split)

definition sbi_response :: "SbiMessage \<Rightarrow> SbiMessageType \<Rightarrow> int \<Rightarrow> string \<Rightarrow> SbiMessage" where
  "sbi_response request t c b = \<lparr>sbi_serviceType = sbi_serviceType request, sbi_messageType = t,
     sbi_httpMethod = POST, sbi_uri = [], sbi_body = b,
     sbi_headers = [(''Accept'', ''application/json''), (''Content-Type'', ''application/json''),
                    (''Location'', sbi_uri request @ ''/response'')],
     sbi_status = PENDING, sbi_statusCode = c\<rparr>"

lemma created_response:
  "setStatus PENDING (setBody b (createSbiResponse request t c)) = sbi_response request t c b"
  by (simp add: createSbiResponse_def sbi_response_def sbi_set_defs SbiMessage_new_def)

lemma answered_pending:
  "sm_pendingMessages (answered rm m s) = sm_pendingMessages s @
     (case sbi_answer rm m of None \<Rightarrow> [] | Some (t, c, b) \<Rightarrow> [sbi_response m t c b])"
  by (simp add: answered_def created_response del: sbi_answer.simps split: option.split prod.split)

text \<open>
  C35. Every SBI message is answered according to the table \<open>sbi_answer\<close>: a request it lists is
  answered by exactly one response (201 or 409 to a context creation, 201 or 403 to a session
  creation, depending on the registration), any other message by none. The queued response repeats
  the service, points to the request's URI, and has status \<open>PENDING\<close> whatever its status code.
\<close>

theorem sbi_messages_answered:
  "sm_pendingMessages (handleSbiMessage e m s) = sm_pendingMessages s @
     (case sbi_answer (sm_currentState s \<noteq> UeState.DEREGISTERED) m of
        None \<Rightarrow> []
      | Some (t, c, b) \<Rightarrow> [sbi_response m t c b])"
proof (cases "isRequest m")
  case True
  show ?thesis
    by (simp add: sbi_request_step [OF True] Let_def answered_pending del: input_event.simps sbi_answer.simps
        split: option.split)
next
  case False
  then have "sm_pendingMessages (handleSbiMessage e m s) = sm_pendingMessages s"
    by (simp add: handleSbiMessage_def processSbiResponse_def Let_def split: option.split)
  with sbi_not_request(2) [OF False] show ?thesis by simp
qed

section \<open>Every reachable state\<close>

text \<open>
  \<open>amf_call s s'\<close>: one call of a public method of \<open>AmfSm\<close>, or one pass of a background thread
  (health checks of network functions, removal of inactive contexts, monitoring), leads from \<open>s\<close>
  to \<open>s'\<close>.
\<close>

inductive amf_call :: "AmfSm \<Rightarrow> AmfSm \<Rightarrow> bool" where
  Input: "amf_call s (amf_step s i)"
| Register: "amf_call s (snd (processRegistrationRequest e k ty s))"
| Deregister: "amf_call s (snd (processDeregistrationRequest k cause s))"
| Handover: "amf_call s (snd (processHandoverRequest k node s))"
| Handover_Complete: "amf_call s (snd (completeHandover k gnb s))"
| Create_Session: "amf_call s (snd (createPduSession e k i dnn s))"
| Release_Session: "amf_call s (snd (releasePduSession e k i s))"
| Authenticate: "amf_call s (snd (initiateAuthentication k s))"
| Authenticated: "amf_call s (snd (processAuthenticationResponse k r s))"
| Tracking_Area: "amf_call s (snd (processTrackingAreaUpdate_supi k tai s))"
| Periodic: "amf_call s (snd (processPeriodicRegistrationUpdate_supi e k s))"
| Service: "amf_call s (processServiceRequest s)"
| Service_Supi: "amf_call s (processServiceRequest_supi k ty s)"
| Release: "amf_call s (processConnectionRelease s)"
| Release_Supi: "amf_call s (snd (processConnectionRelease_supi k r s))"
| Paging: "amf_call s (processPagingRequest s)"
| Paging_Supi: "amf_call s (processPagingRequest_supi k cause s)"
| Create_Ue: "amf_call s (snd (sm_createUeContext e k s))"
| Remove_Ue: "amf_call s (snd (sm_removeUeContext k s))"
| Send_N1: "amf_call s (snd (sm_sendN1Message n1 s))"
| Send_N2: "amf_call s (snd (sm_sendN2Message n2 s))"
| Send_Sbi: "amf_call s (sendSbiMessage m s)"
| Sbi_Callback: "amf_call s (registerSbiCallback t cb s)"
| Subscribe: "amf_call s (subscribeToEvents ev cb s)"
| Notify: "amf_call s (notifyEvent ev d s)"
| Configure: "amf_call s (snd (updateConfiguration cfg s))"
| Update_Statistics: "amf_call s (updateStatistics r1 r2 s)"
| Initialize: "amf_call s (snd (sm_initialize e cfg s))"
| Shutdown: "amf_call s (snd (sm_shutdown s))"
| Nf_Operation: "amf_call s (s\<lparr>sm_nfMgr := nf_step (sm_nfMgr s) op\<rparr>)"
| Ue_Cleanup: "amf_call s (s\<lparr>sm_ueMgr := cleanupInactiveContexts e thr (sm_ueMgr s)\<rparr>)"
| Monitor: "amf_call s (monitoring_pass r1 r2 s)"

definition amf_safe :: "AmfSm \<Rightarrow> bool" where
  "amf_safe s \<longleftrightarrow> mgr_ok (sm_ueMgr s) \<and> nf_ok (sm_nfMgr s) \<and> 0 \<le> active s
     \<and> list_all (\<lambda>m. sbi_status m = PENDING) (sm_pendingMessages s)
     \<and> \<not> sm_isInitialized s \<and> \<not> sm_monitoringRunning s"

lemma sessions_ok_updates [simp]:
  "sessions_ok c \<Longrightarrow> sessions_ok (mark_registered c)"
  "sessions_ok c \<Longrightarrow> sessions_ok (mark_deregistered c)"
  "sessions_ok c \<Longrightarrow> sessions_ok (setRanNodeId n c)"
  "sessions_ok c \<Longrightarrow> sessions_ok (setTai t c)"
  "sessions_ok c \<Longrightarrow> sessions_ok (setConnectionState cs c)"
  "sessions_ok c \<Longrightarrow> sessions_ok (updateLastActivity e c)"
  by (simp_all add: sessions_ok_def mark_registered_def mark_deregistered_def setRanNodeId_def setTai_def
      setConnectionState_def setRegistrationState_def updateLastActivity_def)

lemma flags_sel [simp]:
  "sm_isInitialized (bump f s) = sm_isInitialized s" "sm_monitoringRunning (bump f s) = sm_monitoringRunning s"
  "sm_isInitialized (drop_connection s) = sm_isInitialized s"
  "sm_monitoringRunning (drop_connection s) = sm_monitoringRunning s"
  "sm_isInitialized (update_ue k f' s) = sm_isInitialized s"
  "sm_monitoringRunning (update_ue k f' s) = sm_monitoringRunning s"
  "sm_isInitialized (transitionTo st s) = sm_isInitialized s"
  "sm_monitoringRunning (transitionTo st s) = sm_monitoringRunning s"
  "sm_isInitialized (updateResponseTimeStatistics r s) = sm_isInitialized s"
  "sm_monitoringRunning (updateResponseTimeStatistics r s) = sm_monitoringRunning s"
  "sm_isInitialized (sendSbiMessage m s) = sm_isInitialized s"
  "sm_monitoringRunning (sendSbiMessage m s) = sm_monitoringRunning s"
  by (simp_all add: bump_def drop_connection_def update_ue_def transitionTo_def
      updateResponseTimeStatistics_def sendSbiMessage_def Let_def)

lemma safe_bump:
  "0 \<le> st_activeUeConnections (f (\<lambda>n. n + 1) (sm_statistics s)) \<Longrightarrow> amf_safe s \<Longrightarrow> amf_safe (bump f s)"
  by (simp add: amf_safe_def)

lemma safe_bumps [intro]:
  assumes "amf_safe s"
  shows "amf_safe (bump st_totalUeRegistrations_update s)" "amf_safe (bump st_activeUeConnections_update s)"
    "amf_safe (bump st_totalPduSessions_update s)" "amf_safe (bump st_totalHandovers_update s)"
    "amf_safe (bump st_totalAuthenticationAttempts_update s)" "amf_safe (bump st_successfulAuthentications_update s)"
    "amf_safe (bump st_totalSbiMessages_update s)" "amf_safe (bump st_totalN1Messages_update s)"
    "amf_safe (bump st_totalN2Messages_update s)"
  using assms by (auto simp: amf_safe_def)

lemma safe_drop [intro]: "amf_safe s \<Longrightarrow> amf_safe (drop_connection s)"
  by (simp add: amf_safe_def)

lemma safe_update:
  "amf_safe s \<Longrightarrow> (\<And>c. sessions_ok c \<Longrightarrow> sessions_ok (f c)) \<Longrightarrow> amf_safe (update_ue k f s)"
  by (simp add: amf_safe_def mgr_ok_modify)

lemma safe_transition [intro]: "amf_safe s \<Longrightarrow> amf_safe (transitionTo st s)"
  by (simp add: amf_safe_def active_transition)

lemma safe_with_ue:
  "amf_safe s \<Longrightarrow> (\<And>t. amf_safe t \<Longrightarrow> amf_safe (f t)) \<Longrightarrow> amf_safe (snd (with_ue k f s))"
  by (simp add: with_ue_snd)

lemma safe_registration [intro]:
  assumes "amf_safe s"
  shows "amf_safe (snd (processRegistrationRequest e k ty s))"
proof -
  have "amf_safe (s\<lparr>sm_ueMgr := createUeContext e k (sm_ueMgr s)\<rparr>)"
    using assms by (simp add: amf_safe_def mgr_ok_create)
  with assms show ?thesis by (auto simp: registration_effect intro!: safe_bumps safe_update)
qed

lemma safe_deregistration [intro]:
  "amf_safe s \<Longrightarrow> amf_safe (snd (processDeregistrationRequest k cause s))"
  by (auto simp: deregistration_effect intro!: safe_update)

lemma safe_procedures [intro]:
  assumes "amf_safe s"
  shows "amf_safe (snd (processHandoverRequest k node s))" "amf_safe (snd (completeHandover k node s))"
    "amf_safe (snd (createPduSession e k i dnn s))" "amf_safe (snd (releasePduSession e k i s))"
    "amf_safe (snd (initiateAuthentication k s))" "amf_safe (snd (processAuthenticationResponse k r s))"
    "amf_safe (snd (processTrackingAreaUpdate_supi k tai s))"
  unfolding procedure_defs
  by (auto intro!: safe_with_ue assms safe_update simp: sessions_ok_add sessions_ok_remove)

lemma safe_event [intro]:
  assumes "amf_safe s"
  shows "amf_safe (handleEvent e ev s)"
proof -
  have "amf_safe (updateResponseTimeStatistics r t) = amf_safe t" for r t
    by (simp add: amf_safe_def)
  then show ?thesis
    using assms by (auto simp: handleEvent_def state_handler_defs split: UeState.split)
qed

lemma safe_send [intro]: "amf_safe s \<Longrightarrow> amf_safe (sendSbiMessage m s)"
  by (simp add: amf_safe_def setStatus_def)

lemma safe_invoked: "amf_safe (s\<lparr>sm_sbiInvoked := l\<rparr>) = amf_safe s"
  by (simp add: amf_safe_def)

lemma safe_input [intro]:
  assumes "amf_safe s"
  shows "amf_safe (amf_step s i)"
proof -
  obtain e inp where i: "i = (e, inp)" by (cases i)
  have opt: "amf_safe t \<Longrightarrow> amf_safe (case x of None \<Rightarrow> t | Some ev \<Rightarrow> handleEvent e ev t)" for t x
    by (cases x) auto
  have ans: "amf_safe t \<Longrightarrow> amf_safe (answered rm m t)" for rm m t
    unfolding answered_def by (auto split: option.split prod.split)
  show ?thesis
  proof (cases inp)
    case (SbiIn m)
    show ?thesis
    proof (cases "isRequest m")
      case True
      with SbiIn i assms show ?thesis
        by (auto simp: sbi_request_step Let_def simp del: input_event.simps intro!: opt ans)
    next
      case False
      with SbiIn i assms show ?thesis
        by (auto simp: handleSbiMessage_def processSbiResponse_def Let_def safe_invoked split: option.split)
    qed
  qed (use i assms in \<open>auto simp: n1_step [where rm = True] n2_step [where rm = True]
         simp del: input_event.simps intro!: opt\<close>)
qed

lemma safe_sends:
  assumes "amf_safe s"
  shows "amf_safe (snd (sm_sendN1Message n1 s))" "amf_safe (snd (sm_sendN2Message n2 s))"
    "amf_safe (send_n1_if_up n1 s)" "amf_safe (send_n2_if_up n2 s)"
  using assms
  by (auto simp: amf_safe_def sm_sendN1Message_def sm_sendN2Message_def send_n1_if_up_def send_n2_if_up_def
      split: prod.split)

lemma initialize_effect:
  assumes "\<not> sm_mutexHeld s" and "\<not> sm_isInitialized s"
  shows "sm_initialize e cfg s = (Inl Deadlock,
    s\<lparr>sm_config := cfg, sm_hasUeMgr := True, sm_hasN1N2 := True,
      sm_n1n2 := snd (startN1N2Service (cfg_n1n2BindAddress cfg) (cfg_n2Port cfg) (sm_n1n2 s)),
      sm_hasNfMgr := True, sm_hasAmfNf := True,
      sm_amfNf := snd (registerWithNrf (cfg_nrfUri cfg)
        (snd (AmfNfInstance_initialize e (cfg_amfInstanceId cfg) (cfg_plmnId cfg) (sm_amfNf s)))),
      sm_mutexHeld := True\<rparr>)"
proof -
  have start: "startN1N2Service a p n = (True, snd (startN1N2Service a p n))" for a p n
    by (simp add: startN1N2Service_def)
  have nf: "AmfNfInstance_initialize e i p n = (True, snd (AmfNfInstance_initialize e i p n))" for i p n
    by (simp add: AmfNfInstance_initialize_def)
  have reg: "registerWithNrf u n = (Inl Deadlock, snd (registerWithNrf u n))" for u n
    by (simp add: registerWithNrf_def startHeartbeatService_def)
  show ?thesis
    unfolding sm_initialize_def Let_def by (subst start, subst nf, subst reg) (simp add: assms)
qed

lemma initialize_refused:
  "sm_mutexHeld s \<or> sm_isInitialized s \<Longrightarrow> snd (sm_initialize e cfg s) = s"
  by (auto simp: sm_initialize_def lock_mutex_def)

lemma safe_initialize:
  assumes "amf_safe s"
  shows "amf_safe (snd (sm_initialize e cfg s))"
proof (cases "sm_mutexHeld s \<or> sm_isInitialized s")
  case True
  with assms show ?thesis by (simp add: initialize_refused)
next
  case False
  then show ?thesis using assms by (simp add: initialize_effect amf_safe_def)
qed

lemma safe_admin:
  assumes "amf_safe s"
  shows "amf_safe (snd (sm_createUeContext e k s))" "amf_safe (snd (sm_removeUeContext k s))"
    "amf_safe (registerSbiCallback t cb s)" "amf_safe (subscribeToEvents ty cb s)"
    "amf_safe (snd (updateConfiguration cfg s))"
    "amf_safe (s\<lparr>sm_nfMgr := nf_step (sm_nfMgr s) op\<rparr>)"
    "amf_safe (s\<lparr>sm_ueMgr := cleanupInactiveContexts e thr (sm_ueMgr s)\<rparr>)"
  using assms
  by (simp_all add: amf_safe_def sm_createUeContext_def sm_removeUeContext_def registerSbiCallback_def
      subscribeToEvents_def updateConfiguration_def mgr_ok_create mgr_ok_remove mgr_ok_cleanup nf_ok_step)

lemma safe_shutdown: "amf_safe s \<Longrightarrow> amf_safe (snd (sm_shutdown s))"
  by (auto simp: sm_shutdown_def lock_mutex_def amf_safe_def)

lemma safe_call:
  assumes "amf_call s s'" and "amf_safe s"
  shows "amf_safe s'"
  using assms
proof (induction rule: amf_call.induct)
  case (Periodic s e k)
  then show ?case
    by (auto simp: processPeriodicRegistrationUpdate_supi_def intro!: safe_with_ue safe_sends safe_update)
next
  case (Release_Supi s k r)
  then show ?case
    by (auto simp: processConnectionRelease_supi_def intro!: safe_sends safe_update split: option.split)
next
  case (Initialize s e cfg)
  then show ?case by (rule safe_initialize)
next
  case (Shutdown s)
  then show ?case by (rule safe_shutdown)
next
  case (Update_Statistics s r1 r2)
  then show ?case by (simp add: amf_safe_def updateStatistics_def live_statistics_def Let_def)
next
  case (Monitor s r1 r2)
  then show ?case by (simp add: amf_safe_def monitoring_pass_def)
next
  case (Notify s ev d)
  then show ?case by (simp add: amf_safe_def notifyEvent_def split: option.split)
qed (auto simp: processServiceRequest_def processServiceRequest_supi_def processConnectionRelease_def
    processPagingRequest_def processPagingRequest_supi_def safe_sends safe_admin)

lemma safe_new: "amf_safe (AmfSm_new e)"
  by (simp add: amf_safe_def) (simp add: AmfSm_new_def)

lemma safe_reachable: "amf_call\<^sup>*\<^sup>* s s' \<Longrightarrow> amf_safe s \<Longrightarrow> amf_safe s'"
  by (induction rule: rtranclp_induct) (auto intro: safe_call)

text \<open>
  C22. In every state reachable by calls of the public methods and passes of the background
  threads: the stored contexts are in key order and no UE has two sessions with one identifier, the
  registry of network functions is consistent, the number of active connections is not negative,
  every queued SBI message is \<open>PENDING\<close>; and the AMF is never initialised, so its health check
  always fails.
\<close>

theorem reachable_states_safe:
  assumes "amf_call\<^sup>*\<^sup>* (AmfSm_new e) s"
  shows "mgr_ok (sm_ueMgr s) \<and> nf_ok (sm_nfMgr s) \<and> 0 \<le> st_activeUeConnections (sm_statistics s)
    \<and> list_all (\<lambda>m. sbi_status m = PENDING) (sm_pendingMessages s)
    \<and> \<not> sm_isInitialized s \<and> \<not> sm_performHealthCheck s"
  using safe_reachable [OF assms safe_new] by (simp add: amf_safe_def sm_performHealthCheck_def)

theorem reachable_states_safe_witness:
  "\<not> sm_performHealthCheck (snd (sm_initialize boot_env getDefaultConfiguration (AmfSm_new boot_env)))"
proof -
  have "amf_call\<^sup>*\<^sup>* (AmfSm_new boot_env) (snd (sm_initialize boot_env getDefaultConfiguration (AmfSm_new boot_env)))"
    by (intro r_into_rtranclp Initialize)
  from reachable_states_safe [OF this] show ?thesis by blast
qed

section \<open>Initialisation blocks\<close>

lemma initialize_blocked:
  "sm_mutexHeld s \<Longrightarrow> sm_initialize e cfg s = (Inl Deadlock, s)"
  "sm_mutexHeld s \<Longrightarrow> sm_shutdown s = (Inl Deadlock, s)"
  by (simp_all add: sm_initialize_def sm_shutdown_def)

text \<open>
  \<open>initialize\<close> never completes on an uninitialised AMF: it configures the interfaces and the
  profile and then blocks in \<open>registerWithNrf\<close> while holding \<open>amfMutex_\<close>. The monitoring thread is not
  started, no other network function is registered, and any later \<open>initialize\<close> or \<open>shutdown\<close> (also
  the one in the destructor) blocks.
\<close>

theorem initialize_never_completes:
  fixes e e2 :: env and cfg cfg2 :: AmfConfiguration
  assumes "\<not> sm_mutexHeld s" and "\<not> sm_isInitialized s"
  defines "s' \<equiv> snd (sm_initialize e cfg s)"
  shows "fst (sm_initialize e cfg s) = Inl Deadlock
    \<and> sm_config s' = cfg \<and> serviceRunning (sm_n1n2 s')
    \<and> \<not> sm_isInitialized s' \<and> sm_nfMgr s' = sm_nfMgr s \<and> sm_monitoringRunning s' = sm_monitoringRunning s
    \<and> sm_initialize e2 cfg2 s' = (Inl Deadlock, s') \<and> sm_shutdown s' = (Inl Deadlock, s')"
proof -
  have held: "sm_mutexHeld s'" "sm_config s' = cfg" "serviceRunning (sm_n1n2 s')" "\<not> sm_isInitialized s'"
      "sm_nfMgr s' = sm_nfMgr s" "sm_monitoringRunning s' = sm_monitoringRunning s"
    unfolding s'_def by (simp_all add: initialize_effect [OF assms(1,2)] assms(2) startN1N2Service_def)
  with initialize_blocked [OF held(1)] initialize_effect [OF assms(1,2)] show ?thesis by simp
qed

theorem initialize_never_completes_witness:
  "fst (sm_initialize boot_env getDefaultConfiguration (AmfSm_new boot_env)) = Inl Deadlock"
proof -
  have "\<not> sm_mutexHeld (AmfSm_new boot_env)" "\<not> sm_isInitialized (AmfSm_new boot_env)"
    by (simp_all add: AmfSm_new_def)
  from initialize_never_completes [OF this, of boot_env getDefaultConfiguration boot_env getDefaultConfiguration]
  show ?thesis by blast
qed

section \<open>Selection of network functions, load, response times\<close>

lemma smf_query: "query_matches e ((amf_query e SMF r)\<lparr>q_dnn := dnn, q_snssai := sn\<rparr>) = query_matches e (empty_query e SMF)"
  by (simp add: query_matches_def amf_query_def empty_query_def fun_eq_iff)

lemma smf_selection_simple:
  assumes "sm_hasNfMgr s" and "sm_hasAmfNf s"
  shows "selectSmfForSession srt e dnn sl s = selectNfInstance srt e SMF [] (sm_nfMgr s)"
proof -
  have "discoverNfInstances srt e ((amf_query e SMF r)\<lparr>q_dnn := dnn, q_snssai := sn\<rparr>) m =
      discoverNfInstances srt e (empty_query e SMF) m" for r sn m
    by (simp add: discoverNfInstances_def smf_query)
  then show ?thesis
    using assms
    by (simp add: selectSmfForSession_def selectNfInstance_plmn [where p = "nf_plmnId (amfInstance (sm_amfNf s))"] Let_def)
       (simp add: selectNfInstance_def)
qed

text \<open>
  The SMF selected for a PDU session is a healthy registered SMF of the best priority and load,
  and there is one whenever a healthy SMF is registered; it depends neither on the data network
  name nor on the slice of the session.
\<close>

theorem smf_selection_ignores_session:
  assumes "sorter nf_before srt" and "nf_ok (sm_nfMgr s)" and "sm_hasNfMgr s" and "sm_hasAmfNf s"
  shows "selectSmfForSession srt e dnn sl s = selectSmfForSession srt e dnn' sl' s
    \<and> (case selectSmfForSession srt e dnn sl s of
         None \<Rightarrow> healthy_of e (sm_nfMgr s) SMF = {}
       | Some i \<Rightarrow> i \<in> healthy_of e (sm_nfMgr s) SMF \<and> (\<forall>j \<in> healthy_of e (sm_nfMgr s) SMF. \<not> nf_before j i))"
  using selection_optimal [OF assms(1,2), of e SMF "[]"] by (simp add: smf_selection_simple [OF assms(3,4)])

definition example_amf :: AmfSm where
  "example_amf = (AmfSm_new boot_env)\<lparr>sm_nfMgr := example_nfm\<rparr>"

theorem smf_selection_ignores_session_witness:
  "map_option nf_instanceId (selectSmfForSession (isort nf_before) example_nf_env ''ims''
     \<lparr>ns_sst = 1, ns_sd = ''000001'', ns_plmnId = ''46001'', ns_snssai = ''SST:1,SD:000001''\<rparr> example_amf) = Some ''smf-2''"
proof -
  let ?sl = "\<lparr>ns_sst = 1, ns_sd = ''000001'', ns_plmnId = ''46001'', ns_snssai = ''SST:1,SD:000001''\<rparr>"
  have m: "sm_nfMgr example_amf = example_nfm" by (simp add: example_amf_def)
  have ok: "nf_ok (sm_nfMgr example_amf)"
    unfolding m example_nfm_def by (intro nf_ok_register nf_ok_init)
  have h: "healthy_of example_nf_env example_nfm SMF =
      {(example_nf ''smf-1'' 10 50)\<lparr>nf_lastHeartbeat := 1000000000000\<rparr>,
       (example_nf ''smf-2'' 10 5)\<lparr>nf_lastHeartbeat := 1000000000000\<rparr>}"
    by (auto simp: healthy_of_def example_nfm_instances isHealthy_def example_nf_def NfInstance_new_def
        example_nf_env_def to_seconds_def)
  have flags: "sm_hasNfMgr example_amf" "sm_hasAmfNf example_amf"
    by (simp_all add: example_amf_def AmfSm_new_def boot_env_def)
  show ?thesis
    using smf_selection_ignores_session [OF nfs.sorter_axioms ok flags, of example_nf_env "''ims''" ?sl "''ims''" ?sl]
    unfolding m h by (auto simp: nf_before_def example_nf_def NfInstance_new_def split: option.splits)
qed

lemma int_div_less:
  assumes "0 < (m::int)"
  shows "a div m < t \<longleftrightarrow> a < t * m"
proof -
  have "t \<le> a div m \<longleftrightarrow> t * m \<le> a"
  proof
    assume "t \<le> a div m"
    then have "t * m \<le> (a div m) * m" using assms by (simp add: mult_right_mono)
    also have "\<dots> \<le> a" using assms pos_mod_sign [of m a] div_mult_mod_eq [of a m] by linarith
    finally show "t * m \<le> a" .
  next
    assume "t * m \<le> a"
    then have "t * m div m \<le> a div m" using assms by (rule zdiv_mono1)
    with assms show "t \<le> a div m" by simp
  qed
  then show ?thesis by linarith
qed

text \<open>
  The load check compares shares exactly: for a positive connection limit it accepts exactly
  when the active connections, times 100, are below the threshold times the limit.
\<close>

theorem load_balance_exact:
  assumes "0 < cfg_maxUeConnections (sm_config s)" and "0 \<le> st_activeUeConnections (sm_statistics s)"
  shows "checkLoadBalance s \<longleftrightarrow>
    st_activeUeConnections (sm_statistics s) * 100 < cfg_loadBalanceThreshold (sm_config s) * cfg_maxUeConnections (sm_config s)"
  using assms by (simp add: checkLoadBalance_def calculateCurrentLoad_def Let_def int_div_less)

theorem load_balance_exact_witness:
  "checkLoadBalance ((AmfSm_new boot_env)\<lparr>sm_config := getDefaultConfiguration\<rparr>)"
proof -
  let ?s = "(AmfSm_new boot_env)\<lparr>sm_config := getDefaultConfiguration\<rparr>"
  have "0 < cfg_maxUeConnections (sm_config ?s)" "0 \<le> st_activeUeConnections (sm_statistics ?s)"
    by (simp_all add: getDefaultConfiguration_def)
  from load_balance_exact [OF this] show ?thesis by (simp add: getDefaultConfiguration_def)
qed

lemma response_sel [simp]:
  "sm_respTotal (bump f s) = sm_respTotal s" "sm_respCount (bump f s) = sm_respCount s"
  "sm_respTotal (drop_connection s) = sm_respTotal s" "sm_respCount (drop_connection s) = sm_respCount s"
  "sm_respTotal (update_ue k g s) = sm_respTotal s" "sm_respCount (update_ue k g s) = sm_respCount s"
  "sm_respTotal (transitionTo st s) = sm_respTotal s" "sm_respCount (transitionTo st s) = sm_respCount s"
  by (simp_all add: bump_def drop_connection_def update_ue_def transitionTo_def)

lemma response_totals:
  "sm_respTotal (handleEvent e ev s) = sm_respTotal s + env_resp e"
  "sm_respCount (handleEvent e ev s) = sm_respCount s + 1"
  by (simp_all add: handleEvent_def updateResponseTimeStatistics_def Let_def state_handler_defs
      procedure_defs registration_effect with_ue_snd split: UeState.split)

lemma response_run:
  "sm_respTotal (foldl (\<lambda>s (e, ev). handleEvent e ev s) s evs) = sm_respTotal s + (\<Sum>(e, ev) \<leftarrow> evs. env_resp e)
   \<and> sm_respCount (foldl (\<lambda>s (e, ev). handleEvent e ev s) s evs) = sm_respCount s + int (length evs)"
  by (induction evs arbitrary: s) (auto simp: response_totals)

lemma average_last:
  "st_averageResponseTime (sm_statistics (handleEvent e ev s)) = (sm_respTotal s + env_resp e) / real_of_int (sm_respCount s + 1)"
  by (simp add: handleEvent_def state_handler_defs procedure_defs registration_effect with_ue_snd split: UeState.split)

text \<open>
  After any non-empty sequence of events on a new AMF, the average response time in the
  statistics is the arithmetic mean of the response times measured for these events.
\<close>

theorem average_response_time_is_mean:
  "st_averageResponseTime (sm_statistics (foldl (\<lambda>s (e, ev). handleEvent e ev s) (AmfSm_new e0) (evs @ [(e, ev)])))
     = (\<Sum>(e, ev) \<leftarrow> evs @ [(e, ev)]. env_resp e) / real (length (evs @ [(e, ev)]))"
proof -
  have "sm_respTotal (AmfSm_new e0) = 0" "sm_respCount (AmfSm_new e0) = 0" by (simp_all add: AmfSm_new_def)
  with response_run [of "AmfSm_new e0" evs] show ?thesis by (simp add: average_last)
qed

end
