(* ===== verification/Http_Sbi_Server.thy ===== *)
theory Http_Sbi_Server
  imports Amf_Sm_Safety
begin

text \<open>
  The HTTP front end of the AMF (\<open>5gc/amf/amf_http_server.cpp\<close>) and the mock server
  (\<open>5gc/amf/src/HttpServer.cpp\<close>).

  A request is the text received by one \<open>recv\<close> call (at most 4095 bytes, cut at the first NUL). It is
  parsed, routed by substrings of its URI, handed to the AMF state machine and answered. The text
  of the local time stamp is an argument. Sockets, threads and signal handling are not modelled;
  one request is handled as one step.
\<close>

section \<open>Requests\<close>

record HttpRequest =
  http_method :: string
  http_uri :: string
  http_version :: string
  http_headers :: "string smap"
  http_body :: string

definition header_value :: "string \<Rightarrow> string" where
  "header_value v = rev (dropWhile (\<lambda>c. c = CR \<or> c = LF) (rev (dropWhile is_blank v)))"

definition add_header_line :: "string smap \<Rightarrow> string \<Rightarrow> string smap" where
  "add_header_line hs line =
     (case find_char (CHR '':'') line of
        None \<Rightarrow> hs
      | Some pos \<Rightarrow> mput (take pos line) (header_value (drop (pos + 1) line)) hs)"

definition ends_headers :: "string \<Rightarrow> bool" where
  "ends_headers line \<longleftrightarrow> line = [CR] \<or> line = []"

definition drop_last_newline :: "string \<Rightarrow> string" where
  "drop_last_newline b = (if b \<noteq> [] \<and> last b = LF then butlast b else b)"

definition parseHttpRequest :: "string \<Rightarrow> HttpRequest" where
  "parseHttpRequest request =
     (case getlines request of
        [] \<Rightarrow> \<lparr>http_method = [], http_uri = [], http_version = [], http_headers = [], http_body = []\<rparr>
      | line # rest \<Rightarrow>
          (let (m, r1) = next_word line; (u, r2) = next_word r1; (v, _) = next_word r2;
               hs = takeWhile (\<lambda>l. \<not> ends_headers l) rest;
               body_lines = drop (Suc (length hs)) rest
           in \<lparr>http_method = m, http_uri = u, http_version = v,
               http_headers = foldl add_header_line [] hs,
               http_body = drop_last_newline (concat (map (\<lambda>l. l @ [LF]) body_lines))\<rparr>))"

section \<open>Routing\<close>

definition determineServiceType :: "string \<Rightarrow> SbiServiceType" where
  "determineServiceType uri =
     (if contains_sub ''/namf-comm/'' uri then NAMF_COMMUNICATION
      else if contains_sub ''/nausf-auth/'' uri then NAUSF_UE_AUTHENTICATION
      else if contains_sub ''/nsmf-pdusession/'' uri then NSMF_PDU_SESSION
      else if contains_sub ''/npcf-am-policy/'' uri then NPCF_AM_POLICY_CONTROL
      else if contains_sub ''/nnrf-nfm/'' uri then NRF_NFM
      else if contains_sub ''/nnrf-disc/'' uri then NRF_NFD
      else NAMF_COMMUNICATION)"

definition determineMessageType :: "string \<Rightarrow> string \<Rightarrow> SbiMessageType" where
  "determineMessageType uri meth =
     (if contains_sub ''/ue-contexts'' uri \<and> meth = ''POST'' then UE_CONTEXT_CREATE_REQUEST
      else if contains_sub ''/ue-contexts'' uri \<and> meth = ''PUT'' then UE_CONTEXT_UPDATE_REQUEST
      else if contains_sub ''/ue-contexts'' uri \<and> meth = ''DELETE'' then SbiMessageType.UE_CONTEXT_RELEASE_REQUEST
      else if contains_sub ''/authentications'' uri then UE_AUTHENTICATION_REQUEST
      else if contains_sub ''/pdu-sessions'' uri \<and> meth = ''POST'' then UE_CONTEXT_CREATE_REQUEST
      else if contains_sub ''/pdu-sessions'' uri \<and> meth = ''DELETE'' then SbiMessageType.UE_CONTEXT_RELEASE_REQUEST
      else if contains_sub ''/registrations'' uri then UE_CONTEXT_CREATE_REQUEST
      else if contains_sub ''/deregistrations'' uri then SbiMessageType.UE_CONTEXT_RELEASE_REQUEST
      else UE_CONTEXT_CREATE_REQUEST)"

definition parseHttpMethod :: "string \<Rightarrow> HttpMethod" where
  "parseHttpMethod meth =
     (if meth = ''GET'' then GET else if meth = ''POST'' then POST else if meth = ''PUT'' then PUT
      else if meth = ''DELETE'' then DELETE else if meth = ''PATCH'' then PATCH else POST)"

definition getStateString :: "UeState \<Rightarrow> string" where
  "getStateString st = (case st of
       UeState.DEREGISTERED \<Rightarrow> ''DEREGISTERED''
     | REGISTERED_IDLE \<Rightarrow> ''REGISTERED_IDLE''
     | REGISTERED_CONNECTED \<Rightarrow> ''REGISTERED_CONNECTED'')"

section \<open>Handling a request\<close>

definition response_body :: "bool \<Rightarrow> string \<Rightarrow> UeState \<Rightarrow> SbiMessage \<Rightarrow> string" where
  \<open>response_body success timestamp st message =
     ''{'' @ [LF] @
     ''  "status": "'' @ (if success then ''success'' else ''error'') @ ''",'' @ [LF] @
     ''  "timestamp": "'' @ timestamp @ ''",'' @ [LF] @
     ''  "amfState": "'' @ getStateString st @ ''",'' @ [LF] @
     ''  "processedMessage": {'' @ [LF] @
     ''    "service": "'' @ nat_dec (sbi_service_index (sbi_serviceType message)) @ ''",'' @ [LF] @
     ''    "type": "'' @ nat_dec (sbi_type_index (sbi_messageType message)) @ ''",'' @ [LF] @
     ''    "method": "'' @ nat_dec (http_method_index (sbi_httpMethod message)) @ ''",'' @ [LF] @
     ''    "uri": "'' @ sbi_uri message @ ''"'' @ [LF] @
     ''  }'' @ [LF] @
     ''}''\<close>

definition generateHttpResponse :: "bool \<Rightarrow> string \<Rightarrow> UeState \<Rightarrow> SbiMessage \<Rightarrow> string" where
  "generateHttpResponse success timestamp st message =
     (let body = response_body success timestamp st message
      in ''HTTP/1.1 '' @ (if success then ''200 OK'' else ''400 Bad Request'') @ CRLF @
         ''Content-Type: application/json'' @ CRLF @
         ''Content-Length: '' @ nat_dec (length body) @ CRLF @
         ''Connection: close'' @ CRLF @
         CRLF @
         body)"

definition sbi_message_of :: "HttpRequest \<Rightarrow> SbiMessage" where
  "sbi_message_of req =
     foldl (\<lambda>m (k, v). addHeader k v m)
       (setBody (http_body req) (setUri (http_uri req)
         (SbiMessage_new (determineServiceType (http_uri req))
            (determineMessageType (http_uri req) (http_method req))
            (parseHttpMethod (http_method req)))))
       (http_headers req)"

definition processSbiMessage :: "env \<Rightarrow> string \<Rightarrow> HttpRequest \<Rightarrow> AmfSm \<Rightarrow> string \<times> AmfSm" where
  "processSbiMessage e timestamp req s =
     (let message = sbi_message_of req; s' = handleSbiMessage e message s
      in (generateHttpResponse True timestamp (sm_currentState s') message, s'))"

text \<open>\<open>handleClient\<close>: \<open>received\<close> is what is available on the socket.\<close>

definition handleClient :: "env \<Rightarrow> string \<Rightarrow> string \<Rightarrow> AmfSm \<Rightarrow> string option \<times> AmfSm" where
  "handleClient e timestamp received s =
     (let buffer = take 4095 received
      in if buffer = [] then (None, s)
         else (case processSbiMessage e timestamp (parseHttpRequest (takeWhile (\<lambda>c. c \<noteq> CHR 0x00) buffer)) s of
                 (response, s') \<Rightarrow> (Some response, s')))"

section \<open>The mock server\<close>

record HttpServer =
  srv_address :: string
  srv_port :: int
  srv_running :: bool
  srv_hasHandler :: bool

definition HttpServer_new :: "string \<Rightarrow> int \<Rightarrow> HttpServer" where
  "HttpServer_new address port = \<lparr>srv_address = address, srv_port = port, srv_running = False, srv_hasHandler = False\<rparr>"

definition srv_start :: "HttpServer \<Rightarrow> bool \<times> HttpServer" where
  "srv_start h = (if srv_running h then (True, h) else (True, h\<lparr>srv_running := True\<rparr>))"

definition srv_stop :: "HttpServer \<Rightarrow> HttpServer" where
  "srv_stop h = (if \<not> srv_running h then h else h\<lparr>srv_running := False\<rparr>)"

definition setMessageHandler :: "HttpServer \<Rightarrow> HttpServer" where
  "setMessageHandler h = h\<lparr>srv_hasHandler := True\<rparr>"

text \<open>\<open>r\<close> is the result of \<open>rand()\<close>, which is not negative.\<close>

definition createMockSbiMessage :: "nat \<Rightarrow> SbiMessage" where
  \<open>createMockSbiMessage r =
     addHeader ''Content-Type'' ''application/json''
       (if r mod 4 = 0 then
          setBody ''{"supi":"imsi-460001234567890","pei":"imeisv-1234567890123456"}''
            (setUri ''/namf-comm/v1/ue-contexts''
              (SbiMessage_new NAMF_COMMUNICATION UE_CONTEXT_CREATE_REQUEST POST))
        else if r mod 4 = 1 then
          setBody ''{"pduSessionId":5,"dnn":"internet","sNssai":{"sst":1}}''
            (setUri ''/nsmf-pdusession/v1/sm-contexts''
              (SbiMessage_new NSMF_PDU_SESSION PDU_SESSION_CREATE_SM_CONTEXT_REQUEST POST))
        else if r mod 4 = 2 then
          setBody ''{"supiOrSuci":"imsi-460001234567890","servingNetworkName":"5G:mnc001.mcc460.3gppnetwork.org"}''
            (setUri ''/nausf-auth/v1/ue-authentications''
              (SbiMessage_new NAUSF_UE_AUTHENTICATION UE_AUTHENTICATION_REQUEST POST))
        else
          setBody ''{"supi":"imsi-460001234567890","notificationUri":"http://amf.5gc.mnc001.mcc460.3gppnetwork.org:8080/namf-callback/v1/am-policy"}''
            (setUri ''/npcf-am-policy-control/v1/policies''
              (SbiMessage_new NPCF_AM_POLICY_CONTROL AM_POLICY_CONTROL_CREATE_REQUEST POST)))\<close>

text \<open>One pass of \<open>serverLoop\<close> with the two random numbers it draws.\<close>

definition server_pass :: "('s \<Rightarrow> SbiMessage \<Rightarrow> 's) \<Rightarrow> nat \<Rightarrow> nat \<Rightarrow> HttpServer \<Rightarrow> 's \<Rightarrow> 's" where
  "server_pass handler r1 r2 h s =
     (if srv_running h \<and> srv_hasHandler h \<and> r1 mod 1000 < 5 then handler s (createMockSbiMessage r2) else s)"

section \<open>Parsing well-formed requests\<close>

definition render_request :: "HttpRequest \<Rightarrow> string" where
  "render_request req =
     http_method req @ '' '' @ http_uri req @ '' '' @ http_version req @ CRLF @
     concat (map (\<lambda>(k, v). k @ '': '' @ v @ CRLF) (http_headers req)) @
     CRLF @ http_body req"

definition header_ok :: "string \<times> string \<Rightarrow> bool" where
  "header_ok = (\<lambda>(k, v). CHR '':'' \<notin> set k \<and> LF \<notin> set k \<and> LF \<notin> set v \<and>
     (v = [] \<or> \<not> is_blank (hd v) \<and> last v \<noteq> CR))"

definition well_formed :: "HttpRequest \<Rightarrow> bool" where
  "well_formed req \<longleftrightarrow> is_word (http_method req) \<and> is_word (http_uri req) \<and> is_word (http_version req) \<and>
     msorted (http_headers req) \<and> list_all header_ok (http_headers req) \<and>
     (http_body req = [] \<or> last (http_body req) \<noteq> LF)"

lemma request_line_words:
  assumes "is_word m" and "is_word u" and "is_word v"
  shows "next_word (m @ '' '' @ u @ '' '' @ v @ [CR]) = (m, '' '' @ u @ '' '' @ v @ [CR])"
    "next_word ('' '' @ u @ '' '' @ v @ [CR]) = (u, '' '' @ v @ [CR])"
    "next_word ('' '' @ v @ [CR]) = (v, [CR])"
  using assms by (simp_all add: next_word_first next_word_skip)

lemma header_value_ok:
  assumes "v = [] \<or> \<not> is_blank (hd v) \<and> last v \<noteq> CR" and "LF \<notin> set v"
  shows "header_value (CHR '' '' # v @ [CR]) = v"
proof (cases "v = []")
  case True
  then show ?thesis by (simp add: header_value_def is_blank_def)
next
  case False
  with assms have "\<not> is_blank (hd v)" "last v \<noteq> CR" "last v \<noteq> LF"
    using last_in_set [OF False] by (auto, metis)
  with False have "dropWhile is_blank (v @ [CR]) = v @ [CR]"
    "dropWhile (\<lambda>c. c = CR \<or> c = LF) (rev v) = rev v"
    by (simp_all add: dropWhile_id hd_rev)
  then show ?thesis by (simp add: header_value_def is_blank_def)
qed

lemma add_header_line_ok:
  assumes "header_ok (k, v)"
  shows "add_header_line hs (k @ '': '' @ v @ [CR]) = mput k v hs"
  using assms find_char_append [of "CHR '':''" k "'' '' @ v @ [CR]"]
  by (simp add: add_header_line_def header_ok_def header_value_ok)

lemma mput_greater: "(\<forall>x \<in> set m. fst x < k) \<Longrightarrow> mput k v m = m @ [(k, v)]"
  by (induction m) auto

lemma foldl_mput_sorted:
  "msorted (acc @ m) \<Longrightarrow> foldl (\<lambda>hs (k, v). mput k v hs) acc m = acc @ m"
proof (induction m arbitrary: acc)
  case Nil
  then show ?case by simp
next
  case (Cons x m)
  obtain k v where x: "x = (k, v)" by (cases x)
  from Cons.prems x have "\<forall>y \<in> set acc. fst y < k"
    by (auto simp: msorted_def sorted_wrt_append)
  then have "mput k v acc = acc @ [(k, v)]" by (rule mput_greater)
  with Cons x show ?case by simp
qed

lemma header_lines_parse:
  "list_all header_ok hs \<Longrightarrow>
     foldl add_header_line acc (map (\<lambda>(k, v). k @ '': '' @ v @ [CR]) hs) = foldl (\<lambda>m (k, v). mput k v m) acc hs"
  by (induction hs arbitrary: acc) (auto simp: add_header_line_ok simp del: append.simps)

lemma header_line_not_end: "\<not> ends_headers (k @ '': '' @ v @ [CR])"
  by (cases k) (auto simp: ends_headers_def)

lemma getlines_headers:
  "list_all header_ok hs \<Longrightarrow>
     getlines (concat (map (\<lambda>(k, v). k @ '': '' @ v @ CRLF) hs) @ CRLF @ body) =
       map (\<lambda>(k, v). k @ '': '' @ v @ [CR]) hs @ [CR] # getlines body"
proof (induction hs)
  case Nil
  show ?case using getlines_line [of "[CR]" body] by simp
next
  case (Cons h hs)
  obtain k v where h: "h = (k, v)" by (cases h)
  with Cons.prems have "LF \<notin> set (k @ '': '' @ v @ [CR])" by (simp add: header_ok_def)
  from getlines_line [OF this] Cons h show ?case by simp
qed

lemma concat_getlines: "concat (map (\<lambda>l. l @ [LF]) (getlines s)) = (if s = [] \<or> last s = LF then s else s @ [LF])"
proof (induction "length s" arbitrary: s rule: less_induct)
  case less
  show ?case
  proof (cases "LF \<in> set s")
    case True
    then obtain a b where ab: "s = a @ LF # b" "LF \<notin> set a" using split_list_first by metis
    then have "getlines s = a # getlines b" by (simp add: getlines_line)
    moreover have "concat (map (\<lambda>l. l @ [LF]) (getlines b)) = (if b = [] \<or> last b = LF then b else b @ [LF])"
      using less [of b] ab by simp
    ultimately show ?thesis using ab(1) by simp
  next
    case False
    then have "s \<noteq> [] \<Longrightarrow> getlines s = [s]" by (simp add: getdelims_last)
    moreover have "s \<noteq> [] \<Longrightarrow> last s \<noteq> LF" using False last_in_set by metis
    ultimately show ?thesis by (cases "s = []") simp_all
  qed
qed

text \<open>
  Parsing inverts printing: for every well-formed request (words without white space, headers
  in key order without newlines and outer blanks, a body that does not end in a newline), parsing
  its HTTP text gives the request back.
\<close>

theorem parse_render_roundtrip:
  assumes "well_formed req"
  shows "parseHttpRequest (render_request req) = req"
proof -
  let ?l = "http_method req @ '' '' @ http_uri req @ '' '' @ http_version req @ [CR]"
  let ?hl = "map (\<lambda>(k, v). k @ '': '' @ v @ [CR]) (http_headers req)"
  note wf = assms [unfolded well_formed_def]
  have "LF \<notin> set ?l" using wf by (simp add: word_no_newline)
  from getlines_line [OF this, of "concat (map (\<lambda>(k, v). k @ '': '' @ v @ CRLF) (http_headers req)) @ CRLF @ http_body req"]
  have lines: "getlines (render_request req) = ?l # ?hl @ [CR] # getlines (http_body req)"
    using wf getlines_headers [of "http_headers req" "http_body req"] by (simp add: render_request_def)
  have "takeWhile (\<lambda>l. \<not> ends_headers l) (?hl @ [CR] # getlines (http_body req)) = ?hl"
    by (subst takeWhile_append2) (auto simp: header_line_not_end ends_headers_def simp del: append.simps)
  moreover have "foldl add_header_line [] ?hl = http_headers req"
    using wf header_lines_parse [of "http_headers req" "[]"] foldl_mput_sorted [of "[]" "http_headers req"] by simp
  moreover have "drop_last_newline (concat (map (\<lambda>l. l @ [LF]) (getlines (http_body req)))) = http_body req"
    using wf by (auto simp: concat_getlines drop_last_newline_def)
  ultimately show ?thesis
    using wf request_line_words [of "http_method req" "http_uri req" "http_version req"]
    unfolding parseHttpRequest_def lines by simp
qed

definition example_request :: HttpRequest where
  "example_request = \<lparr>http_method = ''POST'', http_uri = ''/namf-comm/v1/ue-contexts'', http_version = ''HTTP/1.1'',
     http_headers = [(''Accept'', ''application/json''), (''Host'', ''amf:8080'')], http_body = ''{}''\<rparr>"

theorem parse_render_roundtrip_witness:
  "well_formed example_request \<and> parseHttpRequest (render_request example_request) = example_request"
proof -
  have "well_formed example_request"
    by (simp add: well_formed_def example_request_def is_word_def is_space_def header_ok_def is_blank_def)
  with parse_render_roundtrip [OF this] show ?thesis by simp
qed

section \<open>What HTTP clients can reach\<close>

lemma sbi_message_of_sel [simp]:
  "sbi_serviceType (sbi_message_of req) = determineServiceType (http_uri req)"
  "sbi_messageType (sbi_message_of req) = determineMessageType (http_uri req) (http_method req)"
  "sbi_uri (sbi_message_of req) = http_uri req"
proof -
  have "sbi_serviceType (foldl (\<lambda>m (k, v). addHeader k v m) m hs) = sbi_serviceType m
    \<and> sbi_messageType (foldl (\<lambda>m (k, v). addHeader k v m) m hs) = sbi_messageType m
    \<and> sbi_uri (foldl (\<lambda>m (k, v). addHeader k v m) m hs) = sbi_uri m" for m hs
    by (induction hs arbitrary: m) (auto simp: addHeader_def)
  then show "sbi_serviceType (sbi_message_of req) = determineServiceType (http_uri req)"
    "sbi_messageType (sbi_message_of req) = determineMessageType (http_uri req) (http_method req)"
    "sbi_uri (sbi_message_of req) = http_uri req"
    by (simp_all add: sbi_message_of_def sbi_set_defs SbiMessage_new_def)
qed

lemma determineMessageType_range:
  "determineMessageType uri meth \<in> {UE_CONTEXT_CREATE_REQUEST, UE_CONTEXT_UPDATE_REQUEST,
     SbiMessageType.UE_CONTEXT_RELEASE_REQUEST, UE_AUTHENTICATION_REQUEST}"
  by (simp add: determineMessageType_def)

lemma http_message_request: "isRequest (sbi_message_of req)"
  using determineMessageType_range [of "http_uri req" "http_method req"] by (auto simp: isRequest_def)

lemma http_event_range:
  "input_event rm (SbiIn (sbi_message_of req)) \<in> {None, Some UeEvent.REGISTRATION_REQUEST, Some DEREGISTER_REQUEST,
     Some UeEvent.AUTHENTICATION_REQUEST}"
  using determineMessageType_range [of "http_uri req" "http_method req"]
  by (cases "determineServiceType (http_uri req)") auto

lemma http_answer_range:
  "sbi_answer rm (sbi_message_of req) = Some (t, c, b) \<Longrightarrow>
     t \<in> {UE_CONTEXT_CREATE_RESPONSE, UE_CONTEXT_RELEASE_RESPONSE, UE_AUTHENTICATION_RESPONSE}"
  using determineMessageType_range [of "http_uri req" "http_method req"]
  by (cases "determineServiceType (http_uri req)"; cases rm) auto

lemma event_not_idle:
  assumes "sm_currentState s \<noteq> REGISTERED_IDLE"
    and "ev \<in> {UeEvent.REGISTRATION_REQUEST, DEREGISTER_REQUEST, UeEvent.AUTHENTICATION_REQUEST}"
  shows "sm_currentState (handleEvent e ev s) \<noteq> REGISTERED_IDLE"
  using assms
  by (cases "sm_currentState s")
     (auto simp: handleEvent_def handleDeregisteredState_def handleRegisteredConnectedState_def
        initiateAuthentication_def with_ue_snd)

definition http_ok :: "AmfSm \<Rightarrow> bool" where
  "http_ok s \<longleftrightarrow> sm_currentState s \<noteq> REGISTERED_IDLE \<and>
     list_all (\<lambda>m. sbi_messageType m \<in> {UE_CONTEXT_CREATE_RESPONSE, UE_CONTEXT_RELEASE_RESPONSE,
       UE_AUTHENTICATION_RESPONSE}) (sm_pendingMessages s)"

lemma answered_state [simp]: "sm_currentState (answered rm m s) = sm_currentState s"
  by (simp add: answered_def del: sbi_answer.simps split: option.split prod.split)

lemma answered_http:
  assumes "http_ok s"
  shows "http_ok (answered rm (sbi_message_of req) s)"
  using assms http_answer_range [of rm req]
  by (auto simp: http_ok_def answered_pending sbi_response_def simp del: sbi_answer.simps
      split: option.split prod.split)

lemma http_ok_process:
  assumes "http_ok s"
  shows "http_ok (snd (processSbiMessage e ts req s))"
proof -
  let ?m = "sbi_message_of req"
  let ?rm = "sm_currentState s \<noteq> UeState.DEREGISTERED"
  let ?s1 = "answered ?rm ?m (bump st_totalSbiMessages_update s)"
  have s1: "http_ok ?s1" using assms by (intro answered_http) (simp add: http_ok_def)
  have "http_ok (case input_event ?rm (SbiIn ?m) of None \<Rightarrow> ?s1 | Some ev \<Rightarrow> handleEvent e ev ?s1)"
    using s1 http_event_range [of ?rm req] event_not_idle [of ?s1]
    by (auto simp: http_ok_def simp del: input_event.simps)
  then show ?thesis
    by (simp add: processSbiMessage_def Let_def sbi_request_step [OF http_message_request] del: input_event.simps)
qed

fun http_step :: "AmfSm \<Rightarrow> env \<times> string \<times> string \<Rightarrow> AmfSm" where
  "http_step s (e, timestamp, received) = snd (handleClient e timestamp received s)"

interpretation web: machine http_step http_ok
proof
  fix s and i :: "env \<times> string \<times> string"
  assume "http_ok s"
  then show "http_ok (http_step s i)"
    using http_ok_process [of s] by (cases i) (simp add: handleClient_def Let_def split_beta)
qed

text \<open>
  Whatever bytes HTTP clients send, the AMF behind the server is never in state
  \<open>REGISTERED_IDLE\<close>, and it only queues responses to context creation, context release and
  authentication requests: the handlers of PDU session and policy requests cannot be reached.
\<close>

theorem http_reach_limited:
  "sm_currentState (foldl http_step (AmfSm_new e) requests) \<noteq> REGISTERED_IDLE
   \<and> list_all (\<lambda>m. sbi_messageType m \<in> {UE_CONTEXT_CREATE_RESPONSE, UE_CONTEXT_RELEASE_RESPONSE,
        UE_AUTHENTICATION_RESPONSE}) (sm_pendingMessages (foldl http_step (AmfSm_new e) requests))"
  using web.run_inv [of "AmfSm_new e" requests] by (simp add: http_ok_def)

text \<open>
  A release request built by the message factory is routed as a creation request: posting it
  registers the UE when none is registered, and otherwise leaves the registration in place, for
  every context identifier and cause.
\<close>

theorem release_request_registers:
  assumes "http_method req = ''POST''"
    and "http_uri req = sbi_uri (createUeContextReleaseRequest uuid ueContextId cause)"
  shows "sbi_messageType (createUeContextReleaseRequest uuid ueContextId cause) = SbiMessageType.UE_CONTEXT_RELEASE_REQUEST
    \<and> sm_currentState (snd (processSbiMessage e ts req s)) =
       (if sm_currentState s = UeState.DEREGISTERED then REGISTERED_CONNECTED else sm_currentState s)"
proof -
  have uri: "http_uri req = ''/namf-comm/v1/ue-contexts/'' @ ueContextId @ ''/release''"
    using assms(2) by (simp add: createUeContextReleaseRequest_def)
  have "contains_sub ''/ue-contexts'' (http_uri req)" "contains_sub ''/namf-comm/'' (http_uri req)"
    unfolding uri by simp_all
  with assms(1) have r: "determineMessageType (http_uri req) (http_method req) = UE_CONTEXT_CREATE_REQUEST"
    "determineServiceType (http_uri req) = NAMF_COMMUNICATION"
    by (simp_all add: determineMessageType_def determineServiceType_def)
  have "sm_currentState (handleSbiMessage e (sbi_message_of req) s) =
       (if sm_currentState s = UeState.DEREGISTERED then REGISTERED_CONNECTED else sm_currentState s)"
    by (simp add: sbi_request_step [OF http_message_request] Let_def r handleEvent_def handleDeregisteredState_def
        del: sbi_answer.simps)
  then show ?thesis
    by (simp add: processSbiMessage_def Let_def createUeContextReleaseRequest_def SbiMessage_new_def sbi_set_defs
        setCommonHeaders_def)
qed

theorem release_request_registers_witness:
  "sm_currentState (snd (processSbiMessage boot_env ''2025-01-01 00:00:00''
     (example_request\<lparr>http_uri := ''/namf-comm/v1/ue-contexts/ue-12345/release''\<rparr>) (AmfSm_new boot_env))) = REGISTERED_CONNECTED"
proof -
  let ?req = "example_request\<lparr>http_uri := ''/namf-comm/v1/ue-contexts/ue-12345/release''\<rparr>"
  have "http_method ?req = ''POST''" by (simp add: example_request_def)
  moreover have "http_uri ?req = sbi_uri (createUeContextReleaseRequest ''u'' ''ue-12345'' ''c'')"
    by (simp add: createUeContextReleaseRequest_def)
  ultimately show ?thesis using release_request_registers [of ?req "''u''" "''ue-12345''" "''c''"] by simp
qed

text \<open>
  A rejected creation is reported as success: when a UE is registered and a client posts to
  the context collection, the AMF queues a response with status code 409 and keeps its state, but the
  HTTP answer has the status line \<open>200 OK\<close>.
\<close>

theorem conflict_reported_as_success:
  assumes "contains_sub ''/namf-comm/'' (http_uri req)" and "contains_sub ''/ue-contexts'' (http_uri req)"
    and "http_method req = ''POST''" and "sm_currentState s \<noteq> UeState.DEREGISTERED"
  shows "sbi_statusCode (last (sm_pendingMessages (snd (processSbiMessage e ts req s)))) = 409
    \<and> sm_currentState (snd (processSbiMessage e ts req s)) = sm_currentState s
    \<and> is_prefix ''HTTP/1.1 200 OK'' (fst (processSbiMessage e ts req s))"
proof -
  have r: "determineMessageType (http_uri req) (http_method req) = UE_CONTEXT_CREATE_REQUEST"
    "determineServiceType (http_uri req) = NAMF_COMMUNICATION"
    using assms(1-3) by (simp_all add: determineMessageType_def determineServiceType_def)
  have "handleSbiMessage e (sbi_message_of req) s = answered True (sbi_message_of req) (bump st_totalSbiMessages_update s)"
    using assms(4) by (simp add: sbi_request_step [OF http_message_request] Let_def r del: sbi_answer.simps)
  then show ?thesis
    by (simp add: processSbiMessage_def Let_def answered_pending r sbi_response_def generateHttpResponse_def)
qed

theorem conflict_reported_as_success_witness:
  "sbi_statusCode (last (sm_pendingMessages (snd (processSbiMessage boot_env ''t'' example_request
     ((AmfSm_new boot_env)\<lparr>sm_currentState := REGISTERED_CONNECTED\<rparr>))))) = 409"
proof -
  have "contains_sub ''/namf-comm/'' (http_uri example_request)" "contains_sub ''/ue-contexts'' (http_uri example_request)"
    "http_method example_request = ''POST''"
    "sm_currentState ((AmfSm_new boot_env)\<lparr>sm_currentState := REGISTERED_CONNECTED\<rparr>) \<noteq> UeState.DEREGISTERED"
    by (simp_all add: example_request_def)
  from conflict_reported_as_success [OF this] show ?thesis by blast
qed

lemma mock_messages_answered: "sbi_answer rm (createMockSbiMessage r) \<noteq> None"
  by (simp add: createMockSbiMessage_def addHeader_def)

end
