(* ===== verification/Chunked.thy ===== *)
theory Chunked
  imports CppString "HOL-Library.Monad_Syntax"
begin

text \<open>
  HTTP chunked transfer coding (\<open>zsxq-cpp-ai/StdHTTPS/include/chunked_encoder.h\<close>,
  \<open>zsxq-cpp-ai/StdHTTPS/src/chunked_encoder.cpp\<close>): the encoder, the stream decoder with its states, the utility
  functions and the stream encoder.

  Sizes inside the decoder are 64-bit words, as \<open>size_t\<close> is. Loops that do not end for a chunk size
  of 0 (\<open>encode_body\<close>, \<open>write\<close>) are partial functions whose value is \<open>None\<close> when they run for
  ever. The (Chinese) error messages are a datatype. Callbacks append to a log.
\<close>

section \<open>Encoder\<close>

definition hex_upper :: "nat \<Rightarrow> char" where
  "hex_upper d = char_of (if d < 10 then 48 + d else 55 + d)"

definition to_hex :: "nat \<Rightarrow> string" where
  "to_hex n = map hex_upper (digits_of 16 n)"

type_synonym headers = "(string \<times> string) list"

definition encode_final_chunk :: "headers \<Rightarrow> string" where
  "encode_final_chunk trailer_headers =
     ''0'' @ CRLF @ concat (map (\<lambda>(k, v). k @ '': '' @ v @ CRLF) trailer_headers) @ CRLF"

definition encode_chunk :: "string \<Rightarrow> string" where
  "encode_chunk data =
     (if length data = 0 then encode_final_chunk []
      else to_hex (length data) @ CRLF @ data @ CRLF)"

text \<open>The loop of \<open>encode_body\<close> on the part of the body from \<open>offset\<close> on.\<close>

partial_function (option) encode_loop :: "nat \<Rightarrow> string \<Rightarrow> string option" where
  "encode_loop chunk_size rest =
     (if rest = [] then Some []
      else do {
        let n = min chunk_size (length rest);
        more \<leftarrow> encode_loop chunk_size (drop n rest);
        Some (encode_chunk (take n rest) @ more)
      })"

definition encode_body :: "string \<Rightarrow> nat \<Rightarrow> string option" where
  "encode_body body chunk_size =
     (if body = [] then Some (encode_final_chunk [])
      else do {
        chunks \<leftarrow> encode_loop chunk_size body;
        Some (chunks @ encode_final_chunk [])
      })"

section \<open>Decoder\<close>

record ChunkData =
  cd_data :: string
  cd_size :: "64 word"
  cd_is_final :: bool
  cd_trailer_headers :: headers

datatype ChunkedDecodeState = CHUNK_SIZE | CHUNK_DATA | CHUNK_TRAILER | COMPLETE | ERROR

datatype chunk_error =
    Unknown_State | Size_Line_Too_Long | Bad_Chunk_Size string | Missing_CRLF | Trailer_Too_Large

record ChunkedDecoder =
  dec_state :: ChunkedDecodeState
  dec_buffer :: string
  dec_decoded_data :: string
  dec_error_message :: "chunk_error option"
  dec_current_chunk_size :: "64 word"
  dec_current_chunk_read :: "64 word"
  dec_trailer_headers :: headers
  dec_has_callback :: bool
  dec_notified :: "ChunkData list"

definition ChunkedDecoder_new :: ChunkedDecoder where
  "ChunkedDecoder_new = \<lparr>dec_state = CHUNK_SIZE, dec_buffer = [], dec_decoded_data = [],
     dec_error_message = None, dec_current_chunk_size = 0, dec_current_chunk_read = 0,
     dec_trailer_headers = [], dec_has_callback = False, dec_notified = []\<rparr>"

definition set_chunk_callback :: "ChunkedDecoder \<Rightarrow> ChunkedDecoder" where
  "set_chunk_callback d = d\<lparr>dec_has_callback := True\<rparr>"

definition dec_reset :: "ChunkedDecoder \<Rightarrow> ChunkedDecoder" where
  "dec_reset d = d\<lparr>dec_state := CHUNK_SIZE, dec_buffer := [], dec_decoded_data := [],
     dec_error_message := None, dec_current_chunk_size := 0, dec_current_chunk_read := 0,
     dec_trailer_headers := []\<rparr>"

definition set_error :: "chunk_error \<Rightarrow> ChunkedDecoder \<Rightarrow> ChunkedDecoder" where
  "set_error err d = d\<lparr>dec_state := ERROR, dec_error_message := Some err\<rparr>"

definition notify_chunk :: "ChunkData \<Rightarrow> ChunkedDecoder \<Rightarrow> ChunkedDecoder" where
  "notify_chunk c d = (if dec_has_callback d then d\<lparr>dec_notified := dec_notified d @ [c]\<rparr> else d)"

text \<open>The position of the first CRLF (only called on non-empty data).\<close>

fun find_line_end :: "string \<Rightarrow> nat option" where
  "find_line_end (a # b # s) = (if a = CR \<and> b = LF then Some 0 else map_option Suc (find_line_end (b # s)))"
| "find_line_end _ = None"

definition hex_value :: "char \<Rightarrow> nat option" where
  "hex_value c =
     (let n = of_char c in
      if 48 \<le> n \<and> n \<le> 57 then Some (n - 48)
      else if 65 \<le> n \<and> n \<le> 70 then Some (n - 65 + 10)
      else if 97 \<le> n \<and> n \<le> 102 then Some (n - 97 + 10)
      else None)"

fun parse_hex_loop :: "64 word \<Rightarrow> string \<Rightarrow> std_error + 64 word" where
  "parse_hex_loop result [] = Inr result"
| "parse_hex_loop result (c # cs) =
     (case hex_value c of
        None \<Rightarrow> Inl InvalidArgument
      | Some v \<Rightarrow> parse_hex_loop (result * 16 + of_nat v) cs)"

definition parse_hex_size :: "string \<Rightarrow> std_error + 64 word" where
  "parse_hex_size hex_str = (if hex_str = [] then Inl InvalidArgument else parse_hex_loop 0 hex_str)"

definition parse_trailer_line :: "string \<Rightarrow> ChunkedDecoder \<Rightarrow> ChunkedDecoder" where
  "parse_trailer_line line d =
     (case find_char (CHR '':'') line of
        None \<Rightarrow> d
      | Some pos \<Rightarrow> d\<lparr>dec_trailer_headers := dec_trailer_headers d @
           [(trim_blanks (take pos line), trim_blanks (drop (pos + 1) line))]\<rparr>)"

definition drop_last_cr :: "string \<Rightarrow> string" where
  "drop_last_cr line = (if line \<noteq> [] \<and> last line = CR then butlast line else line)"

text \<open>The state functions give the C++ return value, the number of bytes consumed, and the decoder.\<close>

definition decode_chunk_size_state :: "ChunkedDecoder \<Rightarrow> string \<Rightarrow> int \<times> nat \<times> ChunkedDecoder" where
  "decode_chunk_size_state d data =
     (case find_line_end data of
        None \<Rightarrow>
          (let d1 = d\<lparr>dec_buffer := dec_buffer d @ data\<rparr>
           in if 1024 < length (dec_buffer d1) then (-1, length data, set_error Size_Line_Too_Long d1)
              else (0, length data, d1))
      | Some line_end \<Rightarrow>
          (let line = drop_last_cr (dec_buffer d @ take line_end data);
               d1 = d\<lparr>dec_buffer := []\<rparr>;
               size_str = trim_blanks (case find_char (CHR '';'') line of None \<Rightarrow> line | Some p \<Rightarrow> take p line)
           in case parse_hex_size size_str of
                Inl _ \<Rightarrow> (-1, line_end + 2, set_error (Bad_Chunk_Size size_str) d1)
              | Inr n \<Rightarrow>
                  (1, line_end + 2,
                   d1\<lparr>dec_current_chunk_size := n, dec_current_chunk_read := 0,
                      dec_state := (if n = 0 then CHUNK_TRAILER else CHUNK_DATA)\<rparr>)))"

definition decode_chunk_data_state :: "ChunkedDecoder \<Rightarrow> string \<Rightarrow> int \<times> nat \<times> ChunkedDecoder" where
  "decode_chunk_data_state d data =
     (let size = length data;
          bytes_needed = dec_current_chunk_size d - dec_current_chunk_read d;
          bytes_to_read = min size (unat bytes_needed);
          chunk_data = take bytes_to_read data;
          d1 = d\<lparr>dec_decoded_data := dec_decoded_data d @ chunk_data,
                 dec_current_chunk_read := dec_current_chunk_read d + of_nat bytes_to_read\<rparr>;
          ret = (\<lambda>consumed d'. (if 0 < consumed then 1 else 0, consumed, d'))
      in if dec_current_chunk_size d1 \<le> dec_current_chunk_read d1 then
           (let d2 = notify_chunk \<lparr>cd_data = chunk_data, cd_size = dec_current_chunk_size d1,
                      cd_is_final = False, cd_trailer_headers = []\<rparr> d1
            in if bytes_to_read < size then
                 (if bytes_to_read + 2 \<le> size \<and> data ! bytes_to_read = CR \<and> data ! (bytes_to_read + 1) = LF then
                    ret (bytes_to_read + 2) (d2\<lparr>dec_state := CHUNK_SIZE\<rparr>)
                  else if size = bytes_to_read + 1 then
                    (if data ! bytes_to_read = CR then
                       ret (bytes_to_read + 1) (d2\<lparr>dec_buffer := [CR], dec_state := CHUNK_SIZE\<rparr>)
                     else (-1, bytes_to_read, set_error Missing_CRLF d2))
                  else (-1, bytes_to_read, set_error Missing_CRLF d2))
               else ret bytes_to_read (d2\<lparr>dec_state := CHUNK_SIZE\<rparr>))
         else ret bytes_to_read d1)"

definition decode_chunk_trailer_state :: "ChunkedDecoder \<Rightarrow> string \<Rightarrow> int \<times> nat \<times> ChunkedDecoder" where
  "decode_chunk_trailer_state d data =
     (case find_line_end data of
        None \<Rightarrow>
          (let d1 = d\<lparr>dec_buffer := dec_buffer d @ data\<rparr>
           in if 8192 < length (dec_buffer d1) then (-1, length data, set_error Trailer_Too_Large d1)
              else (0, length data, d1))
      | Some line_end \<Rightarrow>
          (let line = drop_last_cr (dec_buffer d @ take line_end data);
               d1 = d\<lparr>dec_buffer := []\<rparr>
           in if line = [] then
                (1, line_end + 2,
                 notify_chunk \<lparr>cd_data = [], cd_size = 0, cd_is_final = True,
                    cd_trailer_headers = dec_trailer_headers d1\<rparr> (d1\<lparr>dec_state := COMPLETE\<rparr>))
              else (1, line_end + 2, parse_trailer_line line d1)))"

definition decode_step :: "ChunkedDecoder \<Rightarrow> string \<Rightarrow> int \<times> nat \<times> ChunkedDecoder" where
  "decode_step d data =
     (case dec_state d of
        CHUNK_SIZE \<Rightarrow> decode_chunk_size_state d data
      | CHUNK_DATA \<Rightarrow> decode_chunk_data_state d data
      | CHUNK_TRAILER \<Rightarrow> decode_chunk_trailer_state d data
      | _ \<Rightarrow> (-1, 0, set_error Unknown_State d))"

lemma step_consumes:
  "decode_step d data = (r, c, d') \<Longrightarrow> \<not> r < 0 \<Longrightarrow> \<not> (c = 0 \<and> r = 0) \<Longrightarrow> 0 < c"
  by (auto simp: decode_step_def decode_chunk_size_state_def decode_chunk_data_state_def
      decode_chunk_trailer_state_def Let_def split: ChunkedDecodeState.splits option.splits sum.splits if_splits)

text \<open>The loop of \<open>decode\<close> on the data not yet consumed; \<open>None\<close> is the return value -1.\<close>

function decode_loop :: "ChunkedDecoder \<Rightarrow> string \<Rightarrow> nat \<Rightarrow> nat option \<times> ChunkedDecoder" where
  "decode_loop d data tot =
     (if data = [] \<or> dec_state d = COMPLETE \<or> dec_state d = ERROR then (Some tot, d)
      else case decode_step d data of
             (r, c, d') \<Rightarrow>
               (if r < 0 then (None, d')
                else if c = 0 \<and> r = 0 then (Some (tot + c), d')
                else decode_loop d' (drop c data) (tot + c)))"
  by pat_completeness auto
termination
  by (relation "measure (\<lambda>(d, data, tot). length data)") (auto dest: step_consumes [OF sym])

declare decode_loop.simps [simp del]

definition to_int32 :: "nat \<Rightarrow> int" where
  "to_int32 n = sint (of_nat n :: 32 word)"

definition dec_decode :: "string \<Rightarrow> ChunkedDecoder \<Rightarrow> int \<times> ChunkedDecoder" where
  "dec_decode data d =
     (if dec_state d = ERROR \<or> dec_state d = COMPLETE then (0, d)
      else case decode_loop d data 0 of
             (None, d') \<Rightarrow> (-1, d')
           | (Some tot, d') \<Rightarrow> (to_int32 tot, d'))"

section \<open>Utilities and stream encoder\<close>

definition utils_encode :: "string \<Rightarrow> nat \<Rightarrow> string option" where
  "utils_encode data chunk_size = encode_body data chunk_size"

text \<open>\<open>None\<close>: \<open>false\<close>; \<open>Some\<close>: \<open>true\<close> with the two output parameters.\<close>

definition utils_decode :: "string \<Rightarrow> (string \<times> headers) option" where
  "utils_decode chunked_data =
     (case dec_decode chunked_data ChunkedDecoder_new of
        (result, d) \<Rightarrow>
          if result < 0 \<or> dec_state d = ERROR then None
          else if dec_state d \<noteq> COMPLETE then None
          else Some (dec_decoded_data d, dec_trailer_headers d))"

definition utils_validate :: "string \<Rightarrow> bool" where
  "utils_validate chunked_data \<longleftrightarrow> utils_decode chunked_data \<noteq> None"

text \<open>Division by a chunk size of 0 is undefined in C++ and \<open>None\<close> here; sums wrap at 64 bits.\<close>

definition calculate_encoded_size :: "nat \<Rightarrow> nat \<Rightarrow> nat option" where
  "calculate_encoded_size original_size chunk_size =
     (if original_size = 0 then Some 5
      else if chunk_size = 0 then None
      else let num_chunks = ((original_size + chunk_size - 1) mod 2 ^ 64) div chunk_size;
               total_overhead = (num_chunks * 10 + 5) mod 2 ^ 64
           in Some ((original_size + total_overhead) mod 2 ^ 64))"

record StreamChunkedEncoder =
  stm_chunk_size :: nat
  stm_buffer :: string
  stm_finished :: bool
  stm_output :: "string list"

definition StreamChunkedEncoder_new :: "nat \<Rightarrow> StreamChunkedEncoder" where
  "StreamChunkedEncoder_new chunk_size = \<lparr>stm_chunk_size = chunk_size, stm_buffer = [],
     stm_finished = False, stm_output = []\<rparr>"

partial_function (option) write_loop :: "StreamChunkedEncoder \<Rightarrow> StreamChunkedEncoder option" where
  "write_loop s =
     (if stm_chunk_size s \<le> length (stm_buffer s)
      then write_loop (s\<lparr>stm_buffer := drop (stm_chunk_size s) (stm_buffer s),
             stm_output := stm_output s @ [encode_chunk (take (stm_chunk_size s) (stm_buffer s))]\<rparr>)
      else Some s)"

definition stm_write :: "string \<Rightarrow> StreamChunkedEncoder \<Rightarrow> (bool \<times> StreamChunkedEncoder) option" where
  "stm_write data s =
     (if stm_finished s then Some (False, s)
      else map_option (Pair True) (write_loop (s\<lparr>stm_buffer := stm_buffer s @ data\<rparr>)))"

definition flush_buffer :: "StreamChunkedEncoder \<Rightarrow> StreamChunkedEncoder" where
  "flush_buffer s =
     (if stm_buffer s \<noteq> []
      then s\<lparr>stm_output := stm_output s @ [encode_chunk (stm_buffer s)], stm_buffer := []\<rparr>
      else s)"

definition stm_finish :: "headers \<Rightarrow> StreamChunkedEncoder \<Rightarrow> bool \<times> StreamChunkedEncoder" where
  "stm_finish trailer_headers s =
     (if stm_finished s then (False, s)
      else let s1 = flush_buffer s
           in (True, s1\<lparr>stm_output := stm_output s1 @ [encode_final_chunk trailer_headers], stm_finished := True\<rparr>))"

definition stm_set_chunk_size :: "nat \<Rightarrow> StreamChunkedEncoder \<Rightarrow> StreamChunkedEncoder" where
  "stm_set_chunk_size n s =
     (if \<not> stm_finished s \<and> 0 < n
      then (if stm_buffer s \<noteq> [] then flush_buffer s else s)\<lparr>stm_chunk_size := n\<rparr>
      else s)"

section \<open>Lines\<close>

lemma find_line_end_plain: "CR \<notin> set l \<Longrightarrow> find_line_end (l @ CR # LF # s) = Some (length l)"
proof (induction l)
  case Nil
  then show ?case by simp
next
  case (Cons a l)
  then show ?case by (cases l) auto
qed

lemma drop_last_cr_plain: "CR \<notin> set l \<Longrightarrow> drop_last_cr l = l"
  unfolding drop_last_cr_def by (metis last_in_set)

lemma to_int32_nonneg: "n < 2 ^ 31 \<Longrightarrow> to_int32 n = int n"
  by (simp add: to_int32_def signed_of_nat signed_take_bit_int_eq_self)

end
