(* ===== verification/Chunked_Props.thy ===== *)
theory Chunked_Props
  imports Chunked
begin

text \<open>
  Correctness of the chunked coding: hexadecimal sizes, the effect of the decoder on an encoded
  chunk, round trips for the one-shot and the stream encoder, termination of the encoder loops, the
  encoded size, and the inputs on which the decoder goes wrong.
\<close>

section \<open>Hexadecimal sizes\<close>

lemma hex_value_upper [simp]: "d < 16 \<Longrightarrow> hex_value (hex_upper d) = Some d"
  by (auto simp: hex_value_def hex_upper_def Let_def)

lemma parse_hex_digits:
  "(\<forall>d \<in> set ds. d < 16) \<Longrightarrow>
     parse_hex_loop (of_nat a) (map hex_upper ds) = Inr (of_nat (foldl (\<lambda>a d. 16 * a + d) a ds))"
proof (induction ds arbitrary: a)
  case Nil
  then show ?case by simp
next
  case (Cons d ds)
  from Cons.IH [of "16 * a + d"] Cons.prems show ?case by (simp add: mult.commute)
qed

lemma parse_to_hex: "parse_hex_size (to_hex n) = Inr (of_nat n)"
  using parse_hex_digits [of "digits_of 16 n" 0] digits_of_bound [of 16]
  by (simp add: parse_hex_size_def to_hex_def digits_of_value)

lemma hex_value_special:
  "hex_value CR = None" "hex_value LF = None" "hex_value (CHR '';'') = None"
  "is_blank c \<Longrightarrow> hex_value c = None"
  by (auto simp: hex_value_def is_blank_def Let_def)

lemma to_hex_chars: "c \<in> set (to_hex n) \<Longrightarrow> hex_value c \<noteq> None"
  using digits_of_bound [of 16] by (auto simp: to_hex_def)

lemma to_hex_plain:
  "CR \<notin> set (to_hex n)" "CHR '';'' \<notin> set (to_hex n)" "to_hex n \<noteq> []" "trimmed (to_hex n)"
proof -
  show "CR \<notin> set (to_hex n)" "CHR '';'' \<notin> set (to_hex n)"
    using to_hex_chars hex_value_special by metis+
  show ne: "to_hex n \<noteq> []" by (simp add: to_hex_def)
  show "trimmed (to_hex n)"
    using to_hex_chars hex_value_special(4) ne unfolding trimmed_def by (metis hd_in_set last_in_set)
qed

section \<open>Lines\<close>

lemma find_char_absent: "c \<notin> set l \<Longrightarrow> find_char c l = None"
  by (simp add: find_char_None)

section \<open>Decoding encoded chunks\<close>

definition ready :: "ChunkedDecoder \<Rightarrow> bool" where
  "ready d \<longleftrightarrow> dec_state d = CHUNK_SIZE \<and> dec_buffer d = []"

lemma loop_step:
  assumes "decode_step d data = (1, c, d')" and "data \<noteq> []" and "dec_state d \<noteq> COMPLETE" and "dec_state d \<noteq> ERROR"
  shows "decode_loop d data t = decode_loop d' (drop c data) (t + c)"
  using assms by (subst decode_loop.simps) simp

lemma loop_line:
  assumes "decode_step d (l @ CR # LF # r) = (1, length l + 2, d')"
    and "dec_state d \<noteq> COMPLETE" and "dec_state d \<noteq> ERROR"
  shows "decode_loop d (l @ CR # LF # r) t = decode_loop d' r (t + length l + 2)"
proof -
  have "drop (length l + 2) (l @ CR # LF # r) = r" by simp
  with loop_step [OF assms(1) _ assms(2,3), of t] show ?thesis by (simp del: drop_append add: add.assoc)
qed

lemma loop_empty: "decode_loop d [] t = (Some t, d)"
  by (subst decode_loop.simps) simp

lemma loop_done: "dec_state d = COMPLETE \<Longrightarrow> decode_loop d data t = (Some t, d)"
  by (subst decode_loop.simps) simp

lemma loop_error:
  assumes "decode_step d data = (-1, c, d')" and "data \<noteq> []" and "dec_state d \<noteq> COMPLETE" and "dec_state d \<noteq> ERROR"
  shows "decode_loop d data t = (None, d')"
  using assms by (subst decode_loop.simps) simp

lemma size_line_step:
  assumes "ready d" and "CR \<notin> set l" and "CHR '';'' \<notin> set l" and "parse_hex_size (trim_blanks l) = Inr n"
  shows "decode_step d (l @ CR # LF # rest) =
    (1, length l + 2, d\<lparr>dec_current_chunk_size := n, dec_current_chunk_read := 0,
        dec_state := (if n = 0 then CHUNK_TRAILER else CHUNK_DATA)\<rparr>)"
  using assms
  by (simp add: ready_def decode_step_def decode_chunk_size_state_def find_line_end_plain drop_last_cr_plain
      find_char_absent Let_def)

lemma size_line_error:
  assumes "ready d" and "CR \<notin> set l" and "CHR '';'' \<notin> set l" and "parse_hex_size (trim_blanks l) = Inl e"
  shows "decode_step d (l @ CR # LF # rest) =
    (-1, length l + 2, set_error (Bad_Chunk_Size (trim_blanks l)) d)"
  using assms
  by (simp add: ready_def decode_step_def decode_chunk_size_state_def find_line_end_plain drop_last_cr_plain
      find_char_absent Let_def set_error_def)

lemma word_of_nat_zero: "n < 2 ^ 64 \<Longrightarrow> (of_nat n :: 64 word) = 0 \<longleftrightarrow> n = 0"
  by (auto simp: word_of_nat_eq_0_iff dest: nat_dvd_not_less)


lemma unat_small: "n < 2 ^ 64 \<Longrightarrow> unat (of_nat n :: 64 word) = n"
  by (simp add: unsigned_of_nat take_bit_nat_eq_self)

lemma data_step:
  assumes "dec_state d = CHUNK_DATA" and "dec_buffer d = []" and "dec_current_chunk_read d = 0"
    and "dec_current_chunk_size d = of_nat (length x)" and "x \<noteq> []" and "length x < 2 ^ 64"
  shows "\<exists>d'. decode_step d (x @ CR # LF # rest) = (1, length x + 2, d') \<and> ready d'
    \<and> dec_decoded_data d' = dec_decoded_data d @ x \<and> dec_trailer_headers d' = dec_trailer_headers d"
  using assms
  by (simp add: decode_step_def decode_chunk_data_state_def Let_def unat_small nth_append notify_chunk_def ready_def)

lemma chunk_decodes:
  assumes "ready d" and "x \<noteq> []" and "length x < 2 ^ 64"
  shows "\<exists>d'. decode_loop d (encode_chunk x @ rest) t = decode_loop d' rest (t + length (encode_chunk x))
    \<and> ready d' \<and> dec_decoded_data d' = dec_decoded_data d @ x \<and> dec_trailer_headers d' = dec_trailer_headers d"
proof -
  let ?h = "to_hex (length x)"
  let ?d1 = "d\<lparr>dec_current_chunk_size := of_nat (length x), dec_current_chunk_read := 0, dec_state := CHUNK_DATA\<rparr>"
  have enc: "encode_chunk x @ rest = ?h @ CR # LF # x @ CR # LF # rest"
    using assms(2) by (simp add: encode_chunk_def)
  have "decode_step d (?h @ CR # LF # x @ CR # LF # rest) = (1, length ?h + 2, ?d1)"
    using size_line_step [OF assms(1) to_hex_plain(1,2), of "length x" "of_nat (length x)"] assms
    by (simp add: trim_blanks_id to_hex_plain(4) parse_to_hex word_of_nat_zero)
  then have l1: "decode_loop d (encode_chunk x @ rest) t = decode_loop ?d1 (x @ CR # LF # rest) (t + length ?h + 2)"
    unfolding enc using assms(1) by (intro loop_line) (simp_all add: ready_def)
  obtain d' where d': "decode_step ?d1 (x @ CR # LF # rest) = (1, length x + 2, d')" "ready d'"
    "dec_decoded_data d' = dec_decoded_data d @ x" "dec_trailer_headers d' = dec_trailer_headers d"
    using data_step [of ?d1 x rest] assms by (auto simp: ready_def)
  then have "decode_loop ?d1 (x @ CR # LF # rest) (t + length ?h + 2) = decode_loop d' rest (t + length (encode_chunk x))"
    using assms(2) loop_line [OF d'(1)] by (simp add: encode_chunk_def add.assoc)
  with l1 d' show ?thesis by auto
qed

lemma chunks_decode:
  assumes "ready d" and "list_all (\<lambda>x. x \<noteq> [] \<and> length x < 2 ^ 64) xs"
  shows "\<exists>d'. decode_loop d (concat (map encode_chunk xs) @ rest) t =
      decode_loop d' rest (t + length (concat (map encode_chunk xs)))
    \<and> ready d' \<and> dec_decoded_data d' = dec_decoded_data d @ concat xs \<and> dec_trailer_headers d' = dec_trailer_headers d"
  using assms
proof (induction xs arbitrary: d t)
  case Nil
  then show ?case by auto
next
  case (Cons x xs)
  from Cons.prems obtain d1 where d1: "decode_loop d (encode_chunk x @ concat (map encode_chunk xs) @ rest) t =
      decode_loop d1 (concat (map encode_chunk xs) @ rest) (t + length (encode_chunk x))"
    "ready d1" "dec_decoded_data d1 = dec_decoded_data d @ x" "dec_trailer_headers d1 = dec_trailer_headers d"
    using chunk_decodes [of d x "concat (map encode_chunk xs) @ rest" t] by auto
  from Cons.IH [OF d1(2), of "t + length (encode_chunk x)"] Cons.prems(2) d1 show ?case
    by (auto simp: add.assoc)
qed

section \<open>Decoding trailers\<close>

definition trailer_ok :: "string \<times> string \<Rightarrow> bool" where
  "trailer_ok = (\<lambda>(k, v). CHR '':'' \<notin> set k \<and> CR \<notin> set k \<and> CR \<notin> set v \<and> trimmed k \<and> trimmed v)"

definition in_trailer :: "ChunkedDecoder \<Rightarrow> bool" where
  "in_trailer d \<longleftrightarrow> dec_state d = CHUNK_TRAILER \<and> dec_buffer d = []"

lemma trim_blank_front: "trim_blanks (CHR '' '' # v) = trim_blanks v"
  by (simp add: trim_blanks_def is_blank_def)

lemma trailer_line_step:
  assumes "in_trailer d" and "trailer_ok (k, v)"
  shows "\<exists>d'. decode_step d ((k @ '': '' @ v) @ CR # LF # rest) = (1, length (k @ '': '' @ v) + 2, d') \<and> in_trailer d'
    \<and> dec_decoded_data d' = dec_decoded_data d \<and> dec_trailer_headers d' = dec_trailer_headers d @ [(k, v)]"
proof -
  let ?l = "k @ '': '' @ v"
  have cr: "CR \<notin> set ?l" using assms(2) by (simp add: trailer_ok_def)
  have colon: "find_char (CHR '':'') ?l = Some (length k)"
    using assms(2) find_char_append [of "CHR '':''" k "'' '' @ v"] by (simp add: trailer_ok_def)
  have parse: "parse_trailer_line ?l (d\<lparr>dec_buffer := []\<rparr>) = d\<lparr>dec_trailer_headers := dec_trailer_headers d @ [(k, v)]\<rparr>"
    using assms unfolding parse_trailer_line_def colon
    by (simp add: trailer_ok_def in_trailer_def trim_blank_front trim_blanks_id)
  have "drop_last_cr (dec_buffer d @ take (length ?l) (?l @ CR # LF # rest)) = ?l"
    using assms(1) drop_last_cr_plain [OF cr] by (simp add: in_trailer_def)
  then have "decode_step d (?l @ CR # LF # rest) =
      (1, length ?l + 2, d\<lparr>dec_trailer_headers := dec_trailer_headers d @ [(k, v)]\<rparr>)"
    using assms(1) parse unfolding decode_step_def decode_chunk_trailer_state_def find_line_end_plain [OF cr] Let_def
    by (simp add: in_trailer_def del: append_assoc)
  then show ?thesis using assms(1) by (auto simp: in_trailer_def)
qed

lemma trailers_decode:
  assumes "in_trailer d" and "list_all trailer_ok ts"
  shows "\<exists>d'. decode_loop d (concat (map (\<lambda>(k, v). k @ '': '' @ v @ CRLF) ts) @ rest) t =
      decode_loop d' rest (t + length (concat (map (\<lambda>(k, v). k @ '': '' @ v @ CRLF) ts)))
    \<and> in_trailer d' \<and> dec_decoded_data d' = dec_decoded_data d \<and> dec_trailer_headers d' = dec_trailer_headers d @ ts"
  using assms
proof (induction ts arbitrary: d t)
  case Nil
  then show ?case by auto
next
  case (Cons h ts)
  obtain k v where h: "h = (k, v)" by (cases h)
  let ?r = "concat (map (\<lambda>(k, v). k @ '': '' @ v @ CRLF) ts) @ rest"
  from Cons.prems h obtain d1 where d1: "decode_step d ((k @ '': '' @ v) @ CR # LF # ?r) = (1, length (k @ '': '' @ v) + 2, d1)"
    "in_trailer d1" "dec_decoded_data d1 = dec_decoded_data d" "dec_trailer_headers d1 = dec_trailer_headers d @ [(k, v)]"
    using trailer_line_step [of d k v ?r] by (auto simp del: append.simps append_assoc length_append)
  have "decode_loop d ((k @ '': '' @ v) @ CR # LF # ?r) t = decode_loop d1 ?r (t + length (k @ '': '' @ v) + 2)"
    using d1(1) Cons.prems(1) by (intro loop_line) (auto simp: in_trailer_def)
  with Cons.IH [OF d1(2), of "t + length (k @ '': '' @ v) + 2"] Cons.prems(2) d1 h show ?case
    by (auto simp: add_ac)
qed

lemma end_of_trailers:
  assumes "in_trailer d"
  shows "\<exists>d'. decode_loop d CRLF t = (Some (t + 2), d') \<and> dec_state d' = COMPLETE
    \<and> dec_decoded_data d' = dec_decoded_data d \<and> dec_trailer_headers d' = dec_trailer_headers d"
proof -
  let ?d' = "notify_chunk \<lparr>cd_data = [], cd_size = 0, cd_is_final = True, cd_trailer_headers = dec_trailer_headers d\<rparr>
      (d\<lparr>dec_state := COMPLETE\<rparr>)"
  have "decode_step d ([] @ CR # LF # []) = (1, length ([] :: string) + 2, ?d')"
    using assms by (simp add: in_trailer_def decode_step_def decode_chunk_trailer_state_def drop_last_cr_def
        notify_chunk_def)
  from loop_line [OF this, of t] assms show ?thesis
    by (auto simp: in_trailer_def loop_empty notify_chunk_def)
qed

lemma final_chunk_decodes:
  assumes "ready d" and "list_all trailer_ok ts"
  shows "\<exists>d'. decode_loop d (encode_final_chunk ts) t = (Some (t + length (encode_final_chunk ts)), d')
    \<and> dec_state d' = COMPLETE \<and> dec_decoded_data d' = dec_decoded_data d \<and> dec_trailer_headers d' = dec_trailer_headers d @ ts"
proof -
  let ?d1 = "d\<lparr>dec_current_chunk_size := 0, dec_current_chunk_read := 0, dec_state := CHUNK_TRAILER\<rparr>"
  let ?ls = "concat (map (\<lambda>(k, v). k @ '': '' @ v @ CRLF) ts)"
  have "parse_hex_size (trim_blanks ''0'') = Inr 0"
    by (simp add: trim_blanks_def is_blank_def parse_hex_size_def hex_value_def)
  from size_line_step [OF assms(1) _ _ this, of "?ls @ CRLF"]
  have "decode_step d (''0'' @ CR # LF # ?ls @ CRLF) = (1, length ''0'' + 2, ?d1)" by simp
  then have l1: "decode_loop d (encode_final_chunk ts) t = decode_loop ?d1 (?ls @ CRLF) (t + 3)"
    using loop_line [of d "''0''" "?ls @ CRLF" ?d1 t] assms(1) by (simp add: ready_def encode_final_chunk_def eval_nat_numeral)
  have "in_trailer ?d1" using assms(1) by (simp add: ready_def in_trailer_def)
  from trailers_decode [OF this assms(2), of CRLF "t + 3"] obtain d2 where
    d2: "decode_loop ?d1 (?ls @ CRLF) (t + 3) = decode_loop d2 CRLF (t + 3 + length ?ls)" "in_trailer d2"
      "dec_decoded_data d2 = dec_decoded_data d" "dec_trailer_headers d2 = dec_trailer_headers d @ ts" by auto
  from end_of_trailers [OF d2(2), of "t + 3 + length ?ls"] d2 l1 show ?thesis
    by (auto simp: encode_final_chunk_def add_ac)
qed

lemma ready_new: "ready ChunkedDecoder_new"
  by (simp add: ready_def ChunkedDecoder_new_def)

lemma decode_chunk_list:
  assumes "list_all (\<lambda>x. x \<noteq> [] \<and> length x < 2 ^ 64) xs" and "list_all trailer_ok ts"
    and "length (concat (map encode_chunk xs) @ encode_final_chunk ts) < 2 ^ 31"
  shows "utils_decode (concat (map encode_chunk xs) @ encode_final_chunk ts) = Some (concat xs, ts)"
proof -
  let ?n = "length (concat (map encode_chunk xs))"
  obtain d1 where d1: "decode_loop ChunkedDecoder_new (concat (map encode_chunk xs) @ encode_final_chunk ts) 0 =
      decode_loop d1 (encode_final_chunk ts) ?n" "ready d1"
    "dec_decoded_data d1 = concat xs" "dec_trailer_headers d1 = []"
    using chunks_decode [OF ready_new assms(1), of "encode_final_chunk ts" 0] by (auto simp: ChunkedDecoder_new_def)
  obtain d2 where "decode_loop d1 (encode_final_chunk ts) ?n = (Some (?n + length (encode_final_chunk ts)), d2)"
    "dec_state d2 = COMPLETE" "dec_decoded_data d2 = concat xs" "dec_trailer_headers d2 = ts"
    using final_chunk_decodes [OF d1(2) assms(2), of ?n] d1 by auto
  with d1(1) assms(3) show ?thesis
    by (simp add: utils_decode_def dec_decode_def to_int32_nonneg ChunkedDecoder_new_def)
qed

section \<open>The one-shot encoder\<close>

lemma length_le_concat: "x \<in> set xs \<Longrightarrow> length (f x) \<le> length (concat (map f xs))"
  by (induction xs) auto

fun pieces :: "nat \<Rightarrow> string \<Rightarrow> string list" where
  "pieces n s = (if s = [] \<or> n = 0 then [] else take n s # pieces n (drop n s))"

declare pieces.simps [simp del]

lemma concat_pieces: "0 < n \<Longrightarrow> concat (pieces n s) = s"
  by (induction n s rule: pieces.induct) (auto simp: pieces.simps)

lemma pieces_bound: "x \<in> set (pieces n s) \<Longrightarrow> x \<noteq> [] \<and> length x \<le> n \<and> length x \<le> length s"
proof (induction n s rule: pieces.induct)
  case (1 n s)
  then show ?case by (subst (asm) pieces.simps) (fastforce split: if_splits)
qed

lemma encode_loop_pieces: "0 < n \<Longrightarrow> encode_loop n s = Some (concat (map encode_chunk (pieces n s)))"
proof (induction n s rule: pieces.induct)
  case (1 n s)
  show ?case
  proof (cases "s = []")
    case True
    then show ?thesis by (simp add: encode_loop.simps pieces.simps)
  next
    case False
    have m: "drop (min n (length s)) s = drop n s" "take (min n (length s)) s = take n s" by (auto simp: min_def)
    from 1 False have "encode_loop n (drop n s) = Some (concat (map encode_chunk (pieces n (drop n s))))" by simp
    with False 1 m show ?thesis by (subst encode_loop.simps, subst pieces.simps) (simp add: Let_def)
  qed
qed

lemma encode_loop_zero:
  assumes "encode_loop 0 s = Some r"
  shows "s = []"
proof -
  have "n = 0 \<longrightarrow> s = []" if "encode_loop n s = Some r" for n
    using that
  proof (rule encode_loop.raw_induct [where P = "\<lambda>n s r. n = 0 \<longrightarrow> s = []", rotated])
    fix f :: "nat \<Rightarrow> string \<Rightarrow> string option" and n s r
    assume IH: "\<And>n s r. f n s = Some r \<Longrightarrow> n = 0 \<longrightarrow> s = []"
      and step: "(if s = [] then Some []
        else let na = min n (length s) in f n (drop na s) \<bind> (\<lambda>more. Some (encode_chunk (take na s) @ more))) = Some r"
    show "n = 0 \<longrightarrow> s = []"
    proof
      assume n: "n = 0"
      show "s = []"
      proof (rule ccontr)
        assume s: "s \<noteq> []"
        with n step obtain more where "f 0 s = Some more" by (auto simp: Let_def bind_eq_Some_conv)
        with IH s show False by blast
      qed
    qed
  qed
  with assms show ?thesis by blast
qed

text \<open>
  C36. \<open>encode_body\<close> returns exactly when the chunk size is positive or the body is empty (with chunk
  size 0 it appends final chunks for ever); what it returns is one chunk for each piece of the body,
  followed by the final chunk.
\<close>

theorem encode_body_terminates_iff:
  "(encode_body body n \<noteq> None \<longleftrightarrow> 0 < n \<or> body = [])
   \<and> (0 < n \<longrightarrow> encode_body body n = Some (concat (map encode_chunk (pieces n body)) @ encode_final_chunk []))"
proof (cases "n = 0")
  case True
  then show ?thesis
    using encode_loop_zero [of body] by (cases "encode_loop 0 body") (auto simp: encode_body_def)
next
  case False
  then show ?thesis by (auto simp: encode_body_def encode_loop_pieces pieces.simps)
qed

theorem encode_body_terminates_iff_witness:
  "encode_body ''hello'' 0 = None
   \<and> encode_body ''hello'' 3 = Some (concat (map encode_chunk [''hel'', ''lo'']) @ encode_final_chunk [])"
  using encode_body_terminates_iff [of "''hello''" 0] encode_body_terminates_iff [of "''hello''" 3]
  by (simp add: pieces.simps)

lemma encode_body_Some:
  "0 < n \<Longrightarrow> encode_body body n = Some (concat (map encode_chunk (pieces n body)) @ encode_final_chunk [])"
  by (auto simp: encode_body_def encode_loop_pieces pieces.simps)

text \<open>
  C2. Decoding inverts encoding: for every body and positive chunk size whose encoding is shorter
  than \<open>2^31\<close> bytes, the encoded text is valid and decodes to the body with no trailer headers.
\<close>

theorem chunked_roundtrip:
  assumes "0 < n" and "encode_body body n = Some enc" and "length enc < 2 ^ 31"
  shows "utils_decode enc = Some (body, []) \<and> utils_validate enc"
proof -
  let ?ps = "pieces n body"
  have enc: "enc = concat (map encode_chunk ?ps) @ encode_final_chunk []"
    using assms(1,2) by (simp add: encode_body_Some)
  have "length x \<le> length enc" if "x \<in> set ?ps" for x
  proof -
    have "length x \<le> length (encode_chunk x)" by (simp add: encode_chunk_def)
    also have "\<dots> \<le> length (concat (map encode_chunk ?ps))"
      using that by (rule length_le_concat)
    finally show ?thesis by (simp add: enc)
  qed
  then have "list_all (\<lambda>x. x \<noteq> [] \<and> length x < 2 ^ 64) ?ps"
    using assms(3) pieces_bound by (fastforce simp: list_all_iff)
  from decode_chunk_list [OF this, of "[]"] assms(1,3) enc have "utils_decode enc = Some (body, [])"
    by (simp add: concat_pieces)
  then show ?thesis by (simp add: utils_validate_def)
qed

definition example_encoding :: string where
  "example_encoding = ''3'' @ CRLF @ ''hel'' @ CRLF @ ''2'' @ CRLF @ ''lo'' @ CRLF @ ''0'' @ CRLF @ CRLF"

lemma example_encoded: "encode_body ''hello'' 3 = Some example_encoding"
proof -
  have "to_hex (Suc (Suc (Suc 0))) = ''3''" "to_hex (Suc (Suc 0)) = ''2''" by code_simp+
  then show ?thesis
    by (simp add: encode_body_Some pieces.simps encode_chunk_def encode_final_chunk_def example_encoding_def)
qed

theorem chunked_roundtrip_witness:
  "encode_body ''hello'' 3 = Some example_encoding \<and> utils_decode example_encoding = Some (''hello'', [])"
proof -
  have "length example_encoding < 2 ^ 31" by (simp add: example_encoding_def)
  with chunked_roundtrip [OF _ example_encoded] example_encoded show ?thesis by simp
qed

section \<open>The stream encoder\<close>

datatype stm_op = Write string | Set_Size nat

fun stm_exec :: "stm_op \<Rightarrow> StreamChunkedEncoder \<Rightarrow> StreamChunkedEncoder option" where
  "stm_exec (Write data) s = map_option snd (stm_write data s)"
| "stm_exec (Set_Size n) s = Some (stm_set_chunk_size n s)"

fun stm_run :: "stm_op list \<Rightarrow> StreamChunkedEncoder \<Rightarrow> StreamChunkedEncoder option" where
  "stm_run [] s = Some s"
| "stm_run (op # ops) s = stm_exec op s \<bind> stm_run ops"

fun written :: "stm_op list \<Rightarrow> string" where
  "written [] = []"
| "written (Write data # ops) = data @ written ops"
| "written (Set_Size n # ops) = written ops"

text \<open>The chunks emitted so far and the buffer hold exactly the data \<open>w\<close>.\<close>

definition stm_holds :: "string \<Rightarrow> StreamChunkedEncoder \<Rightarrow> bool" where
  "stm_holds w s \<longleftrightarrow> 0 < stm_chunk_size s \<and> \<not> stm_finished s \<and>
     (\<exists>cs. stm_output s = map encode_chunk cs \<and> list_all (\<lambda>x. x \<noteq> []) cs \<and> concat cs @ stm_buffer s = w)"

lemma write_loop_holds: "stm_holds w s \<Longrightarrow> \<exists>s'. write_loop s = Some s' \<and> stm_holds w s'"
proof (induction "length (stm_buffer s)" arbitrary: s rule: less_induct)
  case less
  show ?case
  proof (cases "stm_chunk_size s \<le> length (stm_buffer s)")
    case True
    let ?n = "stm_chunk_size s"
    let ?s1 = "s\<lparr>stm_buffer := drop ?n (stm_buffer s), stm_output := stm_output s @ [encode_chunk (take ?n (stm_buffer s))]\<rparr>"
    from less.prems obtain cs where cs: "stm_output s = map encode_chunk cs" "list_all (\<lambda>x. x \<noteq> []) cs"
      "concat cs @ stm_buffer s = w" and n: "0 < ?n" "\<not> stm_finished s" by (auto simp: stm_holds_def)
    have "take ?n (stm_buffer s) \<noteq> []" using True n(1) by auto
    with cs n have "stm_holds w ?s1"
      by (auto simp: stm_holds_def intro!: exI [of _ "cs @ [take ?n (stm_buffer s)]"])
    moreover have "length (stm_buffer ?s1) < length (stm_buffer s)" using True n(1) by simp
    ultimately have "\<exists>s'. write_loop ?s1 = Some s' \<and> stm_holds w s'" using less.hyps by blast
    with True show ?thesis by (subst write_loop.simps) simp
  next
    case False
    with less.prems show ?thesis by (subst write_loop.simps) simp
  qed
qed

lemma flush_holds: "stm_holds w s \<Longrightarrow> stm_holds w (flush_buffer s) \<and> stm_buffer (flush_buffer s) = []"
proof -
  assume h: "stm_holds w s"
  then obtain cs where cs: "stm_output s = map encode_chunk cs" "list_all (\<lambda>x. x \<noteq> []) cs"
    "concat cs @ stm_buffer s = w" by (auto simp: stm_holds_def)
  show ?thesis
  proof (cases "stm_buffer s = []")
    case True
    with h show ?thesis by (simp add: flush_buffer_def)
  next
    case False
    with h cs show ?thesis
      by (auto simp: flush_buffer_def stm_holds_def intro!: exI [of _ "cs @ [stm_buffer s]"])
  qed
qed

lemma exec_holds: "stm_holds w s \<Longrightarrow> \<exists>s'. stm_exec op s = Some s' \<and> stm_holds (w @ written [op]) s'"
proof (cases op)
  case (Write data)
  assume h: "stm_holds w s"
  then have "stm_holds (w @ data) (s\<lparr>stm_buffer := stm_buffer s @ data\<rparr>)" by (auto simp: stm_holds_def)
  from write_loop_holds [OF this] Write h show ?thesis by (auto simp: stm_write_def stm_holds_def)
next
  case (Set_Size n)
  assume h: "stm_holds w s"
  have "stm_holds w t \<Longrightarrow> 0 < n \<Longrightarrow> stm_holds w (t\<lparr>stm_chunk_size := n\<rparr>)" for t by (auto simp: stm_holds_def)
  with h flush_holds [OF h] Set_Size show ?thesis by (auto simp: stm_set_chunk_size_def)
qed

lemma run_holds: "stm_holds w s \<Longrightarrow> \<exists>s'. stm_run ops s = Some s' \<and> stm_holds (w @ written ops) s'"
proof (induction ops arbitrary: w s)
  case Nil
  then show ?case by simp
next
  case (Cons op ops)
  from exec_holds [OF Cons.prems, of op] obtain s1 where s1: "stm_exec op s = Some s1" "stm_holds (w @ written [op]) s1"
    by blast
  have "written (op # ops) = written [op] @ written ops" by (cases op) simp_all
  with Cons.IH [OF s1(2)] s1(1) show ?case by simp
qed

lemma finish_output:
  assumes "stm_holds w s"
  shows "\<exists>cs. concat (stm_output (snd (stm_finish ts s))) = concat (map encode_chunk cs) @ encode_final_chunk ts
    \<and> list_all (\<lambda>x. x \<noteq> []) cs \<and> concat cs = w"
  using flush_holds [OF assms] assms by (auto simp: stm_finish_def stm_holds_def Let_def)

text \<open>
  Stream encoding is sound for every way of writing: starting with a positive chunk size, any
  sequence of writes and chunk size changes ends, and after \<open>finish\<close> the concatenated output decodes
  to the concatenation of the data written, with the trailer headers given to \<open>finish\<close> (when the
  output is shorter than \<open>2^31\<close> bytes).
\<close>

theorem stream_roundtrip:
  assumes "0 < n" and "list_all trailer_ok ts"
  shows "\<exists>s. stm_run ops (StreamChunkedEncoder_new n) = Some s
    \<and> (length (concat (stm_output (snd (stm_finish ts s)))) < 2 ^ 31 \<longrightarrow>
       utils_decode (concat (stm_output (snd (stm_finish ts s)))) = Some (written ops, ts))"
proof -
  have "stm_holds [] (StreamChunkedEncoder_new n)"
    using assms(1) by (simp add: stm_holds_def StreamChunkedEncoder_new_def)
  from run_holds [OF this, of ops] obtain s where s: "stm_run ops (StreamChunkedEncoder_new n) = Some s"
    "stm_holds (written ops) s" by auto
  from finish_output [OF s(2), of ts] obtain cs where cs:
    "concat (stm_output (snd (stm_finish ts s))) = concat (map encode_chunk cs) @ encode_final_chunk ts"
    "list_all (\<lambda>x. x \<noteq> []) cs" "concat cs = written ops" by blast
  have "utils_decode (concat (stm_output (snd (stm_finish ts s)))) = Some (written ops, ts)"
    if len: "length (concat (stm_output (snd (stm_finish ts s)))) < 2 ^ 31"
  proof -
    have "length x < 2 ^ 64" if "x \<in> set cs" for x
    proof -
      have "length x \<le> length (encode_chunk x)" by (simp add: encode_chunk_def)
      also have "\<dots> \<le> length (concat (map encode_chunk cs))" using that by (rule length_le_concat)
      finally show ?thesis using len cs(1) by simp
    qed
    with cs(2) have "list_all (\<lambda>x. x \<noteq> [] \<and> length x < 2 ^ 64) cs" by (simp add: list_all_iff)
    from decode_chunk_list [OF this assms(2)] len cs show ?thesis by simp
  qed
  with s(1) show ?thesis by blast
qed

theorem stream_roundtrip_witness:
  "\<exists>s. stm_run [Write ''hel'', Set_Size 4, Write ''lo''] (StreamChunkedEncoder_new 2) = Some s
    \<and> utils_decode (concat (stm_output (snd (stm_finish [(''X-Sum'', ''1'')] s)))) = Some (''hello'', [(''X-Sum'', ''1'')])"
proof -
  let ?ops = "[Write ''hel'', Set_Size 4, Write ''lo'']"
  have "list_all trailer_ok [(''X-Sum'', ''1'')]" by (simp add: trailer_ok_def trimmed_def is_blank_def)
  from stream_roundtrip [OF _ this, of 2 ?ops] obtain s where s: "stm_run ?ops (StreamChunkedEncoder_new 2) = Some s"
    "length (concat (stm_output (snd (stm_finish [(''X-Sum'', ''1'')] s)))) < 2 ^ 31 \<longrightarrow>
       utils_decode (concat (stm_output (snd (stm_finish [(''X-Sum'', ''1'')] s)))) = Some (''hello'', [(''X-Sum'', ''1'')])"
    by auto
  then have "s = \<lparr>stm_chunk_size = 4, stm_buffer = ''lo'', stm_finished = False,
      stm_output = [encode_chunk ''he'', encode_chunk ''l'']\<rparr>"
    by (simp add: StreamChunkedEncoder_new_def stm_write_def write_loop.simps stm_set_chunk_size_def flush_buffer_def)
  then have "length (concat (stm_output (snd (stm_finish [(''X-Sum'', ''1'')] s)))) < 2 ^ 31"
    by (simp add: stm_finish_def flush_buffer_def encode_chunk_def encode_final_chunk_def to_hex_def digits_of.simps)
  with s show ?thesis by blast
qed

section \<open>Inputs on which the decoder goes wrong\<close>

lemma parse_hex_append:
  "parse_hex_loop r (a @ b) = (case parse_hex_loop r a of Inl e \<Rightarrow> Inl e | Inr r' \<Rightarrow> parse_hex_loop r' b)"
  by (induction a arbitrary: r) (auto split: option.split)

lemma parse_hex_zeros: "parse_hex_loop r (replicate k (CHR ''0'')) = Inr (r * 16 ^ k)"
proof (induction k arbitrary: r)
  case 0
  then show ?case by simp
next
  case (Suc k)
  have "hex_value (CHR ''0'') = Some 0" by (simp add: hex_value_def)
  with Suc show ?case by (simp add: mult.assoc)
qed

lemma parse_hex_valid: "list_all (\<lambda>c. hex_value c \<noteq> None) s \<Longrightarrow> \<exists>r'. parse_hex_loop r s = Inr r'"
  by (induction s arbitrary: r) auto

lemma hex_string_plain:
  assumes "list_all (\<lambda>c. hex_value c \<noteq> None) s"
  shows "CR \<notin> set s" "CHR '';'' \<notin> set s" "trimmed s"
proof -
  show "CR \<notin> set s" "CHR '';'' \<notin> set s"
    using assms hex_value_special by (auto simp: list_all_iff)
  show "trimmed s"
    using assms hex_value_special(4) unfolding trimmed_def list_all_iff by (metis hd_in_set last_in_set)
qed

text \<open>
  Chunk sizes wrap around at 64 bits unnoticed: a size line made of any hexadecimal digits
  followed by sixteen zeros is read as 0, so the decoder takes it for the final chunk and reports
  a complete, empty body.
\<close>

theorem oversized_chunk_accepted_as_final:
  assumes "list_all (\<lambda>c. hex_value c \<noteq> None) digits" and "length digits < 2 ^ 30"
  shows "utils_decode (digits @ replicate 16 (CHR ''0'') @ CRLF @ CRLF) = Some ([], [])"
proof -
  define zs where "zs = replicate 16 (CHR ''0'')"
  have zs: "length zs = 16" "parse_hex_loop r zs = Inr (r * 16 ^ 16)" for r
    unfolding zs_def by (simp, rule parse_hex_zeros)
  let ?l = "digits @ zs"
  let ?d = ChunkedDecoder_new
  let ?d1 = "?d\<lparr>dec_current_chunk_size := 0, dec_current_chunk_read := 0, dec_state := CHUNK_TRAILER\<rparr>"
  have "hex_value (CHR ''0'') \<noteq> None" by (simp add: hex_value_def)
  then have hex: "list_all (\<lambda>c. hex_value c \<noteq> None) ?l" using assms(1) by (auto simp: list_all_iff zs_def)
  obtain r where "parse_hex_loop 0 digits = Inr r" using parse_hex_valid [OF assms(1)] by blast
  then have "parse_hex_loop 0 ?l = Inr (r * 16 ^ 16)" by (simp only: parse_hex_append zs sum.case)
  moreover have "(16 :: 64 word) ^ 16 = 0" by simp
  ultimately have "parse_hex_loop 0 ?l = Inr 0" by (simp only: mult_zero_right)
  then have "parse_hex_size (trim_blanks ?l) = Inr 0"
    using zs(1) by (auto simp: parse_hex_size_def trim_blanks_id [OF hex_string_plain(3) [OF hex]])
  from size_line_step [OF ready_new hex_string_plain(1,2) [OF hex] this]
  have "decode_step ?d (?l @ CR # LF # CRLF) = (1, length ?l + 2, ?d1)" by simp
  from loop_line [OF this, of 0] have l1: "decode_loop ?d (?l @ CR # LF # CRLF) 0 = decode_loop ?d1 CRLF (length ?l + 2)"
    by (simp add: ChunkedDecoder_new_def)
  have "in_trailer ?d1" by (simp add: in_trailer_def ChunkedDecoder_new_def)
  from end_of_trailers [OF this, of "length ?l + 2"] obtain d2 where
    "decode_loop ?d1 CRLF (length ?l + 2) = (Some (length ?l + 2 + 2), d2)" "dec_state d2 = COMPLETE"
    "dec_decoded_data d2 = []" "dec_trailer_headers d2 = []"
    by (auto simp: ChunkedDecoder_new_def)
  with l1 assms(2) zs(1) have "utils_decode (?l @ CR # LF # CRLF) = Some ([], [])"
    by (simp add: utils_decode_def dec_decode_def to_int32_nonneg ChunkedDecoder_new_def)
  then show ?thesis by (simp add: zs_def)
qed

theorem oversized_chunk_accepted_as_final_witness:
  "utils_decode (''1'' @ replicate 16 (CHR ''0'') @ CRLF @ CRLF) = Some ([], [])"
proof -
  have "list_all (\<lambda>c. hex_value c \<noteq> None) ''1''" "length ''1'' < 2 ^ 30" by (simp_all add: hex_value_def)
  from oversized_chunk_accepted_as_final [OF this] show ?thesis .
qed

lemma data_step_no_crlf:
  assumes "dec_state d = CHUNK_DATA" and "dec_buffer d = []" and "dec_current_chunk_read d = 0"
    and "dec_current_chunk_size d = of_nat (length x)" and "x \<noteq> []" and "length x < 2 ^ 64"
  shows "\<exists>d'. decode_step d x = (1, length x, d') \<and> ready d'"
  using assms
  by (simp add: decode_step_def decode_chunk_data_state_def Let_def unat_small notify_chunk_def ready_def)

text \<open>
  The result of decoding depends on how the input is cut into buffers: for every chunk, when one
  call of \<open>decode\<close> ends right after the chunk's data and the next begins with its CRLF, the second
  call fails, although the same bytes decode when they arrive in one buffer.
\<close>

theorem cut_before_crlf_fails:
  assumes "x \<noteq> []" and "length x < 2 ^ 64"
  shows "to_hex (length x) @ CRLF @ x @ CRLF @ rest = encode_chunk x @ rest
    \<and> fst (dec_decode (CRLF @ rest) (snd (dec_decode (to_hex (length x) @ CRLF @ x) ChunkedDecoder_new))) = -1"
proof -
  let ?h = "to_hex (length x)"
  let ?d = ChunkedDecoder_new
  let ?d1 = "?d\<lparr>dec_current_chunk_size := of_nat (length x), dec_current_chunk_read := 0, dec_state := CHUNK_DATA\<rparr>"
  have "decode_step ?d (?h @ CR # LF # x) = (1, length ?h + 2, ?d1)"
    using size_line_step [OF ready_new to_hex_plain(1,2), of "length x" "of_nat (length x)"] assms
    by (simp add: trim_blanks_id to_hex_plain(4) parse_to_hex word_of_nat_zero)
  from loop_line [OF this, of 0]
  have l1: "decode_loop ?d (?h @ CRLF @ x) 0 = decode_loop ?d1 x (length ?h + 2)"
    by (simp add: ChunkedDecoder_new_def)
  obtain d2 where d2: "decode_step ?d1 x = (1, length x, d2)" "ready d2"
    using data_step_no_crlf [of ?d1 x] assms by (auto simp: ChunkedDecoder_new_def)
  from loop_step [OF d2(1) assms(1)] have "decode_loop ?d1 x (length ?h + 2) = (Some (length ?h + 2 + length x), d2)"
    by (simp add: loop_empty)
  with l1 have first: "snd (dec_decode (?h @ CRLF @ x) ?d) = d2" by (simp add: dec_decode_def ChunkedDecoder_new_def)
  have "parse_hex_size (trim_blanks []) = Inl InvalidArgument" by (simp add: parse_hex_size_def trim_blanks_def)
  from size_line_error [OF d2(2) _ _ this, of rest]
  have "decode_step d2 (CR # LF # rest) = (-1, 2, set_error (Bad_Chunk_Size (trim_blanks [])) d2)" by simp
  from loop_error [OF this, of 0] d2(2) have "fst (dec_decode (CRLF @ rest) d2) = -1"
    by (simp add: dec_decode_def ready_def)
  with first assms(1) show ?thesis by (simp add: encode_chunk_def)
qed

theorem cut_before_crlf_fails_witness:
  "fst (dec_decode (CRLF @ encode_final_chunk [])
     (snd (dec_decode (to_hex (length ''hello'') @ CRLF @ ''hello'') ChunkedDecoder_new))) = -1"
proof -
  have "''hello'' \<noteq> []" "length ''hello'' < 2 ^ 64" by simp_all
  from cut_before_crlf_fails [OF this] show ?thesis by blast
qed

section \<open>Size of the encoding\<close>

lemma digits_length: "2 \<le> b \<Longrightarrow> 0 < k \<Longrightarrow> n < b ^ k \<Longrightarrow> length (digits_of b n) \<le> k"
proof (induction b n arbitrary: k rule: digits_of.induct)
  case (1 b n)
  show ?case
  proof (cases "n < b")
    case True
    then show ?thesis using 1 by (subst digits_of.simps) simp
  next
    case False
    obtain j where k: "k = Suc j" using 1(3) by (cases k) auto
    then have "0 < j" using False 1(4) by (cases j) auto
    note k = k this
    with 1(4) have "n div b < b ^ j" using 1(2) by (simp add: less_mult_imp_div_less mult.commute)
    with 1(1) [of j] False 1(2) k have "length (digits_of b (n div b)) \<le> j" by simp
    with False 1(2) k show ?thesis by (subst digits_of.simps) simp
  qed
qed

lemma ceiling_step:
  assumes "0 < n" and "0 < (m::nat)"
  shows "(m + n - 1) div n = Suc ((m - n + n - 1) div n)"
proof -
  have "m + n - 1 = (m - 1) + n" using assms by simp
  then have "(m + n - 1) div n = Suc ((m - 1) div n)" using assms(1) by (simp only: div_add_self2)
  moreover have "(m - n + n - 1) div n = (m - 1) div n"
  proof (cases "n \<le> m")
    case True
    then show ?thesis by simp
  next
    case False
    then have "m - n + n - 1 < n" "m - 1 < n" using assms by simp_all
    then show ?thesis by (simp only: div_less)
  qed
  ultimately show ?thesis by simp
qed

lemma length_pieces: "0 < n \<Longrightarrow> length (pieces n s) = (length s + n - 1) div n"
proof (induction n s rule: pieces.induct)
  case (1 n s)
  show ?case
  proof (cases "s = []")
    case True
    then show ?thesis using 1(2) by (subst pieces.simps) simp
  next
    case False
    then have "length (pieces n s) = Suc (length (pieces n (drop n s)))"
      using 1(2) by (subst pieces.simps) simp
    also have "length (pieces n (drop n s)) = (length s - n + n - 1) div n" using 1 False by simp
    finally show ?thesis using ceiling_step [OF 1(2), of "length s"] False by simp
  qed
qed

lemma encoded_chunks_length:
  "list_all (\<lambda>x. x \<noteq> [] \<and> length x < 16 ^ 6) xs \<Longrightarrow>
     length (concat (map encode_chunk xs)) \<le> length (concat xs) + 10 * length xs"
proof (induction xs)
  case Nil
  then show ?case by simp
next
  case (Cons x xs)
  have "length (to_hex (length x)) \<le> 6"
    using digits_length [of 16 6 "length x"] Cons.prems by (simp add: to_hex_def)
  with Cons show ?case by (simp add: encode_chunk_def)
qed

text \<open>
  \<open>calculate_encoded_size\<close> is an upper bound: for a chunk size between 1 and \<open>16^6 - 1\<close> and a
  body shorter than \<open>2^32\<close> bytes it returns a number that the length of the encoded body does not
  exceed.
\<close>

theorem encoded_size_upper_bound:
  assumes "0 < n" and "n < 16 ^ 6" and "length body < 2 ^ 32" and "encode_body body n = Some enc"
  shows "\<exists>k. calculate_encoded_size (length body) n = Some k \<and> length enc \<le> k"
proof (cases "body = []")
  case True
  with assms(4) show ?thesis by (auto simp: calculate_encoded_size_def encode_body_def encode_final_chunk_def)
next
  case False
  let ?m = "(length body + n - 1) div n"
  have "list_all (\<lambda>x. x \<noteq> [] \<and> length x < 16 ^ 6) (pieces n body)"
    using pieces_bound assms(2) by (fastforce simp: list_all_iff)
  from encoded_chunks_length [OF this] have len: "length enc \<le> length body + (?m * 10 + 5)"
    using assms(1,4) by (auto simp: encode_body_Some concat_pieces length_pieces encode_final_chunk_def)
  have "length body + n - 1 \<le> length body * n"
    using assms(1) False by (cases "length body"; cases n) auto
  then have "?m \<le> length body" using assms(1) by (metis div_le_mono nonzero_mult_div_cancel_right not_gr_zero)
  then have small: "length body + n - 1 < 2 ^ 64" "?m * 10 + 5 < 2 ^ 64" "length body + (?m * 10 + 5) < 2 ^ 64"
    using assms(2,3) by simp_all
  have "calculate_encoded_size (length body) n = Some (length body + (?m * 10 + 5))"
    using False assms(1) small by (simp add: calculate_encoded_size_def Let_def)
  with len show ?thesis by blast
qed

theorem encoded_size_upper_bound_witness:
  "\<exists>k. calculate_encoded_size (length ''hello'') 3 = Some k \<and> length example_encoding \<le> k"
proof -
  have "(0::nat) < 3" "(3::nat) < 16 ^ 6" "length ''hello'' < 2 ^ 32" by simp_all
  from encoded_size_upper_bound [OF this example_encoded] show ?thesis .
qed

end
