(* ===== verification/Byte_Layout.thy ===== *)
theory Byte_Layout
  imports Prelude
begin

unbundle bit_operations_syntax

text \<open>
  How integers lie in memory: the bytes of a word from the least significant on, as \<open>memcpy\<close> and
  pointer casts see them on the little-endian machines the programs are written for. Used by the
  RPC serializer and by the WebSocket server.
\<close>

definition to_bytes :: "'a::len word \<Rightarrow> bytes" where
  "to_bytes w = map (\<lambda>i. ucast (drop_bit (8 * i) w)) [0..<LENGTH('a) div 8]"

definition from_bytes :: "bytes \<Rightarrow> 'a::len word" where
  "from_bytes bs = foldr (\<lambda>b acc. ucast b OR push_bit 8 acc) bs 0"

lemma bit_from_bytes:
  "bit (from_bytes bs :: 'a::len word) i \<longleftrightarrow> i < LENGTH('a) \<and> i div 8 < length bs \<and> bit (bs ! (i div 8)) (i mod 8)"
proof (induction bs arbitrary: i)
  case Nil
  then show ?case by (simp add: from_bytes_def)
next
  case (Cons b bs)
  have step: "from_bytes (b # bs) = (ucast b OR push_bit 8 (from_bytes bs) :: 'a word)"
    by (simp add: from_bytes_def)
  show ?case
  proof (cases "i < 8")
    case True
    then show ?thesis by (auto simp: step bit_or_iff bit_push_bit_iff bit_ucast_iff)
  next
    case False
    then have "i div 8 = Suc ((i - 8) div 8)" "i mod 8 = (i - 8) mod 8"
      by (simp_all add: le_div_geq le_mod_geq)
    with False show ?thesis
      by (auto simp: step bit_or_iff bit_push_bit_iff bit_ucast_iff Cons dest: bit_imp_le_length)
  qed
qed

lemma length_to_bytes [simp]: "length (to_bytes (w :: 'a::len word)) = LENGTH('a) div 8"
  by (simp add: to_bytes_def)

lemma from_to_bytes:
  assumes "8 dvd LENGTH('a::len)"
  shows "from_bytes (to_bytes (w :: 'a word)) = w"
proof (rule bit_word_eqI)
  fix i
  assume i: "i < LENGTH('a)"
  with assms have "i div 8 < LENGTH('a) div 8" by (auto elim!: dvdE simp: less_mult_imp_div_less)
  with i show "bit (from_bytes (to_bytes w) :: 'a word) i = bit w i"
    by (simp add: bit_from_bytes to_bytes_def bit_ucast_iff bit_drop_bit_eq)
qed

lemma to_from_bytes:
  assumes "length bs = LENGTH('a::len) div 8"
  shows "to_bytes (from_bytes bs :: 'a word) = bs"
proof (rule nth_equalityI)
  show "length (to_bytes (from_bytes bs :: 'a word)) = length bs" using assms by simp
  fix i
  assume "i < length (to_bytes (from_bytes bs :: 'a word))"
  then have i: "i < LENGTH('a) div 8" by simp
  show "to_bytes (from_bytes bs :: 'a word) ! i = bs ! i"
  proof (rule bit_word_eqI)
    fix j
    assume j: "j < LENGTH(8)"
    then have "8 * i + j < LENGTH('a)" using i by simp
    with i j assms show "bit (to_bytes (from_bytes bs :: 'a word) ! i) j = bit (bs ! i) j"
      by (simp add: to_bytes_def bit_ucast_iff bit_drop_bit_eq bit_from_bytes)
  qed
qed

end
