(* ===== verification/Rpc_Protocol.thy ===== *)
theory Rpc_Protocol
  imports Byte_Layout
begin

unbundle bit_operations_syntax

text \<open>
  Serialisation and message format of the RPC library (\<open>zsxq-cpp-ai/StdRPC/include/serializer.hpp\<close>,
  \<open>zsxq-cpp-ai/StdRPC/include/protocol.hpp\<close>).

  A \<open>Serializer\<close> is a byte buffer with a read position. \<open>memcpy\<close> of an arithmetic value copies its
  object representation; on the little-endian machines the library is written for, that is the list
  of bytes of its bit pattern from the least significant on, so the template \<open>write<T>\<close>/\<open>read<T>\<close> is
  modelled on words of any width (a signed value stands for its two's complement). A string is a
  list of bytes. \<open>std::runtime_error\<close> is a value; sizes stored in 32 bits are truncated as the casts
  do. The enumerations have a fixed underlying type and may hold any value of it, so they are words
  with named constants.

  The locale \<open>codec\<close> is the contract between a writer and a reader; it is interpreted on words,
  strings, vectors, requests and responses.
\<close>

section \<open>Serializer\<close>

record Serializer =
  ser_buffer :: bytes
  ser_read_pos :: nat

datatype ser_error = Read_Overrun | String_Overrun | Raw_Overrun

definition Serializer_new :: Serializer where
  "Serializer_new = \<lparr>ser_buffer = [], ser_read_pos = 0\<rparr>"

definition Serializer_from :: "bytes \<Rightarrow> Serializer" where
  "Serializer_from data = \<lparr>ser_buffer = data, ser_read_pos = 0\<rparr>"

definition ser_clear :: "Serializer \<Rightarrow> Serializer" where
  "ser_clear s = s\<lparr>ser_buffer := [], ser_read_pos := 0\<rparr>"

definition resetReadPos :: "Serializer \<Rightarrow> Serializer" where
  "resetReadPos s = s\<lparr>ser_read_pos := 0\<rparr>"

definition writeRaw :: "bytes \<Rightarrow> Serializer \<Rightarrow> Serializer" where
  "writeRaw data s = s\<lparr>ser_buffer := ser_buffer s @ data\<rparr>"

definition write_word :: "'a::len word \<Rightarrow> Serializer \<Rightarrow> Serializer" where
  "write_word w s = s\<lparr>ser_buffer := ser_buffer s @ to_bytes w\<rparr>"

definition write_string :: "bytes \<Rightarrow> Serializer \<Rightarrow> Serializer" where
  "write_string str s =
     (let sz = (of_nat (length str) :: 32 word); s1 = write_word sz s
      in if 0 < sz then s1\<lparr>ser_buffer := ser_buffer s1 @ take (unat sz) str\<rparr> else s1)"

definition write_vector :: "('a \<Rightarrow> Serializer \<Rightarrow> Serializer) \<Rightarrow> 'a list \<Rightarrow> Serializer \<Rightarrow> Serializer" where
  "write_vector write_item vec s =
     foldl (\<lambda>s item. write_item item s) (write_word (of_nat (length vec) :: 32 word) s) vec"

definition read_word :: "Serializer \<Rightarrow> (ser_error + 'a::len word) \<times> Serializer" where
  "read_word s =
     (let n = LENGTH('a) div 8
      in if length (ser_buffer s) < ser_read_pos s + n then (Inl Read_Overrun, s)
         else (Inr (from_bytes (take n (drop (ser_read_pos s) (ser_buffer s)))),
               s\<lparr>ser_read_pos := ser_read_pos s + n\<rparr>))"

definition take_raw :: "ser_error \<Rightarrow> nat \<Rightarrow> Serializer \<Rightarrow> (ser_error + bytes) \<times> Serializer" where
  "take_raw err sz s =
     (if length (ser_buffer s) < ser_read_pos s + sz then (Inl err, s)
      else (Inr (take sz (drop (ser_read_pos s) (ser_buffer s))),
            s\<lparr>ser_read_pos := ser_read_pos s + sz\<rparr>))"

definition readRaw :: "nat \<Rightarrow> Serializer \<Rightarrow> (ser_error + bytes) \<times> Serializer" where
  "readRaw sz s = take_raw Raw_Overrun sz s"

definition readString :: "Serializer \<Rightarrow> (ser_error + bytes) \<times> Serializer" where
  "readString s =
     (case read_word s of
        (Inl err, s1) \<Rightarrow> (Inl err, s1)
      | (Inr sz, s1) \<Rightarrow> take_raw String_Overrun (unat (sz :: 32 word)) s1)"

fun read_items :: "(Serializer \<Rightarrow> (ser_error + 'a) \<times> Serializer) \<Rightarrow> nat \<Rightarrow> Serializer \<Rightarrow> (ser_error + 'a list) \<times> Serializer" where
  "read_items read_item 0 s = (Inr [], s)"
| "read_items read_item (Suc n) s =
     (case read_item s of
        (Inl err, s1) \<Rightarrow> (Inl err, s1)
      | (Inr x, s1) \<Rightarrow>
          (case read_items read_item n s1 of
             (Inl err, s2) \<Rightarrow> (Inl err, s2)
           | (Inr xs, s2) \<Rightarrow> (Inr (x # xs), s2)))"

definition readVector :: "(Serializer \<Rightarrow> (ser_error + 'a) \<times> Serializer) \<Rightarrow> Serializer \<Rightarrow> (ser_error + 'a list) \<times> Serializer" where
  "readVector read_item s =
     (case read_word s of
        (Inl err, s1) \<Rightarrow> (Inl err, s1)
      | (Inr sz, s1) \<Rightarrow> read_items read_item (unat (sz :: 32 word)) s1)"

definition hasData :: "Serializer \<Rightarrow> bool" where
  "hasData s \<longleftrightarrow> ser_read_pos s < length (ser_buffer s)"

definition remainingBytes :: "Serializer \<Rightarrow> nat" where
  "remainingBytes s = length (ser_buffer s) - ser_read_pos s"

section \<open>Messages\<close>

abbreviation REQUEST :: "8 word" where "REQUEST \<equiv> 1"
abbreviation RESPONSE :: "8 word" where "RESPONSE \<equiv> 2"

record MessageHeader =
  hdr_magic :: "32 word"
  hdr_version :: "8 word"
  hdr_type :: "8 word"
  hdr_request_id :: "32 word"
  hdr_body_size :: "32 word"

definition header_serialize :: "MessageHeader \<Rightarrow> Serializer \<Rightarrow> Serializer" where
  "header_serialize h s =
     write_word (hdr_body_size h) (write_word (hdr_request_id h) (write_word (hdr_type h)
       (write_word (hdr_version h) (write_word (hdr_magic h) s))))"

definition getHeaderSize :: nat where
  "getHeaderSize = 4 + 1 + 1 + 4 + 4"

text \<open>
  \<open>Inr None\<close> is the return value \<open>false\<close>. The reads after the size check cannot throw; the
  exception branches are kept as the code has them.
\<close>

definition header_deserialize :: "Serializer \<Rightarrow> (ser_error + MessageHeader option) \<times> Serializer" where
  "header_deserialize s =
     (if remainingBytes s < getHeaderSize then (Inr None, s)
      else case read_word s of (Inl e, s1) \<Rightarrow> (Inl e, s1) | (Inr magic, s1) \<Rightarrow>
        (if magic \<noteq> 0x52504343 then (Inr None, s1)
         else case read_word s1 of (Inl e, s2) \<Rightarrow> (Inl e, s2) | (Inr version, s2) \<Rightarrow>
           (case read_word s2 of (Inl e, s3) \<Rightarrow> (Inl e, s3) | (Inr ty, s3) \<Rightarrow>
             (case read_word s3 of (Inl e, s4) \<Rightarrow> (Inl e, s4) | (Inr request_id, s4) \<Rightarrow>
               (case read_word s4 of (Inl e, s5) \<Rightarrow> (Inl e, s5) | (Inr body_size, s5) \<Rightarrow>
                 (Inr (Some \<lparr>hdr_magic = magic, hdr_version = version, hdr_type = ty,
                    hdr_request_id = request_id, hdr_body_size = body_size\<rparr>), s5))))))"

record RequestMessage =
  req_method_name :: bytes
  req_params_data :: bytes

definition request_serialize :: "RequestMessage \<Rightarrow> Serializer \<Rightarrow> Serializer" where
  "request_serialize r s =
     writeRaw (req_params_data r)
       (write_word (of_nat (length (req_params_data r)) :: 32 word) (write_string (req_method_name r) s))"

definition request_deserialize :: "Serializer \<Rightarrow> (ser_error + RequestMessage) \<times> Serializer" where
  "request_deserialize s =
     (case readString s of (Inl e, s1) \<Rightarrow> (Inl e, s1) | (Inr method_name, s1) \<Rightarrow>
       (case read_word s1 of (Inl e, s2) \<Rightarrow> (Inl e, s2) | (Inr sz, s2) \<Rightarrow>
         (case readRaw (unat (sz :: 32 word)) s2 of (Inl e, s3) \<Rightarrow> (Inl e, s3) | (Inr params_data, s3) \<Rightarrow>
           (Inr \<lparr>req_method_name = method_name, req_params_data = params_data\<rparr>, s3))))"

record ResponseMessage =
  res_status :: "16 word"
  res_result_data :: bytes
  res_error_message :: bytes

definition response_serialize :: "ResponseMessage \<Rightarrow> Serializer \<Rightarrow> Serializer" where
  "response_serialize r s =
     write_string (res_error_message r) (writeRaw (res_result_data r)
       (write_word (of_nat (length (res_result_data r)) :: 32 word) (write_word (res_status r) s)))"

definition response_deserialize :: "Serializer \<Rightarrow> (ser_error + ResponseMessage) \<times> Serializer" where
  "response_deserialize s =
     (case read_word s of (Inl e, s1) \<Rightarrow> (Inl e, s1) | (Inr status, s1) \<Rightarrow>
       (case read_word s1 of (Inl e, s2) \<Rightarrow> (Inl e, s2) | (Inr sz, s2) \<Rightarrow>
         (case readRaw (unat (sz :: 32 word)) s2 of (Inl e, s3) \<Rightarrow> (Inl e, s3) | (Inr result_data, s3) \<Rightarrow>
           (case readString s3 of (Inl e, s4) \<Rightarrow> (Inl e, s4) | (Inr error_message, s4) \<Rightarrow>
             (Inr \<lparr>res_status = status, res_result_data = result_data, res_error_message = error_message\<rparr>, s4)))))"

record Message =
  msg_header :: MessageHeader
  msg_body :: bytes

definition new_message :: "8 word \<Rightarrow> 32 word \<Rightarrow> bytes \<Rightarrow> Message" where
  "new_message ty request_id body =
     \<lparr>msg_header = \<lparr>hdr_magic = 0x52504343, hdr_version = 1, hdr_type = ty, hdr_request_id = request_id,
        hdr_body_size = of_nat (length body)\<rparr>, msg_body = body\<rparr>"

definition Message_request :: "32 word \<Rightarrow> RequestMessage \<Rightarrow> Message" where
  "Message_request request_id r =
     new_message REQUEST request_id (ser_buffer (request_serialize r Serializer_new))"

definition Message_response :: "32 word \<Rightarrow> ResponseMessage \<Rightarrow> Message" where
  "Message_response request_id r =
     new_message RESPONSE request_id (ser_buffer (response_serialize r Serializer_new))"

definition Message_setBody :: "bytes \<Rightarrow> Message \<Rightarrow> Message" where
  "Message_setBody body m = m\<lparr>msg_body := body,
     msg_header := (msg_header m)\<lparr>hdr_body_size := of_nat (length body)\<rparr>\<rparr>"

definition Message_serialize :: "Message \<Rightarrow> bytes" where
  "Message_serialize m = ser_buffer (writeRaw (msg_body m) (header_serialize (msg_header m) Serializer_new))"

definition Message_deserialize :: "bytes \<Rightarrow> ser_error + Message option" where
  "Message_deserialize data =
     (if length data < getHeaderSize then Inr None
      else case header_deserialize (Serializer_from (take getHeaderSize data)) of
             (Inl e, _) \<Rightarrow> Inl e
           | (Inr None, _) \<Rightarrow> Inr None
           | (Inr (Some h), _) \<Rightarrow>
               (if length data < getHeaderSize + unat (hdr_body_size h) then Inr None
                else Inr (Some \<lparr>msg_header = h,
                       msg_body = take (unat (hdr_body_size h)) (drop getHeaderSize data)\<rparr>)))"

section \<open>The contract of a writer and its reader\<close>

text \<open>
  \<open>ok\<close> holds of the values the format can carry. The first law says that a reader standing at the
  bytes of a value returns it and moves behind them; the second that a reader which returns found
  exactly those bytes, inside the buffer.
\<close>

locale codec =
  fixes enc :: "'a \<Rightarrow> bytes" and dec :: "Serializer \<Rightarrow> (ser_error + 'a) \<times> Serializer" and ok :: "'a \<Rightarrow> bool"
  assumes dec_enc: "ok x \<Longrightarrow> dec \<lparr>ser_buffer = a @ enc x @ b, ser_read_pos = length a\<rparr> =
      (Inr x, \<lparr>ser_buffer = a @ enc x @ b, ser_read_pos = length a + length (enc x)\<rparr>)"
    and enc_dec: "\<lbrakk>dec s = (Inr x, t); ser_read_pos s \<le> length (ser_buffer s)\<rbrakk> \<Longrightarrow>
      ok x \<and> (\<exists>b. drop (ser_read_pos s) (ser_buffer s) = enc x @ b) \<and>
      t = s\<lparr>ser_read_pos := ser_read_pos s + length (enc x)\<rparr>"
begin

lemma dec_at:
  assumes "ok x" "drop (ser_read_pos s) (ser_buffer s) = enc x @ b" "ser_read_pos s \<le> length (ser_buffer s)"
  shows "dec s = (Inr x, s\<lparr>ser_read_pos := ser_read_pos s + length (enc x)\<rparr>)"
proof -
  have "s = \<lparr>ser_buffer = take (ser_read_pos s) (ser_buffer s) @ enc x @ b, ser_read_pos = ser_read_pos s\<rparr>"
    using assms(2) by (cases s) (simp, metis append_take_drop_id)
  then show ?thesis
    using dec_enc [OF assms(1), of "take (ser_read_pos s) (ser_buffer s)" b] assms(3)
    by (cases s) (simp add: min_absorb2)
qed

lemma dec_iff:
  assumes "ser_read_pos s \<le> length (ser_buffer s)"
  shows "dec s = (Inr x, t) \<longleftrightarrow> ok x \<and> (\<exists>b. drop (ser_read_pos s) (ser_buffer s) = enc x @ b) \<and>
    t = s\<lparr>ser_read_pos := ser_read_pos s + length (enc x)\<rparr>"
  using enc_dec [OF _ assms] dec_at [OF _ _ assms] by metis

end

lemma codec_of_iff:
  assumes "\<And>s x t. ser_read_pos s \<le> length (ser_buffer s) \<Longrightarrow>
    dec s = (Inr x, t) \<longleftrightarrow> ok x \<and> (\<exists>b. drop (ser_read_pos s) (ser_buffer s) = enc x @ b) \<and>
      t = s\<lparr>ser_read_pos := ser_read_pos s + length (enc x)\<rparr>"
  shows "codec enc dec ok"
proof
  fix x a b
  assume "ok x"
  then show "dec \<lparr>ser_buffer = a @ enc x @ b, ser_read_pos = length a\<rparr> =
      (Inr x, \<lparr>ser_buffer = a @ enc x @ b, ser_read_pos = length a + length (enc x)\<rparr>)"
    using assms [of "\<lparr>ser_buffer = a @ enc x @ b, ser_read_pos = length a\<rparr>" x] by simp
qed (use assms in blast)

text \<open>
  A reader followed by another one, chosen by the value of the first, reads the concatenation of the
  two encodings; a reader followed by a change of representation reads the same bytes. These two
  lemmas carry every composite format below.
\<close>

definition then_read ::
  "(Serializer \<Rightarrow> (ser_error + 'a) \<times> Serializer) \<Rightarrow> ('a \<Rightarrow> Serializer \<Rightarrow> (ser_error + 'b) \<times> Serializer) \<Rightarrow>
   Serializer \<Rightarrow> (ser_error + 'a \<times> 'b) \<times> Serializer" where
  "then_read f g s = (case f s of (Inl e, t) \<Rightarrow> (Inl e, t) | (Inr x, t) \<Rightarrow>
     (case g x t of (Inl e, u) \<Rightarrow> (Inl e, u) | (Inr y, u) \<Rightarrow> (Inr (x, y), u)))"

definition read_as ::
  "('a \<Rightarrow> 'b) \<Rightarrow> (Serializer \<Rightarrow> (ser_error + 'a) \<times> Serializer) \<Rightarrow> Serializer \<Rightarrow> (ser_error + 'b) \<times> Serializer" where
  "read_as f dec s = (case dec s of (Inl e, t) \<Rightarrow> (Inl e, t) | (Inr x, t) \<Rightarrow> (Inr (f x), t))"

lemma then_read_Inr:
  "then_read f g s = (Inr p, u) \<longleftrightarrow> (\<exists>t. f s = (Inr (fst p), t) \<and> g (fst p) t = (Inr (snd p), u))"
  by (cases p) (auto simp: then_read_def split: prod.splits sum.splits)

lemma read_as_Inr: "read_as f dec s = (Inr y, t) \<longleftrightarrow> (\<exists>x. dec s = (Inr x, t) \<and> y = f x)"
  by (auto simp: read_as_def split: prod.splits sum.splits)

lemma codec_then:
  assumes "codec enc1 dec1 ok1" and codec2: "\<And>x. ok1 x \<Longrightarrow> codec (enc2 x) (dec2 x) (ok2 x)"
  shows "codec (\<lambda>(x, y). enc1 x @ enc2 x y) (then_read dec1 dec2) (\<lambda>(x, y). ok1 x \<and> ok2 x y)"
proof (rule codec_of_iff)
  fix s :: Serializer and p :: "'a \<times> 'b" and u
  assume s: "ser_read_pos s \<le> length (ser_buffer s)"
  obtain x y where p: "p = (x, y)" by (cases p)
  let ?t = "s\<lparr>ser_read_pos := ser_read_pos s + length (enc1 x)\<rparr>"
  have next_drop: "drop (ser_read_pos s + length (enc1 x)) (ser_buffer s) =
      drop (length (enc1 x)) (drop (ser_read_pos s) (ser_buffer s))"
    by (simp add: add.commute)
  have split: "(\<exists>b. drop (ser_read_pos s) (ser_buffer s) = enc1 x @ b) \<and>
      (\<exists>b. drop (ser_read_pos ?t) (ser_buffer ?t) = enc2 x y @ b) \<longleftrightarrow>
      (\<exists>b. drop (ser_read_pos s) (ser_buffer s) = enc1 x @ enc2 x y @ b)"
    by (auto simp: next_drop simp del: drop_drop)
  have pos: "ser_read_pos ?t \<le> length (ser_buffer ?t)" if "drop (ser_read_pos s) (ser_buffer s) = enc1 x @ b" for b
    using arg_cong [OF that, of length] s by simp
  have second: "dec2 x ?t = (Inr y, u) \<longleftrightarrow> ok2 x y \<and> (\<exists>b. drop (ser_read_pos ?t) (ser_buffer ?t) = enc2 x y @ b) \<and>
      u = ?t\<lparr>ser_read_pos := ser_read_pos ?t + length (enc2 x y)\<rparr>"
    if "ok1 x" "drop (ser_read_pos s) (ser_buffer s) = enc1 x @ b" for b
    by (rule codec.dec_iff [OF codec2 [OF that(1)] pos [OF that(2)]])
  show "then_read dec1 dec2 s = (Inr p, u) \<longleftrightarrow> (case p of (x, y) \<Rightarrow> ok1 x \<and> ok2 x y) \<and>
      (\<exists>b. drop (ser_read_pos s) (ser_buffer s) = (case p of (x, y) \<Rightarrow> enc1 x @ enc2 x y) @ b) \<and>
      u = s\<lparr>ser_read_pos := ser_read_pos s + length (case p of (x, y) \<Rightarrow> enc1 x @ enc2 x y)\<rparr>"
    using split codec.dec_iff [OF assms(1) s, of x] second by (auto simp: then_read_Inr p add.assoc)
qed

lemma codec_as:
  assumes "codec enc dec ok"
    and "\<And>x. ok x \<Longrightarrow> ok' (f x) \<and> enc' (f x) = enc x"
    and "\<And>y. ok' y \<Longrightarrow> \<exists>x. ok x \<and> f x = y"
  shows "codec enc' (read_as f dec) ok'"
proof (rule codec_of_iff)
  fix s :: Serializer and y t
  assume s: "ser_read_pos s \<le> length (ser_buffer s)"
  show "read_as f dec s = (Inr y, t) \<longleftrightarrow> ok' y \<and> (\<exists>b. drop (ser_read_pos s) (ser_buffer s) = enc' y @ b) \<and>
      t = s\<lparr>ser_read_pos := ser_read_pos s + length (enc' y)\<rparr>"
    unfolding read_as_Inr codec.dec_iff [OF assms(1) s] using assms(2,3) by metis
qed

section \<open>The formats\<close>

lemma codec_word:
  assumes "8 dvd LENGTH('a::len)"
  shows "codec to_bytes (read_word :: Serializer \<Rightarrow> (ser_error + 'a word) \<times> Serializer) (\<lambda>_. True)"
proof (rule codec_of_iff)
  fix s :: Serializer and x :: "'a word" and t
  let ?rest = "drop (ser_read_pos s) (ser_buffer s)" and ?n = "LENGTH('a) div 8"
  assume "ser_read_pos s \<le> length (ser_buffer s)"
  then have fits: "ser_read_pos s + ?n \<le> length (ser_buffer s) \<longleftrightarrow> ?n \<le> length ?rest" by auto
  have "x = from_bytes (take ?n ?rest) \<longleftrightarrow> (\<exists>b. ?rest = to_bytes x @ b)" if "?n \<le> length ?rest"
  proof
    assume "x = from_bytes (take ?n ?rest)"
    with that have "take ?n ?rest = to_bytes x" by (simp add: to_from_bytes)
    then show "\<exists>b. ?rest = to_bytes x @ b" by (metis append_take_drop_id)
  qed (use assms in \<open>auto simp: from_to_bytes\<close>)
  moreover have "?n \<le> length ?rest" if "?rest = to_bytes x @ b" for b
    using arg_cong [OF that, of length] by simp
  ultimately show "read_word s = (Inr x, t) \<longleftrightarrow> True \<and> (\<exists>b. ?rest = to_bytes x @ b) \<and>
      t = s\<lparr>ser_read_pos := ser_read_pos s + length (to_bytes x)\<rparr>"
    using fits by (fastforce simp: read_word_def Let_def not_less)
qed

interpretation u8: codec to_bytes "read_word :: Serializer \<Rightarrow> (ser_error + 8 word) \<times> Serializer" "\<lambda>_. True"
  by (rule codec_word) simp

interpretation u16: codec to_bytes "read_word :: Serializer \<Rightarrow> (ser_error + 16 word) \<times> Serializer" "\<lambda>_. True"
  by (rule codec_word) simp

interpretation u32: codec to_bytes "read_word :: Serializer \<Rightarrow> (ser_error + 32 word) \<times> Serializer" "\<lambda>_. True"
  by (rule codec_word) simp

lemma codec_raw: "codec (\<lambda>x. x) (take_raw err n) (\<lambda>x. length x = n)"
proof (rule codec_of_iff)
  fix s :: Serializer and x t
  let ?rest = "drop (ser_read_pos s) (ser_buffer s)"
  assume "ser_read_pos s \<le> length (ser_buffer s)"
  then have fits: "ser_read_pos s + n \<le> length (ser_buffer s) \<longleftrightarrow> n \<le> length ?rest" by auto
  have "n \<le> length ?rest \<and> x = take n ?rest \<longleftrightarrow> length x = n \<and> (\<exists>b. ?rest = x @ b)"
    by (metis append_eq_conv_conj append_take_drop_id length_append length_take le_add1 min_absorb2)
  then show "take_raw err n s = (Inr x, t) \<longleftrightarrow> length x = n \<and> (\<exists>b. ?rest = x @ b) \<and>
      t = s\<lparr>ser_read_pos := ser_read_pos s + length x\<rparr>"
    using fits by (auto simp: take_raw_def not_less)
qed

lemma codec_items:
  assumes "codec enc dec ok"
  shows "codec (\<lambda>xs. concat (map enc xs)) (read_items dec n) (\<lambda>xs. length xs = n \<and> list_all ok xs)"
proof (induction n)
  case 0
  show ?case by (rule codec_of_iff) auto
next
  case (Suc n)
  have "read_items dec (Suc n) = read_as (\<lambda>(x, xs). x # xs) (then_read dec (\<lambda>_. read_items dec n))"
    by (rule ext) (simp add: read_as_def then_read_def split: prod.splits sum.splits)
  moreover have "codec (\<lambda>xs. concat (map enc xs))
      (read_as (\<lambda>(x, xs). x # xs) (then_read dec (\<lambda>_. read_items dec n)))
      (\<lambda>xs. length xs = Suc n \<and> list_all ok xs)"
    by (rule codec_as [OF codec_then [OF assms Suc]]) (auto simp: length_Suc_conv)
  ultimately show ?case by simp
qed

text \<open>Data behind its 32-bit length: strings, parameters, results and vectors have this form.\<close>

definition fits32 :: "'a list \<Rightarrow> bool" where
  "fits32 xs \<longleftrightarrow> length xs < 2 ^ 32"

definition counted :: "('a list \<Rightarrow> bytes) \<Rightarrow> 'a list \<Rightarrow> bytes" where
  "counted enc xs = to_bytes (of_nat (length xs) :: 32 word) @ enc xs"

lemma length_word: "length xs = unat n \<longleftrightarrow> fits32 xs \<and> n = (of_nat (length xs) :: 32 word)"
  using unsigned_less [of n, where ?'a = nat]
  by (auto simp: fits32_def unsigned_of_nat take_bit_nat_eq_self)

lemma unat_length [simp]: "fits32 xs \<Longrightarrow> unat (of_nat (length xs) :: 32 word) = length xs"
  by (simp add: fits32_def unsigned_of_nat take_bit_nat_eq_self)

lemma codec_counted:
  assumes "\<And>n. codec enc (dec n) (\<lambda>xs. length xs = n \<and> ok xs)"
  shows "codec (counted enc) (read_as snd (then_read read_word (\<lambda>n. dec (unat (n :: 32 word)))))
    (\<lambda>xs. fits32 xs \<and> ok xs)"
  by (rule codec_as [OF codec_then [OF u32.codec_axioms assms]]) (auto simp: length_word counted_def)

lemma readString_as: "readString = read_as snd (then_read read_word (\<lambda>n. take_raw String_Overrun (unat (n :: 32 word))))"
  by (rule ext) (simp add: readString_def read_as_def then_read_def split: prod.splits sum.splits)

interpretation str: codec "counted (\<lambda>x. x)" readString fits32
  unfolding readString_as using codec_counted [of "\<lambda>x. x" "take_raw String_Overrun" "\<lambda>_. True"]
  by (simp add: codec_raw)

lemma readVector_as: "readVector dec = read_as snd (then_read read_word (\<lambda>n. read_items dec (unat (n :: 32 word))))"
  by (rule ext) (simp add: readVector_def read_as_def then_read_def split: prod.splits sum.splits)

lemma codec_vector:
  assumes "codec enc dec ok"
  shows "codec (counted (\<lambda>xs. concat (map enc xs))) (readVector dec) (\<lambda>xs. fits32 xs \<and> list_all ok xs)"
  unfolding readVector_as by (rule codec_counted [OF codec_items [OF assms]])

interpretation strs: codec "counted (\<lambda>xs. concat (map (counted (\<lambda>x. x)) xs))" "readVector readString"
  "\<lambda>xs. fits32 xs \<and> list_all fits32 xs"
  by (rule codec_vector) (rule str.codec_axioms)

end
