(* ===== verification/Rpc_Messages.thy ===== *)
theory Rpc_Messages
  imports Rpc_Protocol
begin

text \<open>
  Correctness of the RPC message format (\<open>Rpc_Protocol\<close>): the writers of \<open>serializer.hpp\<close> and
  \<open>protocol.hpp\<close> append the encodings their readers accept, requests and responses are codecs, and
  \<open>Message::deserialize\<close> accepts exactly the byte strings that start with a serialised message.
\<close>

section \<open>Writers append encodings\<close>

lemma buffer_write_word [simp]: "ser_buffer (write_word w s) = ser_buffer s @ to_bytes w"
  by (simp add: write_word_def)

lemma buffer_writeRaw [simp]: "ser_buffer (writeRaw data s) = ser_buffer s @ data"
  by (simp add: writeRaw_def)

lemma buffer_write_string [simp]:
  assumes "fits32 x"
  shows "ser_buffer (write_string x s) = ser_buffer s @ counted (\<lambda>x. x) x"
proof -
  have "(0 < (of_nat (length x) :: 32 word)) \<longleftrightarrow> x \<noteq> []"
    using unat_length [OF assms] by (auto simp: word_less_nat_alt)
  then show ?thesis using assms by (auto simp: write_string_def Let_def counted_def)
qed

lemma read_pos_writers [simp]:
  "ser_read_pos (write_word w s) = ser_read_pos s" "ser_read_pos (writeRaw data s) = ser_read_pos s"
  "ser_read_pos (write_string x s) = ser_read_pos s"
  by (simp_all add: write_word_def writeRaw_def write_string_def Let_def)

lemma foldl_write_string:
  "list_all fits32 xs \<Longrightarrow> ser_buffer (foldl (\<lambda>s x. write_string x s) s xs) = ser_buffer s @ concat (map (counted (\<lambda>x. x)) xs)"
  by (induction xs arbitrary: s) auto

lemma foldl_write_string_pos: "ser_read_pos (foldl (\<lambda>s x. write_string x s) s xs) = ser_read_pos s"
  by (induction xs arbitrary: s) auto

lemma buffer_write_vector:
  "list_all fits32 xs \<Longrightarrow> ser_buffer (write_vector write_string xs s) =
     ser_buffer s @ counted (\<lambda>xs. concat (map (counted (\<lambda>x. x)) xs)) xs"
  by (simp add: write_vector_def foldl_write_string counted_def)

section \<open>Requests and responses\<close>

definition request_fits :: "RequestMessage \<Rightarrow> bool" where
  "request_fits r \<longleftrightarrow> fits32 (req_method_name r) \<and> fits32 (req_params_data r)"

definition request_bytes :: "RequestMessage \<Rightarrow> bytes" where
  "request_bytes r = ser_buffer (request_serialize r Serializer_new)"

definition response_fits :: "ResponseMessage \<Rightarrow> bool" where
  "response_fits r \<longleftrightarrow> fits32 (res_error_message r) \<and> fits32 (res_result_data r)"

definition response_bytes :: "ResponseMessage \<Rightarrow> bytes" where
  "response_bytes r = ser_buffer (response_serialize r Serializer_new)"

lemma codec_data:
  "codec (counted (\<lambda>x. x)) (read_as snd (then_read read_word (\<lambda>n. readRaw (unat (n :: 32 word))))) fits32"
  using codec_counted [of "\<lambda>x. x" readRaw "\<lambda>_. True"] by (simp add: codec_raw readRaw_def [abs_def])

lemma request_deserialize_as:
  "request_deserialize = read_as (\<lambda>(name, params). \<lparr>req_method_name = name, req_params_data = params\<rparr>)
     (then_read readString (\<lambda>_. read_as snd (then_read read_word (\<lambda>n. readRaw (unat (n :: 32 word))))))"
  by (rule ext) (simp add: request_deserialize_def read_as_def then_read_def split: prod.splits sum.splits)

lemma request_bytes_eq:
  "request_fits r \<Longrightarrow> request_bytes r = counted (\<lambda>x. x) (req_method_name r) @ counted (\<lambda>x. x) (req_params_data r)"
  by (simp add: request_bytes_def request_serialize_def request_fits_def Serializer_new_def counted_def)

interpretation req: codec request_bytes request_deserialize request_fits
  unfolding request_deserialize_as
proof (rule codec_as [OF codec_then [OF str.codec_axioms codec_data]])
  fix r
  assume "request_fits r"
  then show "\<exists>p. (case p of (x, y) \<Rightarrow> fits32 x \<and> fits32 y) \<and>
      (case p of (name, params) \<Rightarrow> \<lparr>req_method_name = name, req_params_data = params\<rparr>) = r"
    by (intro exI [of _ "(req_method_name r, req_params_data r)"]) (simp add: request_fits_def)
qed (auto simp: request_bytes_eq request_fits_def)

lemma response_deserialize_as:
  "response_deserialize =
     read_as (\<lambda>(st, d, err). \<lparr>res_status = st, res_result_data = d, res_error_message = err\<rparr>)
       (then_read read_word (\<lambda>_. then_read (read_as snd (then_read read_word (\<lambda>n. readRaw (unat (n :: 32 word)))))
          (\<lambda>_. readString)))"
  by (rule ext) (simp add: response_deserialize_def read_as_def then_read_def split: prod.splits sum.splits)

lemma response_bytes_eq:
  "response_fits r \<Longrightarrow> response_bytes r =
     to_bytes (res_status r) @ counted (\<lambda>x. x) (res_result_data r) @ counted (\<lambda>x. x) (res_error_message r)"
  by (simp add: response_bytes_def response_serialize_def response_fits_def Serializer_new_def counted_def)

interpretation res: codec response_bytes response_deserialize response_fits
  unfolding response_deserialize_as
proof (rule codec_as [OF codec_then [OF u16.codec_axioms codec_then [OF codec_data str.codec_axioms]]])
  fix r
  assume "response_fits r"
  then show "\<exists>p. (case p of (x, y) \<Rightarrow> True \<and> (case y of (x, y) \<Rightarrow> fits32 x \<and> fits32 y)) \<and>
      (case p of (st, d, err) \<Rightarrow> \<lparr>res_status = st, res_result_data = d, res_error_message = err\<rparr>) = r"
    by (intro exI [of _ "(res_status r, res_result_data r, res_error_message r)"]) (simp add: response_fits_def)
qed (auto simp: response_bytes_eq response_fits_def)

section \<open>Messages\<close>

definition header_bytes :: "MessageHeader \<Rightarrow> bytes" where
  "header_bytes h = to_bytes (hdr_magic h) @ to_bytes (hdr_version h) @ to_bytes (hdr_type h) @
     to_bytes (hdr_request_id h) @ to_bytes (hdr_body_size h)"

definition well_framed :: "Message \<Rightarrow> bool" where
  "well_framed m \<longleftrightarrow> hdr_magic (msg_header m) = 0x52504343 \<and> unat (hdr_body_size (msg_header m)) = length (msg_body m)"

lemma length_header_bytes [simp]: "length (header_bytes h) = getHeaderSize"
  by (simp add: header_bytes_def getHeaderSize_def)

lemma Message_serialize_eq: "Message_serialize m = header_bytes (msg_header m) @ msg_body m"
  by (simp add: Message_serialize_def header_serialize_def header_bytes_def Serializer_new_def)

lemma header_bytes_onto:
  assumes "length bs = getHeaderSize"
  shows "\<exists>h. bs = header_bytes h"
proof -
  let ?part = "\<lambda>i n. take n (drop i bs)"
  let ?h = "\<lparr>hdr_magic = from_bytes (?part 0 4), hdr_version = from_bytes (?part 4 1), hdr_type = from_bytes (?part 5 1),
    hdr_request_id = from_bytes (?part 6 4), hdr_body_size = from_bytes (?part 10 4)\<rparr>"
  have len: "length bs = 14" using assms by (simp add: getHeaderSize_def)
  have "bs = take (4 + (1 + (1 + (4 + 4)))) bs" using len by simp
  also have "\<dots> = ?part 0 4 @ ?part 4 1 @ ?part 5 1 @ ?part 6 4 @ ?part 10 4"
    by (simp only: take_add drop_drop) simp
  also have "\<dots> = header_bytes ?h" using len by (simp add: header_bytes_def to_from_bytes)
  finally show ?thesis by blast
qed

lemma header_deserialize_bytes:
  "header_deserialize (Serializer_from (header_bytes h)) =
     (if hdr_magic h = 0x52504343 then (Inr (Some h), \<lparr>ser_buffer = header_bytes h, ser_read_pos = getHeaderSize\<rparr>)
      else (Inr None, \<lparr>ser_buffer = header_bytes h, ser_read_pos = 4\<rparr>))"
proof -
  let ?s = "\<lambda>p. \<lparr>ser_buffer = header_bytes h, ser_read_pos = p\<rparr>"
  have "read_word (?s 0) = (Inr (hdr_magic h), ?s 4)"
    using u32.dec_at [of "?s 0" "hdr_magic h"] by (simp add: header_bytes_def)
  moreover have "read_word (?s 4) = (Inr (hdr_version h), ?s 5)"
    using u8.dec_at [of "?s 4" "hdr_version h"] by (simp add: header_bytes_def)
  moreover have "read_word (?s 5) = (Inr (hdr_type h), ?s 6)"
    using u8.dec_at [of "?s 5" "hdr_type h"] by (simp add: header_bytes_def)
  moreover have "read_word (?s 6) = (Inr (hdr_request_id h), ?s 10)"
    using u32.dec_at [of "?s 6" "hdr_request_id h"] by (simp add: header_bytes_def)
  moreover have "read_word (?s 10) = (Inr (hdr_body_size h), ?s 14)"
    using u32.dec_at [of "?s 10" "hdr_body_size h"] by (simp add: header_bytes_def)
  ultimately show ?thesis
    by (simp add: header_deserialize_def remainingBytes_def Serializer_from_def) (simp add: getHeaderSize_def)
qed

lemma header_bytes_inj:
  assumes "header_bytes g = header_bytes h" "hdr_magic h = 0x52504343"
  shows "g = h"
  using header_deserialize_bytes [of g] header_deserialize_bytes [of h] unfolding assms
  by (auto split: if_splits)

lemma deserialize_framed:
  assumes "data = header_bytes h @ rest"
  shows "Message_deserialize data =
    (if hdr_magic h = 0x52504343 \<and> unat (hdr_body_size h) \<le> length rest
     then Inr (Some \<lparr>msg_header = h, msg_body = take (unat (hdr_body_size h)) rest\<rparr>) else Inr None)"
proof -
  have "take getHeaderSize data = header_bytes h" "drop getHeaderSize data = rest"
    "length data = getHeaderSize + length rest"
    using assms by simp_all
  then show ?thesis by (simp add: Message_deserialize_def header_deserialize_bytes not_less)
qed

lemma Message_deserialize_cases:
  obtains "length data < getHeaderSize" "Message_deserialize data = Inr None"
  | h rest where "data = header_bytes h @ rest"
proof (cases "length data < getHeaderSize")
  case True
  then show thesis using that(1) by (simp add: Message_deserialize_def)
next
  case False
  then obtain h where "take getHeaderSize data = header_bytes h"
    using header_bytes_onto [of "take getHeaderSize data"] by auto
  then show thesis using that(2) [of h "drop getHeaderSize data"] by (metis append_take_drop_id)
qed

lemma deserialize_Some_iff:
  "Message_deserialize data = Inr (Some m) \<longleftrightarrow> well_framed m \<and> (\<exists>rest. data = Message_serialize m @ rest)"
proof
  assume some: "Message_deserialize data = Inr (Some m)"
  then obtain h rest where "data = header_bytes h @ rest" by (cases rule: Message_deserialize_cases [of data]) auto
  with some show "well_framed m \<and> (\<exists>rest. data = Message_serialize m @ rest)"
    by (auto simp: deserialize_framed [of _ h rest] well_framed_def Message_serialize_eq min_absorb2 split: if_splits
        intro!: exI [of _ "drop (unat (hdr_body_size h)) rest"])
next
  assume "well_framed m \<and> (\<exists>rest. data = Message_serialize m @ rest)"
  then obtain rest where "well_framed m" "data = header_bytes (msg_header m) @ msg_body m @ rest"
    by (auto simp: Message_serialize_eq)
  then show "Message_deserialize data = Inr (Some m)"
    by (simp add: deserialize_framed [of _ "msg_header m" "msg_body m @ rest"] well_framed_def)
qed

lemma deserialize_never_throws: "Message_deserialize data \<noteq> Inl e"
  by (cases rule: Message_deserialize_cases [of data]) (auto simp: deserialize_framed split: if_splits)

lemma new_message_framed: "fits32 body \<Longrightarrow> well_framed (new_message ty request_id body)"
  by (simp add: well_framed_def new_message_def)

section \<open>Properties\<close>

text \<open>
  C11. \<open>Message::deserialize\<close> accepts exactly the byte strings that begin with a serialised message:
  it never throws, and it returns a message precisely when the message has the magic number, its
  header states the length of its body, and the input starts with the bytes \<open>serialize\<close> gives for it
  (whatever follows them is ignored).
\<close>

theorem message_deserialize_exact:
  "(\<forall>e. Message_deserialize data \<noteq> Inl e) \<and>
   (Message_deserialize data = Inr (Some m) \<longleftrightarrow> well_framed m \<and> (\<exists>rest. data = Message_serialize m @ rest))"
  by (simp add: deserialize_never_throws deserialize_Some_iff)

text \<open>
  C24. A request survives the wire: the message built from it, serialised and followed by any further
  bytes, is read back with its type and request id, and its body gives back the request with every
  byte consumed, as long as the body is below 4 GiB.
\<close>

theorem request_end_to_end:
  assumes "8 + length (req_method_name r) + length (req_params_data r) < 2 ^ 32"
  shows "\<exists>m. Message_deserialize (Message_serialize (Message_request request_id r) @ rest) = Inr (Some m) \<and>
    hdr_type (msg_header m) = REQUEST \<and> hdr_request_id (msg_header m) = request_id \<and>
    request_deserialize (Serializer_from (msg_body m)) =
      (Inr r, \<lparr>ser_buffer = msg_body m, ser_read_pos = length (msg_body m)\<rparr>)"
proof -
  let ?m = "Message_request request_id r"
  have fits: "request_fits r" using assms by (simp add: request_fits_def fits32_def)
  have m: "?m = new_message REQUEST request_id (request_bytes r)"
    by (simp add: Message_request_def request_bytes_def)
  have "fits32 (request_bytes r)" using assms by (simp add: request_bytes_eq [OF fits] counted_def fits32_def)
  then have "Message_deserialize (Message_serialize ?m @ rest) = Inr (Some ?m)"
    by (auto simp: deserialize_Some_iff m new_message_framed)
  moreover have "request_deserialize (Serializer_from (request_bytes r)) =
      (Inr r, \<lparr>ser_buffer = request_bytes r, ser_read_pos = length (request_bytes r)\<rparr>)"
    using req.dec_enc [OF fits, of "[]" "[]"] by (simp add: Serializer_from_def)
  ultimately show ?thesis by (intro exI [of _ ?m]) (simp add: m new_message_def)
qed

theorem request_end_to_end_witness:
  "\<exists>m. Message_deserialize (Message_serialize (Message_request 7
      \<lparr>req_method_name = [0x61, 0x64, 0x64], req_params_data = [1, 0, 0, 0]\<rparr>) @ [0xFF]) = Inr (Some m) \<and>
    hdr_type (msg_header m) = REQUEST \<and> hdr_request_id (msg_header m) = 7 \<and>
    request_deserialize (Serializer_from (msg_body m)) =
      (Inr \<lparr>req_method_name = [0x61, 0x64, 0x64], req_params_data = [1, 0, 0, 0]\<rparr>,
       \<lparr>ser_buffer = msg_body m, ser_read_pos = length (msg_body m)\<rparr>)"
  by (rule request_end_to_end) simp

text \<open>
  A response survives the wire in the same way, its status code, result and error message
  included.
\<close>

theorem response_end_to_end:
  assumes "10 + length (res_result_data r) + length (res_error_message r) < 2 ^ 32"
  shows "\<exists>m. Message_deserialize (Message_serialize (Message_response request_id r) @ rest) = Inr (Some m) \<and>
    hdr_type (msg_header m) = RESPONSE \<and> hdr_request_id (msg_header m) = request_id \<and>
    response_deserialize (Serializer_from (msg_body m)) =
      (Inr r, \<lparr>ser_buffer = msg_body m, ser_read_pos = length (msg_body m)\<rparr>)"
proof -
  let ?m = "Message_response request_id r"
  have fits: "response_fits r" using assms by (simp add: response_fits_def fits32_def)
  have m: "?m = new_message RESPONSE request_id (response_bytes r)"
    by (simp add: Message_response_def response_bytes_def)
  have "fits32 (response_bytes r)" using assms by (simp add: response_bytes_eq [OF fits] counted_def fits32_def)
  then have "Message_deserialize (Message_serialize ?m @ rest) = Inr (Some ?m)"
    by (auto simp: deserialize_Some_iff m new_message_framed)
  moreover have "response_deserialize (Serializer_from (response_bytes r)) =
      (Inr r, \<lparr>ser_buffer = response_bytes r, ser_read_pos = length (response_bytes r)\<rparr>)"
    using res.dec_enc [OF fits, of "[]" "[]"] by (simp add: Serializer_from_def)
  ultimately show ?thesis by (intro exI [of _ ?m]) (simp add: m new_message_def)
qed

theorem response_end_to_end_witness:
  "\<exists>m. Message_deserialize (Message_serialize (Message_response 7
      \<lparr>res_status = 1, res_result_data = [], res_error_message = [0x3F]\<rparr>) @ []) = Inr (Some m) \<and>
    hdr_type (msg_header m) = RESPONSE \<and> hdr_request_id (msg_header m) = 7 \<and>
    response_deserialize (Serializer_from (msg_body m)) =
      (Inr \<lparr>res_status = 1, res_result_data = [], res_error_message = [0x3F]\<rparr>,
       \<lparr>ser_buffer = msg_body m, ser_read_pos = length (msg_body m)\<rparr>)"
  by (rule response_end_to_end) simp

text \<open>
  A message cut short is rejected: no proper prefix of the bytes of a message whose header
  states the length of its body is accepted.
\<close>

theorem truncated_message_rejected:
  assumes "well_framed m" "k < length (Message_serialize m)"
  shows "Message_deserialize (take k (Message_serialize m)) = Inr None"
proof (rule ccontr)
  assume "Message_deserialize (take k (Message_serialize m)) \<noteq> Inr None"
  then obtain n where n: "Message_deserialize (take k (Message_serialize m)) = Inr (Some n)"
    using deserialize_never_throws by (metis not_Some_eq sum.exhaust)
  then obtain rest where framed: "well_framed n" and bytes: "take k (Message_serialize m) = Message_serialize n @ rest"
    by (auto simp: deserialize_Some_iff)
  then have "Message_serialize m = Message_serialize n @ rest @ drop k (Message_serialize m)"
    by (metis append.assoc append_take_drop_id)
  then have "header_bytes (msg_header n) = header_bytes (msg_header m)"
    by (simp add: Message_serialize_eq)
  then have "msg_header n = msg_header m"
    using assms(1) by (auto intro: header_bytes_inj simp: well_framed_def)
  then have "length (Message_serialize n) = length (Message_serialize m)"
    using assms(1) framed by (simp add: Message_serialize_eq well_framed_def)
  with arg_cong [OF bytes, of length] assms(2) show False by simp
qed

theorem truncated_message_rejected_witness:
  "Message_deserialize (take 15 (Message_serialize (new_message REQUEST 3 [1, 2]))) = Inr None"
  by (rule truncated_message_rejected)
    (simp_all add: new_message_framed fits32_def Message_serialize_eq getHeaderSize_def, simp add: new_message_def)

text \<open>
  A vector of strings written behind the data of any serializer is read back: \<open>readVector\<close>
  returns the strings and stops at the end of what was written, as long as the counts fit in 32 bits.
\<close>

theorem string_vector_roundtrip:
  assumes "fits32 xs" "list_all fits32 xs" "ser_read_pos s = length (ser_buffer s)"
    and "t = write_vector write_string xs s"
  shows "readVector readString t = (Inr xs, t\<lparr>ser_read_pos := length (ser_buffer t)\<rparr>)"
proof -
  have "t = \<lparr>ser_buffer = ser_buffer s @ counted (\<lambda>xs. concat (map (counted (\<lambda>x. x)) xs)) xs @ [],
      ser_read_pos = length (ser_buffer s)\<rparr>"
    using assms buffer_write_vector [OF assms(2), of s]
    by (cases t) (simp add: write_vector_def foldl_write_string_pos)
  then show ?thesis using strs.dec_enc [of xs "ser_buffer s" "[]"] assms(1,2) by simp
qed

theorem string_vector_roundtrip_witness:
  "readVector readString (write_vector write_string [[1, 2], [], [3]] Serializer_new) =
     (Inr [[1, 2], [], [3]], (write_vector write_string [[1, 2], [], [3]] Serializer_new)
        \<lparr>ser_read_pos := length (ser_buffer (write_vector write_string [[1, 2], [], [3]] Serializer_new))\<rparr>)"
  by (rule string_vector_roundtrip) (simp_all add: fits32_def Serializer_new_def)

end
