(* ===== verification/Base64.thy ===== *)
theory Base64
  imports CppString
begin

unbundle bit_operations_syntax

text \<open>
  Base64 of the WebSocket server (\<open>websocket/websocket/base64.cpp\<close>).

  Both routines fill a small array and flush it when it is full; the loops are recursions over the
  input whose argument \<open>buf\<close> is the filled part of \<open>char_array_3\<close> (\<open>char_array_4\<close>). The reference
  definition works on groups of 24 bits as numbers. The bytes of the decoder's result are the
  characters of the C++ string it returns.
\<close>

section \<open>Model\<close>

definition base64_chars :: string where
  "base64_chars = ''ABCDEFGHIJKLMNOPQRSTUVWXYZabcdefghijklmnopqrstuvwxyz0123456789+/''"

definition isalnum :: "char \<Rightarrow> bool" where
  "isalnum c = (let n = (of_char c :: nat) in
     (48 \<le> n \<and> n \<le> 57) \<or> (65 \<le> n \<and> n \<le> 90) \<or> (97 \<le> n \<and> n \<le> 122))"

definition is_base64 :: "char \<Rightarrow> bool" where
  "is_base64 c \<longleftrightarrow> isalnum c \<or> c = CHR ''+'' \<or> c = CHR ''/''"

definition char_array_4_of :: "bytes \<Rightarrow> bytes" where
  "char_array_4_of a =
     [drop_bit 2 (a ! 0 AND 0xfc),
      push_bit 4 (a ! 0 AND 0x03) + drop_bit 4 (a ! 1 AND 0xf0),
      push_bit 2 (a ! 1 AND 0x0f) + drop_bit 6 (a ! 2 AND 0xc0),
      a ! 2 AND 0x3f]"

definition base64_char :: "8 word \<Rightarrow> char" where
  "base64_char v = base64_chars ! unat v"

fun encode_bytes :: "bytes \<Rightarrow> bytes \<Rightarrow> string" where
  "encode_bytes buf (b # bs) =
     (let buf' = buf @ [b]
      in if length buf' = 3 then map base64_char (char_array_4_of buf') @ encode_bytes [] bs
         else encode_bytes buf' bs)"
| "encode_bytes buf [] =
     (if length buf \<noteq> 0
      then map base64_char (take (length buf + 1) (char_array_4_of (buf @ replicate (3 - length buf) 0)))
             @ replicate (3 - length buf) (CHR ''='')
      else [])"

definition base64_encode :: "bytes \<Rightarrow> string" where
  "base64_encode bytes_to_encode = encode_bytes [] bytes_to_encode"

text \<open>\<open>std::string::find\<close>, stored in an \<open>unsigned char\<close>: \<open>npos\<close> becomes 255.\<close>

definition base64_find :: "char \<Rightarrow> 8 word" where
  "base64_find c = (case find_char c base64_chars of Some i \<Rightarrow> of_nat i | None \<Rightarrow> 255)"

definition char_array_3_of :: "bytes \<Rightarrow> bytes" where
  "char_array_3_of a =
     [push_bit 2 (a ! 0) + drop_bit 4 (a ! 1 AND 0x30),
      push_bit 4 (a ! 1 AND 0xf) + drop_bit 2 (a ! 2 AND 0x3c),
      push_bit 6 (a ! 2 AND 0x3) + a ! 3]"

definition decode_tail :: "string \<Rightarrow> bytes" where
  "decode_tail buf =
     (if length buf \<noteq> 0
      then take (length buf - 1)
             (char_array_3_of (map base64_find (buf @ replicate (4 - length buf) (CHR 0x00))))
      else [])"

fun decode_chars :: "string \<Rightarrow> string \<Rightarrow> bytes" where
  "decode_chars buf (c # cs) =
     (if c \<noteq> CHR ''='' \<and> is_base64 c
      then let buf' = buf @ [c]
           in if length buf' = 4 then char_array_3_of (map base64_find buf') @ decode_chars [] cs
              else decode_chars buf' cs
      else decode_tail buf)"
| "decode_chars buf [] = decode_tail buf"

definition base64_decode :: "string \<Rightarrow> bytes" where
  "base64_decode encoded_string = decode_chars [] encoded_string"

section \<open>Reference definition\<close>

text \<open>RFC 4648, section 4: groups of 24 bits as four digits of base 64, a short last group padded.\<close>

definition base64_digit :: "nat \<Rightarrow> char" where
  "base64_digit n = base64_chars ! (n mod 64)"

fun base64_spec :: "nat list \<Rightarrow> string" where
  "base64_spec (a # b # c # r) =
     (let n = a * 65536 + b * 256 + c
      in map (\<lambda>d. base64_digit (n div d)) [262144, 4096, 64, 1] @ base64_spec r)"
| "base64_spec [a, b] =
     (let n = a * 65536 + b * 256 in map (\<lambda>d. base64_digit (n div d)) [262144, 4096, 64] @ ''='')"
| "base64_spec [a] =
     (let n = a * 65536 in map (\<lambda>d. base64_digit (n div d)) [262144, 4096] @ ''=='')"
| "base64_spec [] = []"

section \<open>Bytes and sextets\<close>

lemma unat_and_mask: "unat (a AND mask n :: 8 word) = unat a mod 2 ^ n"
proof -
  have "unat (take_bit n a) = unat a mod 2 ^ n"
    by (simp add: unsigned_take_bit_eq take_bit_nat_def)
  then show ?thesis by (simp only: take_bit_eq_mask)
qed

lemma unat_byte: "unat (a :: 8 word) < 256"
  using unsigned_less [of a, where ?'a = nat] by simp

lemma unat_drop_and_mask: "unat (drop_bit k a AND mask n :: 8 word) = unat a div 2 ^ k mod 2 ^ n"
  by (simp add: unat_and_mask unat_drop_bit_eq drop_bit_nat_def)

lemma low_bits [simp]:
  "unat (a AND 0x03 :: 8 word) = unat a mod 4" "unat (a AND 0x0f :: 8 word) = unat a mod 16"
  "unat (a AND 0x3f :: 8 word) = unat a mod 64"
  using unat_and_mask [of a 2] unat_and_mask [of a 4] unat_and_mask [of a 6] by (simp_all add: mask_numeral)

lemma high_bits [simp]:
  "unat (drop_bit 2 (a AND 0xfc) :: 8 word) = unat a div 4"
  "unat (drop_bit 4 (a AND 0xf0) :: 8 word) = unat a div 16"
  "unat (drop_bit 6 (a AND 0xc0) :: 8 word) = unat a div 64"
  "unat (drop_bit 4 (a AND 0x30) :: 8 word) = unat a div 16 mod 4"
  "unat (drop_bit 2 (a AND 0x3c) :: 8 word) = unat a div 4 mod 16"
proof -
  have d: "unat a div 4 mod 64 = unat a div 4" "unat a div 16 mod 16 = unat a div 16" "unat a div 64 mod 4 = unat a div 64"
    using unat_byte [of a] by simp_all
  show "unat (drop_bit 2 (a AND 0xfc) :: 8 word) = unat a div 4"
    using unat_drop_and_mask [of 2 a 6] d(1) by (simp add: mask_numeral drop_bit_and)
  show "unat (drop_bit 4 (a AND 0xf0) :: 8 word) = unat a div 16"
    using unat_drop_and_mask [of 4 a 4] d(2) by (simp add: mask_numeral drop_bit_and)
  show "unat (drop_bit 6 (a AND 0xc0) :: 8 word) = unat a div 64"
    using unat_drop_and_mask [of 6 a 2] d(3) by (simp add: mask_numeral drop_bit_and)
  show "unat (drop_bit 4 (a AND 0x30) :: 8 word) = unat a div 16 mod 4"
    using unat_drop_and_mask [of 4 a 2] by (simp add: mask_numeral drop_bit_and)
  show "unat (drop_bit 2 (a AND 0x3c) :: 8 word) = unat a div 4 mod 16"
    using unat_drop_and_mask [of 2 a 4] by (simp add: mask_numeral drop_bit_and)
qed

lemma unat_push: "unat (a :: 8 word) * 2 ^ k < 256 \<Longrightarrow> unat (push_bit k a) = unat a * 2 ^ k"
  by (simp add: unsigned_push_bit_eq push_bit_nat_def take_bit_nat_eq_self)

lemma unat_add_small: "unat (a :: 8 word) + unat b < 256 \<Longrightarrow> unat (a + b) = unat a + unat b"
  by (simp add: unat_plus_if_size word_size)

lemma unat_join:
  assumes "unat x * 2 ^ k + unat y < 256"
  shows "unat (push_bit k x + y :: 8 word) = unat x * 2 ^ k + unat y"
  using assms unat_push [of x k] unat_add_small [of "push_bit k x" y] by simp

lemma nth_small: "(a # r) ! 0 = a" "(a # b # r) ! 1 = b" "(a # b # c # r) ! 2 = c" "(a # b # c # d # r) ! 3 = d"
  by simp_all

lemma map_unat_inj: "map (unat :: 8 word \<Rightarrow> nat) xs = map unat ys \<longleftrightarrow> xs = ys"
  by (rule inj_map_eq_map) (auto intro: injI unsigned_word_eqI)

lemma sextets:
  "map unat (char_array_4_of [a, b, c]) =
     [unat a div 4, unat a mod 4 * 16 + unat b div 16, unat b mod 16 * 4 + unat c div 64, unat c mod 64]"
proof -
  have d: "unat b div 16 < 16" "unat c div 64 < 4" "unat a mod 4 < 4" "unat b mod 16 < 16"
    using unat_byte [of b] unat_byte [of c] by simp_all
  have 1: "unat (push_bit 4 (a AND 0x03) + drop_bit 4 (b AND 0xf0)) = unat a mod 4 * 16 + unat b div 16"
    using unat_join [of "a AND 0x03" 4 "drop_bit 4 (b AND 0xf0)"] d unfolding low_bits high_bits by simp
  have 2: "unat (push_bit 2 (b AND 0x0f) + drop_bit 6 (c AND 0xc0)) = unat b mod 16 * 4 + unat c div 64"
    using unat_join [of "b AND 0x0f" 2 "drop_bit 6 (c AND 0xc0)"] d unfolding low_bits high_bits by simp
  show ?thesis
    by (simp only: char_array_4_of_def list.map nth_small 1 2 low_bits high_bits)
qed

lemma octets:
  assumes "unat x < 64" "unat y < 64" "unat z < 64" "unat w < 64"
  shows "map unat (char_array_3_of [x, y, z, w]) =
    [unat x * 4 + unat y div 16, unat y mod 16 * 16 + unat z div 4, unat z mod 4 * 64 + unat w]"
proof -
  have d: "unat y div 16 < 4" "unat z div 4 < 16" "unat y mod 16 < 16" "unat z mod 4 < 4"
    using assms by simp_all
  have 1: "unat (push_bit 2 x + drop_bit 4 (y AND 0x30)) = unat x * 4 + unat y div 16"
    using unat_join [of x 2 "drop_bit 4 (y AND 0x30)"] d assms unfolding low_bits high_bits by simp
  have 2: "unat (push_bit 4 (y AND 0xf) + drop_bit 2 (z AND 0x3c)) = unat y mod 16 * 16 + unat z div 4"
    using unat_join [of "y AND 0xf" 4 "drop_bit 2 (z AND 0x3c)"] d assms unfolding low_bits high_bits by simp
  have 3: "unat (push_bit 6 (z AND 0x3) + w) = unat z mod 4 * 64 + unat w"
    using unat_join [of "z AND 0x3" 6 w] d assms unfolding low_bits high_bits by simp
  show ?thesis
    by (simp only: char_array_3_of_def list.map nth_small 1 2 3)
qed

lemma octets_of_sextets: "char_array_3_of (char_array_4_of [a, b, c]) = [a, b, c]"
proof -
  obtain x y z w where v: "char_array_4_of [a, b, c] = [x, y, z, w]" by (simp add: char_array_4_of_def)
  have u: "unat x = unat a div 4" "unat y = unat a mod 4 * 16 + unat b div 16"
    "unat z = unat b mod 16 * 4 + unat c div 64" "unat w = unat c mod 64"
    using sextets [of a b c] by (simp_all add: v)
  have d: "unat a div 4 < 64" "unat b div 16 < 16" "unat c div 64 < 4" "unat a mod 4 < 4" "unat b mod 16 < 16"
    using unat_byte [of a] unat_byte [of b] unat_byte [of c] by simp_all
  have lt: "unat x < 64" "unat y < 64" "unat z < 64" "unat w < 64"
    using d unfolding u by simp_all
  have "map unat (char_array_3_of [x, y, z, w]) = map unat [a, b, c]"
    using d unfolding octets [OF lt] u by simp
  then show ?thesis unfolding map_unat_inj v .
qed

lemma regroup:
  "(4 * p + q) * 65536 + (16 * r + s) * 256 + (64 * t + u) =
     ((p * 64 + (q * 16 + r)) * 64 + (s * 4 + t)) * 64 + (u :: nat)"
  by (simp add: algebra_simps)

lemma digit64: "v < 64 \<Longrightarrow> (u * 64 + v) div 64 = u" "v < 64 \<Longrightarrow> (u * 64 + v) mod 64 = (v :: nat)"
  by simp_all

lemma group_digits:
  assumes "a < 256" "b < 256" "c < (256::nat)"
  defines "n \<equiv> a * 65536 + b * 256 + c"
  shows "n div 262144 mod 64 = a div 4" "n div 4096 mod 64 = a mod 4 * 16 + b div 16"
    "n div 64 mod 64 = b mod 16 * 4 + c div 64" "n mod 64 = c mod 64"
proof -
  let ?s1 = "a mod 4 * 16 + b div 16" and ?s2 = "b mod 16 * 4 + c div 64"
  have d: "b div 16 < 16" "c div 64 < 4" "a mod 4 < 4" "b mod 16 < 16" "a div 4 < 64" using assms by simp_all
  have lt: "?s1 < 64" "?s2 < 64" using d by simp_all
  have n: "n = ((a div 4 * 64 + ?s1) * 64 + ?s2) * 64 + c mod 64" 
    using regroup [of "a div 4" "a mod 4" "b div 16" "b mod 16" "c div 64" "c mod 64"] by (simp add: n_def)
  have 1: "n div 64 = (a div 4 * 64 + ?s1) * 64 + ?s2" "n mod 64 = c mod 64"
    unfolding n by (rule digit64, simp)+
  have 2: "n div 64 div 64 = a div 4 * 64 + ?s1" "n div 64 mod 64 = ?s2" 
    unfolding 1 by (rule digit64, rule lt)+
  have 3: "n div 64 div 64 div 64 = a div 4" "n div 64 div 64 mod 64 = ?s1" 
    unfolding 2 by (rule digit64, rule lt)+
  have 4: "n div 4096 = n div 64 div 64" "n div 262144 = n div 64 div 64 div 64"
    using div_mult2_eq [of n 64 64] div_mult2_eq [of n 4096 64] by simp_all
  show "n div 262144 mod 64 = a div 4" unfolding 4 3 using d(5) by (rule mod_less)
  show "n div 4096 mod 64 = ?s1" unfolding 4 by (rule 3)
  show "n div 64 mod 64 = ?s2" by (rule 2)
  show "n mod 64 = c mod 64" by (rule 1)
qed

section \<open>The alphabet\<close>

lemma alphabet_checked:
  "list_all (\<lambda>n. base64_find (base64_chars ! n) = of_nat n \<and> base64_chars ! n \<noteq> CHR ''='' \<and> is_base64 (base64_chars ! n))
     [0..<64]"
  by code_simp

lemma alphabet:
  assumes "unat v < 64"
  shows "base64_find (base64_char v) = v" "base64_char v \<noteq> CHR ''=''" "is_base64 (base64_char v)"
proof -
  have "unat v \<in> set [0..<64]" using assms by simp
  then have "base64_find (base64_chars ! unat v) = of_nat (unat v)" "base64_chars ! unat v \<noteq> CHR ''=''"
    "is_base64 (base64_chars ! unat v)"
    using alphabet_checked unfolding list_all_iff by blast+
  then show "base64_find (base64_char v) = v" "base64_char v \<noteq> CHR ''=''" "is_base64 (base64_char v)"
    by (simp_all add: base64_char_def)
qed

lemma sextet_bound: "v \<in> set (char_array_4_of [a, b, c]) \<Longrightarrow> unat v < 64"
proof -
  have "unat a div 4 < 64" "unat b div 16 < 16" "unat c div 64 < 4" "unat a mod 4 < 4" "unat b mod 16 < 16"
    using unat_byte [of a] unat_byte [of b] unat_byte [of c] by simp_all
  then have "unat a div 4 < 64" "unat a mod 4 * 16 + unat b div 16 < 64" "unat b mod 16 * 4 + unat c div 64 < 64"
    "unat c mod 64 < 64"
    by linarith+
  then have "\<forall>n \<in> set (map unat (char_array_4_of [a, b, c])). n < 64" unfolding sextets by simp
  then show "v \<in> set (char_array_4_of [a, b, c]) \<Longrightarrow> unat v < 64" by simp
qed

lemma find_chars: "list_all (\<lambda>v. unat v < 64) vs \<Longrightarrow> map base64_find (map base64_char vs) = vs"
  by (induction vs) (auto simp: alphabet)

section \<open>Groups\<close>

lemma decode_block:
  assumes "list_all (\<lambda>v. unat v < 64) [x, y, z, w]"
  shows "decode_chars [] (map base64_char [x, y, z, w] @ cs) = char_array_3_of [x, y, z, w] @ decode_chars [] cs"
  using assms by (simp add: alphabet)

lemma decode_pad_2:
  assumes "unat x < 64" "unat y < 64"
  shows "decode_chars [] (map base64_char [x, y] @ ''=='') = [push_bit 2 x + drop_bit 4 (y AND 0x30)]"
  using assms by (simp add: alphabet decode_tail_def char_array_3_of_def)

lemma decode_pad_3:
  assumes "unat x < 64" "unat y < 64" "unat z < 64"
  shows "decode_chars [] (map base64_char [x, y, z] @ ''='') =
    [push_bit 2 x + drop_bit 4 (y AND 0x30), push_bit 4 (y AND 0xf) + drop_bit 2 (z AND 0x3c)]"
  using assms by (simp add: alphabet decode_tail_def char_array_3_of_def)

lemma encode_block: "encode_bytes [] (a # b # c # r) = map base64_char (char_array_4_of [a, b, c]) @ encode_bytes [] r"
  by simp

lemma encode_pad_2: "encode_bytes [] [a, b] = map base64_char (take 3 (char_array_4_of [a, b, 0])) @ ''=''"
  by (simp add: numeral_3_eq_3)

lemma encode_pad_1: "encode_bytes [] [a] = map base64_char (take 2 (char_array_4_of [a, 0, 0])) @ ''==''"
  by (simp add: numeral_2_eq_2)

lemma chars_of_group:
  "map base64_char (char_array_4_of [a, b, c]) =
     map (\<lambda>d. base64_digit ((unat a * 65536 + unat b * 256 + unat c) div d)) [262144, 4096, 64, 1]"
proof -
  have "map base64_char (char_array_4_of [a, b, c]) = map ((!) base64_chars) (map unat (char_array_4_of [a, b, c]))"
    by (simp add: base64_char_def)
  then show ?thesis
    unfolding sextets using group_digits [OF unat_byte [of a] unat_byte [of b] unat_byte [of c]]
    by (simp add: base64_digit_def)
qed

lemma encode_is_spec: "encode_bytes [] bs = base64_spec (map unat bs)"
proof (induction "map unat bs" arbitrary: bs rule: base64_spec.induct)
  case (1 a b c r)
  then obtain x y z w where "bs = x # y # z # w" "r = map unat w" by (auto simp: Cons_eq_map_conv)
  with 1 show ?case by (simp only: encode_block chars_of_group list.map base64_spec.simps Let_def)
next
  case (2 a b)
  then obtain x y where bs: "bs = [x, y]" by (auto simp: Cons_eq_map_conv)
  show ?case unfolding bs encode_pad_2 take_map [symmetric] chars_of_group by (simp add: Let_def)
next
  case (3 a)
  then obtain x where bs: "bs = [x]" by (auto simp: Cons_eq_map_conv)
  show ?case unfolding bs encode_pad_1 take_map [symmetric] chars_of_group by (simp add: Let_def numeral_2_eq_2)
qed simp

lemma sextet_list:
  obtains x y z w where "char_array_4_of [a, b, c] = [x, y, z, w]" "unat x < 64" "unat y < 64" "unat z < 64" "unat w < 64"
    "char_array_3_of [x, y, z, w] = [a, b, c]"
proof -
  obtain x y z w where "char_array_4_of [a, b, c] = [x, y, z, w]" by (simp add: char_array_4_of_def)
  then show thesis using that sextet_bound [of _ a b c] octets_of_sextets [of a b c] by simp
qed

lemma decode_encode: "decode_chars [] (encode_bytes [] bs) = bs"
proof (induction "map unat bs" arbitrary: bs rule: base64_spec.induct)
  case (1 a b c r)
  then obtain p q t w where bs: "bs = p # q # t # w" "r = map unat w" by (auto simp: Cons_eq_map_conv)
  obtain x y z v where g: "char_array_4_of [p, q, t] = [x, y, z, v]" "unat x < 64" "unat y < 64" "unat z < 64" "unat v < 64"
    "char_array_3_of [x, y, z, v] = [p, q, t]" by (rule sextet_list)
  show ?case unfolding bs encode_block g(1) using decode_block [of x y z v] g 1 bs by simp
next
  case (2 a b)
  then obtain p q where bs: "bs = [p, q]" by (auto simp: Cons_eq_map_conv)
  obtain x y z v where g: "char_array_4_of [p, q, 0] = [x, y, z, v]" "unat x < 64" "unat y < 64" "unat z < 64"
    "unat v < 64" "char_array_3_of [x, y, z, v] = [p, q, 0]" by (rule sextet_list)
  show ?case unfolding bs encode_pad_2 g(1) using decode_pad_3 [OF g(2-4)] g(6) by (simp add: char_array_3_of_def)
next
  case (3 a)
  then obtain p where bs: "bs = [p]" by (auto simp: Cons_eq_map_conv)
  obtain x y z v where g: "char_array_4_of [p, 0, 0] = [x, y, z, v]" "unat x < 64" "unat y < 64" "unat z < 64"
    "unat v < 64" "char_array_3_of [x, y, z, v] = [p, 0, 0]" by (rule sextet_list)
  show ?case unfolding bs encode_pad_1 g(1) using decode_pad_2 [OF g(2,3)] g(6)
    by (simp add: char_array_3_of_def numeral_2_eq_2)
next
  case 4
  then show ?case by (simp add: decode_tail_def)
qed

section \<open>Properties\<close>

text \<open>
  C25. \<open>base64_encode\<close> computes the Base64 encoding of RFC 4648 (groups of three bytes as four digits of
  base 64, padded with \<open>=\<close>), and \<open>base64_decode\<close> is its inverse, for every byte string.
\<close>

theorem base64_correct: "base64_encode bs = base64_spec (map unat bs) \<and> base64_decode (base64_encode bs) = bs"
  by (simp add: base64_encode_def base64_decode_def encode_is_spec [symmetric] decode_encode)

end
