(* ===== verification/Sha1.thy ===== *)
theory Sha1
  imports CppString
begin

unbundle bit_operations_syntax

text \<open>
  The SHA-1 class of the WebSocket server (\<open>websocket/websocket/sha1.cpp\<close>, \<open>websocket/websocket/sha1.h\<close>;
  the class is called \<open>SHA2\<close> there), and its equivalence with the definition of the standard.

  \<open>unsigned\<close> is a 32-bit word. The constructor leaves \<open>Message_Block\<close> uninitialised and calls
  \<open>Reset\<close>, so a new object is \<open>Reset\<close> of an arbitrary one whose array has its 64 bytes. The array
  arguments of \<open>Input\<close> are lists; the digest that \<open>Result\<close> writes through its pointer is returned, and
  \<open>None\<close> is the return value \<open>false\<close>. The loops that fill the block with zeros are the recursion
  \<open>fill_zeros\<close>.
\<close>

section \<open>Model\<close>

record SHA2 =
  sha_H :: "32 word list"
  Length_Low :: "32 word"
  Length_High :: "32 word"
  Message_Block :: bytes
  Message_Block_Index :: nat
  Computed :: bool
  Corrupted :: bool

definition sha_Reset :: "SHA2 \<Rightarrow> SHA2" where
  "sha_Reset s = s\<lparr>Length_Low := 0, Length_High := 0, Message_Block_Index := 0,
     sha_H := [0x67452301, 0xEFCDAB89, 0x98BADCFE, 0x10325476, 0xC3D2E1F0],
     Computed := False, Corrupted := False\<rparr>"

definition CircularShift :: "nat \<Rightarrow> 32 word \<Rightarrow> 32 word" where
  "CircularShift bits w = (push_bit bits w AND 0xFFFFFFFF) OR drop_bit (32 - bits) (w AND 0xFFFFFFFF)"

definition word_sequence :: "bytes \<Rightarrow> 32 word list" where
  "word_sequence blk =
     foldl (\<lambda>W t. W @ [CircularShift 1 (W ! (t - 3) XOR W ! (t - 8) XOR W ! (t - 14) XOR W ! (t - 16))])
       (map (\<lambda>t. push_bit 24 (ucast (blk ! (t * 4))) OR push_bit 16 (ucast (blk ! (t * 4 + 1)))
                 OR push_bit 8 (ucast (blk ! (t * 4 + 2))) OR ucast (blk ! (t * 4 + 3))) [0..<16])
       [16..<80]"

type_synonym chain = "32 word \<times> 32 word \<times> 32 word \<times> 32 word \<times> 32 word"

definition sha_round :: "(32 word \<Rightarrow> 32 word \<Rightarrow> 32 word \<Rightarrow> 32 word) \<Rightarrow> 32 word \<Rightarrow> 32 word list \<Rightarrow> chain \<Rightarrow> nat \<Rightarrow> chain" where
  "sha_round f k W = (\<lambda>(A, B, C, D, E) t.
     ((CircularShift 5 A + f B C D + E + W ! t + k) AND 0xFFFFFFFF, A, CircularShift 30 B, C, D))"

definition ProcessMessageBlock :: "SHA2 \<Rightarrow> SHA2" where
  "ProcessMessageBlock s =
     (let W = word_sequence (Message_Block s); H = sha_H s;
          s0 = (H ! 0, H ! 1, H ! 2, H ! 3, H ! 4);
          s1 = foldl (sha_round (\<lambda>B C D. (B AND C) OR (NOT B AND D)) 0x5A827999 W) s0 [0..<20];
          s2 = foldl (sha_round (\<lambda>B C D. B XOR C XOR D) 0x6ED9EBA1 W) s1 [20..<40];
          s3 = foldl (sha_round (\<lambda>B C D. (B AND C) OR (B AND D) OR (C AND D)) 0x8F1BBCDC W) s2 [40..<60];
          (A, B, C, D, E) = foldl (sha_round (\<lambda>B C D. B XOR C XOR D) 0xCA62C1D6 W) s3 [60..<80]
      in s\<lparr>sha_H := [(H ! 0 + A) AND 0xFFFFFFFF, (H ! 1 + B) AND 0xFFFFFFFF, (H ! 2 + C) AND 0xFFFFFFFF,
                     (H ! 3 + D) AND 0xFFFFFFFF, (H ! 4 + E) AND 0xFFFFFFFF],
           Message_Block_Index := 0\<rparr>)"

definition put_byte :: "8 word \<Rightarrow> SHA2 \<Rightarrow> SHA2" where
  "put_byte b s = s\<lparr>Message_Block := (Message_Block s)[Message_Block_Index s := b],
     Message_Block_Index := Message_Block_Index s + 1\<rparr>"

definition input_byte :: "8 word \<Rightarrow> SHA2 \<Rightarrow> SHA2" where
  "input_byte b s =
     (let s1 = put_byte (b AND 0xFF) s;
          s2 = s1\<lparr>Length_Low := (Length_Low s1 + 8) AND 0xFFFFFFFF\<rparr>;
          s3 = (if Length_Low s2 = 0
                then let s' = s2\<lparr>Length_High := (Length_High s2 + 1) AND 0xFFFFFFFF\<rparr>
                     in if Length_High s' = 0 then s'\<lparr>Corrupted := True\<rparr> else s'
                else s2)
      in if Message_Block_Index s3 = 64 then ProcessMessageBlock s3 else s3)"

fun input_loop :: "bytes \<Rightarrow> SHA2 \<Rightarrow> SHA2" where
  "input_loop [] s = s"
| "input_loop (b # bs) s = (if \<not> Corrupted s then input_loop bs (input_byte b s) else s)"

definition sha_Input :: "bytes \<Rightarrow> SHA2 \<Rightarrow> SHA2" where
  "sha_Input message_array s =
     (if length message_array = 0 then s
      else if Computed s \<or> Corrupted s then s\<lparr>Corrupted := True\<rparr>
      else input_loop message_array s)"

text \<open>\<open>operator<<\<close> on a C string: one \<open>Input\<close> for each character before the terminating zero.\<close>

definition shift_in :: "bytes \<Rightarrow> SHA2 \<Rightarrow> SHA2" where
  "shift_in message_array s = foldl (\<lambda>s c. sha_Input [c] s) s (takeWhile (\<lambda>c. c \<noteq> 0) message_array)"

function fill_zeros :: "nat \<Rightarrow> SHA2 \<Rightarrow> SHA2" where
  "fill_zeros n s = (if Message_Block_Index s < n then fill_zeros n (put_byte 0 s) else s)"
  by auto

termination
  by (relation "measure (\<lambda>(n, s). n - Message_Block_Index s)") (auto simp: put_byte_def)

declare fill_zeros.simps [simp del]

definition length_bytes :: "32 word \<Rightarrow> bytes" where
  "length_bytes w = [ucast (drop_bit 24 w AND 0xFF), ucast (drop_bit 16 w AND 0xFF),
     ucast (drop_bit 8 w AND 0xFF), ucast (w AND 0xFF)]"

definition PadMessage :: "SHA2 \<Rightarrow> SHA2" where
  "PadMessage s =
     (let s1 = (if 55 < Message_Block_Index s
                then fill_zeros 56 (ProcessMessageBlock (fill_zeros 64 (put_byte 0x80 s)))
                else fill_zeros 56 (put_byte 0x80 s))
      in ProcessMessageBlock (s1\<lparr>Message_Block :=
           take 56 (Message_Block s1) @ length_bytes (Length_High s1) @ length_bytes (Length_Low s1)\<rparr>))"

definition sha_Result :: "SHA2 \<Rightarrow> 32 word list option \<times> SHA2" where
  "sha_Result s =
     (if Corrupted s then (None, s)
      else let s1 = (if \<not> Computed s then (PadMessage s)\<lparr>Computed := True\<rparr> else s)
           in (Some (take 5 (sha_H s1)), s1))"

section \<open>The standard\<close>

text \<open>FIPS PUB 180-4, sections 5 and 6.1, on byte strings.\<close>

fun schedule :: "(nat \<Rightarrow> 32 word) \<Rightarrow> nat \<Rightarrow> 32 word" where
  "schedule M t =
     (if t < 16 then M t
      else word_rotl 1 (schedule M (t - 3) XOR schedule M (t - 8) XOR schedule M (t - 14) XOR schedule M (t - 16)))"

declare schedule.simps [simp del]

definition f_t :: "nat \<Rightarrow> 32 word \<Rightarrow> 32 word \<Rightarrow> 32 word \<Rightarrow> 32 word" where
  "f_t t x y z =
     (if t < 20 then (x AND y) XOR (NOT x AND z)
      else if t < 40 then x XOR y XOR z
      else if t < 60 then (x AND y) XOR (x AND z) XOR (y AND z)
      else x XOR y XOR z)"

definition K_t :: "nat \<Rightarrow> 32 word" where
  "K_t t = (if t < 20 then 0x5A827999 else if t < 40 then 0x6ED9EBA1 else if t < 60 then 0x8F1BBCDC else 0xCA62C1D6)"

definition round_spec :: "(nat \<Rightarrow> 32 word) \<Rightarrow> chain \<Rightarrow> nat \<Rightarrow> chain" where
  "round_spec M = (\<lambda>(a, b, c, d, e) t.
     (word_rotl 5 a + f_t t b c d + e + K_t t + schedule M t, a, word_rotl 30 b, c, d))"

definition be32 :: "bytes \<Rightarrow> nat \<Rightarrow> 32 word" where
  "be32 blk t = of_nat (unat (blk ! (4 * t)) * 2 ^ 24 + unat (blk ! (4 * t + 1)) * 2 ^ 16
     + unat (blk ! (4 * t + 2)) * 2 ^ 8 + unat (blk ! (4 * t + 3)))"

definition compress :: "chain \<Rightarrow> bytes \<Rightarrow> chain" where
  "compress = (\<lambda>(h0, h1, h2, h3, h4) blk.
     case foldl (round_spec (be32 blk)) (h0, h1, h2, h3, h4) [0..<80] of
       (a, b, c, d, e) \<Rightarrow> (a + h0, b + h1, c + h2, d + h3, e + h4))"

function blocks64 :: "'a list \<Rightarrow> 'a list list" where
  "blocks64 xs = (if xs = [] then [] else take 64 xs # blocks64 (drop 64 xs))"
  by auto

termination
  by (relation "measure length") auto

declare blocks64.simps [simp del]

definition be64 :: "nat \<Rightarrow> bytes" where
  "be64 n = map (\<lambda>i. of_nat (n div 256 ^ i)) [7, 6, 5, 4, 3, 2, 1, 0]"

definition sha1_padded :: "bytes \<Rightarrow> bytes" where
  "sha1_padded msg = msg @ [0x80] @ replicate ((119 - length msg mod 64) mod 64) 0 @ be64 (8 * length msg)"

definition sha1_init :: chain where
  "sha1_init = (0x67452301, 0xEFCDAB89, 0x98BADCFE, 0x10325476, 0xC3D2E1F0)"

definition chain_words :: "chain \<Rightarrow> 32 word list" where
  "chain_words = (\<lambda>(a, b, c, d, e). [a, b, c, d, e])"

definition sha1 :: "bytes \<Rightarrow> 32 word list" where
  "sha1 msg = chain_words (foldl compress sha1_init (blocks64 (sha1_padded msg)))"

section \<open>One block\<close>

lemma and_ones [simp]: "(w :: 32 word) AND 0xFFFFFFFF = w" "(b :: 8 word) AND 0xFF = b"
proof -
  have "(0xFFFFFFFF :: 32 word) = - 1" "(0xFF :: 8 word) = - 1" by simp_all
  then show "(w :: 32 word) AND 0xFFFFFFFF = w" "(b :: 8 word) AND 0xFF = b"
    by (simp_all only: and.right_neutral)
qed

lemma CircularShift_rotl:
  assumes "0 < n" "n < 32"
  shows "CircularShift n w = word_rotl n w"
proof (rule bit_word_eqI)
  fix i
  assume "i < LENGTH(32)"
  then have i: "i < 32" by simp
  have rotl: "bit (word_rotl n w) i \<longleftrightarrow> bit w ((i + (32 - n)) mod 32)"
    using i assms by (simp add: bit_word_rotl_iff)
  have shift: "bit (CircularShift n w) i \<longleftrightarrow> n \<le> i \<and> bit w (i - n) \<or> bit w (32 - n + i)"
    using i by (simp add: CircularShift_def bit_or_iff bit_push_bit_iff bit_drop_bit_eq)
  show "bit (CircularShift n w) i = bit (word_rotl n w) i"
  proof (cases "i < n")
    case True
    then have "(i + (32 - n)) mod 32 = 32 - n + i" using assms by simp
    with True show ?thesis unfolding rotl shift by simp
  next
    case False
    then have "(i + (32 - n)) mod 32 = i - n" using assms i by (simp add: mod_if)
    moreover have "\<not> bit w (32 - n + i)" using False assms bit_imp_le_length [of w "32 - n + i"] by auto
    ultimately show ?thesis unfolding rotl shift using False by simp
  qed
qed

lemma choice_eq: "(x AND y) OR (NOT x AND z) = (x AND y) XOR (NOT x AND (z :: 32 word))"
  by (rule bit_word_eqI) (auto simp: bit_simps)

lemma majority_eq: "(x AND y) OR (x AND z) OR (y AND z) = (x AND y) XOR (x AND z) XOR (y AND (z :: 32 word))"
  by (rule bit_word_eqI) (auto simp: bit_simps)

lemma bit_byte: "bit (x :: 8 word) n \<Longrightarrow> n < 8"
  using bit_imp_le_length [of x n] by simp

lemma be32_or:
  "push_bit 24 (ucast (blk ! (t * 4))) OR push_bit 16 (ucast (blk ! (t * 4 + 1)))
     OR push_bit 8 (ucast (blk ! (t * 4 + 2))) OR ucast (blk ! (t * 4 + 3)) = be32 blk t"
proof -
  let ?a = "blk ! (t * 4)" and ?b = "blk ! (t * 4 + 1)" and ?c = "blk ! (t * 4 + 2)" and ?d = "blk ! (t * 4 + 3)"
  have 1: "push_bit 8 (ucast ?c) OR ucast ?d = (push_bit 8 (ucast ?c) + ucast ?d :: 32 word)"
    by (rule disjunctive_add [symmetric]) (auto simp: bit_simps dest!: bit_byte)
  have 2: "push_bit 16 (ucast ?b) OR (push_bit 8 (ucast ?c) OR ucast ?d) =
      (push_bit 16 (ucast ?b) + (push_bit 8 (ucast ?c) OR ucast ?d) :: 32 word)"
    by (rule disjunctive_add [symmetric]) (auto simp: bit_simps dest!: bit_byte)
  have 3: "push_bit 24 (ucast ?a) OR (push_bit 16 (ucast ?b) OR (push_bit 8 (ucast ?c) OR ucast ?d)) =
      (push_bit 24 (ucast ?a) + (push_bit 16 (ucast ?b) OR (push_bit 8 (ucast ?c) OR ucast ?d)) :: 32 word)"
    by (rule disjunctive_add [symmetric]) (auto simp: bit_simps dest!: bit_byte)
  show ?thesis
    unfolding or.assoc unfolding 3 unfolding 2 unfolding 1 be32_def
    by (simp add: push_bit_eq_mult mult.commute add.assoc)
qed

definition extend_sequence :: "32 word list \<Rightarrow> nat \<Rightarrow> 32 word list" where
  "extend_sequence W t = W @ [CircularShift 1 (W ! (t - 3) XOR W ! (t - 8) XOR W ! (t - 14) XOR W ! (t - 16))]"

lemma extend_schedule:
  "extend_sequence (map (schedule M) [0..<16 + k]) (16 + k) = map (schedule M) [0..<Suc (16 + k)]"
proof -
  have n: "map (schedule M) [0..<16 + k] ! (16 + k - j) = schedule M (16 + k - j)" if "0 < j" "j \<le> 16" for j
    using that by simp
  have "schedule M (16 + k) = CircularShift 1 (schedule M (16 + k - 3)
      XOR schedule M (16 + k - 8) XOR schedule M (16 + k - 14) XOR schedule M (16 + k - 16))"
    by (subst schedule.simps) (simp add: CircularShift_rotl)
  moreover have "[0..<Suc (16 + k)] = [0..<16 + k] @ [16 + k]" by (rule upt_Suc_append) simp
  ultimately show ?thesis
    unfolding extend_sequence_def using n [of 3] n [of 8] n [of 14] n [of 16] by (simp only: map_append list.map)
qed

lemma word_sequence_prefix:
  "foldl extend_sequence (map (be32 blk) [0..<16]) [16..<16 + k] = map (schedule (be32 blk)) [0..<16 + k]"
proof (induction k)
  case 0
  have "schedule (be32 blk) t = be32 blk t" if "t < 16" for t using that by (subst schedule.simps) simp
  then have "map (be32 blk) [0..<16] = map (schedule (be32 blk)) [0..<16]" by (intro map_cong) auto
  then show ?case by (simp del: upt_Suc)
next
  case (Suc k)
  have "[16..<16 + Suc k] = [16..<16 + k] @ [16 + k]" using upt_Suc_append [of 16 "16 + k"] by simp
  then show ?case using Suc extend_schedule [of "be32 blk" k]
    by (simp only: foldl_append foldl_Cons foldl_Nil add_Suc_right)
qed

lemma word_sequence_schedule: "word_sequence blk = map (schedule (be32 blk)) [0..<80]"
  using word_sequence_prefix [of blk 64]
  unfolding word_sequence_def be32_or extend_sequence_def [abs_def, symmetric] by simp

definition chain_of :: "32 word list \<Rightarrow> chain" where
  "chain_of H = (H ! 0, H ! 1, H ! 2, H ! 3, H ! 4)"

lemma chain_of_words [simp]: "chain_of (chain_words c) = c"
  by (cases c) (simp add: chain_of_def chain_words_def)

lemma rounds_eq:
  assumes "\<And>B C D t. t \<in> set ts \<Longrightarrow> f B C D = f_t t B C D" and "\<And>t. t \<in> set ts \<Longrightarrow> k = K_t t"
    and "set ts \<subseteq> {..<80}"
  shows "foldl (sha_round f k (word_sequence blk)) c ts = foldl (round_spec (be32 blk)) c ts"
  using assms
proof (induction ts arbitrary: c)
  case (Cons t ts)
  have "word_sequence blk ! t = schedule (be32 blk) t"
    using Cons.prems(3) by (simp add: word_sequence_schedule del: upt_Suc)
  moreover have "f B C D = f_t t B C D" for B C D using Cons.prems(1) by simp
  moreover have "k = K_t t" using Cons.prems(2) by simp
  ultimately have "sha_round f k (word_sequence blk) c t = round_spec (be32 blk) c t"
    by (cases c) (simp add: sha_round_def round_spec_def CircularShift_rotl algebra_simps)
  with Cons show ?case by simp
qed simp

lemma upt_80: "[0..<80] = [0..<20] @ [20..<40] @ [40..<60] @ [60..<80]"
  using upt_add_eq_append [of 0 20 60] upt_add_eq_append [of 20 40 40] upt_add_eq_append [of 40 60 20] by simp

lemma ProcessMessageBlock_eq:
  "ProcessMessageBlock s =
     s\<lparr>sha_H := chain_words (compress (chain_of (sha_H s)) (Message_Block s)), Message_Block_Index := 0\<rparr>"
proof -
  let ?W = "word_sequence (Message_Block s)" and ?R = "round_spec (be32 (Message_Block s))"
  have "foldl (sha_round (\<lambda>B C D. (B AND C) OR (NOT B AND D)) 0x5A827999 ?W) c [0..<20] = foldl ?R c [0..<20]" for c
    by (rule rounds_eq) (auto simp: f_t_def K_t_def choice_eq)
  moreover have "foldl (sha_round (\<lambda>B C D. B XOR C XOR D) 0x6ED9EBA1 ?W) c [20..<40] = foldl ?R c [20..<40]" for c
    by (rule rounds_eq) (auto simp: f_t_def K_t_def)
  moreover have "foldl (sha_round (\<lambda>B C D. (B AND C) OR (B AND D) OR (C AND D)) 0x8F1BBCDC ?W) c [40..<60] =
      foldl ?R c [40..<60]" for c
    by (rule rounds_eq) (auto simp: f_t_def K_t_def majority_eq)
  moreover have "foldl (sha_round (\<lambda>B C D. B XOR C XOR D) 0xCA62C1D6 ?W) c [60..<80] = foldl ?R c [60..<80]" for c
    by (rule rounds_eq) (auto simp: f_t_def K_t_def)
  ultimately show ?thesis
    unfolding ProcessMessageBlock_def compress_def chain_of_def upt_80 foldl_append
    by (simp add: Let_def chain_words_def add.commute split: prod.split)
qed

section \<open>Feeding the message\<close>

lemma length_count:
  fixes hi lo :: "32 word"
  assumes "unat hi * 2 ^ 32 + unat lo = 8 * n" "8 * Suc n < 2 ^ 64"
  shows "lo + 8 = 0 \<Longrightarrow> unat (hi + 1) * 2 ^ 32 = 8 * Suc n \<and> hi + 1 \<noteq> 0"
    and "lo + 8 \<noteq> 0 \<Longrightarrow> unat hi * 2 ^ 32 + unat (lo + 8) = 8 * Suc n"
proof -
  have lo: "unat lo < 2 ^ 32" and hi: "unat hi < 2 ^ 32"
    using unsigned_less [of lo, where ?'a = nat] unsigned_less [of hi, where ?'a = nat] by simp_all
  have "8 dvd unat lo"
  proof -
    have "8 dvd 8 * n" "8 dvd unat hi * 2 ^ 32" by simp_all
    then show ?thesis using assms(1) by (metis dvd_add_right_iff)
  qed
  then obtain m where m: "unat lo = 8 * m" by (rule dvdE)
  have sum: "unat (lo + 8) = (unat lo + 8) mod 2 ^ 32" by (simp add: unat_word_ariths)
  show "unat hi * 2 ^ 32 + unat (lo + 8) = 8 * Suc n" if "lo + 8 \<noteq> 0"
  proof -
    have "unat lo + 8 \<noteq> 2 ^ 32" using that sum by (auto simp: unat_eq_0)
    then have "unat lo + 8 < 2 ^ 32" using m lo by simp
    then show ?thesis using sum assms(1) by simp
  qed
  show "unat (hi + 1) * 2 ^ 32 = 8 * Suc n \<and> hi + 1 \<noteq> 0" if "lo + 8 = 0"
  proof -
    have "(unat lo + 8) mod 2 ^ 32 = 0" using that sum by simp
    then have "\<not> unat lo + 8 < 2 ^ 32" by (metis add_is_0 mod_less zero_neq_numeral)
    then have eq: "unat lo + 8 = 2 ^ 32" using m lo by simp
    then have "unat hi + 1 < 2 ^ 32" using assms by simp
    then have "unat (hi + 1) = unat hi + 1" by (simp add: unat_word_ariths)
    then show ?thesis using eq assms(1) by (auto simp: unat_eq_0)
  qed
qed

definition absorbed :: "bytes \<Rightarrow> SHA2 \<Rightarrow> bool" where
  "absorbed msg s \<longleftrightarrow>
     (\<exists>bs. sha_H s = chain_words (foldl compress sha1_init bs) \<and> list_all (\<lambda>b. length b = 64) bs
        \<and> msg = concat bs @ take (Message_Block_Index s) (Message_Block s))
     \<and> Message_Block_Index s < 64 \<and> length (Message_Block s) = 64 \<and> \<not> Computed s \<and> \<not> Corrupted s
     \<and> unat (Length_High s) * 2 ^ 32 + unat (Length_Low s) = 8 * length msg"

lemma absorbed_Reset: "length (Message_Block mem) = 64 \<Longrightarrow> absorbed [] (sha_Reset mem)"
  unfolding absorbed_def
  by (intro conjI exI [of _ "[]"]) (simp_all add: sha_Reset_def chain_words_def sha1_init_def)

lemma absorbed_byte:
  assumes "absorbed msg s" "8 * Suc (length msg) < 2 ^ 64"
  shows "absorbed (msg @ [b]) (input_byte b s)"
proof -
  let ?i = "Message_Block_Index s"
  obtain bs where bs: "sha_H s = chain_words (foldl compress sha1_init bs)" "list_all (\<lambda>b. length b = 64) bs"
      "msg = concat bs @ take ?i (Message_Block s)"
    and s: "?i < 64" "length (Message_Block s) = 64" "\<not> Computed s" "\<not> Corrupted s"
      "unat (Length_High s) * 2 ^ 32 + unat (Length_Low s) = 8 * length msg"
    using assms(1) by (auto simp: absorbed_def)
  let ?hi = "if Length_Low s + 8 = 0 then Length_High s + 1 else Length_High s"
  let ?t = "s\<lparr>Message_Block := (Message_Block s)[?i := b], Message_Block_Index := Suc ?i,
    Length_Low := Length_Low s + 8, Length_High := ?hi\<rparr>"
  have count: "unat ?hi * 2 ^ 32 + unat (Length_Low s + 8) = 8 * Suc (length msg)"
    "Length_Low s + 8 = 0 \<Longrightarrow> Length_High s + 1 \<noteq> 0"
    using length_count [OF s(5) assms(2)] by auto
  have step: "input_byte b s = (if Suc ?i = 64 then ProcessMessageBlock ?t else ?t)"
    using count(2) by (simp add: input_byte_def put_byte_def Let_def)
  have new: "take (Suc ?i) ((Message_Block s)[?i := b]) = take ?i (Message_Block s) @ [b]"
    using s by (simp add: take_Suc_conv_app_nth)
  show ?thesis
  proof (cases "Suc ?i = 64")
    case True
    let ?blk = "(Message_Block s)[?i := b]"
    have blk: "?blk = take ?i (Message_Block s) @ [b]" using new s True by simp
    show ?thesis
      unfolding absorbed_def
      using bs s count(1) True blk
      by (intro conjI exI [of _ "bs @ [?blk]"]) (simp_all add: step ProcessMessageBlock_eq)
  next
    case False
    show ?thesis
      unfolding absorbed_def using bs s count(1) False new
      by (intro conjI exI [of _ bs]) (simp_all add: step)
  qed
qed

lemma absorbed_live: "absorbed msg s \<Longrightarrow> \<not> Computed s \<and> \<not> Corrupted s"
  by (simp add: absorbed_def)

lemma absorbed_loop:
  "absorbed msg s \<Longrightarrow> 8 * (length msg + length bs) < 2 ^ 64 \<Longrightarrow> absorbed (msg @ bs) (input_loop bs s)"
proof (induction bs arbitrary: msg s)
  case (Cons b bs)
  have "absorbed (msg @ [b]) (input_byte b s)" using Cons.prems by (intro absorbed_byte) auto
  from Cons.IH [OF this] show ?case using Cons.prems absorbed_live [OF Cons.prems(1)] by simp
qed simp

lemma absorbed_Input:
  "absorbed msg s \<Longrightarrow> 8 * (length msg + length bs) < 2 ^ 64 \<Longrightarrow> absorbed (msg @ bs) (sha_Input bs s)"
  using absorbed_loop [of msg s bs] absorbed_live [of msg s] by (auto simp: sha_Input_def)

lemma absorbed_pieces:
  "absorbed msg s \<Longrightarrow> 8 * (length msg + length (concat ps)) < 2 ^ 64 \<Longrightarrow>
     absorbed (msg @ concat ps) (foldl (\<lambda>s p. sha_Input p s) s ps)"
proof (induction ps arbitrary: msg s)
  case (Cons p ps)
  have "absorbed (msg @ p) (sha_Input p s)" using Cons.prems by (intro absorbed_Input) auto
  from Cons.IH [OF this] show ?case using Cons.prems by simp
qed simp

section \<open>Padding\<close>

lemma fill_zeros_eq:
  assumes "Message_Block_Index s \<le> n" "n \<le> length (Message_Block s)"
  shows "fill_zeros n s = s\<lparr>Message_Block := take (Message_Block_Index s) (Message_Block s)
      @ replicate (n - Message_Block_Index s) 0 @ drop n (Message_Block s), Message_Block_Index := n\<rparr>"
  using assms
proof (induction n s rule: fill_zeros.induct)
  case (1 n s)
  show ?case
  proof (cases "Message_Block_Index s < n")
    case True
    let ?i = "Message_Block_Index s"
    have "n - ?i = Suc (n - Suc ?i)" using True by simp
    moreover have "take (Suc ?i) ((Message_Block s)[?i := 0]) = take ?i (Message_Block s) @ [0]"
      using True 1(3) by (simp add: take_Suc_conv_app_nth)
    ultimately show ?thesis
      using 1 True by (subst fill_zeros.simps) (simp add: put_byte_def)
  next
    case False
    then show ?thesis using 1 by (subst fill_zeros.simps) simp
  qed
qed

lemma blocks64_Nil [simp]: "blocks64 [] = []"
  by (subst blocks64.simps) simp

lemma blocks64_concat: "list_all (\<lambda>b. length b = 64) bs \<Longrightarrow> blocks64 (concat bs @ t) = bs @ blocks64 t"
proof (induction bs)
  case (Cons b bs)
  then have "b @ concat bs @ t \<noteq> []" by auto
  then show ?case using Cons by (subst blocks64.simps) simp
qed simp

lemma blocks64_full: "length b = 64 \<Longrightarrow> blocks64 (b @ t) = b # blocks64 t"
  using blocks64_concat [of "[b]" t] by simp

lemma length_byte: "ucast (drop_bit k w AND 0xFF) = (of_nat (unat (w :: 32 word) div 2 ^ k) :: 8 word)"
proof -
  have mask: "(0xFF :: 32 word) = mask 8" by (simp add: mask_numeral)
  have "ucast (drop_bit k w AND mask 8) = (ucast (drop_bit k w) :: 8 word)"
    by (rule bit_word_eqI) (simp add: bit_simps)
  also have "\<dots> = of_nat (unat (drop_bit k w))" by simp
  finally show ?thesis unfolding mask by (simp add: unat_drop_bit_eq drop_bit_nat_def)
qed

lemma length_bytes_eq:
  "length_bytes w = map (\<lambda>k. of_nat (unat w div 2 ^ k)) [24, 16, 8, 0]"
  using length_byte [of 24 w] length_byte [of 16 w] length_byte [of 8 w] length_byte [of 0 w]
  by (simp add: length_bytes_def)

lemma low_byte: "k \<le> 24 \<Longrightarrow> (of_nat ((h * 2 ^ 32 + l) div 2 ^ k) :: 8 word) = of_nat (l div 2 ^ k)"
proof -
  assume k: "k \<le> 24"
  then have "h * 2 ^ 32 = (h * 2 ^ (24 - k) * 256) * 2 ^ k" by (simp flip: power_add)
  then have "(h * 2 ^ 32 + l) div 2 ^ k = h * 2 ^ (24 - k) * 256 + l div 2 ^ k"
    using div_mult_self3 [of "2 ^ k" "h * 2 ^ (24 - k) * 256" l] by (simp only:) simp
  moreover have "(256 :: 8 word) = 0" by simp
  ultimately show ?thesis by (simp only: of_nat_add of_nat_mult of_nat_numeral mult_zero_right add_0)
qed

lemma high_byte: "l < 2 ^ 32 \<Longrightarrow> (h * 2 ^ 32 + l) div 2 ^ (32 + k) = h div 2 ^ k" for l :: nat
  by (simp add: power_add div_mult2_eq)

lemma be64_words:
  fixes hi lo :: "32 word"
  assumes "unat hi * 2 ^ 32 + unat lo = n"
  shows "be64 n = length_bytes hi @ length_bytes lo"
proof -
  have lo: "unat lo < 2 ^ 32" using unsigned_less [of lo, where ?'a = nat] by simp
  have high: "n div 2 ^ (32 + k) = unat hi div 2 ^ k" for k using high_byte [OF lo] assms by blast
  have low: "(of_nat (n div 2 ^ k) :: 8 word) = of_nat (unat lo div 2 ^ k)" if "k \<le> 24" for k
    using low_byte [OF that] assms by blast
  show ?thesis
    using high [of 24] high [of 16] high [of 8] high [of 0] low [of 24] low [of 16] low [of 8] low [of 0]
    by (simp add: be64_def length_bytes_eq)
qed

lemma PadMessage_eq:
  assumes "absorbed msg s"
  shows "sha_H (PadMessage s) = sha1 msg" "Corrupted (PadMessage s) = Corrupted s"
proof -
  let ?i = "Message_Block_Index s" and ?B = "Message_Block s"
  let ?L = "length_bytes (Length_High s) @ length_bytes (Length_Low s)"
  obtain bs where bs: "sha_H s = chain_words (foldl compress sha1_init bs)" "list_all (\<lambda>b. length b = 64) bs"
      "msg = concat bs @ take ?i ?B"
    and s: "?i < 64" "length ?B = 64" "unat (Length_High s) * 2 ^ 32 + unat (Length_Low s) = 8 * length msg"
    using assms by (auto simp: absorbed_def)
  have len: "length msg mod 64 = ?i"
  proof -
    have "length (concat bs) = 64 * length bs" using bs(2) by (induction bs) auto
    then show ?thesis using bs(3) s by simp
  qed
  have L: "length ?L = 8" by (simp add: length_bytes_def)
  have be: "be64 (8 * length msg) = ?L" by (rule be64_words [OF s(3)])
  have set: "take (Suc ?i) (?B[?i := 0x80]) = take ?i ?B @ [0x80]" using s by (simp add: take_Suc_conv_app_nth)
  have padded: "sha1_padded msg = concat bs @ take ?i ?B @ 0x80 # replicate ((119 - ?i) mod 64) 0 @ ?L"
    unfolding sha1_padded_def len be using bs(3) by simp
  show "sha_H (PadMessage s) = sha1 msg"
  proof (cases "55 < ?i")
    case True
    let ?b1 = "take ?i ?B @ 0x80 # replicate (63 - ?i) 0" and ?b2 = "replicate 56 0 @ ?L"
    have "(119 - ?i) mod 64 = 63 - ?i + 56" using True s by simp
    then have "replicate ((119 - ?i) mod 64) (0 :: 8 word) = replicate (63 - ?i) 0 @ replicate 56 0"
      by (simp only: replicate_add)
    then have "sha1_padded msg = concat (bs @ [?b1, ?b2]) @ []" unfolding padded by simp
    moreover have "list_all (\<lambda>b. length b = 64) (bs @ [?b1, ?b2])" using bs s True L by simp
    ultimately have "blocks64 (sha1_padded msg) = bs @ [?b1, ?b2]" by (simp only: blocks64_concat) simp
    then show ?thesis
      using True s bs(1) set
      by (simp add: PadMessage_def sha1_def fill_zeros_eq put_byte_def ProcessMessageBlock_eq Let_def)
  next
    case False
    let ?b = "take ?i ?B @ 0x80 # replicate (55 - ?i) 0 @ ?L"
    have "(119 - ?i) mod 64 = 55 - ?i" using False by (simp add: mod_if)
    then have "sha1_padded msg = concat (bs @ [?b]) @ []"
      unfolding padded by simp
    moreover have "list_all (\<lambda>b. length b = 64) (bs @ [?b])" using bs s False L by simp
    ultimately have "blocks64 (sha1_padded msg) = bs @ [?b]" by (simp only: blocks64_concat) simp
    moreover have "56 - ?i = Suc (55 - ?i)" using False by simp
    then have "take (56 - ?i) (0x80 # replicate (55 - ?i) 0 @ r) = 0x80 # replicate (55 - ?i) (0 :: 8 word)" for r
      by simp
    ultimately show ?thesis
      using False s bs(1) set
      by (simp add: PadMessage_def sha1_def fill_zeros_eq put_byte_def ProcessMessageBlock_eq Let_def)
  qed
  show "Corrupted (PadMessage s) = Corrupted s"
    using s by (simp add: PadMessage_def fill_zeros_eq put_byte_def ProcessMessageBlock_eq Let_def)
qed

section \<open>Properties\<close>

lemma Result_absorbed:
  assumes "absorbed msg s"
  shows "sha_Result s = (Some (sha1 msg), (PadMessage s)\<lparr>Computed := True\<rparr>)"
    and "sha_H (PadMessage s) = sha1 msg"
  using PadMessage_eq [OF assms] absorbed_live [OF assms]
  by (auto simp: sha_Result_def sha1_def chain_words_def split: prod.split)

text \<open>
  C17. The class computes SHA-1 as the standard defines it: for every message below \<open>2^61\<close> bytes, fed in
  by any sequence of \<open>Input\<close> calls, \<open>Result\<close> gives the digest of the concatenation (padding, message
  schedule and the 80 rounds included). A second \<open>Result\<close> gives the same digest, and feeding more bytes
  after a \<open>Result\<close> makes the next \<open>Result\<close> fail.
\<close>

theorem sha1_streaming:
  assumes "length (Message_Block mem) = 64" and "length (concat pieces) < 2 ^ 61"
    and "s = foldl (\<lambda>s p. sha_Input p s) (sha_Reset mem) pieces"
  shows "fst (sha_Result s) = Some (sha1 (concat pieces))
    \<and> fst (sha_Result (snd (sha_Result s))) = Some (sha1 (concat pieces))
    \<and> fst (sha_Result (sha_Input (b # later) (snd (sha_Result s)))) = None"
proof -
  have abs: "absorbed (concat pieces) s"
    using absorbed_pieces [OF absorbed_Reset [OF assms(1)], of pieces] assms(2,3) by simp
  have "length (sha1 m) = 5" for m by (simp add: sha1_def chain_words_def split: prod.split)
  then show ?thesis
    using Result_absorbed [OF abs] PadMessage_eq(2) [OF abs] absorbed_live [OF abs]
    by (simp add: sha_Result_def sha_Input_def)
qed

definition example_block :: SHA2 where
  "example_block = \<lparr>sha_H = [], Length_Low = 0, Length_High = 0, Message_Block = replicate 64 0,
     Message_Block_Index = 0, Computed = False, Corrupted = False\<rparr>"

theorem sha1_streaming_witness:
  "fst (sha_Result (foldl (\<lambda>s p. sha_Input p s) (sha_Reset example_block) [[0x61], [0x62, 0x63]])) =
     Some (sha1 [0x61, 0x62, 0x63])"
  using sha1_streaming [of example_block "[[0x61], [0x62, 0x63]]" _ 0 "[]"] by (simp add: example_block_def)

end
