(* ===== verification/Websocket.thy ===== *)
theory Websocket
  imports Base64 Sha1 Byte_Layout
begin

unbundle bit_operations_syntax

text \<open>
  The WebSocket server's handshake and frame parser (\<open>websocket/websocket/websocket_handler.cpp\<close>,
  \<open>websocket/websocket/websocket_request.cpp\<close>).

  \<open>buff_\<close> is the list of its 2048 bytes. A read or write outside an array, which C++ leaves undefined,
  is the error \<open>Out_Of_Bounds\<close>; so is a read of \<open>buff_\<close> as a C string when it has no terminating zero,
  and the index \<open>size() - 1\<close> of an empty string. The text that is sent is returned; TLS and the socket
  are not modelled, and the debug output of \<open>print\<close> is only its \<open>reset\<close>.
\<close>

section \<open>Frames\<close>

datatype ws_error = Out_Of_Bounds | Uninitialised

record Websocket_Request =
  fin :: "8 word"
  opcode :: "8 word"
  ws_mask :: "8 word"
  masking_key :: bytes
  payload_length :: "64 word"
  payload :: bytes

definition Websocket_Request_new :: Websocket_Request where
  "Websocket_Request_new = \<lparr>fin = 0, opcode = 0, ws_mask = 0, masking_key = replicate 4 0,
     payload_length = 0, payload = replicate 2048 0\<rparr>"

definition req_reset :: "Websocket_Request \<Rightarrow> Websocket_Request" where
  "req_reset r = r\<lparr>fin := 0, opcode := 0, ws_mask := 0, masking_key := replicate 4 0,
     payload_length := 0, payload := replicate 2048 0\<rparr>"

definition byte_at :: "bytes \<Rightarrow> nat \<Rightarrow> ws_error + 8 word" where
  "byte_at msg pos = (if pos < length msg then Inr (msg ! pos) else Inl Out_Of_Bounds)"

definition bytes_at :: "bytes \<Rightarrow> nat \<Rightarrow> nat \<Rightarrow> ws_error + bytes" where
  "bytes_at msg pos n = (if pos + n \<le> length msg then Inr (take n (drop pos msg)) else Inl Out_Of_Bounds)"

definition fetch_fin :: "bytes \<Rightarrow> nat \<Rightarrow> Websocket_Request \<Rightarrow> ws_error + Websocket_Request \<times> nat" where
  "fetch_fin msg pos r =
     (case byte_at msg pos of Inl e \<Rightarrow> Inl e | Inr b \<Rightarrow> Inr (r\<lparr>fin := drop_bit 7 b\<rparr>, pos))"

definition fetch_opcode :: "bytes \<Rightarrow> nat \<Rightarrow> Websocket_Request \<Rightarrow> ws_error + Websocket_Request \<times> nat" where
  "fetch_opcode msg pos r =
     (case byte_at msg pos of Inl e \<Rightarrow> Inl e | Inr b \<Rightarrow> Inr (r\<lparr>opcode := b AND 0x0f\<rparr>, pos + 1))"

definition fetch_mask :: "bytes \<Rightarrow> nat \<Rightarrow> Websocket_Request \<Rightarrow> ws_error + Websocket_Request \<times> nat" where
  "fetch_mask msg pos r =
     (case byte_at msg pos of Inl e \<Rightarrow> Inl e | Inr b \<Rightarrow> Inr (r\<lparr>ws_mask := drop_bit 7 b\<rparr>, pos))"

definition fetch_masking_key :: "bytes \<Rightarrow> nat \<Rightarrow> Websocket_Request \<Rightarrow> ws_error + Websocket_Request \<times> nat" where
  "fetch_masking_key msg pos r =
     (if ws_mask r \<noteq> 1 then Inr (r, pos)
      else case bytes_at msg pos 4 of Inl e \<Rightarrow> Inl e | Inr key \<Rightarrow> Inr (r\<lparr>masking_key := key\<rparr>, pos + 4))"

text \<open>\<open>ntohs\<close> swaps the two bytes on a little-endian machine.\<close>

definition ntohs :: "16 word \<Rightarrow> 16 word" where
  "ntohs v = from_bytes (rev (to_bytes v))"

text \<open>The test compares the first byte of \<open>num\<close> with \<open>num\<close>.\<close>

definition ntohll :: "64 word \<Rightarrow> 64 word" where
  "ntohll v =
     (if hd (to_bytes (42 :: 32 word)) = 42 then v
      else (drop_bit 56 v AND 0x00000000000000FF) OR (drop_bit 40 v AND 0x000000000000FF00) OR
           (drop_bit 24 v AND 0x0000000000FF0000) OR (drop_bit 8 v AND 0x00000000FF000000) OR
           (push_bit 8 v AND 0x000000FF00000000) OR (push_bit 24 v AND 0x0000FF0000000000) OR
           (push_bit 40 v AND 0x00FF000000000000) OR (push_bit 56 v AND 0xFF00000000000000))"

definition fetch_payload_length :: "bytes \<Rightarrow> nat \<Rightarrow> Websocket_Request \<Rightarrow> ws_error + Websocket_Request \<times> nat" where
  "fetch_payload_length msg pos r =
     (case byte_at msg pos of
        Inl e \<Rightarrow> Inl e
      | Inr b \<Rightarrow>
          (let len = (ucast (b AND 0x7f) :: 64 word)
           in if len = 126
              then (case bytes_at msg (pos + 1) 2 of
                      Inl e \<Rightarrow> Inl e
                    | Inr bs \<Rightarrow> Inr (r\<lparr>payload_length := ucast (ntohs (from_bytes bs))\<rparr>, pos + 3))
              else if len = 127
              then (case bytes_at msg (pos + 1) 8 of
                      Inl e \<Rightarrow> Inl e
                    | Inr bs \<Rightarrow> Inr (r\<lparr>payload_length := ntohll (from_bytes bs)\<rparr>, pos + 9))
              else Inr (r\<lparr>payload_length := len\<rparr>, pos + 1)))"

fun unmask_loop :: "bytes \<Rightarrow> nat \<Rightarrow> bytes \<Rightarrow> nat \<Rightarrow> nat \<Rightarrow> bytes \<Rightarrow> ws_error + bytes" where
  "unmask_loop msg pos key i 0 p = Inr p"
| "unmask_loop msg pos key i (Suc n) p =
     (if i < length p \<and> pos + i < length msg
      then unmask_loop msg pos key (i + 1) n (p[i := msg ! (pos + i) XOR key ! (i mod 4)])
      else Inl Out_Of_Bounds)"

definition fetch_payload :: "bytes \<Rightarrow> nat \<Rightarrow> Websocket_Request \<Rightarrow> ws_error + Websocket_Request \<times> nat" where
  "fetch_payload msg pos r =
     (let n = unat (payload_length r); zeros = replicate 2048 0
      in case (if ws_mask r \<noteq> 1
               then (if n \<le> 2048
                     then (case bytes_at msg pos n of Inl e \<Rightarrow> Inl e | Inr bs \<Rightarrow> Inr (bs @ drop n zeros))
                     else Inl Out_Of_Bounds)
               else unmask_loop msg pos (masking_key r) 0 n zeros) of
           Inl e \<Rightarrow> Inl e
         | Inr p \<Rightarrow> Inr (r\<lparr>payload := p\<rparr>, pos + n))"

definition fetch_websocket_info :: "bytes \<Rightarrow> Websocket_Request \<Rightarrow> ws_error + Websocket_Request" where
  "fetch_websocket_info msg r =
     (case fetch_fin msg 0 r of Inl e \<Rightarrow> Inl e | Inr (r, pos) \<Rightarrow>
       (case fetch_opcode msg pos r of Inl e \<Rightarrow> Inl e | Inr (r, pos) \<Rightarrow>
         (case fetch_mask msg pos r of Inl e \<Rightarrow> Inl e | Inr (r, pos) \<Rightarrow>
           (case fetch_payload_length msg pos r of Inl e \<Rightarrow> Inl e | Inr (r, pos) \<Rightarrow>
             (case fetch_masking_key msg pos r of Inl e \<Rightarrow> Inl e | Inr (r, pos) \<Rightarrow>
               (case fetch_payload msg pos r of Inl e \<Rightarrow> Inl e | Inr (r, pos) \<Rightarrow> Inr r))))))"

section \<open>Handshake\<close>

datatype WEBSOCKET_STATUS = WEBSOCKET_UNCONNECT | WEBSOCKET_HANDSHARKED

record Websocket_Handler =
  ws_buff :: bytes
  ws_status :: WEBSOCKET_STATUS
  header_map :: "string smap"
  ws_request :: Websocket_Request

definition MAGIC_KEY :: string where
  "MAGIC_KEY = ''258EAFA5-E914-47DA-95CA-C5AB0DC85B11''"

definition text_of :: "bytes \<Rightarrow> string" where
  "text_of bs = map (\<lambda>b. char_of (unat b)) bs"

definition bytes_of :: "string \<Rightarrow> bytes" where
  "bytes_of s = map (\<lambda>c. of_nat (of_char c)) s"

definition c_string :: "bytes \<Rightarrow> ws_error + string" where
  "c_string buf = (if 0 \<in> set buf then Inr (text_of (takeWhile (\<lambda>b. b \<noteq> 0) buf)) else Inl Out_Of_Bounds)"

definition add_header :: "string \<Rightarrow> string smap \<Rightarrow> string smap" where
  "add_header header m =
     (case find_sub '': '' header of
        None \<Rightarrow> m
      | Some end_pos \<Rightarrow> mput (take end_pos header) (drop (end_pos + 2) header) m)"

fun fetch_headers :: "string list \<Rightarrow> string smap \<Rightarrow> ws_error + string smap" where
  "fetch_headers [] m = Inr m"
| "fetch_headers (header # hs) m =
     (if header = [CR] then Inr m
      else if header = [] then Inl Out_Of_Bounds
      else if last header \<noteq> CR then fetch_headers hs m
      else fetch_headers hs (add_header (butlast header) m))"

text \<open>The caller ignores the return value of \<open>fetch_http_info\<close>.\<close>

definition fetch_http_info :: "bytes \<Rightarrow> string smap \<Rightarrow> ws_error + string smap" where
  "fetch_http_info buf m =
     (case c_string buf of
        Inl e \<Rightarrow> Inl e
      | Inr s \<Rightarrow>
          (case getlines s of
             [] \<Rightarrow> Inl Out_Of_Bounds
           | request # hs \<Rightarrow>
               (if request = [] then Inl Out_Of_Bounds
                else if last request = CR then fetch_headers hs m
                else Inr m)))"

definition htonl :: "32 word \<Rightarrow> 32 word" where
  "htonl v = from_bytes (rev (to_bytes v))"

text \<open>\<open>parse_str\<close> needs an initial SHA object; \<open>mem\<close> is what its memory held before.\<close>

definition accept_key :: "SHA2 \<Rightarrow> string \<Rightarrow> ws_error + string" where
  "accept_key mem key =
     (let server_key = bytes_of (key @ MAGIC_KEY); sha = shift_in server_key (sha_Reset (sha_Reset mem))
      in case fst (sha_Result sha) of
           None \<Rightarrow> Inl Uninitialised
         | Some digest \<Rightarrow> Inr (base64_encode (concat (map (\<lambda>w. to_bytes (htonl w)) digest))))"

abbreviation EOL :: string where "EOL \<equiv> [CR, LF]"

text \<open>\<open>header_map_[...]\<close> inserts an empty value when the key is missing.\<close>

definition parse_str :: "SHA2 \<Rightarrow> string smap \<Rightarrow> ws_error + string \<times> string smap" where
  "parse_str mem m =
     (let m' = (if map_of m ''Sec-WebSocket-Key'' = None then mput ''Sec-WebSocket-Key'' [] m else m)
      in case accept_key mem (the (map_of m' ''Sec-WebSocket-Key'')) of
           Inl e \<Rightarrow> Inl e
         | Inr server_key \<Rightarrow>
             (let request = ''HTTP/1.1 101 Switching Protocols'' @ EOL @ ''Connection: upgrade'' @ EOL
                @ ''Sec-WebSocket-Accept: '' @ server_key @ EOL @ ''Upgrade: websocket'' @ EOL @ EOL
              in if length request < 1024 then Inr (request, m') else Inl Out_Of_Bounds))"

definition handshark :: "SHA2 \<Rightarrow> Websocket_Handler \<Rightarrow> ws_error + string \<times> Websocket_Handler" where
  "handshark mem h =
     (case fetch_http_info (ws_buff h) (header_map h) of
        Inl e \<Rightarrow> Inl e
      | Inr m \<Rightarrow>
          (case parse_str mem m of
             Inl e \<Rightarrow> Inl e
           | Inr (request, m') \<Rightarrow>
               Inr (request, h\<lparr>ws_status := WEBSOCKET_HANDSHARKED, header_map := m', ws_buff := replicate 2048 0\<rparr>)))"

text \<open>One call with a full buffer; the result is the text sent, if any.\<close>

definition ws_process :: "SHA2 \<Rightarrow> Websocket_Handler \<Rightarrow> ws_error + string option \<times> Websocket_Handler" where
  "ws_process mem h =
     (if ws_status h = WEBSOCKET_UNCONNECT
      then (case handshark mem h of Inl e \<Rightarrow> Inl e | Inr (t, h') \<Rightarrow> Inr (Some t, h'))
      else case fetch_websocket_info (ws_buff h) (ws_request h) of
             Inl e \<Rightarrow> Inl e
           | Inr r \<Rightarrow> Inr (None, h\<lparr>ws_request := req_reset r, ws_buff := replicate 2048 0\<rparr>))"

section \<open>Frames as the standard defines them\<close>

text \<open>RFC 6455, section 5.2, for payloads below \<open>2^16\<close> bytes.\<close>

definition ws_frame :: "bool \<Rightarrow> 8 word \<Rightarrow> bytes option \<Rightarrow> bytes \<Rightarrow> bytes" where
  "ws_frame final op key data =
     [(if final then 0x80 else 0) OR op,
      (if key \<noteq> None then 0x80 else 0) OR of_nat (if length data < 126 then length data else 126)]
     @ (if length data < 126 then [] else [of_nat (length data div 256), of_nat (length data mod 256)])
     @ (case key of None \<Rightarrow> data | Some k \<Rightarrow> k @ map (\<lambda>i. data ! i XOR k ! (i mod 4)) [0..<length data])"

text \<open>Where the payload starts and how long the parser takes it to be.\<close>

definition ws_announced :: "bytes \<Rightarrow> nat" where
  "ws_announced msg =
     (let n = unat (msg ! 1) mod 128
      in if n = 126 then unat (from_bytes [msg ! 3, msg ! 2] :: 16 word)
         else if n = 127 then unat (from_bytes (take 8 (drop 2 msg)) :: 64 word)
         else n)"

definition ws_data_start :: "bytes \<Rightarrow> nat" where
  "ws_data_start msg =
     (let n = unat (msg ! 1) mod 128
      in 2 + (if n = 126 then 2 else if n = 127 then 8 else 0) + (if unat (msg ! 1) < 128 then 0 else 4))"

section \<open>Frame parsing\<close>

lemma unmask_loop_eq:
  assumes "i \<le> length p"
  shows "unmask_loop msg pos key i n p =
    (if n = 0 \<or> (i + n \<le> length p \<and> pos + i + n \<le> length msg)
     then Inr (take i p @ map (\<lambda>j. msg ! (pos + j) XOR key ! (j mod 4)) [i..<i + n] @ drop (i + n) p)
     else Inl Out_Of_Bounds)"
  using assms
proof (induction n arbitrary: i p)
  case (Suc n)
  show ?case
  proof (cases "i < length p \<and> pos + i < length msg")
    case True
    have "[i..<i + Suc n] = i # [Suc i..<Suc i + n]" by (simp add: upt_conv_Cons)
    moreover have "take (Suc i) (p[i := x]) = take i p @ [x]" for x using True by (simp add: take_Suc_conv_app_nth)
    ultimately show ?thesis using Suc True by auto
  qed (use Suc in auto)
qed simp

lemma top_bit: "unat (drop_bit 7 b :: 8 word) = unat b div 128" "(drop_bit 7 b :: 8 word) = 1 \<longleftrightarrow> \<not> unat b < 128"
proof -
  show 1: "unat (drop_bit 7 b :: 8 word) = unat b div 128" by (simp add: unat_drop_bit_eq drop_bit_nat_def)
  have "unat b div 128 = 1 \<longleftrightarrow> \<not> unat b < 128" using unat_byte [of b] by auto
  then show "(drop_bit 7 b :: 8 word) = 1 \<longleftrightarrow> \<not> unat b < 128" using 1 by (metis unat_1 unsigned_word_eqI)
qed

lemma low_seven: "unat (b AND 0x7f :: 8 word) = unat b mod 128"
  using unat_and_mask [of b 7] by (simp add: mask_numeral)

lemma ntohs_bytes: "ntohs (from_bytes [a, b]) = from_bytes [b, a]"
proof -
  have "to_bytes (from_bytes [a, b] :: 16 word) = [a, b]" by (rule to_from_bytes) simp
  then show ?thesis by (simp add: ntohs_def)
qed

lemma ntohll_id: "ntohll v = v"
proof -
  have "hd (to_bytes (42 :: 32 word)) = 42" by code_simp
  then show ?thesis by (simp add: ntohll_def)
qed

lemma small_word: "(ucast (b AND 0x7f) :: 64 word) = of_nat n \<longleftrightarrow> unat b mod 128 = n" if "n < 128" for b :: "8 word"
proof -
  have "unat (ucast (b AND 0x7f) :: 64 word) = unat b mod 128"
    using low_seven [of b] by (simp add: unsigned_ucast_eq take_bit_nat_eq_self)
  moreover have "unat (of_nat n :: 64 word) = n" using that by (simp add: unsigned_of_nat take_bit_nat_eq_self)
  ultimately show ?thesis by (metis unsigned_word_eqI)
qed

lemma fetch_length:
  assumes "length msg = 2048"
  shows "fetch_payload_length msg 1 r = Inr (r\<lparr>payload_length := of_nat (ws_announced msg)\<rparr>,
      ws_data_start msg - (if unat (msg ! 1) < 128 then 0 else 4))"
proof -
  let ?b = "msg ! 1"
  have two: "take 2 (drop 2 msg) = [msg ! 2, msg ! 3]"
    using assms by (intro nth_equalityI) (auto simp: less_Suc_eq numeral_2_eq_2 numeral_3_eq_3)
  have c: "(ucast (?b AND 0x7f) :: 64 word) = 126 \<longleftrightarrow> unat ?b mod 128 = 126"
    "(ucast (?b AND 0x7f) :: 64 word) = 127 \<longleftrightarrow> unat ?b mod 128 = 127"
    using small_word [of 126 ?b] small_word [of 127 ?b] by simp_all
  have "(ucast (?b AND 0x7f) :: 64 word) = of_nat (unat ?b mod 128)" using small_word [of "unat ?b mod 128" ?b] by simp
  moreover have "drop (Suc (Suc 0)) msg = drop 2 msg" by (simp add: numeral_2_eq_2)
  ultimately show ?thesis
    using assms c two
    by (simp add: fetch_payload_length_def byte_at_def bytes_at_def Let_def ws_announced_def ws_data_start_def
        ntohs_bytes ntohll_id)
qed

lemma announced_bound: "ws_announced msg < 2 ^ 64"
proof -
  have "unat (x :: 16 word) < 2 ^ 64" for x
    by (rule less_trans [OF unsigned_less [of x]]) simp
  moreover have "unat (y :: 64 word) < 2 ^ 64" for y using unsigned_less [of y, where ?'a = nat] by simp
  moreover have "unat (msg ! 1) mod 128 < 2 ^ 64" by (rule less_trans [OF mod_less_divisor]) simp_all
  ultimately show ?thesis unfolding ws_announced_def Let_def by auto
qed

lemma fetch_info_eq:
  assumes len: "length msg = 2048"
  shows "fetch_websocket_info msg r =
    (let d = ws_data_start msg; n = ws_announced msg; masked = \<not> unat (msg ! 1) < 128
     in if d + n \<le> 2048
        then Inr (r\<lparr>fin := drop_bit 7 (msg ! 0), opcode := msg ! 0 AND 0x0f, ws_mask := drop_bit 7 (msg ! 1),
               masking_key := (if masked then take 4 (drop (d - 4) msg) else masking_key r),
               payload_length := of_nat n,
               payload := (if masked then map (\<lambda>j. msg ! (d + j) XOR msg ! (d - 4 + j mod 4)) [0..<n] else take n (drop d msg))
                 @ replicate (2048 - n) 0\<rparr>)
        else Inl Out_Of_Bounds)"
proof -
  let ?d = "ws_data_start msg" and ?n = "ws_announced msg"
  have n: "unat (of_nat ?n :: 64 word) = ?n"
    using announced_bound [of msg] by (simp add: unsigned_of_nat take_bit_nat_eq_self)
  have d: "?d \<le> 14" "unat (msg ! 1) < 128 \<or> 6 \<le> ?d" by (auto simp: ws_data_start_def Let_def)
  show ?thesis
  proof (cases "unat (msg ! 1) < 128")
    case True
    then have "drop_bit 7 (msg ! 1) \<noteq> 1" using top_bit by blast
    then show ?thesis
      using True len d n fetch_length [OF len]
      by (auto simp: fetch_websocket_info_def fetch_fin_def fetch_opcode_def fetch_mask_def fetch_masking_key_def
          fetch_payload_def byte_at_def bytes_at_def Let_def)
  next
    case False
    then have m: "drop_bit 7 (msg ! 1) = 1" using top_bit by blast
    have key: "take 4 (drop (?d - 4) msg) ! (j mod 4) = msg ! (?d - 4 + j mod 4)" for j
      using len d by (simp add: nth_drop)
    show ?thesis
      using False m len d n fetch_length [OF len]
      by (auto simp: fetch_websocket_info_def fetch_fin_def fetch_opcode_def fetch_mask_def fetch_masking_key_def
          fetch_payload_def byte_at_def bytes_at_def Let_def unmask_loop_eq key)
  qed
qed

lemma unat_or_128: "unat x < 128 \<Longrightarrow> unat (0x80 OR x :: 8 word) = 128 + unat x"
proof -
  assume x: "unat x < 128"
  have "\<not> bit x 7"
  proof
    assume "bit x 7"
    then have "bit (unat x) 7" by (simp add: bit_unsigned_iff)
    with x show False by (simp add: bit_iff_odd)
  qed
  moreover have "(0x80 :: 8 word) = push_bit 7 1" by simp
  ultimately have "0x80 OR x = 0x80 + x"
    by (metis (no_types, lifting) bit_1_iff bit_push_bit_iff disjunctive_add le_add_diff_inverse add_0_right)
  then show ?thesis using x unat_add_small [of "0x80" x] by simp
qed

lemma unat_flag: "unat x < 128 \<Longrightarrow> unat ((if b then 0x80 else 0) OR x :: 8 word) = (if b then 128 else 0) + unat x"
  by (simp add: unat_or_128)

lemma unat_eqI: "unat a = unat b \<Longrightarrow> a = b"
  by (rule unsigned_word_eqI)

lemma big_endian16:
  assumes "n < 2 ^ 16"
  shows "from_bytes [of_nat (n mod 256), of_nat (n div 256)] = (of_nat n :: 16 word)"
proof -
  let ?w = "of_nat n :: 16 word"
  have w: "unat ?w = n" using assms by (simp add: unsigned_of_nat take_bit_nat_eq_self)
  have "unat (ucast (drop_bit k ?w) :: 8 word) = n div 2 ^ k mod 256" for k
    using w by (simp add: unsigned_ucast_eq unat_drop_bit_eq drop_bit_nat_def take_bit_nat_def)
  from this [of 0] this [of 8] have "ucast ?w = (of_nat (n mod 256) :: 8 word)" "ucast (drop_bit 8 ?w) = (of_nat (n div 256) :: 8 word)"
    using assms by (auto intro!: unat_eqI simp: unsigned_of_nat take_bit_nat_def)
  then have "to_bytes ?w = [of_nat (n mod 256), of_nat (n div 256)]"
    by (simp add: to_bytes_def upt_rec)
  then show ?thesis using from_to_bytes [of ?w] by simp
qed

lemma frame_head:
  assumes "msg = ws_frame final op key data @ rest" "unat op < 16" "length data < 2 ^ 16"
  shows "drop_bit 7 (msg ! 0) = (if final then 1 else 0)" "msg ! 0 AND 0x0f = op"
    "unat (msg ! 1) < 128 \<longleftrightarrow> key = None" "ws_announced msg = length data"
    "ws_data_start msg = 2 + (if length data < 126 then 0 else 2) + (if key = None then 0 else 4)"
proof -
  let ?n = "if length data < 126 then length data else 126"
  have m0: "unat (msg ! 0) = (if final then 128 else 0) + unat op"
    using assms by (simp add: ws_frame_def unat_flag)
  have "unat (of_nat ?n :: 8 word) = ?n" by (simp add: unsigned_of_nat take_bit_nat_eq_self)
  then have m1: "unat (msg ! 1) = (if key \<noteq> None then 128 else 0) + ?n"
    using assms unat_flag [of "of_nat ?n" "key \<noteq> None"] by (simp add: ws_frame_def)
  show "drop_bit 7 (msg ! 0) = (if final then 1 else 0)"
    using m0 assms(2) top_bit [of "msg ! 0"] by (auto simp: unat_eq_0)
  have "(128 + unat op) mod 16 = unat op" using assms(2) by presburger
  then have "unat (msg ! 0 AND 0x0f) = unat op" using m0 assms(2) by simp
  then show "msg ! 0 AND 0x0f = op" by (rule unsigned_word_eqI)
  show "unat (msg ! 1) < 128 \<longleftrightarrow> key = None" using m1 by simp
  have mod: "unat (msg ! 1) mod 128 = ?n" using m1 by simp
  show "ws_data_start msg = 2 + (if length data < 126 then 0 else 2) + (if key = None then 0 else 4)"
    unfolding ws_data_start_def mod using m1 by (simp add: Let_def)
  show "ws_announced msg = length data"
  proof (cases "length data < 126")
    case True
    then show ?thesis unfolding ws_announced_def mod by (simp add: Let_def)
  next
    case False
    have "msg ! 2 = of_nat (length data div 256)" "msg ! 3 = of_nat (length data mod 256)"
      using assms(1) False by (simp_all add: ws_frame_def)
    then have "from_bytes [msg ! 3, msg ! 2] = (of_nat (length data) :: 16 word)"
      using big_endian16 [OF assms(3)] by simp
    moreover have "unat (of_nat (length data) :: 16 word) = length data"
      using assms(3) by (simp add: unsigned_of_nat take_bit_nat_eq_self)
    ultimately show ?thesis using False unfolding ws_announced_def mod by (simp add: Let_def)
  qed
qed

lemma xor_twice: "(a XOR k) XOR k = (a :: 8 word)"
  by (simp add: xor.assoc)

section \<open>Properties\<close>

text \<open>
  C31. Frames of the WebSocket protocol are parsed correctly: for every frame of RFC 6455, masked or not,
  with a payload below \<open>2^16\<close> bytes, that fits into the receive buffer, \<open>fetch_websocket_info\<close> finds the
  final flag, the opcode, the payload length and the unmasked payload.
\<close>

theorem frame_parsed:
  assumes "length (ws_frame final op key data @ rest) = 2048" and "unat op < 16" and "length data < 2 ^ 16"
    and "case key of None \<Rightarrow> True | Some k \<Rightarrow> length k = 4"
  shows "\<exists>r'. fetch_websocket_info (ws_frame final op key data @ rest) r = Inr r'
    \<and> fin r' = (if final then 1 else 0) \<and> opcode r' = op \<and> ws_mask r' = (if key = None then 0 else 1)
    \<and> unat (payload_length r') = length data \<and> payload r' = data @ replicate (2048 - length data) 0"
proof -
  let ?msg = "ws_frame final op key data @ rest"
  note head = frame_head [OF refl assms(2,3), of final key rest]
  obtain H where H: "length H = 2 + (if length data < 126 then 0 else 2)"
    "?msg = H @ (case key of None \<Rightarrow> data | Some k \<Rightarrow> k @ map (\<lambda>i. data ! i XOR k ! (i mod 4)) [0..<length data]) @ rest"
    by (rule that [of "take (2 + (if length data < 126 then 0 else 2)) ?msg"]) (auto simp: ws_frame_def numeral_2_eq_2)
  have n: "unat (of_nat (length data) :: 64 word) = length data"
    using announced_bound [of ?msg] head(4) by (simp add: unsigned_of_nat take_bit_nat_eq_self)
  have mask: "drop_bit 7 (?msg ! 1) = (if key = None then 0 else 1)"
    using head(3) top_bit [of "?msg ! 1"] by (auto simp: unat_eq_0)
  show ?thesis
  proof (cases key)
    case None
    then have "ws_data_start ?msg = length H" using head(5) H(1) by simp
    moreover have "length H + length data \<le> 2048" using assms(1) H(2) None by simp
    moreover have "take (length data) (drop (length H) ?msg) = data" using H(2) None by simp
    ultimately show ?thesis
      using fetch_info_eq [OF assms(1), of r] head mask None n by (simp add: Let_def)
  next
    case (Some k)
    let ?D = "map (\<lambda>i. data ! i XOR k ! (i mod 4)) [0..<length data]"
    have k: "length k = 4" using assms(4) Some by simp
    have d: "ws_data_start ?msg = length H + 4" using head(5) H(1) Some by simp
    have msg: "?msg = H @ k @ ?D @ rest" using H(2) Some by simp
    have "length H + 4 + length data \<le> 2048" using assms(1) msg k by simp
    moreover have "map (\<lambda>j. ?msg ! (length H + 4 + j) XOR ?msg ! (length H + j mod 4)) [0..<length data] = data"
      unfolding msg by (rule nth_equalityI) (simp_all add: nth_append k xor_twice)
    ultimately show ?thesis
      using fetch_info_eq [OF assms(1), of r] head(1-4) mask Some n d by (simp add: Let_def)
  qed
qed

theorem frame_parsed_witness:
  "\<exists>r'. fetch_websocket_info (ws_frame True 1 (Some [1, 2, 3, 4]) [0x48, 0x69] @ replicate 2040 0) Websocket_Request_new = Inr r'
    \<and> fin r' = 1 \<and> opcode r' = 1 \<and> ws_mask r' = 1
    \<and> unat (payload_length r') = 2 \<and> payload r' = [0x48, 0x69] @ replicate 2046 0"
  using frame_parsed [of True 1 "Some [1, 2, 3, 4]" "[0x48, 0x69]" "replicate 2040 0" Websocket_Request_new]
  by (simp add: ws_frame_def flip: numeral_2_eq_2)

text \<open>
  C37. The parser does not check lengths: on a full receive buffer it stays inside its arrays exactly
  when the header and the announced payload fit into the 2048 bytes of the buffer, and otherwise reads
  (and writes) out of bounds. A 64-bit length is taken in the byte order of the machine.
\<close>

theorem frame_fetch_safe_iff:
  assumes "length msg = 2048"
  shows "case fetch_websocket_info msg r of
      Inr r' \<Rightarrow> ws_data_start msg + ws_announced msg \<le> 2048 \<and> unat (payload_length r') = ws_announced msg
    | Inl e \<Rightarrow> e = Out_Of_Bounds \<and> 2048 < ws_data_start msg + ws_announced msg"
proof -
  have "unat (of_nat (ws_announced msg) :: 64 word) = ws_announced msg"
    using announced_bound [of msg] by (simp add: unsigned_of_nat take_bit_nat_eq_self)
  then show ?thesis by (simp add: fetch_info_eq [OF assms] Let_def)
qed

theorem frame_fetch_safe_iff_witness:
  "fetch_websocket_info ([0x82, 127, 0, 0, 0, 0, 0, 0, 0, 1] @ replicate 2038 0) Websocket_Request_new = Inl Out_Of_Bounds"
proof -
  let ?msg = "[0x82, 127, 0, 0, 0, 0, 0, 0, 0, 1] @ replicate 2038 (0 :: 8 word)"
  have "from_bytes (take 8 (drop 2 ?msg)) = (0x100000000000000 :: 64 word)" by (simp add: from_bytes_def)
  then have "ws_announced ?msg = 0x100000000000000" by (simp add: ws_announced_def)
  moreover have "length ?msg = 2048" by simp
  ultimately show ?thesis
    using frame_fetch_safe_iff [of ?msg Websocket_Request_new] by (auto split: sum.splits)
qed

end
