(* ===== verification/Websocket_Handshake.thy ===== *)
theory Websocket_Handshake
  imports Websocket
begin

text \<open>
  Correctness of the opening handshake of the WebSocket server: the headers of an upgrade request are
  read, and the answer carries the accept value of the protocol, computed by the verified SHA-1 and
  Base64 routines.
\<close>

section \<open>The handshake\<close>

text \<open>The HTTP text of an upgrade request, and the accept value of RFC 6455, section 4.2.2.\<close>

definition header_line :: "string \<times> string \<Rightarrow> string" where
  "header_line = (\<lambda>(k, v). k @ '': '' @ v @ [CR])"

definition upgrade_text :: "string \<Rightarrow> (string \<times> string) list \<Rightarrow> string" where
  "upgrade_text request_line hs =
     concat (map (\<lambda>l. l @ [LF]) ((request_line @ [CR]) # map header_line hs @ [[CR]]))"

definition plain_text :: "string \<Rightarrow> bool" where
  "plain_text s \<longleftrightarrow> list_all (\<lambda>c. c \<noteq> CHR 0x00 \<and> c \<noteq> LF) s"

definition ws_accept :: "string \<Rightarrow> string" where
  "ws_accept key = base64_spec (concat (map (\<lambda>w. map (\<lambda>k. unat w div 2 ^ k mod 256) [24, 16, 8, 0])
     (sha1 (bytes_of (key @ MAGIC_KEY)))))"

lemma text_of_bytes [simp]: "text_of (bytes_of s) = s"
  by (simp add: text_of_def bytes_of_def unsigned_of_nat take_bit_nat_eq_self map_idI)

lemma bytes_of_zero: "plain_text s \<Longrightarrow> 0 \<notin> set (bytes_of s)"
proof
  assume s: "plain_text s" "0 \<in> set (bytes_of s)"
  then obtain c where c: "c \<in> set s" "(of_nat (of_char c) :: 8 word) = 0" by (auto simp: bytes_of_def)
  then have "text_of [0] = [c]" using text_of_bytes [of "[c]"] by (simp add: bytes_of_def)
  then have "c = CHR 0x00" by (simp add: text_of_def char_of_def)
  with c s(1) show False by (auto simp: plain_text_def list_all_iff)
qed

lemma c_string_bytes:
  assumes "0 \<notin> set (bytes_of s)" "0 < n"
  shows "c_string (bytes_of s @ replicate n 0) = Inr s"
proof -
  have "takeWhile (\<lambda>b. b \<noteq> 0) (bytes_of s @ replicate n 0) = bytes_of s"
    using assms by (subst takeWhile_append2) (auto simp: takeWhile_eq_Nil_iff)
  then show ?thesis using assms by (simp add: c_string_def)
qed

lemma find_sub_here: "CHR '':'' \<notin> set k \<Longrightarrow> find_sub '': '' (k @ '': '' @ v) = Some (length k)"
  by (induction k) auto

lemma add_header_line: "CHR '':'' \<notin> set k \<Longrightarrow> add_header (k @ '': '' @ v) m = mput k v m"
  using find_sub_here [of k v] by (simp add: add_header_def)

lemma fetch_headers_lines:
  assumes "\<forall>(k, v) \<in> set hs. CHR '':'' \<notin> set k"
  shows "fetch_headers (map header_line hs @ [CR] # rest) m = Inr (foldl (\<lambda>m (k, v). mput k v m) m hs)"
  using assms
proof (induction hs arbitrary: m)
  case (Cons h hs)
  obtain k v where h: "h = (k, v)" by (cases h)
  have ne: "header_line (k, v) \<noteq> [CR]" "header_line (k, v) \<noteq> []" "last (header_line (k, v)) = CR"
    "butlast (header_line (k, v)) = k @ '': '' @ v"
    by (auto simp: header_line_def append_eq_Cons_conv butlast_append)
  show ?case using Cons ne add_header_line [of k v] by (simp add: h)
qed simp

lemma foldl_mput:
  "distinct (map fst hs) \<Longrightarrow> map_of (foldl (\<lambda>m (k, v). mput k v m) m hs) = map_of m ++ map_of hs"
proof (induction hs arbitrary: m)
  case (Cons h hs)
  then show ?case
    by (cases h) (auto simp: map_of_mput map_add_def fun_eq_iff map_of_eq_None_iff [symmetric] split: option.splits)
qed simp

lemma fetch_http_upgrade:
  assumes "plain_text request_line" "\<forall>(k, v) \<in> set hs. plain_text k \<and> plain_text v \<and> CHR '':'' \<notin> set k" "0 < n"
  shows "fetch_http_info (bytes_of (upgrade_text request_line hs) @ replicate n 0) m =
    Inr (foldl (\<lambda>m (k, v). mput k v m) m hs)"
proof -
  let ?ls = "(request_line @ [CR]) # map header_line hs @ [[CR]]"
  have pl: "plain_text l" if "l \<in> set ?ls" for l
    using that assms(1,2) by (auto simp: plain_text_def header_line_def)
  have "LF \<notin> set l" if "l \<in> set ?ls" for l using pl [OF that] by (auto simp: plain_text_def list_all_iff)
  then have "\<forall>l \<in> set ?ls. LF \<notin> set l" by blast
  then have lines: "getlines (upgrade_text request_line hs) = ?ls"
    unfolding upgrade_text_def by (rule getlines_concat)
  have "0 \<notin> set (bytes_of (upgrade_text request_line hs))"
  proof -
    have "0 \<notin> set (bytes_of (concat (map (\<lambda>l. l @ [LF]) ls)))" if "\<forall>l \<in> set ls. plain_text l" for ls
      using that
    proof (induction ls)
      case (Cons l ls)
      then show ?case using bytes_of_zero [of l] by (simp add: bytes_of_def)
    qed (simp add: bytes_of_def)
    then show ?thesis unfolding upgrade_text_def using pl by blast
  qed
  then have c: "c_string (bytes_of (upgrade_text request_line hs) @ replicate n 0) = Inr (upgrade_text request_line hs)"
    using assms(3) by (rule c_string_bytes)
  have "\<forall>(k, v) \<in> set hs. CHR '':'' \<notin> set k" using assms(2) by auto
  then show ?thesis
    unfolding fetch_http_info_def c lines sum.case list.case by (simp add: fetch_headers_lines)
qed

lemma shift_in_absorbed:
  assumes "length (Message_Block mem) = 64" "0 \<notin> set bs" "length bs < 2 ^ 61"
  shows "fst (sha_Result (shift_in bs (sha_Reset mem))) = Some (sha1 bs)"
proof -
  have pieces: "foldl (\<lambda>s c. sha_Input [c] s) s bs = foldl (\<lambda>s p. sha_Input p s) s (map (\<lambda>c. [c]) bs)" for s
    by (simp add: foldl_map)
  have tw: "takeWhile (\<lambda>c. c \<noteq> 0) bs = bs" using assms(2) by (auto simp: takeWhile_eq_all_conv)
  have "concat (map (\<lambda>c. [c]) bs) = bs" by (induction bs) auto
  then have "absorbed bs (shift_in bs (sha_Reset mem))"
    using absorbed_pieces [OF absorbed_Reset [OF assms(1)], of "map (\<lambda>c. [c]) bs"] assms(3)
    unfolding shift_in_def tw pieces by simp
  then show ?thesis by (simp add: Result_absorbed)
qed

lemma unat_be_bytes: "map unat (to_bytes (htonl w)) = map (\<lambda>k. unat w div 2 ^ k mod 256) [24, 16, 8, 0]"
proof -
  have "to_bytes (htonl w) = rev (to_bytes w)" unfolding htonl_def by (rule to_from_bytes) simp
  moreover have byte: "unat (ucast (drop_bit k w) :: 8 word) = unat w div 2 ^ k mod 256" for k
    by (simp add: unsigned_ucast_eq unat_drop_bit_eq drop_bit_nat_def take_bit_nat_def)
  ultimately show ?thesis using byte [of 0] by (simp add: to_bytes_def upt_rec)
qed

lemma accept_key_eq:
  assumes "length (Message_Block mem) = 64" "0 \<notin> set (bytes_of key)" "length key < 2 ^ 60"
  shows "accept_key mem key = Inr (ws_accept key)"
proof -
  let ?bs = "bytes_of (key @ MAGIC_KEY)"
  have "0 \<notin> set (bytes_of MAGIC_KEY)" by code_simp
  then have "0 \<notin> set ?bs" using assms(2) by (simp add: bytes_of_def)
  moreover have "length ?bs < 2 ^ 61" using assms(3) by (simp add: bytes_of_def MAGIC_KEY_def)
  moreover have "length (Message_Block (sha_Reset mem)) = 64" using assms(1) by (simp add: sha_Reset_def)
  ultimately have "fst (sha_Result (shift_in ?bs (sha_Reset (sha_Reset mem)))) = Some (sha1 ?bs)"
    by (intro shift_in_absorbed)
  then show ?thesis
    by (simp add: accept_key_def Let_def ws_accept_def base64_encode_def encode_is_spec map_concat o_def unat_be_bytes)
qed

lemma length_base64_spec: "length (base64_spec ns) = 4 * ((length ns + 2) div 3)"
proof (induction ns rule: base64_spec.induct)
  case (1 a b c r)
  have "(length (a # b # c # r) + 2) div 3 = Suc ((length r + 2) div 3)" by simp
  then show ?case using 1 by (simp only: base64_spec.simps Let_def length_append length_map) simp
qed (simp_all add: Let_def)

lemma length_accept: "length (ws_accept key) = 28"
proof -
  have "length (sha1 m) = 5" for m by (simp add: sha1_def chain_words_def split: prod.split)
  then have "length (concat (map (\<lambda>w. map (\<lambda>k. unat w div 2 ^ k mod 256) [24, 16, 8, 0]) (sha1 m))) = 20" for m
    by (simp add: length_concat o_def sum_list_triv)
  then show ?thesis by (simp add: ws_accept_def length_base64_spec)
qed

lemma line_length: "x \<in> set ls \<Longrightarrow> length x \<le> length (concat (map (\<lambda>l. l @ [LF]) ls))"
  by (induction ls) auto

section \<open>Property\<close>

text \<open>
  C23. The opening handshake follows RFC 6455: when an unconnected handler has received an upgrade request
  with distinct, well-formed headers, \<open>process\<close> answers with status 101 and the accept value that is the
  Base64 encoding of the SHA-1 digest of the client's key and the protocol's GUID, and the handler is
  connected; the answer fits into the fixed buffer of \<open>handshark\<close>.
\<close>

theorem handshake_accepts:
  assumes "ws_status h = WEBSOCKET_UNCONNECT" and "header_map h = []" and "length (Message_Block mem) = 64"
    and "ws_buff h = bytes_of (upgrade_text request_line hs) @ replicate n 0" and "0 < n" and "length (ws_buff h) = 2048"
    and "plain_text request_line"
    and "list_all (\<lambda>(k, v). plain_text k \<and> plain_text v \<and> CHR '':'' \<notin> set k) hs" and "distinct (map fst hs)"
    and "map_of hs ''Sec-WebSocket-Key'' = Some key"
  shows "\<exists>h'. ws_process mem h = Inr (Some (''HTTP/1.1 101 Switching Protocols'' @ EOL @ ''Connection: upgrade'' @ EOL
      @ ''Sec-WebSocket-Accept: '' @ ws_accept key @ EOL @ ''Upgrade: websocket'' @ EOL @ EOL), h')
    \<and> ws_status h' = WEBSOCKET_HANDSHARKED"
proof -
  let ?m = "foldl (\<lambda>m (k, v). mput k v m) [] hs"
  have hs: "\<forall>(k, v) \<in> set hs. plain_text k \<and> plain_text v \<and> CHR '':'' \<notin> set k"
    using assms(8) by (simp add: list_all_iff)
  then have info: "fetch_http_info (ws_buff h) [] = Inr ?m"
    unfolding assms(4) using fetch_http_upgrade [OF assms(7) _ assms(5)] by blast
  have look: "map_of ?m ''Sec-WebSocket-Key'' = Some key" using assms(9,10) by (simp add: foldl_mput)
  have mem: "(''Sec-WebSocket-Key'', key) \<in> set hs" using assms(10) by (rule map_of_SomeD)
  have "0 \<notin> set (bytes_of key)" using hs mem by (intro bytes_of_zero) auto
  moreover have "length key < 2 ^ 60"
  proof -
    have "length (header_line (''Sec-WebSocket-Key'', key)) \<le> length (upgrade_text request_line hs)"
      unfolding upgrade_text_def using mem by (intro line_length) (simp add: image_iff, blast)
    also have "\<dots> \<le> 2048" using assms(4,6) by (simp add: bytes_of_def)
    finally show ?thesis by (simp add: header_line_def)
  qed
  ultimately have "accept_key mem key = Inr (ws_accept key)" using assms(3) by (intro accept_key_eq)
  then show ?thesis
    using info look assms(1,2) length_accept [of key]
    by (simp add: ws_process_def handshark_def parse_str_def)
qed

definition example_headers :: "(string \<times> string) list" where
  "example_headers = [(''Host'', ''server''), (''Sec-WebSocket-Key'', ''dGhlIHNhbXBsZSBub25jZQ=='')]"

definition example_handler :: Websocket_Handler where
  "example_handler = \<lparr>ws_buff = bytes_of (upgrade_text ''GET /chat HTTP/1.1'' example_headers) @ replicate 1967 0,
     ws_status = WEBSOCKET_UNCONNECT, header_map = [], ws_request = Websocket_Request_new\<rparr>"

theorem handshake_accepts_witness:
  "\<exists>h'. ws_process example_block example_handler =
      Inr (Some (''HTTP/1.1 101 Switching Protocols'' @ EOL @ ''Connection: upgrade'' @ EOL
        @ ''Sec-WebSocket-Accept: '' @ ws_accept ''dGhlIHNhbXBsZSBub25jZQ=='' @ EOL @ ''Upgrade: websocket'' @ EOL @ EOL), h')
    \<and> ws_status h' = WEBSOCKET_HANDSHARKED"
proof (rule handshake_accepts)
  show "ws_buff example_handler = bytes_of (upgrade_text ''GET /chat HTTP/1.1'' example_headers) @ replicate 1967 0"
    by (simp add: example_handler_def)
  show "length (ws_buff example_handler) = 2048"
    by (simp add: example_handler_def bytes_of_def upgrade_text_def header_line_def example_headers_def)
qed (simp_all add: example_handler_def example_headers_def example_block_def plain_text_def)

end
