(* ===== verification/Load_Balancer.thy ===== *)
theory Load_Balancer
  imports CppString
begin

text \<open>
  The server node and the base class of the load balancers (\<open>Stdbalancing/include/server/Server.h\<close>,
  \<open>balancer/LoadBalancer.h\<close>). Servers are shared: the vector \<open>servers\<close>, the index \<open>server_map\<close> and the
  clients hold pointers to the same objects, so the objects live in a \<open>store\<close> from pointers to
  \<open>Server\<close> records and a balancer holds pointers only. The two atomic counters wrap at their width.

  A subclass extends the record \<open>LoadBalancer\<close> and supplies the virtual functions; the operations of
  the base class take them as arguments. The locale \<open>balancer\<close> is the contract of those virtual
  functions, and what every balancer guarantees is proved in it once: the index stays in step with the
  vector, and a server that has been marked down is not handed out.
\<close>

section \<open>Server nodes\<close>

record Server =
  server_id :: string
  address :: string
  weight :: int
  current_connections :: "32 word"
  total_requests :: "64 word"
  failed_requests :: "64 word"
  is_alive :: bool
  last_check_time :: time_point

type_synonym server_ptr = nat
type_synonym store = "server_ptr \<Rightarrow> Server"

definition Server_new :: "string \<Rightarrow> string \<Rightarrow> int \<Rightarrow> time_point \<Rightarrow> Server" where
  "Server_new sid addr w now =
     \<lparr>server_id = sid, address = addr, weight = w, current_connections = 0, total_requests = 0,
      failed_requests = 0, is_alive = True, last_check_time = now\<rparr>"

definition getCurrentConnections :: "Server \<Rightarrow> int" where
  "getCurrentConnections s = sint (current_connections s)"

definition setWeight :: "int \<Rightarrow> Server \<Rightarrow> Server" where
  "setWeight w s = s\<lparr>weight := w\<rparr>"

definition addConnection :: "Server \<Rightarrow> Server" where
  "addConnection s =
     s\<lparr>current_connections := current_connections s + 1, total_requests := total_requests s + 1\<rparr>"

definition removeConnection :: "Server \<Rightarrow> Server" where
  "removeConnection s =
     (if getCurrentConnections s > 0 then s\<lparr>current_connections := current_connections s - 1\<rparr> else s)"

definition recordFailure :: "Server \<Rightarrow> Server" where
  "recordFailure s = s\<lparr>failed_requests := failed_requests s + 1\<rparr>"

definition setAlive :: "bool \<Rightarrow> time_point \<Rightarrow> Server \<Rightarrow> Server" where
  "setAlive alive now s = s\<lparr>is_alive := alive, last_check_time := now\<rparr>"

definition Server_reset :: "Server \<Rightarrow> Server" where
  "Server_reset s = s\<lparr>current_connections := 0, total_requests := 0, failed_requests := 0\<rparr>"

text \<open>Calling a method of the object behind a pointer.\<close>

definition update_at :: "server_ptr \<Rightarrow> (Server \<Rightarrow> Server) \<Rightarrow> store \<Rightarrow> store" where
  "update_at p f st = st(p := f (st p))"

lemma update_at_same [simp]: "update_at p f st p = f (st p)"
  by (simp add: update_at_def)

lemma update_at_other [simp]: "q \<noteq> p \<Longrightarrow> update_at p f st q = st q"
  by (simp add: update_at_def)

named_theorems server_simps \<open>which members the methods of a server leave alone\<close>

lemma server_keeps [server_simps]:
  "server_id (addConnection s) = server_id s" "weight (addConnection s) = weight s"
  "is_alive (addConnection s) = is_alive s"
  "server_id (removeConnection s) = server_id s" "weight (removeConnection s) = weight s"
  "is_alive (removeConnection s) = is_alive s"
  "server_id (recordFailure s) = server_id s" "weight (recordFailure s) = weight s"
  "is_alive (recordFailure s) = is_alive s"
  "server_id (setAlive a t s) = server_id s" "weight (setAlive a t s) = weight s"
  "is_alive (setAlive a t s) = a"
  "server_id (Server_reset s) = server_id s" "weight (Server_reset s) = weight s"
  "is_alive (Server_reset s) = is_alive s"
  by (simp_all add: addConnection_def removeConnection_def recordFailure_def setAlive_def Server_reset_def)

lemma update_at_field:
  assumes "f (g (st p)) = f (st p)"
  shows "f (update_at p g st q) = f (st q)"
  using assms by (simp add: update_at_def)

lemma update_at_keeps [server_simps]:
  "server_id (update_at p addConnection st q) = server_id (st q)"
  "weight (update_at p addConnection st q) = weight (st q)"
  "is_alive (update_at p addConnection st q) = is_alive (st q)"
  "server_id (update_at p (setAlive a t) st q) = server_id (st q)"
  "weight (update_at p (setAlive a t) st q) = weight (st q)"
  "server_id (update_at p removeConnection st q) = server_id (st q)"
  "is_alive (update_at p removeConnection st q) = is_alive (st q)"
  by (rule update_at_field, simp add: server_simps)+

section \<open>The base class\<close>

record LoadBalancer =
  servers :: "server_ptr list"
  server_map :: "string \<rightharpoonup> server_ptr"

definition LoadBalancer_new :: LoadBalancer where
  "LoadBalancer_new = \<lparr>servers = [], server_map = Map.empty\<rparr>"

definition addServer ::
  "(server_ptr \<Rightarrow> store \<Rightarrow> 'a LoadBalancer_scheme \<Rightarrow> 'a LoadBalancer_scheme) \<Rightarrow>
   server_ptr \<Rightarrow> store \<Rightarrow> 'a LoadBalancer_scheme \<Rightarrow> 'a LoadBalancer_scheme" where
  "addServer onServerAdded server st lb =
     (let lb = lb\<lparr>servers := servers lb @ [server]\<rparr>;
          lb = lb\<lparr>server_map := (server_map lb)(server_id (st server) \<mapsto> server)\<rparr>
      in onServerAdded server st lb)"

definition removeServer ::
  "(server_ptr \<Rightarrow> store \<Rightarrow> 'a LoadBalancer_scheme \<Rightarrow> 'a LoadBalancer_scheme) \<Rightarrow>
   string \<Rightarrow> store \<Rightarrow> 'a LoadBalancer_scheme \<Rightarrow> bool \<times> 'a LoadBalancer_scheme" where
  "removeServer onServerRemoved sid st lb =
     (case server_map lb sid of
        None \<Rightarrow> (False, lb)
      | Some it \<Rightarrow>
          let lb = lb\<lparr>servers := filter (\<lambda>s. server_id (st s) \<noteq> sid) (servers lb)\<rparr>;
              lb = onServerRemoved it st lb
          in (True, lb\<lparr>server_map := (server_map lb)(sid := None)\<rparr>))"

definition getAvailableServers :: "store \<Rightarrow> 'a LoadBalancer_scheme \<Rightarrow> server_ptr list" where
  "getAvailableServers st lb = filter (\<lambda>s. is_alive (st s)) (servers lb)"

definition markServerDown :: "string \<Rightarrow> time_point \<Rightarrow> 'a LoadBalancer_scheme \<Rightarrow> store \<Rightarrow> store" where
  "markServerDown sid now lb st =
     (case server_map lb sid of None \<Rightarrow> st | Some it \<Rightarrow> update_at it (setAlive False now) st)"

definition markServerUp :: "string \<Rightarrow> time_point \<Rightarrow> 'a LoadBalancer_scheme \<Rightarrow> store \<Rightarrow> store" where
  "markServerUp sid now lb st =
     (case server_map lb sid of None \<Rightarrow> st | Some it \<Rightarrow> update_at it (setAlive True now) st)"

definition getServerCount :: "'a LoadBalancer_scheme \<Rightarrow> nat" where
  "getServerCount lb = length (servers lb)"

definition getAvailableServerCount :: "store \<Rightarrow> 'a LoadBalancer_scheme \<Rightarrow> nat" where
  "getAvailableServerCount st lb =
     foldl (\<lambda>count s. if is_alive (st s) then count + 1 else count) 0 (servers lb)"

definition reset_servers :: "server_ptr list \<Rightarrow> store \<Rightarrow> store" where
  "reset_servers ps st = foldl (\<lambda>st p. update_at p Server_reset st) st ps"

definition lb_reset ::
  "(store \<Rightarrow> 'a LoadBalancer_scheme \<Rightarrow> 'a LoadBalancer_scheme) \<Rightarrow>
   store \<Rightarrow> 'a LoadBalancer_scheme \<Rightarrow> store \<times> 'a LoadBalancer_scheme" where
  "lb_reset onReset st lb = (let st = reset_servers (servers lb) st in (st, onReset st lb))"

definition getFirstAvailable :: "store \<Rightarrow> 'a LoadBalancer_scheme \<Rightarrow> server_ptr option" where
  "getFirstAvailable st lb = find (\<lambda>s. is_alive (st s)) (servers lb)"

lemma lb_getters:
  "getAvailableServerCount st lb = length (getAvailableServers st lb)"
  "getFirstAvailable st lb = (case getAvailableServers st lb of [] \<Rightarrow> None | p # _ \<Rightarrow> Some p)"
proof -
  have "foldl (\<lambda>c s. if is_alive (st s) then c + 1 else c) n ps = n + length (filter (\<lambda>s. is_alive (st s)) ps)"
    for n ps by (induction ps arbitrary: n) auto
  then show "getAvailableServerCount st lb = length (getAvailableServers st lb)"
    by (simp add: getAvailableServerCount_def getAvailableServers_def)
  have "find P ps = (case filter P ps of [] \<Rightarrow> None | p # _ \<Rightarrow> Some p)" for P and ps :: "server_ptr list"
    by (induction ps) auto
  then show "getFirstAvailable st lb = (case getAvailableServers st lb of [] \<Rightarrow> None | p # _ \<Rightarrow> Some p)"
    by (simp add: getFirstAvailable_def getAvailableServers_def)
qed

lemma reset_servers_field:
  assumes "\<And>s. f (Server_reset s) = f s"
  shows "f (reset_servers ps st q) = f (st q)"
  using assms by (induction ps arbitrary: st) (auto simp: reset_servers_def update_at_def)

lemma reset_servers_keeps [server_simps]:
  "server_id (reset_servers ps st q) = server_id (st q)"
  "weight (reset_servers ps st q) = weight (st q)"
  "is_alive (reset_servers ps st q) = is_alive (st q)"
  by (rule reset_servers_field, simp add: server_simps)+

section \<open>Histories\<close>

text \<open>
  A history interleaves the public operations of a balancer with \<open>removeConnection\<close>, which the client
  calls on a server when a request is done. The mutex of the balancer makes each of them one step. The
  type of \<open>Select\<close>'s argument is what the subclass needs to choose: a routing key, a random draw, the
  clock.
\<close>

datatype 'd lb_op =
    Add server_ptr
  | Remove string
  | Down string time_point
  | Up string time_point
  | Select 'd
  | Reset
  | Finish server_ptr

text \<open>The virtual functions of a subclass.\<close>

record ('d, 'a) lb_methods =
  onServerAdded :: "server_ptr \<Rightarrow> store \<Rightarrow> 'a LoadBalancer_scheme \<Rightarrow> 'a LoadBalancer_scheme"
  onServerRemoved :: "server_ptr \<Rightarrow> store \<Rightarrow> 'a LoadBalancer_scheme \<Rightarrow> 'a LoadBalancer_scheme"
  onReset :: "store \<Rightarrow> 'a LoadBalancer_scheme \<Rightarrow> 'a LoadBalancer_scheme"
  selectServer :: "'d \<Rightarrow> store \<Rightarrow> 'a LoadBalancer_scheme \<Rightarrow> server_ptr option \<times> store \<times> 'a LoadBalancer_scheme"

fun lb_step ::
  "('d, 'a) lb_methods \<Rightarrow> 'd lb_op \<Rightarrow> store \<times> 'a LoadBalancer_scheme \<Rightarrow>
   server_ptr option \<times> store \<times> 'a LoadBalancer_scheme" where
  "lb_step m (Add p) (st, lb) = (None, st, addServer (onServerAdded m) p st lb)"
| "lb_step m (Remove i) (st, lb) = (None, st, snd (removeServer (onServerRemoved m) i st lb))"
| "lb_step m (Down i t) (st, lb) = (None, markServerDown i t lb st, lb)"
| "lb_step m (Up i t) (st, lb) = (None, markServerUp i t lb st, lb)"
| "lb_step m (Select d) (st, lb) = selectServer m d st lb"
| "lb_step m Reset (st, lb) = (None, lb_reset (onReset m) st lb)"
| "lb_step m (Finish p) (st, lb) = (None, update_at p removeConnection st, lb)"

text \<open>The servers handed out along a history, and the state it ends in.\<close>

fun lb_run ::
  "('d, 'a) lb_methods \<Rightarrow> 'd lb_op list \<Rightarrow> store \<times> 'a LoadBalancer_scheme \<Rightarrow>
   server_ptr list \<times> store \<times> 'a LoadBalancer_scheme" where
  "lb_run m [] s = ([], s)"
| "lb_run m (op # ops) s =
     (case lb_step m op s of (r, s') \<Rightarrow>
        case lb_run m ops s' of (ps, s'') \<Rightarrow> (case r of None \<Rightarrow> ps | Some p \<Rightarrow> p # ps, s''))"

lemma lb_run_Cons:
  "lb_step m op s = (Some p, s') \<Longrightarrow> fst (lb_run m (op # ops) s) = p # fst (lb_run m ops s')"
  "lb_step m op s = (None, s') \<Longrightarrow> fst (lb_run m (op # ops) s) = fst (lb_run m ops s')"
  "lb_step m op s = (r, s') \<Longrightarrow> snd (lb_run m (op # ops) s) = snd (lb_run m ops s')"
  by (auto split: prod.split)

definition lb_inv :: "store \<Rightarrow> 'a LoadBalancer_scheme \<Rightarrow> bool" where
  "lb_inv st lb \<longleftrightarrow>
     (\<forall>i p. server_map lb i = Some p \<longrightarrow> p \<in> set (servers lb) \<and> server_id (st p) = i) \<and>
     (\<forall>p \<in> set (servers lb). server_map lb (server_id (st p)) \<noteq> None)"

definition ids_distinct :: "store \<Rightarrow> 'a LoadBalancer_scheme \<Rightarrow> bool" where
  "ids_distinct st lb \<longleftrightarrow> distinct (map (\<lambda>p. server_id (st p)) (servers lb))"

definition is_down :: "string \<Rightarrow> store \<Rightarrow> 'a LoadBalancer_scheme \<Rightarrow> bool" where
  "is_down i st lb \<longleftrightarrow> (\<forall>p \<in> set (servers lb). server_id (st p) = i \<longrightarrow> \<not> is_alive (st p))"

fun brings_up :: "string \<Rightarrow> store \<Rightarrow> 'd lb_op \<Rightarrow> bool" where
  "brings_up i st (Up j t) \<longleftrightarrow> j = i"
| "brings_up i st (Add p) \<longleftrightarrow> server_id (st p) = i"
| "brings_up i st _ \<longleftrightarrow> False"

lemma lb_inv_cong:
  assumes "\<And>p. server_id (st' p) = server_id (st p)" "servers lb' = servers lb" "server_map lb' = server_map lb"
  shows "lb_inv st' lb' = lb_inv st lb"
  using assms by (simp add: lb_inv_def)

lemma mark_keeps [server_simps]:
  "server_id (markServerDown i t lb st p) = server_id (st p)"
  "server_id (markServerUp i t lb st p) = server_id (st p)"
  "weight (markServerDown i t lb st p) = weight (st p)"
  "weight (markServerUp i t lb st p) = weight (st p)"
  by (simp_all add: markServerDown_def markServerUp_def server_simps split: option.split)

lemma mark_alive:
  "is_alive (markServerDown i t lb st p) \<longleftrightarrow> is_alive (st p) \<and> server_map lb i \<noteq> Some p"
  "is_alive (markServerUp i t lb st p) \<longleftrightarrow> is_alive (st p) \<or> server_map lb i = Some p"
  by (auto simp: markServerDown_def markServerUp_def update_at_def server_simps split: option.split)

text \<open>
  What the virtual functions of a subclass promise: the hooks touch only the members the subclass adds,
  the operations keep the invariant \<open>ok\<close> of those members, and a selection hands out a live registered
  server whose connection count it has raised, or changes no server at all.
\<close>

locale balancer =
  fixes m :: "('d, 'a) lb_methods" and ok :: "'a LoadBalancer_scheme \<Rightarrow> bool"
  assumes added_keeps: "servers (onServerAdded m p st lb) = servers lb"
      "server_map (onServerAdded m p st lb) = server_map lb"
    and removed_keeps: "servers (onServerRemoved m p st lb) = servers lb"
      "server_map (onServerRemoved m p st lb) = server_map lb"
    and reset_keeps: "servers (onReset m st lb) = servers lb"
      "server_map (onReset m st lb) = server_map lb"
    and select_keeps: "selectServer m d st lb = (r, st', lb') \<Longrightarrow> servers lb' = servers lb \<and> server_map lb' = server_map lb"
    and select_Some: "ok lb \<Longrightarrow> selectServer m d st lb = (Some p, st', lb') \<Longrightarrow>
      p \<in> set (getAvailableServers st lb) \<and> st' = update_at p addConnection st"
    and select_None: "selectServer m d st lb = (None, st', lb') \<Longrightarrow> st' = st"
    and added_ok: "ok lb \<Longrightarrow> ok (addServer (onServerAdded m) p st lb)"
    and removed_ok: "ok lb \<Longrightarrow> lb_inv st lb \<Longrightarrow> ok (snd (removeServer (onServerRemoved m) i st lb))"
    and reset_ok: "ok lb \<Longrightarrow> ok (onReset m st lb)"
    and select_ok: "ok lb \<Longrightarrow> selectServer m d st lb = (r, st', lb') \<Longrightarrow> ok lb'"
begin

lemma step_ids:
  assumes "ok lb" "lb_step m op (st, lb) = (r, st', lb')"
  shows "server_id (st' p) = server_id (st p)"
  using assms by (cases op; cases r) (auto simp: server_simps lb_reset_def Let_def dest: select_Some select_None)

lemma step_inv:
  assumes inv: "lb_inv st lb" and ok: "ok lb" and step: "lb_step m op (st, lb) = (r, st', lb')"
  shows "lb_inv st' lb'"
proof (cases op)
  case (Add p)
  with step have "st' = st" "servers lb' = servers lb @ [p]" "server_map lb' = (server_map lb)(server_id (st p) \<mapsto> p)"
    by (auto simp: addServer_def Let_def added_keeps)
  with inv show ?thesis by (auto simp: lb_inv_def)
next
  case (Remove i)
  with step inv show ?thesis
    by (cases "server_map lb i") (auto simp: removeServer_def Let_def removed_keeps lb_inv_def split: if_splits)
next
  case (Select d)
  with step_ids [OF ok step] select_keeps step inv show ?thesis by (auto simp: lb_inv_def)
next
  case Reset
  with step inv show ?thesis
    by (auto simp: lb_reset_def Let_def reset_keeps server_simps lb_inv_def)
qed (use step inv in \<open>auto simp: lb_inv_def server_simps\<close>)

lemma step_ok:
  assumes "ok lb" "lb_inv st lb" "lb_step m op (st, lb) = (r, st', lb')"
  shows "ok lb'"
  using assms added_ok [of lb] removed_ok [of lb st] reset_ok [of lb] select_ok [of lb]
  by (cases op) (auto simp: lb_reset_def Let_def)

lemma run_ids:
  assumes "lb_inv st lb" "ok lb" "lb_run m ops (st, lb) = (ps, st', lb')"
  shows "lb_inv st' lb' \<and> ok lb' \<and> (\<forall>p. server_id (st' p) = server_id (st p))"
  using assms
proof (induction ops arbitrary: st lb ps)
  case (Cons op ops)
  obtain r st1 lb1 where step: "lb_step m op (st, lb) = (r, st1, lb1)" by (metis prod_cases3)
  obtain qs where run: "lb_run m ops (st1, lb1) = (qs, st', lb')"
    using Cons.prems(3) step by (auto split: prod.splits)
  show ?case
    using Cons.IH [OF step_inv [OF Cons.prems(1,2) step] step_ok [OF Cons.prems(2,1) step] run]
      step_ids [OF Cons.prems(2) step] by simp
qed simp

lemma step_stays_down:
  assumes inv: "lb_inv st lb" and ok: "ok lb" and down: "is_down i st lb" and op: "\<not> brings_up i st op"
    and step: "lb_step m op (st, lb) = (r, st', lb')"
  shows "is_down i st' lb'"
proof (cases op)
  case (Add p)
  with step op down show ?thesis by (auto simp: addServer_def Let_def added_keeps is_down_def)
next
  case (Remove j)
  with step down show ?thesis
    by (cases "server_map lb j") (auto simp: removeServer_def Let_def removed_keeps is_down_def)
next
  case (Down j t)
  with step down show ?thesis
    by (auto simp: is_down_def mark_alive server_simps)
next
  case (Up j t)
  with step op down inv show ?thesis
    by (auto simp: is_down_def mark_alive server_simps lb_inv_def)
next
  case (Select d)
  with step select_keeps have "servers lb' = servers lb" by auto
  moreover have "is_alive (st' p) = is_alive (st p)" for p
    using Select step ok by (cases r) (auto simp: server_simps dest: select_Some select_None)
  ultimately show ?thesis using down step_ids [OF ok step] by (simp add: is_down_def)
next
  case Reset
  with step down show ?thesis by (auto simp: lb_reset_def Let_def reset_keeps server_simps is_down_def)
next
  case (Finish p)
  with step down show ?thesis by (auto simp: is_down_def server_simps)
qed

lemma step_hands_out:
  assumes "ok lb" "lb_step m op (st, lb) = (Some p, st', lb')"
  shows "p \<in> set (servers lb) \<and> is_alive (st p)"
  using assms by (cases op) (auto simp: lb_reset_def Let_def getAvailableServers_def dest!: select_Some)

lemma run_down:
  assumes "lb_inv st lb" "ok lb" "is_down i st lb" "\<forall>op \<in> set ops. \<not> brings_up i st op"
    "lb_run m ops (st, lb) = (ps, st', lb')"
  shows "\<forall>p \<in> set ps. server_id (st p) \<noteq> i"
  using assms
proof (induction ops arbitrary: st lb ps)
  case (Cons op ops)
  obtain r st1 lb1 where step: "lb_step m op (st, lb) = (r, st1, lb1)" by (metis prod_cases3)
  obtain qs where run: "lb_run m ops (st1, lb1) = (qs, st', lb')"
    and ps: "ps = (case r of None \<Rightarrow> qs | Some p \<Rightarrow> p # qs)"
    using Cons.prems(5) step by (auto split: prod.splits)
  note ids = step_ids [OF Cons.prems(2) step]
  have "brings_up i st1 op' = brings_up i st op'" for op' :: "'d lb_op" by (cases op') (simp_all add: ids)
  then have "\<forall>p \<in> set qs. server_id (st1 p) \<noteq> i"
    using Cons.IH [OF step_inv [OF Cons.prems(1,2) step] step_ok [OF Cons.prems(2,1) step]
      step_stays_down [OF Cons.prems(1-3) _ step] _ run] Cons.prems(4)
    by auto
  moreover have "server_id (st p) \<noteq> i" if "r = Some p" for p
    using step_hands_out [OF Cons.prems(2)] step that Cons.prems(3) by (auto simp: is_down_def)
  ultimately show ?case by (auto simp: ps ids split: option.splits)
qed simp

end

text \<open>
  Marking a registered server down when the identifiers are distinct leaves no live server with that
  identifier.
\<close>

lemma markServerDown_is_down:
  assumes "lb_inv st lb" "ids_distinct st lb"
  shows "is_down i (markServerDown i t lb st) lb"
proof (cases "server_map lb i")
  case None
  with assms(1) show ?thesis by (auto simp: is_down_def lb_inv_def markServerDown_def)
next
  case (Some p)
  with assms(1) have p: "p \<in> set (servers lb)" "server_id (st p) = i" by (auto simp: lb_inv_def)
  have "q = p" if "q \<in> set (servers lb)" "server_id (st q) = i" for q
    using assms(2) p that by (auto simp: ids_distinct_def distinct_map inj_on_def)
  with Some show ?thesis
    by (auto simp: is_down_def mark_alive server_simps)
qed

text \<open>With equal identifiers only the server added last is in the index, and marking down misses the others.\<close>

lemma duplicate_stays_up:
  assumes "p \<noteq> q" "server_id (st p) = server_id (st q)" "is_alive (st p)"
    and "\<And>p st lb. server_map (hook p st lb) = server_map (lb :: 'a LoadBalancer_scheme)"
  shows "is_alive (markServerDown (server_id (st p)) t (addServer hook q st (addServer hook p st lb)) st p)"
  using assms by (simp add: mark_alive addServer_def Let_def)

text \<open>
  The guarantee as seen from outside: from an empty balancer, after any history, a server marked down is
  not handed out before it is marked up again or another one is added under its identifier.
\<close>

definition down_respected :: "('d, 'a) lb_methods \<Rightarrow> 'a LoadBalancer_scheme \<Rightarrow> bool" where
  "down_respected m lb0 \<longleftrightarrow>
     (\<forall>st0 before ps st lb i t after qs s'.
        lb_run m before (st0, lb0) = (ps, st, lb) \<longrightarrow> ids_distinct st lb \<longrightarrow>
        (\<forall>op \<in> set after. \<not> brings_up i st op) \<longrightarrow>
        lb_run m (Down i t # after) (st, lb) = (qs, s') \<longrightarrow>
        (\<forall>p \<in> set qs. server_id (st p) \<noteq> i))"

context balancer
begin

lemma down_respectedI:
  assumes "servers lb0 = []" "server_map lb0 = Map.empty" "ok lb0"
  shows "down_respected m lb0"
  unfolding down_respected_def
proof (intro allI impI)
  fix st0 before ps st lb i t qs s' and after :: "'d lb_op list"
  assume before: "lb_run m before (st0, lb0) = (ps, st, lb)" and dist: "ids_distinct st lb"
    and after: "\<forall>op \<in> set after. \<not> brings_up i st op"
    and run: "lb_run m (Down i t # after) (st, lb) = (qs, s')"
  have "lb_inv st0 lb0" using assms by (simp add: lb_inv_def)
  then have inv: "lb_inv st lb" and ok: "ok lb" using run_ids before assms(3) by blast+
  let ?st = "markServerDown i t lb st"
  have "lb_inv ?st lb" using inv by (simp add: lb_inv_def server_simps)
  moreover have "\<forall>op \<in> set after. \<not> brings_up i ?st op"
  proof
    fix op assume "op \<in> set after"
    with after have "\<not> brings_up i st op" by blast
    then show "\<not> brings_up i ?st op" by (cases op) (simp_all add: server_simps)
  qed
  moreover obtain st' lb' where "lb_run m after (?st, lb) = (qs, st', lb')"
    using run by (cases s') (auto split: prod.splits)
  ultimately show "\<forall>p \<in> set qs. server_id (st p) \<noteq> i"
    using run_down [OF _ ok markServerDown_is_down [OF inv dist]] by (simp add: server_simps)
qed

end

lemma available_addConnection [simp]:
  "getAvailableServers (update_at p addConnection st) lb = getAvailableServers st lb"
  by (simp add: getAvailableServers_def server_simps)

end
