(* ===== verification/Round_Robin.thy ===== *)
theory Round_Robin
  imports Load_Balancer
begin

text \<open>
  The two balancers of \<open>Stdbalancing/include/balancer/RoundRobinBalancer.h\<close>: the plain round robin and
  the smooth weighted round robin. Both are shown to be fair: over whole cycles every live server
  receives exactly its share of the requests, and for the weighted one no server is ever ahead of its
  share by a full request. The signed integers of the weighted balancer are unbounded here; the bound
  on its running weights says when they fit in an \<open>int\<close>.
\<close>

section \<open>Simple round robin\<close>

record RoundRobinBalancer = LoadBalancer +
  rr_current_index :: "64 word"

definition RoundRobinBalancer_new :: RoundRobinBalancer where
  "RoundRobinBalancer_new = \<lparr>servers = [], server_map = Map.empty, rr_current_index = 0\<rparr>"

definition rr_selectServer ::
  "unit \<Rightarrow> store \<Rightarrow> RoundRobinBalancer \<Rightarrow> server_ptr option \<times> store \<times> RoundRobinBalancer" where
  "rr_selectServer key st lb =
     (if servers lb = [] then (None, st, lb)
      else
        let available_servers = getAvailableServers st lb in
        if available_servers = [] then (None, st, lb)
        else
          let index = unat (rr_current_index lb) mod length available_servers;
              lb = lb\<lparr>rr_current_index := rr_current_index lb + 1\<rparr>;
              selected = available_servers ! index
          in (Some selected, update_at selected addConnection st, lb))"

definition rr_onReset :: "store \<Rightarrow> RoundRobinBalancer \<Rightarrow> RoundRobinBalancer" where
  "rr_onReset st lb = lb\<lparr>rr_current_index := 0\<rparr>"

definition rr_onServerRemoved :: "server_ptr \<Rightarrow> store \<Rightarrow> RoundRobinBalancer \<Rightarrow> RoundRobinBalancer" where
  "rr_onServerRemoved server st lb = (if servers lb = [] then lb\<lparr>rr_current_index := 0\<rparr> else lb)"

definition rr_methods where
  "rr_methods = \<lparr>onServerAdded = (\<lambda>server st lb. lb), onServerRemoved = rr_onServerRemoved,
     onReset = rr_onReset, selectServer = rr_selectServer\<rparr>"

lemma available_empty: "servers lb = [] \<Longrightarrow> getAvailableServers st lb = []"
  by (simp add: getAvailableServers_def)

interpretation rr: balancer rr_methods "\<lambda>_. True"
  by unfold_locales
    (auto simp: rr_methods_def rr_onServerRemoved_def rr_onReset_def rr_selectServer_def Let_def split: if_splits)

lemma rr_selectServer_eq:
  assumes "getAvailableServers st lb \<noteq> []"
  shows "rr_selectServer key st lb =
     (let p = getAvailableServers st lb ! (unat (rr_current_index lb) mod length (getAvailableServers st lb))
      in (Some p, update_at p addConnection st, lb\<lparr>rr_current_index := rr_current_index lb + 1\<rparr>))"
  using assms available_empty [of lb st] by (auto simp: rr_selectServer_def Let_def)

lemma rr_run:
  assumes "getAvailableServers st lb = av" "av \<noteq> []" "unat (rr_current_index lb) + n \<le> 2 ^ 64"
  shows "fst (lb_run rr_methods (replicate n (Select ())) (st, lb)) =
     map (\<lambda>k. av ! ((unat (rr_current_index lb) + k) mod length av)) [0..<n]"
  using assms
proof (induction n arbitrary: st lb)
  case (Suc n)
  let ?c = "rr_current_index lb" and ?lb = "lb\<lparr>rr_current_index := rr_current_index lb + 1\<rparr>"
  have more: "fst (lb_run rr_methods (replicate n (Select ())) (update_at p addConnection st, ?lb)) =
    map (\<lambda>k. av ! ((unat ?c + Suc k) mod length av)) [0..<n]" for p
  proof (cases "n = 0")
    case False
    with Suc.prems(3) have c: "unat (?c + 1) = unat ?c + 1"
      by (simp add: unat_word_ariths)
    have "getAvailableServers (update_at p addConnection st) ?lb = av"
      using Suc.prems(1) by (simp add: getAvailableServers_def server_simps)
    from Suc.IH [OF this Suc.prems(2)] c Suc.prems(3) show ?thesis by simp
  qed simp
  have "map (\<lambda>k. av ! ((unat ?c + k) mod length av)) [0..<Suc n] =
    av ! (unat ?c mod length av) # map (\<lambda>k. av ! ((unat ?c + Suc k) mod length av)) [0..<n]"
    by (simp del: upt_Suc add: upt_conv_Cons map_Suc_upt [symmetric] comp_def)
  moreover have "lb_step rr_methods (Select ()) (st, lb) =
    (let p = av ! (unat ?c mod length av) in (Some p, update_at p addConnection st, ?lb))"
    using Suc.prems(1,2) by (simp add: rr_methods_def rr_selectServer_eq)
  ultimately show ?case by (simp add: Let_def lb_run_Cons more del: lb_run.simps)
qed simp

lemma map_nth_rotate: "map (\<lambda>k. xs ! ((c + k) mod length xs)) [0..<length xs] = rotate c xs"
  by (rule nth_equalityI) (simp_all add: nth_rotate add.commute)

lemma mset_rotate: "mset (rotate c xs) = mset xs"
  by (metis append_take_drop_id mset_append rotate_drop_take union_commute)

lemma mset_cycles:
  "mset (map (\<lambda>k. xs ! ((c + k) mod length xs)) [0..<r * length xs]) = repeat_mset r (mset xs)"
proof (induction r arbitrary: c)
  case (Suc r)
  have "[0..<Suc r * length xs] = [0..<length xs] @ map (\<lambda>k. length xs + k) [0..<r * length xs]"
    by (simp add: upt_add_eq_append [of 0 "length xs"] map_add_upt add.commute)
  moreover have "(c + (length xs + k)) mod length xs = (c + k) mod length xs" for k
    by (metis add.left_commute mod_add_self1)
  ultimately show ?case
    using Suc [of c] by (simp add: comp_def map_nth_rotate mset_rotate flip: mset_map)
qed simp

text \<open>
  Round robin is fair. While the set of live servers does not change, every run of requests whose
  length is a multiple of the number of live servers is spread evenly: each live server is handed out
  exactly once per cycle, whatever the index was, as long as the 64-bit index does not wrap meanwhile.
\<close>

theorem round_robin_fair:
  assumes "getAvailableServers st lb \<noteq> []"
    and "unat (rr_current_index lb) + r * length (getAvailableServers st lb) \<le> 2 ^ 64"
  shows "mset (fst (lb_run rr_methods (replicate (r * length (getAvailableServers st lb)) (Select ())) (st, lb))) =
    repeat_mset r (mset (getAvailableServers st lb))"
  using rr_run [OF refl assms] mset_cycles by simp

definition example_store :: store where
  "example_store p = (Server_new (nat_dec p) ''10.0.0.1:80'' (if p = 0 then 5 else 1) 0)\<lparr>is_alive := p \<noteq> 3\<rparr>"

definition example_rr :: RoundRobinBalancer where
  "example_rr = \<lparr>servers = [0, 1, 3, 2], server_map = Map.empty, rr_current_index = 7\<rparr>"

lemma example_available: "servers lb = [0, 1, 3, 2] \<Longrightarrow> getAvailableServers example_store lb = [0, 1, 2]"
  by (simp add: getAvailableServers_def example_store_def)

theorem round_robin_fair_witness:
  "mset (fst (lb_run rr_methods (replicate (2 * length [0, 1, 2 :: nat]) (Select ())) (example_store, example_rr))) =
     repeat_mset 2 {#0, 1, 2#}"
proof -
  have av: "getAvailableServers example_store example_rr = [0, 1, 2]" by (simp add: example_available example_rr_def)
  have "unat (rr_current_index example_rr) + 2 * 3 \<le> 2 ^ 64" by (simp add: example_rr_def)
  then show ?thesis using round_robin_fair [of example_store example_rr 2] by (simp add: av)
qed

section \<open>Smooth weighted round robin\<close>

record WeightedRoundRobinBalancer = LoadBalancer +
  wrr_current_index :: "64 word"
  current_weights :: "string \<rightharpoonup> int"
  weights_gcd :: int
  max_weight :: int

definition WeightedRoundRobinBalancer_new :: WeightedRoundRobinBalancer where
  "WeightedRoundRobinBalancer_new =
     \<lparr>servers = [], server_map = Map.empty, wrr_current_index = 0, current_weights = Map.empty,
      weights_gcd = 1, max_weight = 0\<rparr>"

text \<open>\<open>%\<close> on \<open>int\<close> has the sign of the dividend.\<close>

definition tmod :: "int \<Rightarrow> int \<Rightarrow> int" where
  "tmod a b = a - b * tdiv a b"

lemma abs_tmod: "b \<noteq> 0 \<Longrightarrow> \<bar>tmod a b\<bar> = \<bar>a\<bar> mod \<bar>b\<bar>"
proof -
  assume b: "b \<noteq> 0"
  have "tmod a b = sgn a * (\<bar>a\<bar> - \<bar>b\<bar> * (\<bar>a\<bar> div \<bar>b\<bar>))"
    by (cases "a = 0"; cases "a > 0"; cases "b > 0") (auto simp: tmod_def tdiv_def sgn_if algebra_simps)
  also have "\<dots> = sgn a * (\<bar>a\<bar> mod \<bar>b\<bar>)" by (simp add: minus_mult_div_eq_mod)
  finally show ?thesis using b by (auto simp: abs_mult sgn_if)
qed

function wrr_gcd :: "int \<Rightarrow> int \<Rightarrow> int" where
  "wrr_gcd a b = (if b \<noteq> 0 then wrr_gcd b (tmod a b) else a)"
  by pat_completeness auto
termination by (relation "measure (\<lambda>(a, b). nat \<bar>b\<bar>)") (auto simp: abs_tmod)

declare wrr_gcd.simps [simp del]

definition note_weight :: "store \<Rightarrow> WeightedRoundRobinBalancer \<Rightarrow> server_ptr \<Rightarrow> WeightedRoundRobinBalancer" where
  "note_weight st lb p =
     (let w = weight (st p);
          lb = lb\<lparr>weights_gcd := wrr_gcd (weights_gcd lb) w\<rparr>
      in if w > max_weight lb then lb\<lparr>max_weight := w\<rparr> else lb)"

definition updateWeightInfo :: "store \<Rightarrow> WeightedRoundRobinBalancer \<Rightarrow> WeightedRoundRobinBalancer" where
  "updateWeightInfo st lb =
     (case servers lb of
        [] \<Rightarrow> lb\<lparr>weights_gcd := 1, max_weight := 0\<rparr>
      | s # rest \<Rightarrow>
          foldl (note_weight st) (lb\<lparr>weights_gcd := weight (st s), max_weight := weight (st s)\<rparr>) rest)"

definition wrr_onServerAdded ::
  "server_ptr \<Rightarrow> store \<Rightarrow> WeightedRoundRobinBalancer \<Rightarrow> WeightedRoundRobinBalancer" where
  "wrr_onServerAdded server st lb =
     (let lb = updateWeightInfo st lb
      in lb\<lparr>current_weights := (current_weights lb)(server_id (st server) \<mapsto> 0)\<rparr>)"

definition wrr_onServerRemoved ::
  "server_ptr \<Rightarrow> store \<Rightarrow> WeightedRoundRobinBalancer \<Rightarrow> WeightedRoundRobinBalancer" where
  "wrr_onServerRemoved server st lb =
     updateWeightInfo st (lb\<lparr>current_weights := (current_weights lb)(server_id (st server) := None)\<rparr>)"

definition wrr_onReset :: "store \<Rightarrow> WeightedRoundRobinBalancer \<Rightarrow> WeightedRoundRobinBalancer" where
  "wrr_onReset st lb =
     (let lb = lb\<lparr>wrr_current_index := 0\<rparr>;
          lb = lb\<lparr>current_weights := Map.empty\<rparr>
      in lb\<lparr>current_weights :=
           foldl (\<lambda>cw p. cw(server_id (st p) \<mapsto> 0)) (current_weights lb) (servers lb)\<rparr>)"

text \<open>
  The loop of \<open>smoothWeightedRoundRobin\<close>; its state is the total weight, the server selected so far, the
  largest current weight and the table of current weights. A missing entry reads as 0, since
  \<open>operator[]\<close> inserts it.
\<close>

definition weight_in :: "(string \<rightharpoonup> int) \<Rightarrow> string \<Rightarrow> int" where
  "weight_in cw i = (case cw i of None \<Rightarrow> 0 | Some w \<Rightarrow> w)"

type_synonym swrr_state = "int \<times> server_ptr option \<times> int \<times> (string \<rightharpoonup> int)"

fun swrr_step :: "store \<Rightarrow> swrr_state \<Rightarrow> server_ptr \<Rightarrow> swrr_state" where
  "swrr_step st (total_weight, selected, max_current_weight, cw) server =
     (let w = weight (st server);
          total_weight = total_weight + w;
          cw = cw(server_id (st server) \<mapsto> weight_in cw (server_id (st server)) + w);
          current_weight = weight_in cw (server_id (st server))
      in if selected = None \<or> current_weight > max_current_weight
         then (total_weight, Some server, current_weight, cw)
         else (total_weight, selected, max_current_weight, cw))"

definition smoothWeightedRoundRobin ::
  "server_ptr list \<Rightarrow> store \<Rightarrow> WeightedRoundRobinBalancer \<Rightarrow>
   server_ptr option \<times> store \<times> WeightedRoundRobinBalancer" where
  "smoothWeightedRoundRobin available_servers st lb =
     (case foldl (swrr_step st) (0, None, 0, current_weights lb) available_servers of
        (total_weight, selected, max_current_weight, cw) \<Rightarrow>
          (case selected of
             None \<Rightarrow> (None, st, lb\<lparr>current_weights := cw\<rparr>)
           | Some p \<Rightarrow>
               (Some p, update_at p addConnection st,
                lb\<lparr>current_weights := cw(server_id (st p) \<mapsto> weight_in cw (server_id (st p)) - total_weight)\<rparr>)))"

definition wrr_selectServer ::
  "unit \<Rightarrow> store \<Rightarrow> WeightedRoundRobinBalancer \<Rightarrow> server_ptr option \<times> store \<times> WeightedRoundRobinBalancer" where
  "wrr_selectServer key st lb =
     (if servers lb = [] then (None, st, lb)
      else
        let available_servers = getAvailableServers st lb in
        if available_servers = [] then (None, st, lb)
        else smoothWeightedRoundRobin available_servers st lb)"

definition wrr_methods where
  "wrr_methods = \<lparr>onServerAdded = wrr_onServerAdded, onServerRemoved = wrr_onServerRemoved,
     onReset = wrr_onReset, selectServer = wrr_selectServer\<rparr>"

lemma foldl_note_weight:
  "servers (foldl (note_weight st) lb ps) = servers lb" "server_map (foldl (note_weight st) lb ps) = server_map lb"
  "current_weights (foldl (note_weight st) lb ps) = current_weights lb"
  by (induction ps arbitrary: lb) (auto simp: note_weight_def Let_def)

lemma updateWeightInfo_keeps [simp]:
  "servers (updateWeightInfo st lb) = servers lb" "server_map (updateWeightInfo st lb) = server_map lb"
  "current_weights (updateWeightInfo st lb) = current_weights lb"
  by (simp_all add: updateWeightInfo_def foldl_note_weight split: list.split)

lemma wrr_gcd_correct: "\<bar>wrr_gcd a b\<bar> = gcd a b"
proof (induction a b rule: wrr_gcd.induct)
  case (1 a b)
  have "gcd b (tmod a b) = gcd a b" if "b \<noteq> 0"
    by (metis abs_tmod that gcd.commute gcd_abs1_int gcd_abs2_int gcd_red_int)
  with 1 show ?case by (subst wrr_gcd.simps) auto
qed

lemma foldl_note_weight_gcd:
  "\<bar>weights_gcd (foldl (note_weight st) lb ps)\<bar> = gcd (weights_gcd lb) (Gcd ((\<lambda>p. weight (st p)) ` set ps))"
proof (induction ps arbitrary: lb)
  case (Cons p ps)
  have "gcd (wrr_gcd a b) c = gcd (gcd a b) c" for a b c by (metis gcd_abs1_int wrr_gcd_correct)
  moreover have "weights_gcd (note_weight st lb p) = wrr_gcd (weights_gcd lb) (weight (st p))"
    by (simp add: note_weight_def Let_def)
  ultimately show ?case by (simp add: Cons gcd.assoc)
qed simp

lemma foldl_note_weight_max:
  "max_weight (foldl (note_weight st) lb ps) = Max (insert (max_weight lb) ((\<lambda>p. weight (st p)) ` set ps))"
proof (induction ps arbitrary: lb)
  case (Cons p ps)
  have "Max (insert (max a b) A) = Max (insert a (insert b A))" if "finite A" for a b and A :: "int set"
    using that by (cases "A = {}") (auto simp: max.assoc)
  moreover have "max_weight (note_weight st lb p) = max (max_weight lb) (weight (st p))"
    by (simp add: note_weight_def Let_def)
  ultimately show ?case by (simp add: Cons del: Max_insert)
qed simp

lemma updateWeightInfo_values:
  assumes "servers lb \<noteq> []"
  shows "\<bar>weights_gcd (updateWeightInfo st lb)\<bar> = Gcd ((\<lambda>p. weight (st p)) ` set (servers lb)) \<and>
    max_weight (updateWeightInfo st lb) = Max ((\<lambda>p. weight (st p)) ` set (servers lb))"
  using assms by (cases "servers lb") (simp_all add: updateWeightInfo_def foldl_note_weight_gcd foldl_note_weight_max)

lemma swrr_selected:
  "fst (snd (foldl (swrr_step st) (t, s, x, cw) ps)) = Some p \<Longrightarrow> p \<in> set ps \<or> s = Some p"
  by (induction ps arbitrary: t s x cw) (fastforce simp: Let_def split: if_splits)+

interpretation wrr: balancer wrr_methods "\<lambda>_. True"
proof unfold_locales
  fix d st lb p st' lb'
  assume "selectServer wrr_methods d st lb = (Some p, st', lb')"
  then show "p \<in> set (getAvailableServers st lb) \<and> st' = update_at p addConnection st"
    using swrr_selected [of st 0 None 0 "current_weights lb" "getAvailableServers st lb" p]
    by (auto simp: wrr_methods_def wrr_selectServer_def smoothWeightedRoundRobin_def Let_def
        split: if_splits prod.splits option.splits)
qed (auto simp: wrr_methods_def wrr_onServerAdded_def wrr_onServerRemoved_def wrr_onReset_def Let_def
  wrr_selectServer_def smoothWeightedRoundRobin_def split: if_splits prod.splits option.splits)


text \<open>
  One pass of the loop over servers with distinct identifiers: the server selected has the largest
  weight after the increase.
\<close>

lemma swrr_loop:
  assumes "ps \<noteq> []" "distinct (map (\<lambda>p. server_id (st p)) ps)"
  shows "\<exists>p cw'. foldl (swrr_step st) (0, None, 0, cw) ps =
      (sum_list (map (\<lambda>p. weight (st p)) ps), Some p, weight_in cw (server_id (st p)) + weight (st p), cw') \<and>
    p \<in> set ps \<and>
    (\<forall>q \<in> set ps. weight_in cw (server_id (st q)) + weight (st q) \<le> weight_in cw (server_id (st p)) + weight (st p)) \<and>
    (\<forall>q \<in> set ps. weight_in cw' (server_id (st q)) = weight_in cw (server_id (st q)) + weight (st q)) \<and>
    (\<forall>i. i \<notin> (\<lambda>p. server_id (st p)) ` set ps \<longrightarrow> cw' i = cw i)"
  using assms
proof (induction ps rule: rev_induct)
  case (snoc x ps)
  show ?case
  proof (cases "ps = []")
    case True
    then show ?thesis by (simp add: Let_def weight_in_def)
  next
    case False
    have fresh: "server_id (st x) \<notin> (\<lambda>p. server_id (st p)) ` set ps" using snoc.prems(2) by auto
    then have differ: "server_id (st q) \<noteq> server_id (st x)" if "q \<in> set ps" for q using that by (metis image_eqI)
    obtain p cw' where fold: "foldl (swrr_step st) (0, None, 0, cw) ps =
        (sum_list (map (\<lambda>p. weight (st p)) ps), Some p, weight_in cw (server_id (st p)) + weight (st p), cw')"
      and p: "p \<in> set ps"
      and best: "\<forall>q \<in> set ps. weight_in cw (server_id (st q)) + weight (st q) \<le> weight_in cw (server_id (st p)) + weight (st p)"
      and upd: "\<forall>q \<in> set ps. weight_in cw' (server_id (st q)) = weight_in cw (server_id (st q)) + weight (st q)"
      and rest: "\<forall>i. i \<notin> (\<lambda>p. server_id (st p)) ` set ps \<longrightarrow> cw' i = cw i"
      using snoc.IH False snoc.prems(2) by auto
    have x: "weight_in cw' (server_id (st x)) = weight_in cw (server_id (st x))"
      using rest fresh by (simp add: weight_in_def)
    define cw'' where "cw'' = cw'(server_id (st x) \<mapsto> weight_in cw (server_id (st x)) + weight (st x))"
    have all: "\<forall>q \<in> set (ps @ [x]). weight_in cw'' (server_id (st q)) = weight_in cw (server_id (st q)) + weight (st q)"
      using upd differ by (auto simp: cw''_def weight_in_def)
    have others: "\<forall>i. i \<notin> (\<lambda>p. server_id (st p)) ` set (ps @ [x]) \<longrightarrow> cw'' i = cw i"
      using rest by (auto simp: cw''_def)
    define best' where "best' = (if weight_in cw (server_id (st x)) + weight (st x) > weight_in cw (server_id (st p)) + weight (st p)
      then x else p)"
    have "foldl (swrr_step st) (0, None, 0, cw) (ps @ [x]) =
        (sum_list (map (\<lambda>p. weight (st p)) (ps @ [x])), Some best',
         weight_in cw (server_id (st best')) + weight (st best'), cw'')"
      using fold x by (simp add: Let_def cw''_def best'_def weight_in_def)
    moreover have "best' \<in> set (ps @ [x])" using p by (simp add: best'_def)
    moreover have "weight_in cw (server_id (st q)) + weight (st q) \<le> weight_in cw (server_id (st best')) + weight (st best')"
      if "q \<in> set (ps @ [x])" for q
      using that best by (fastforce simp: best'_def)
    ultimately show ?thesis using all others by blast
  qed
qed simp

text \<open>The running weight of a server and the total weight of the live ones.\<close>

definition running_weight :: "store \<Rightarrow> WeightedRoundRobinBalancer \<Rightarrow> server_ptr \<Rightarrow> int" where
  "running_weight st lb p = weight_in (current_weights lb) (server_id (st p))"

definition live_weight :: "store \<Rightarrow> 'a LoadBalancer_scheme \<Rightarrow> int" where
  "live_weight st lb = sum_list (map (\<lambda>p. weight (st p)) (getAvailableServers st lb))"

lemma wrr_select:
  assumes "getAvailableServers st lb = av" "av \<noteq> []" "distinct (map (\<lambda>p. server_id (st p)) av)"
  obtains p lb' where "wrr_selectServer () st lb = (Some p, update_at p addConnection st, lb')" "p \<in> set av"
    "servers lb' = servers lb"
    "\<And>q. q \<in> set av \<Longrightarrow> running_weight st lb q + weight (st q) \<le> running_weight st lb p + weight (st p)"
    "\<And>q. q \<in> set av \<Longrightarrow> running_weight st lb' q =
       running_weight st lb q + weight (st q) - (if q = p then live_weight st lb else 0)"
proof -
  obtain p cw' where fold: "foldl (swrr_step st) (0, None, 0, current_weights lb) av =
      (live_weight st lb, Some p, running_weight st lb p + weight (st p), cw')"
    and p: "p \<in> set av"
    and best: "\<forall>q \<in> set av. running_weight st lb q + weight (st q) \<le> running_weight st lb p + weight (st p)"
    and upd: "\<forall>q \<in> set av. weight_in cw' (server_id (st q)) = running_weight st lb q + weight (st q)"
    using swrr_loop [OF assms(2,3), of "current_weights lb"]
    unfolding running_weight_def live_weight_def assms(1) by blast
  let ?lb = "lb\<lparr>current_weights := cw'(server_id (st p) \<mapsto> weight_in cw' (server_id (st p)) - live_weight st lb)\<rparr>"
  have "server_id (st q) = server_id (st p) \<Longrightarrow> q = p" if "q \<in> set av" for q
    using that p assms(3) by (auto simp: distinct_map inj_on_def)
  then have "running_weight st ?lb q = running_weight st lb q + weight (st q) - (if q = p then live_weight st lb else 0)"
    if "q \<in> set av" for q
    using that upd p by (cases "q = p") (auto simp: running_weight_def weight_in_def)
  moreover have "wrr_selectServer () st lb = (Some p, update_at p addConnection st, ?lb)"
    using fold assms(1,2) available_empty [of lb st] by (auto simp: wrr_selectServer_def smoothWeightedRoundRobin_def)
  ultimately show ?thesis using that [of p ?lb] p best by auto
qed

text \<open>
  The invariant of a run: after \<open>n\<close> selections of which \<open>c p\<close> went to \<open>p\<close>, the running weight of \<open>p\<close> is
  what \<open>p\<close> has earned less what it has spent, and nobody has overspent by a whole cycle.
\<close>

definition ledger :: "store \<Rightarrow> WeightedRoundRobinBalancer \<Rightarrow> server_ptr list \<Rightarrow> int \<Rightarrow> (server_ptr \<Rightarrow> int) \<Rightarrow> bool" where
  "ledger st lb av n c \<longleftrightarrow>
     getAvailableServers st lb = av \<and> (\<Sum>p \<in> set av. c p) = n \<and>
     (\<forall>p \<in> set av. running_weight st lb p = n * weight (st p) - live_weight st lb * c p \<and>
                   - live_weight st lb < running_weight st lb p)"

lemma live_weight_sum:
  assumes "getAvailableServers st lb = av" "distinct (map (\<lambda>p. server_id (st p)) av)"
  shows "live_weight st lb = (\<Sum>p \<in> set av. weight (st p))"
  using assms by (simp add: live_weight_def distinct_map sum_list_distinct_conv_sum_set)

lemma ledgerD:
  assumes "ledger st lb av n c"
  shows "getAvailableServers st lb = av" "(\<Sum>p \<in> set av. c p) = n"
    "p \<in> set av \<Longrightarrow> running_weight st lb p = n * weight (st p) - live_weight st lb * c p"
    "p \<in> set av \<Longrightarrow> - live_weight st lb < running_weight st lb p"
  using assms unfolding ledger_def by blast+

lemma ledger_balance:
  assumes led: "ledger st lb av n c" and dist: "distinct (map (\<lambda>p. server_id (st p)) av)"
  shows "(\<Sum>q \<in> set av. running_weight st lb q) = 0"
proof -
  have "(\<Sum>q \<in> set av. running_weight st lb q) = (\<Sum>q \<in> set av. n * weight (st q) - live_weight st lb * c q)"
    by (intro sum.cong refl ledgerD(3) [OF led])
  also have "\<dots> = n * (\<Sum>q \<in> set av. weight (st q)) - live_weight st lb * (\<Sum>q \<in> set av. c q)"
    by (simp only: sum_subtractf sum_distrib_left)
  also have "\<dots> = 0"
    by (simp add: ledgerD(2) [OF led] live_weight_sum [OF ledgerD(1) [OF led] dist])
  finally show ?thesis .
qed

lemma ledger_best_positive:
  assumes led: "ledger st lb av n c" and dist: "distinct (map (\<lambda>p. server_id (st p)) av)"
    and best: "\<And>q. q \<in> set av \<Longrightarrow> running_weight st lb q + weight (st q) \<le> b"
    and pos: "0 < live_weight st lb"
  shows "0 < b"
proof (rule ccontr)
  assume "\<not> 0 < b"
  then have "(\<Sum>q \<in> set av. running_weight st lb q + weight (st q)) \<le> (\<Sum>q \<in> set av. 0)"
    by (intro sum_mono) (use best in fastforce)
  then show False
    using pos ledger_balance [OF led dist] live_weight_sum [OF ledgerD(1) [OF led] dist] by (simp add: sum.distrib)
qed

lemma ledger_step:
  assumes led: "ledger st lb av n c" and dist: "distinct (map (\<lambda>p. server_id (st p)) av)"
    and nonneg: "\<And>p. p \<in> set av \<Longrightarrow> 0 \<le> weight (st p)" and pos: "0 < live_weight st lb"
  obtains p lb' where "wrr_selectServer () st lb = (Some p, update_at p addConnection st, lb')" "p \<in> set av"
    "ledger (update_at p addConnection st) lb' av (n + 1) (c(p := c p + 1))"
    "live_weight (update_at p addConnection st) lb' = live_weight st lb"
proof -
  note av = ledgerD(1) [OF led]
  with pos have "av \<noteq> []" by (auto simp: live_weight_def)
  then obtain p lb' where sel: "wrr_selectServer () st lb = (Some p, update_at p addConnection st, lb')"
    and p: "p \<in> set av" and keep: "servers lb' = servers lb"
    and best: "\<And>q. q \<in> set av \<Longrightarrow> running_weight st lb q + weight (st q) \<le> running_weight st lb p + weight (st p)"
    and upd: "\<And>q. q \<in> set av \<Longrightarrow> running_weight st lb' q =
       running_weight st lb q + weight (st q) - (if q = p then live_weight st lb else 0)"
    using wrr_select [OF av _ dist] by blast
  let ?st = "update_at p addConnection st"
  have W: "live_weight ?st lb' = live_weight st lb"
    using keep by (simp add: live_weight_def getAvailableServers_def server_simps)
  have run: "running_weight ?st lb' q = running_weight st lb' q" for q by (simp add: running_weight_def server_simps)
  have low: "- live_weight st lb < running_weight st lb' q" if "q \<in> set av" for q
  proof (cases "q = p")
    case True
    with upd [OF that] ledger_best_positive [OF led dist best pos] show ?thesis by simp
  next
    case False
    with upd [OF that] nonneg [OF that] ledgerD(4) [OF led that] show ?thesis by simp
  qed
  have bal: "running_weight st lb' q = (n + 1) * weight (st q) - live_weight st lb * (c(p := c p + 1)) q"
    if "q \<in> set av" for q
    unfolding upd [OF that] ledgerD(3) [OF led that] by (cases "q = p") (simp_all add: algebra_simps)
  have "(\<Sum>q \<in> set av. (c(p := c p + 1)) q) = (\<Sum>q \<in> set av. c q) + 1"
    using p by (simp add: sum.remove [of "set av" p])
  moreover have "getAvailableServers ?st lb' = av" using av keep by (simp add: server_simps getAvailableServers_def)
  ultimately have "ledger ?st lb' av (n + 1) (c(p := c p + 1))"
    unfolding ledger_def run W server_simps using low bal ledgerD(2) [OF led] by (simp del: fun_upd_apply)
  then show ?thesis using that sel p W by blast
qed

lemma wrr_run:
  assumes "ledger st lb av n c" "distinct (map (\<lambda>p. server_id (st p)) av)"
    "\<And>p. p \<in> set av \<Longrightarrow> 0 \<le> weight (st p)" "0 < live_weight st lb"
    "lb_run wrr_methods (replicate k (Select ())) (st, lb) = (ps, st', lb')"
  shows "ledger st' lb' av (n + int k) (\<lambda>p. c p + int (count_list ps p)) \<and>
    live_weight st' lb' = live_weight st lb \<and>
    (\<forall>p. weight (st' p) = weight (st p) \<and> server_id (st' p) = server_id (st p))"
  using assms
proof (induction k arbitrary: st lb n c ps)
  case (Suc k)
  obtain p lb1 where sel: "wrr_selectServer () st lb = (Some p, update_at p addConnection st, lb1)"
    and led: "ledger (update_at p addConnection st) lb1 av (n + 1) (c(p := c p + 1))"
    and W: "live_weight (update_at p addConnection st) lb1 = live_weight st lb"
    using ledger_step [OF Suc.prems(1-4)] by blast
  obtain qs where run: "lb_run wrr_methods (replicate k (Select ())) (update_at p addConnection st, lb1) = (qs, st', lb')"
    and ps: "ps = p # qs"
    using Suc.prems(5) sel by (auto simp: wrr_methods_def split: prod.splits)
  have "(\<lambda>q. (c(p := c p + 1)) q + int (count_list qs q)) = (\<lambda>q. c q + int (count_list ps q))"
    by (auto simp: ps)
  then show ?case
    using Suc.IH [OF led _ _ _ run] Suc.prems(2-4) W by (simp add: server_simps add.assoc)
qed simp

lemma ledger_exact:
  assumes led: "ledger st lb av (int r * live_weight st lb) c" and dist: "distinct (map (\<lambda>p. server_id (st p)) av)"
    and pos: "0 < live_weight st lb" and p: "p \<in> set av"
  shows "c p = int r * weight (st p)"
proof -
  have le: "c q \<le> int r * weight (st q)" if "q \<in> set av" for q
  proof -
    have "live_weight st lb * c q < live_weight st lb * (int r * weight (st q) + 1)"
      using ledgerD(3,4) [OF led that] by (simp add: algebra_simps)
    with pos show ?thesis by (simp add: mult_less_cancel_left_pos)
  qed
  have "(\<Sum>q \<in> set av. int r * weight (st q) - c q) = 0"
    using ledgerD(2) [OF led] live_weight_sum [OF ledgerD(1) [OF led] dist]
    by (simp add: sum_subtractf flip: sum_distrib_left)
  then show ?thesis
    using p le by (subst (asm) sum_nonneg_eq_0_iff) (auto simp: diff_ge_0_iff_ge)
qed

lemma ledger_start:
  assumes "\<forall>p \<in> set (getAvailableServers st lb). running_weight st lb p = 0" "0 < live_weight st lb"
  shows "ledger st lb (getAvailableServers st lb) 0 (\<lambda>_. 0)"
  using assms by (simp add: ledger_def)

lemma zero_weights_after_reset:
  "p \<in> set (servers lb) \<Longrightarrow> running_weight st (wrr_onReset st lb) p = 0"
proof -
  have "foldl (\<lambda>cw p. cw(server_id (st p) \<mapsto> 0)) cw ps i = (if i \<in> (\<lambda>p. server_id (st p)) ` set ps then Some 0 else cw i)"
    for cw :: "string \<rightharpoonup> int" and ps i by (induction ps arbitrary: cw) auto
  then show "p \<in> set (servers lb) \<Longrightarrow> running_weight st (wrr_onReset st lb) p = 0"
    by (simp add: running_weight_def weight_in_def wrr_onReset_def)
qed

lemma zero_weight_when_added: "running_weight st (addServer wrr_onServerAdded p st lb) p = 0"
  by (simp add: addServer_def wrr_onServerAdded_def running_weight_def weight_in_def Let_def)

text \<open>
  C8. Smooth weighted round robin is fair. Start from zero running weights, which is how a server is
  added and what \<open>reset\<close> restores, with distinct identifiers and non-negative weights of positive
  total. As long as the live servers stay the same, after any number of requests no server has
  received a full request more than its share, and after any number of whole cycles every server has
  received exactly its share. A cycle is as many requests as the weights add up to.
\<close>

theorem weighted_round_robin_fair:
  assumes "av = getAvailableServers st lb" "distinct (map (\<lambda>p. server_id (st p)) av)"
    and "\<forall>p \<in> set av. 0 \<le> weight (st p) \<and> running_weight st lb p = 0"
    and "W = live_weight st lb" "0 < W" "p \<in> set av"
    and "ps = fst (lb_run wrr_methods (replicate n (Select ())) (st, lb))"
  shows "W * int (count_list ps p) < int n * weight (st p) + W \<and>
    (\<forall>r. int n = int r * W \<longrightarrow> int (count_list ps p) = int r * weight (st p))"
proof (intro conjI allI impI)
  obtain qs st' lb' where run: "lb_run wrr_methods (replicate n (Select ())) (st, lb) = (qs, st', lb')" by (metis prod_cases3)
  have "ledger st' lb' av (int n) (\<lambda>p. int (count_list ps p)) \<and> live_weight st' lb' = W \<and>
      (\<forall>p. weight (st' p) = weight (st p) \<and> server_id (st' p) = server_id (st p))"
    using wrr_run [OF ledger_start _ _ _ run] assms run by simp
  then have led: "ledger st' lb' av (int n) (\<lambda>p. int (count_list ps p))" and W: "live_weight st' lb' = W"
    and keep: "weight (st' p) = weight (st p)" "server_id (st' p) = server_id (st p)" for p by auto
  show "W * int (count_list ps p) < int n * weight (st p) + W"
    using ledgerD(3,4) [OF led assms(6)] by (simp add: W keep)
  show "int (count_list ps p) = int r * weight (st p)" if "int n = int r * W" for r
    using ledger_exact [of st' lb' av r "\<lambda>p. int (count_list ps p)" p] led that assms(2,5,6) by (simp add: W keep)
qed

definition example_wrr :: WeightedRoundRobinBalancer where
  "example_wrr = WeightedRoundRobinBalancer_new\<lparr>servers := [0, 1, 3, 2]\<rparr>"

lemma example_wrr_facts:
  "getAvailableServers example_store example_wrr = [0, 1, 2]" "live_weight example_store example_wrr = 7"
  "running_weight example_store example_wrr p = 0"
  "distinct (map (\<lambda>p. server_id (example_store p)) [0, 1, 2])"
  "0 \<le> weight (example_store p)" "weight (example_store 0) = 5"
  by (simp_all add: example_wrr_def WeightedRoundRobinBalancer_new_def example_available live_weight_def
      running_weight_def weight_in_def example_store_def Server_new_def)

theorem weighted_round_robin_fair_witness:
  "int (count_list (fst (lb_run wrr_methods (replicate 14 (Select ())) (example_store, example_wrr))) 0) = 2 * 5"
proof -
  have "\<forall>p \<in> set [0, 1, 2]. 0 \<le> weight (example_store p) \<and> running_weight example_store example_wrr p = 0"
    by (simp add: example_wrr_facts)
  from weighted_round_robin_fair [OF example_wrr_facts(1) [symmetric] example_wrr_facts(4) this
      example_wrr_facts(2) [symmetric] _ _ refl, of 0 14, THEN conjunct2, THEN spec [of _ 2]]
  show ?thesis unfolding example_wrr_facts(6) by simp
qed

text \<open>
  In the same situation the running weights stay within bounds that depend on the weights only:
  the smallest value the loop stores is above minus the total weight, and the largest it computes is at
  most the total weight times the number of live servers. So when that product fits in an \<open>int\<close>
  nothing overflows, however many requests are served.
\<close>

theorem weighted_round_robin_bounded:
  assumes "av = getAvailableServers st lb" "distinct (map (\<lambda>p. server_id (st p)) av)"
    and "\<forall>p \<in> set av. 0 \<le> weight (st p) \<and> running_weight st lb p = 0"
    and "W = live_weight st lb" "0 < W" "p \<in> set av"
    and "snd (lb_run wrr_methods (replicate n (Select ())) (st, lb)) = (st', lb')"
  shows "- W < running_weight st' lb' p \<and> running_weight st' lb' p + weight (st' p) \<le> W * int (length av)"
proof -
  obtain ps where run: "lb_run wrr_methods (replicate n (Select ())) (st, lb) = (ps, st', lb')"
    using assms(7) by (metis prod.collapse)
  have "ledger st' lb' av (int n) (\<lambda>p. int (count_list ps p)) \<and> live_weight st' lb' = W \<and>
      (\<forall>p. weight (st' p) = weight (st p) \<and> server_id (st' p) = server_id (st p))"
    using wrr_run [OF ledger_start _ _ _ run] assms by simp
  then have led: "ledger st' lb' av (int n) (\<lambda>p. int (count_list ps p))" and W: "live_weight st' lb' = W"
    and keep: "weight (st' p) = weight (st p)" "server_id (st' p) = server_id (st p)" for p by auto
  have dist: "distinct (map (\<lambda>p. server_id (st' p)) av)" using assms(2) by (simp add: keep)
  let ?r = "running_weight st' lb'"
  have low: "- W < ?r q" if "q \<in> set av" for q using ledgerD(4) [OF led that] by (simp add: W)
  have sum: "(\<Sum>q \<in> set av - {p}. ?r q) \<ge> (\<Sum>q \<in> set av - {p}. - W)"
    using low by (intro sum_mono) (auto intro: less_imp_le)
  have "card (set av) = length av" using dist by (simp add: distinct_map distinct_card)
  moreover have "0 < length av" using assms(6) by (cases av) auto
  ultimately have "int (card (set av - {p})) = int (length av) - 1" using assms(6)
    by (simp add: of_nat_diff Suc_le_eq)
  with sum have "(\<Sum>q \<in> set av - {p}. ?r q) \<ge> W - W * int (length av)" by (simp add: algebra_simps)
  moreover have "?r p + (\<Sum>q \<in> set av - {p}. ?r q) = 0"
    using ledger_balance [OF led dist] assms(6) by (simp add: sum.remove [of "set av" p])
  moreover have "weight (st' p) \<le> W"
    using assms(3,6) live_weight_sum [OF ledgerD(1) [OF led] dist] member_le_sum [of p "set av" "\<lambda>p. weight (st' p)"]
    by (simp add: W keep)
  ultimately show ?thesis using low [OF assms(6)] by linarith
qed

theorem weighted_round_robin_bounded_witness:
  "case snd (lb_run wrr_methods (replicate 1000 (Select ())) (example_store, example_wrr)) of (st', lb') \<Rightarrow>
     - 7 < running_weight st' lb' 0 \<and> running_weight st' lb' 0 + weight (st' 0) \<le> 7 * 3"
proof -
  obtain st' lb' where run: "snd (lb_run wrr_methods (replicate 1000 (Select ())) (example_store, example_wrr)) = (st', lb')"
    by (metis prod.collapse)
  have "\<forall>p \<in> set [0, 1, 2]. 0 \<le> weight (example_store p) \<and> running_weight example_store example_wrr p = 0"
    by (simp add: example_wrr_facts)
  from weighted_round_robin_bounded [OF example_wrr_facts(1) [symmetric] example_wrr_facts(4) this
      example_wrr_facts(2) [symmetric] _ _ run, of 0]
  show ?thesis unfolding run by simp
qed

end
