(* ===== verification/Least_Connections.thy ===== *)
theory Least_Connections
  imports Load_Balancer
begin

text \<open>
  The three balancers of \<open>Stdbalancing/include/balancer/LeastConnectionsBalancer.h\<close>. A draw of
  \<open>std::uniform_int_distribution\<close> is an argument of the selection, reduced to the requested range; the
  theorems hold for every draw. Values of type \<open>double\<close> are rational numbers: the quotients and
  weighted sums are exact, and the only rounding kept is the conversion to \<open>long long\<close>.
\<close>

section \<open>Least connections\<close>

definition uniform_int :: "nat \<Rightarrow> nat \<Rightarrow> nat \<Rightarrow> nat" where
  "uniform_int draw a b = a + draw mod (b - a + 1)"

definition min_connections :: "store \<Rightarrow> server_ptr list \<Rightarrow> int" where
  "min_connections st available_servers =
     foldl (\<lambda>m s. if getCurrentConnections (st s) < m then getCurrentConnections (st s) else m)
       2147483647 available_servers"

definition lc_selectServer ::
  "nat \<Rightarrow> store \<Rightarrow> LoadBalancer \<Rightarrow> server_ptr option \<times> store \<times> LoadBalancer" where
  "lc_selectServer draw st lb =
     (if servers lb = [] then (None, st, lb)
      else
        let available_servers = getAvailableServers st lb in
        if available_servers = [] then (None, st, lb)
        else
          let m = min_connections st available_servers;
              min_connection_servers = filter (\<lambda>s. getCurrentConnections (st s) = m) available_servers;
              selected =
                (if min_connection_servers \<noteq> [] then
                   (if length min_connection_servers = 1 then Some (min_connection_servers ! 0)
                    else Some (min_connection_servers ! uniform_int draw 0 (length min_connection_servers - 1)))
                 else None)
          in (selected,
              case selected of None \<Rightarrow> st | Some p \<Rightarrow> update_at p addConnection st,
              lb))"

definition lc_methods where
  "lc_methods = \<lparr>onServerAdded = (\<lambda>server st lb. lb), onServerRemoved = (\<lambda>server st lb. lb),
     onReset = (\<lambda>st lb. lb), selectServer = lc_selectServer\<rparr>"

lemma min_loop:
  fixes f :: "'a \<Rightarrow> 'b::linorder"
  shows "(\<forall>x \<in> set xs. foldl (\<lambda>m x. if f x < m then f x else m) b xs \<le> f x) \<and>
    foldl (\<lambda>m x. if f x < m then f x else m) b xs \<le> b \<and>
    (foldl (\<lambda>m x. if f x < m then f x else m) b xs = b \<or> (\<exists>x \<in> set xs. foldl (\<lambda>m x. if f x < m then f x else m) b xs = f x))"
proof (induction xs arbitrary: b)
  case (Cons x xs)
  from Cons [of "if f x < b then f x else b"] show ?case by (auto split: if_splits)
qed simp

lemma connections_bounded: "getCurrentConnections s \<le> 2147483647"
  using sint_lt [of "current_connections s"] by (simp add: getCurrentConnections_def)

lemma min_connections_least:
  assumes "ps \<noteq> []"
  shows "p \<in> set ps \<Longrightarrow> min_connections st ps \<le> getCurrentConnections (st p)"
    and "\<exists>p \<in> set ps. min_connections st ps = getCurrentConnections (st p)"
proof -
  note least = min_loop [of ps "\<lambda>s. getCurrentConnections (st s)" 2147483647, folded min_connections_def]
  then show "p \<in> set ps \<Longrightarrow> min_connections st ps \<le> getCurrentConnections (st p)" by blast
  obtain p where "p \<in> set ps" using assms by (cases ps) auto
  with least connections_bounded [of "st p"] show "\<exists>p \<in> set ps. min_connections st ps = getCurrentConnections (st p)"
    by (metis order_antisym)
qed

lemma uniform_int_less: "0 < n \<Longrightarrow> uniform_int draw 0 (n - 1) < n"
  by (simp add: uniform_int_def)

lemma lc_select:
  assumes "getAvailableServers st lb \<noteq> []"
  obtains p where "lc_selectServer draw st lb = (Some p, update_at p addConnection st, lb)"
    "p \<in> set (getAvailableServers st lb)"
    "\<And>q. q \<in> set (getAvailableServers st lb) \<Longrightarrow> getCurrentConnections (st p) \<le> getCurrentConnections (st q)"
proof -
  let ?av = "getAvailableServers st lb"
  let ?min = "filter (\<lambda>s. getCurrentConnections (st s) = min_connections st ?av) ?av"
  have nonempty: "?min \<noteq> []" using min_connections_least(2) [OF assms, of st] by (auto simp: filter_empty_conv)
  define p where "p = (if length ?min = 1 then ?min ! 0 else ?min ! uniform_int draw 0 (length ?min - 1))"
  have "p \<in> set ?min"
    using nonempty uniform_int_less [of "length ?min" draw] unfolding p_def by (auto simp del: set_filter intro!: nth_mem)
  then have "p \<in> set ?av" "getCurrentConnections (st p) = min_connections st ?av" by auto
  moreover have "servers lb \<noteq> []" using assms by (auto simp: getAvailableServers_def)
  then have "lc_selectServer draw st lb = (Some p, update_at p addConnection st, lb)"
    using assms nonempty by (simp add: lc_selectServer_def Let_def p_def)
  ultimately show ?thesis using that min_connections_least(1) [OF assms] by simp
qed

interpretation lc: balancer lc_methods "\<lambda>_. True"
proof unfold_locales
  fix d st lb p st' lb'
  assume sel: "selectServer lc_methods d st lb = (Some p, st', lb')"
  then have "getAvailableServers st lb \<noteq> []"
    by (auto simp: lc_methods_def lc_selectServer_def Let_def split: if_splits)
  then obtain q where "lc_selectServer d st lb = (Some q, update_at q addConnection st, lb)"
    "q \<in> set (getAvailableServers st lb)" using lc_select by blast
  with sel show "p \<in> set (getAvailableServers st lb) \<and> st' = update_at p addConnection st"
    by (auto simp: lc_methods_def)
qed (auto simp: lc_methods_def lc_selectServer_def Let_def split: if_splits)

text \<open>Connection counts of the live servers that add up to \<open>n\<close> and differ by at most one.\<close>

definition even_load :: "store \<Rightarrow> server_ptr list \<Rightarrow> int \<Rightarrow> bool" where
  "even_load st av n \<longleftrightarrow>
     (\<Sum>p \<in> set av. getCurrentConnections (st p)) = n \<and>
     (\<forall>p \<in> set av. 0 \<le> getCurrentConnections (st p)) \<and>
     (\<forall>p \<in> set av. \<forall>q \<in> set av. getCurrentConnections (st p) \<le> getCurrentConnections (st q) + 1)"

lemma connections_add:
  assumes "getCurrentConnections s < 2147483647"
  shows "getCurrentConnections (addConnection s) = getCurrentConnections s + 1"
proof -
  have "- 2147483648 \<le> sint (current_connections s)" using sint_ge [of "current_connections s"] by simp
  then have "sint (current_connections s + 1) = sint (current_connections s) + 1"
    using assms by (simp add: getCurrentConnections_def sint_word_ariths signed_take_bit_int_eq_self)
  then show ?thesis by (simp add: getCurrentConnections_def addConnection_def)
qed

lemma even_load_step:
  assumes load: "even_load st av n" and p: "p \<in> set av" and n: "n < 2147483647"
    and least: "\<And>q. q \<in> set av \<Longrightarrow> getCurrentConnections (st p) \<le> getCurrentConnections (st q)"
  shows "even_load (update_at p addConnection st) av (n + 1)"
proof -
  let ?c = "\<lambda>st q. getCurrentConnections (st q)" and ?st = "update_at p addConnection st"
  have sum: "(\<Sum>q \<in> set av. ?c st q) = n" and nonneg: "\<And>q. q \<in> set av \<Longrightarrow> 0 \<le> ?c st q"
    and spread: "\<And>q r. q \<in> set av \<Longrightarrow> r \<in> set av \<Longrightarrow> ?c st q \<le> ?c st r + 1"
    using load by (simp_all add: even_load_def)
  have "?c st p \<le> n" using member_le_sum [of p "set av" "?c st"] nonneg p sum by simp
  with n have add: "?c ?st q = (if q = p then ?c st p + 1 else ?c st q)" for q by (simp add: connections_add)
  then have "(\<Sum>q \<in> set av. ?c ?st q) = n + 1" using sum p by (simp add: sum.remove [of "set av" p])
  moreover have "?c ?st q \<le> ?c ?st r + 1" if "q \<in> set av" "r \<in> set av" for q r
    using least [OF that(1)] least [OF that(2)] spread [OF that] by (auto simp: add)
  moreover have "0 \<le> ?c ?st q" if "q \<in> set av" for q using nonneg [OF that] by (auto simp: add)
  ultimately show ?thesis by (simp add: even_load_def)
qed

lemma lc_run:
  assumes "getAvailableServers st lb = av" "av \<noteq> []" "even_load st av n" "n + int (length draws) \<le> 2147483647"
  shows "even_load (fst (snd (lb_run lc_methods (map Select draws) (st, lb)))) av (n + int (length draws))"
  using assms
proof (induction draws arbitrary: st n)
  case (Cons d draws)
  obtain p where sel: "lc_selectServer d st lb = (Some p, update_at p addConnection st, lb)" and p: "p \<in> set av"
    and least: "\<And>q. q \<in> set av \<Longrightarrow> getCurrentConnections (st p) \<le> getCurrentConnections (st q)"
    using lc_select [of st lb d] Cons.prems(1,2) by metis
  have step: "lb_step lc_methods (Select d) (st, lb) = (Some p, update_at p addConnection st, lb)"
    using sel by (simp add: lc_methods_def)
  have "even_load (update_at p addConnection st) av (n + 1)"
    using even_load_step [OF Cons.prems(3) p _ least] Cons.prems(4) by simp
  from Cons.IH [OF _ Cons.prems(2) this] Cons.prems(1,4) show ?case
    by (simp add: lb_run_Cons(3) [OF step] add.assoc del: lb_run.simps)
qed simp

lemma even_load_bounds:
  assumes load: "even_load st av (int n)" and dist: "distinct av" and p: "p \<in> set av"
  shows "int (n div length av) \<le> getCurrentConnections (st p) \<and>
    getCurrentConnections (st p) \<le> int ((n + length av - 1) div length av)"
proof -
  let ?c = "\<lambda>q. getCurrentConnections (st q)" and ?m = "length av"
  have m: "0 < ?m" using p by (cases av) auto
  have card: "int (card (set av - {p})) = int ?m - 1" using dist p m by (simp add: distinct_card of_nat_diff Suc_le_eq)
  have sum: "?c p + (\<Sum>q \<in> set av - {p}. ?c q) = int n"
    using load p by (simp add: even_load_def sum.remove [of "set av" p])
  have "(\<Sum>q \<in> set av - {p}. ?c q) \<le> (\<Sum>q \<in> set av - {p}. ?c p + 1)"
    "(\<Sum>q \<in> set av - {p}. ?c q) \<ge> (\<Sum>q \<in> set av - {p}. ?c p - 1)"
    using load p by (intro sum_mono; force simp: even_load_def)+
  then have "int n < int ?m * (?c p + 1)" "int ?m * ?c p \<le> int n + int ?m - 1"
    using sum card by (simp_all add: algebra_simps)
  moreover have c: "?c p = int (nat (?c p))" using load p by (simp add: even_load_def)
  ultimately have "int n < int (?m * (nat (?c p) + 1))" "int (?m * nat (?c p)) \<le> int (n + ?m - 1)"
    using m by (simp_all add: of_nat_diff Suc_le_eq trans_le_add2 algebra_simps del: int_nat_eq)
  then have less: "n < ?m * (nat (?c p) + 1)" and le: "?m * nat (?c p) \<le> n + ?m - 1"
    unfolding of_nat_less_iff of_nat_le_iff .
  from less have "n div ?m < nat (?c p) + 1" using m by (simp add: div_less_iff_less_mult mult.commute)
  moreover from div_le_mono [OF le, of ?m] have "nat (?c p) \<le> (n + ?m - 1) div ?m" using m by simp
  ultimately have "n div ?m \<le> nat (?c p)" "nat (?c p) \<le> (n + ?m - 1) div ?m" by simp_all
  then show ?thesis using c by linarith
qed

text \<open>
  Least-connections selection keeps the load even. When requests arrive at live servers that are
  all idle and none of them finishes, then after \<open>n\<close> requests over \<open>m\<close> servers every server holds
  \<open>n / m\<close> connections, rounded down or up, whatever the random choices among equals were.
\<close>

theorem least_connections_even:
  assumes "av = getAvailableServers st lb" "distinct av" "\<forall>q \<in> set av. getCurrentConnections (st q) = 0"
    and "p \<in> set av" "n = length draws" "n \<le> 2147483647"
    and "st' = fst (snd (lb_run lc_methods (map Select draws) (st, lb)))"
  shows "int (n div length av) \<le> getCurrentConnections (st' p) \<and>
    getCurrentConnections (st' p) \<le> int ((n + length av - 1) div length av)"
proof (rule even_load_bounds [OF _ assms(2,4)])
  have "even_load st av 0" "av \<noteq> []" using assms(3,4) by (auto simp: even_load_def)
  then show "even_load st' av (int n)"
    using lc_run [of st lb av 0 draws] assms(1,5-7) by simp
qed

definition example_idle :: store where
  "example_idle p = Server_new (nat_dec p) ''10.0.0.1:80'' 1 0"

theorem least_connections_even_witness:
  "case lb_run lc_methods (map Select [5, 8, 1, 0]) (example_idle, LoadBalancer_new\<lparr>servers := [0, 1, 2]\<rparr>) of
     (ps, st', lb') \<Rightarrow> 1 \<le> getCurrentConnections (st' 1) \<and> getCurrentConnections (st' 1) \<le> 2"
proof -
  let ?lb = "LoadBalancer_new\<lparr>servers := [0, 1, 2]\<rparr>"
  have av: "[0, 1, 2] = getAvailableServers example_idle ?lb"
    by (simp add: getAvailableServers_def example_idle_def Server_new_def)
  have "\<forall>q \<in> set [0, 1, 2]. getCurrentConnections (example_idle q) = 0"
    by (simp add: example_idle_def Server_new_def getCurrentConnections_def)
  from least_connections_even [OF av _ this _ refl _ refl, of 1 "[5, 8, 1, 0]"]
  show ?thesis by (simp split: prod.split del: lb_run.simps list.map) auto
qed

section \<open>Weighted least connections\<close>

definition getLoadFactor :: "Server \<Rightarrow> rat" where
  "getLoadFactor server =
     (let weight = of_int (weight server);
          weight = (if weight \<le> 0 then 1 else weight)
      in of_int (getCurrentConnections server) / weight)"

definition double_max :: rat where
  "double_max = 2 ^ 1024 - 2 ^ 971"

definition epsilon :: rat where
  "epsilon = 1 / 1000000000"

text \<open>\<open>std::max_element\<close> on a non-empty range: the first of the largest elements.\<close>

definition max_element :: "('a \<Rightarrow> 'a \<Rightarrow> bool) \<Rightarrow> 'a list \<Rightarrow> 'a" where
  "max_element lt xs = foldl (\<lambda>best x. if lt best x then x else best) (hd xs) (tl xs)"

definition wlc_selectServer ::
  "unit \<Rightarrow> store \<Rightarrow> LoadBalancer \<Rightarrow> server_ptr option \<times> store \<times> LoadBalancer" where
  "wlc_selectServer key st lb =
     (if servers lb = [] then (None, st, lb)
      else
        let available_servers = getAvailableServers st lb in
        if available_servers = [] then (None, st, lb)
        else
          let weighted_connections = map (\<lambda>s. (s, getLoadFactor (st s))) available_servers;
              min_ratio = foldl (\<lambda>m pair. if snd pair < m then snd pair else m) double_max weighted_connections;
              min_ratio_servers = map fst (filter (\<lambda>pair. \<bar>snd pair - min_ratio\<bar> < epsilon) weighted_connections);
              selected =
                (if min_ratio_servers \<noteq> [] then
                   (if length min_ratio_servers = 1 then Some (min_ratio_servers ! 0)
                    else Some (max_element (\<lambda>a b. weight (st a) < weight (st b)) min_ratio_servers))
                 else None)
          in (selected,
              case selected of None \<Rightarrow> st | Some p \<Rightarrow> update_at p addConnection st,
              lb))"

definition wlc_methods where
  "wlc_methods = \<lparr>onServerAdded = (\<lambda>server st lb. lb), onServerRemoved = (\<lambda>server st lb. lb),
     onReset = (\<lambda>st lb. lb), selectServer = wlc_selectServer\<rparr>"

lemma max_element_greatest:
  fixes f :: "'a \<Rightarrow> 'b::linorder"
  assumes "xs \<noteq> []"
  shows "max_element (\<lambda>a b. f a < f b) xs \<in> set xs \<and> (\<forall>x \<in> set xs. f x \<le> f (max_element (\<lambda>a b. f a < f b) xs))"
proof -
  have "foldl (\<lambda>best x. if f best < f x then x else best) b ys \<in> insert b (set ys) \<and>
      (\<forall>x \<in> insert b (set ys). f x \<le> f (foldl (\<lambda>best x. if f best < f x then x else best) b ys))" for b ys
  proof (induction ys arbitrary: b)
    case (Cons y ys)
    from Cons [of "if f b < f y then y else b"] show ?case by (auto split: if_splits)
  qed simp
  from this [of "hd xs" "tl xs"] assms show ?thesis by (cases xs) (simp_all add: max_element_def)
qed

definition effective_weight :: "Server \<Rightarrow> int" where
  "effective_weight s = (if weight s \<le> 0 then 1 else weight s)"

lemma load_factor_eq: "getLoadFactor s = of_int (getCurrentConnections s) / of_int (effective_weight s)"
  by (simp add: getLoadFactor_def effective_weight_def Let_def)

lemma effective_weight_pos [simp]: "0 < effective_weight s"
  by (simp add: effective_weight_def)

lemma load_factor_bounded: "getLoadFactor s < double_max"
proof -
  have "getCurrentConnections s \<le> 2147483647 * effective_weight s"
    using connections_bounded [of s] effective_weight_pos [of s] by linarith
  then have "rat_of_int (getCurrentConnections s) \<le> of_int (2147483647 * effective_weight s)" by (simp only: of_int_le_iff)
  then have "getLoadFactor s \<le> 2147483647" by (simp add: load_factor_eq pos_divide_le_eq)
  also have "\<dots> < double_max" by (simp add: double_max_def)
  finally show ?thesis .
qed

text \<open>Below a product of \<open>10^9\<close> of the weights the tolerance confuses no two load factors.\<close>

lemma close_factors_equal:
  assumes "\<bar>getLoadFactor s - getLoadFactor t\<bar> < epsilon" "effective_weight s * effective_weight t \<le> 1000000000"
  shows "getLoadFactor s = getLoadFactor t"
proof -
  define c where "c = getCurrentConnections s * effective_weight t - getCurrentConnections t * effective_weight s"
  define e where "e = effective_weight s * effective_weight t"
  have e: "0 < e" by (simp add: e_def)
  have "rat_of_int (effective_weight s) \<noteq> 0" "rat_of_int (effective_weight t) \<noteq> 0"
    by (simp_all add: effective_weight_def)
  then have diff: "getLoadFactor s - getLoadFactor t = of_int c / of_int e"
    by (simp add: load_factor_eq c_def e_def field_simps)
  with assms(1) e have "rat_of_int \<bar>c\<bar> < epsilon * of_int e" by (simp add: pos_divide_less_eq)
  also have "\<dots> \<le> epsilon * of_int 1000000000" using assms(2) by (simp add: e_def epsilon_def flip: of_int_mult)
  also have "\<dots> = 1" by (simp add: epsilon_def)
  finally have "c = 0" by simp
  with diff show ?thesis by simp
qed

lemma wlc_select:
  assumes "getAvailableServers st lb = av" "av \<noteq> []"
  obtains p m where "wlc_selectServer key st lb = (Some p, update_at p addConnection st, lb)" "p \<in> set av"
    "m \<in> set av" "\<And>q. q \<in> set av \<Longrightarrow> getLoadFactor (st m) \<le> getLoadFactor (st q)"
    "\<bar>getLoadFactor (st p) - getLoadFactor (st m)\<bar> < epsilon"
    "\<And>q. q \<in> set av \<Longrightarrow> \<bar>getLoadFactor (st q) - getLoadFactor (st m)\<bar> < epsilon \<Longrightarrow> weight (st q) \<le> weight (st p)"
proof -
  let ?wc = "map (\<lambda>s. (s, getLoadFactor (st s))) av"
  let ?min = "foldl (\<lambda>m pair. if snd pair < m then snd pair else m) double_max ?wc"
  note loop = min_loop [of ?wc snd double_max]
  obtain x where "x \<in> set av" using assms(2) by (cases av) auto
  with loop have "?min \<noteq> double_max" using load_factor_bounded [of "st x"] by fastforce
  with loop obtain m where m: "m \<in> set av" "?min = getLoadFactor (st m)" by auto
  let ?cands = "map fst (filter (\<lambda>pair. \<bar>snd pair - ?min\<bar> < epsilon) ?wc)"
  have cands: "set ?cands = {q \<in> set av. \<bar>getLoadFactor (st q) - getLoadFactor (st m)\<bar> < epsilon}"
    unfolding m(2) by force
  have "m \<in> set ?cands" unfolding cands using m by (simp add: epsilon_def)
  then have nonempty: "?cands \<noteq> []" by (metis empty_iff list.set(1))
  define p where "p = max_element (\<lambda>a b. weight (st a) < weight (st b)) ?cands"
  have p: "p \<in> set ?cands" "\<And>q. q \<in> set ?cands \<Longrightarrow> weight (st q) \<le> weight (st p)"
    using max_element_greatest [OF nonempty, of "\<lambda>a. weight (st a)"] by (simp_all only: p_def)
  have one: "?cands ! 0 = p" if "length ?cands = 1"
    using that by (cases ?cands) (simp_all add: p_def max_element_def del: map_eq_Cons_conv)
  have "servers lb \<noteq> []" using assms by (auto simp: getAvailableServers_def)
  then have "wlc_selectServer key st lb = (Some p, update_at p addConnection st, lb)"
    using assms nonempty one unfolding wlc_selectServer_def Let_def by (simp add: p_def)
  moreover have "getLoadFactor (st m) \<le> getLoadFactor (st q)" if "q \<in> set av" for q
    using loop that by (force simp: m(2))
  ultimately show ?thesis using that [of p m] p m(1) unfolding cands by blast
qed

interpretation wlc: balancer wlc_methods "\<lambda>_. True"
proof unfold_locales
  fix d st lb p st' lb'
  assume sel: "selectServer wlc_methods d st lb = (Some p, st', lb')"
  then have "getAvailableServers st lb \<noteq> []"
    by (auto simp: wlc_methods_def wlc_selectServer_def Let_def split: if_splits)
  then obtain q where "wlc_selectServer d st lb = (Some q, update_at q addConnection st, lb)"
    "q \<in> set (getAvailableServers st lb)" using wlc_select by metis
  with sel show "p \<in> set (getAvailableServers st lb) \<and> st' = update_at p addConnection st"
    by (auto simp: wlc_methods_def)
qed (auto simp: wlc_methods_def wlc_selectServer_def Let_def split: if_splits)

text \<open>
  Weighted least-connections selection. When a server is live, the selection returns one whose
  load factor, connections per weight, exceeds that of no live server by the tolerance \<open>10^-9\<close>. If no
  two weights multiply to more than \<open>10^9\<close> the tolerance makes no difference: the selected server has the
  least load factor, and the largest weight among those that have it.
\<close>

theorem weighted_least_connections_selects:
  assumes "av = getAvailableServers st lb" "av \<noteq> []"
  shows "\<exists>p \<in> set av. wlc_selectServer key st lb = (Some p, update_at p addConnection st, lb) \<and>
    (\<forall>q \<in> set av. getLoadFactor (st p) < getLoadFactor (st q) + epsilon) \<and>
    ((\<forall>q \<in> set av. \<forall>r \<in> set av. effective_weight (st q) * effective_weight (st r) \<le> 1000000000) \<longrightarrow>
       (\<forall>q \<in> set av. getLoadFactor (st p) < getLoadFactor (st q) \<or>
                      getLoadFactor (st p) = getLoadFactor (st q) \<and> weight (st q) \<le> weight (st p)))"
proof -
  obtain p m where sel: "wlc_selectServer key st lb = (Some p, update_at p addConnection st, lb)" and p: "p \<in> set av"
    and m: "m \<in> set av" and least: "\<And>q. q \<in> set av \<Longrightarrow> getLoadFactor (st m) \<le> getLoadFactor (st q)"
    and close: "\<bar>getLoadFactor (st p) - getLoadFactor (st m)\<bar> < epsilon"
    and heavy: "\<And>q. q \<in> set av \<Longrightarrow> \<bar>getLoadFactor (st q) - getLoadFactor (st m)\<bar> < epsilon \<Longrightarrow> weight (st q) \<le> weight (st p)"
    using wlc_select [OF assms(1) [symmetric] assms(2)] by metis
  have "getLoadFactor (st p) < getLoadFactor (st q) + epsilon" if "q \<in> set av" for q
    using least [OF that] close by linarith
  moreover have "getLoadFactor (st p) < getLoadFactor (st q) \<or>
      getLoadFactor (st p) = getLoadFactor (st q) \<and> weight (st q) \<le> weight (st p)"
    if "\<forall>q \<in> set av. \<forall>r \<in> set av. effective_weight (st q) * effective_weight (st r) \<le> 1000000000" "q \<in> set av" for q
  proof -
    have "getLoadFactor (st p) = getLoadFactor (st m)" using close_factors_equal [OF close] that(1) p m by blast
    with least [OF that(2)] heavy [OF that(2)] show ?thesis by (auto simp: epsilon_def)
  qed
  ultimately show ?thesis using sel p by blast
qed

theorem weighted_least_connections_selects_witness:
  "\<exists>p \<in> {0, 1, 2}. fst (wlc_selectServer () example_idle (LoadBalancer_new\<lparr>servers := [0, 1, 2]\<rparr>)) = Some p"
proof -
  have "[0, 1, 2] = getAvailableServers example_idle (LoadBalancer_new\<lparr>servers := [0, 1, 2]\<rparr>)"
    by (simp add: getAvailableServers_def example_idle_def Server_new_def)
  from weighted_least_connections_selects [OF this, of "()"] show ?thesis by auto
qed

section \<open>Dynamic least connections\<close>

record DynamicLeastConnectionsBalancer = LoadBalancer +
  response_weight :: rat
  average_response_times :: "string \<rightharpoonup> int"
  server_selection_times :: "string \<rightharpoonup> time_point"

definition DynamicLeastConnectionsBalancer_new :: "rat \<Rightarrow> DynamicLeastConnectionsBalancer" where
  "DynamicLeastConnectionsBalancer_new w =
     (let w = (if w < 0 then 0 else w);
          w = (if w > 1 then 1 else w)
      in \<lparr>servers = [], server_map = Map.empty, response_weight = w,
          average_response_times = Map.empty, server_selection_times = Map.empty\<rparr>)"

definition calculateDynamicScore :: "DynamicLeastConnectionsBalancer \<Rightarrow> Server \<Rightarrow> rat" where
  "calculateDynamicScore lb server =
     (let weight = of_int (weight server);
          weight = (if weight \<le> 0 then 1 else weight);
          connection_score = of_int (getCurrentConnections server) / weight;
          response_score =
            (case average_response_times lb (server_id server) of None \<Rightarrow> 0 | Some c \<Rightarrow> of_int c / 1000);
          failure_rate =
            (if total_requests server > 0
             then of_nat (unat (failed_requests server)) / of_nat (unat (total_requests server)) else 0)
      in (1 - response_weight lb) * connection_score + response_weight lb * response_score + failure_rate * 10)"

text \<open>\<open>std::min_element\<close> on a non-empty range: the first of the smallest elements.\<close>

definition min_element :: "('a \<Rightarrow> 'a \<Rightarrow> bool) \<Rightarrow> 'a list \<Rightarrow> 'a" where
  "min_element lt xs = foldl (\<lambda>best x. if lt x best then x else best) (hd xs) (tl xs)"

definition dlc_selectServer ::
  "time_point \<Rightarrow> store \<Rightarrow> DynamicLeastConnectionsBalancer \<Rightarrow>
   server_ptr option \<times> store \<times> DynamicLeastConnectionsBalancer" where
  "dlc_selectServer now st lb =
     (if servers lb = [] then (None, st, lb)
      else
        let available_servers = getAvailableServers st lb in
        if available_servers = [] then (None, st, lb)
        else
          let server_scores = map (\<lambda>s. (s, calculateDynamicScore lb (st s))) available_servers in
          if server_scores \<noteq> [] then
            let selected = fst (min_element (\<lambda>a b. snd a < snd b) server_scores);
                st = update_at selected addConnection st
            in (Some selected, st,
                lb\<lparr>server_selection_times := (server_selection_times lb)(server_id (st selected) \<mapsto> now)\<rparr>)
          else (None, st, lb))"

text \<open>Conversion of a \<open>double\<close> to \<open>long long\<close> drops the fraction.\<close>

definition truncate_rat :: "rat \<Rightarrow> int" where
  "truncate_rat x = (if 0 \<le> x then \<lfloor>x\<rfloor> else \<lceil>x\<rceil>)"

definition updateAverageResponseTime ::
  "string \<Rightarrow> int \<Rightarrow> DynamicLeastConnectionsBalancer \<Rightarrow> DynamicLeastConnectionsBalancer" where
  "updateAverageResponseTime sid response_time lb =
     (let avg_time = (case average_response_times lb sid of None \<Rightarrow> 0 | Some c \<Rightarrow> c);
          avg_time = (if avg_time = 0 then response_time
                      else truncate_rat (1 / 5 * of_int response_time + (1 - 1 / 5) * of_int avg_time))
      in lb\<lparr>average_response_times := (average_response_times lb)(sid \<mapsto> avg_time)\<rparr>)"

definition recordResponse ::
  "string \<Rightarrow> bool \<Rightarrow> time_point \<Rightarrow> store \<Rightarrow> DynamicLeastConnectionsBalancer \<Rightarrow>
   store \<times> DynamicLeastConnectionsBalancer" where
  "recordResponse sid success now st lb =
     (case server_map lb sid of
        None \<Rightarrow> (st, lb)
      | Some server \<Rightarrow>
          let st = update_at server removeConnection st;
              st = (if \<not> success then update_at server recordFailure st else st)
          in (case server_selection_times lb sid of
                None \<Rightarrow> (st, lb)
              | Some t \<Rightarrow>
                  let lb = updateAverageResponseTime sid (now - t) lb
                  in (st, lb\<lparr>server_selection_times := (server_selection_times lb)(sid := None)\<rparr>)))"

definition dlc_onReset :: "store \<Rightarrow> DynamicLeastConnectionsBalancer \<Rightarrow> DynamicLeastConnectionsBalancer" where
  "dlc_onReset st lb = lb\<lparr>average_response_times := Map.empty, server_selection_times := Map.empty\<rparr>"

definition dlc_methods where
  "dlc_methods = \<lparr>onServerAdded = (\<lambda>server st lb. lb), onServerRemoved = (\<lambda>server st lb. lb),
     onReset = dlc_onReset, selectServer = dlc_selectServer\<rparr>"

lemma min_element_least:
  fixes f :: "'a \<Rightarrow> 'b::linorder"
  assumes "xs \<noteq> []"
  shows "min_element (\<lambda>a b. f a < f b) xs \<in> set xs \<and> (\<forall>x \<in> set xs. f (min_element (\<lambda>a b. f a < f b) xs) \<le> f x)"
proof -
  have "foldl (\<lambda>best x. if f x < f best then x else best) b ys \<in> insert b (set ys) \<and>
      (\<forall>x \<in> insert b (set ys). f (foldl (\<lambda>best x. if f x < f best then x else best) b ys) \<le> f x)" for b ys
  proof (induction ys arbitrary: b)
    case (Cons y ys)
    from Cons [of "if f y < f b then y else b"] show ?case by (auto split: if_splits)
  qed simp
  from this [of "hd xs" "tl xs"] assms show ?thesis by (cases xs) (simp_all add: min_element_def)
qed

lemma dlc_select:
  assumes "getAvailableServers st lb = av" "av \<noteq> []"
  obtains p where "dlc_selectServer now st lb = (Some p, update_at p addConnection st,
      lb\<lparr>server_selection_times := (server_selection_times lb)(server_id (st p) \<mapsto> now)\<rparr>)" "p \<in> set av"
    "\<And>q. q \<in> set av \<Longrightarrow> calculateDynamicScore lb (st p) \<le> calculateDynamicScore lb (st q)"
proof -
  let ?scores = "map (\<lambda>s. (s, calculateDynamicScore lb (st s))) av"
  define p where "p = fst (min_element (\<lambda>a b. snd a < snd b) ?scores)"
  have "min_element (\<lambda>a b. snd a < snd b) ?scores \<in> set ?scores"
    "\<forall>x \<in> set ?scores. snd (min_element (\<lambda>a b. snd a < snd b) ?scores) \<le> snd x"
    using min_element_least [of ?scores snd] assms(2) by auto
  then have "p \<in> set av" "\<And>q. q \<in> set av \<Longrightarrow> calculateDynamicScore lb (st p) \<le> calculateDynamicScore lb (st q)"
    by (auto simp: p_def)
  moreover have "servers lb \<noteq> []" using assms by (auto simp: getAvailableServers_def)
  then have "dlc_selectServer now st lb = (Some p, update_at p addConnection st,
      lb\<lparr>server_selection_times := (server_selection_times lb)(server_id (st p) \<mapsto> now)\<rparr>)"
    using assms by (simp add: dlc_selectServer_def Let_def p_def server_simps)
  ultimately show ?thesis using that by blast
qed

interpretation dlc: balancer dlc_methods "\<lambda>_. True"
proof unfold_locales
  fix d st lb p st' lb'
  assume sel: "selectServer dlc_methods d st lb = (Some p, st', lb')"
  then have "getAvailableServers st lb \<noteq> []"
    by (auto simp: dlc_methods_def dlc_selectServer_def Let_def split: if_splits)
  then obtain q where "dlc_selectServer d st lb = (Some q, update_at q addConnection st,
      lb\<lparr>server_selection_times := (server_selection_times lb)(server_id (st q) \<mapsto> d)\<rparr>)"
    "q \<in> set (getAvailableServers st lb)" using dlc_select by metis
  with sel show "p \<in> set (getAvailableServers st lb) \<and> st' = update_at p addConnection st"
    by (auto simp: dlc_methods_def)
qed (auto simp: dlc_methods_def dlc_selectServer_def dlc_onReset_def Let_def split: if_splits)

text \<open>The moving average never leaves the range of the response times that went into it.\<close>

lemma truncate_rat_range: "of_int lo \<le> x \<Longrightarrow> x \<le> of_int hi \<Longrightarrow> lo \<le> truncate_rat x \<and> truncate_rat x \<le> hi"
  by (auto simp: truncate_rat_def le_floor_iff ceiling_le_iff floor_le_iff less_ceiling_iff le_ceiling_iff)

lemma average_in_range:
  assumes "lo \<le> r" "r \<le> hi" "\<forall>c. average_response_times lb i = Some c \<longrightarrow> lo \<le> c \<and> c \<le> hi"
  shows "\<exists>c. average_response_times (updateAverageResponseTime i r lb) i = Some c \<and> lo \<le> c \<and> c \<le> hi"
proof -
  have mix: "lo \<le> truncate_rat (1 / 5 * of_int r + (1 - 1 / 5) * of_int c) \<and>
      truncate_rat (1 / 5 * of_int r + (1 - 1 / 5) * of_int c) \<le> hi" if "lo \<le> c" "c \<le> hi" for c
  proof (rule truncate_rat_range)
    have "rat_of_int lo \<le> of_int r" "rat_of_int lo \<le> of_int c" "rat_of_int r \<le> of_int hi" "rat_of_int c \<le> of_int hi"
      using assms(1,2) that by simp_all
    then show "rat_of_int lo \<le> 1 / 5 * of_int r + (1 - 1 / 5) * of_int c"
      "1 / 5 * rat_of_int r + (1 - 1 / 5) * of_int c \<le> of_int hi" by simp_all
  qed
  then show ?thesis
    using assms by (cases "average_response_times lb i") (auto simp: updateAverageResponseTime_def Let_def)
qed

text \<open>
  Two requests in flight at one server share one slot for the selection time. When the first
  response comes back, the time since the \<^emph>\<open>second\<close> selection is recorded; the second response is
  not measured at all.
\<close>

lemma overlapping_requests_mismeasured:
  assumes "getAvailableServers st lb = [p]" "server_map lb (server_id (st p)) = Some p"
    and "dlc_selectServer t1 st lb = (r1, st1, lb1)" "dlc_selectServer t2 st1 lb1 = (r2, st2, lb2)"
    and "recordResponse (server_id (st p)) True t3 st2 lb2 = (st3, lb3)"
    and "recordResponse (server_id (st p)) True t4 st3 lb3 = (st4, lb4)"
    and "average_response_times lb (server_id (st p)) = None"
  shows "average_response_times lb4 (server_id (st p)) = Some (t3 - t2)"
proof -
  have s: "servers lb \<noteq> []" using assms(1) by (auto simp: getAvailableServers_def)
  have one: "r1 = Some p" "st1 = update_at p addConnection st"
    "lb1 = lb\<lparr>server_selection_times := (server_selection_times lb)(server_id (st p) \<mapsto> t1)\<rparr>"
    using assms(1,3) s by (auto simp: dlc_selectServer_def Let_def min_element_def server_simps)
  have "getAvailableServers st1 lb1 = [p]" "servers lb1 \<noteq> []"
    using assms(1) s by (auto simp: one getAvailableServers_def server_simps)
  then have two: "lb2 = lb1\<lparr>server_selection_times := (server_selection_times lb1)(server_id (st p) \<mapsto> t2)\<rparr>"
    using assms(4) by (auto simp: dlc_selectServer_def Let_def min_element_def server_simps one)
  show ?thesis
    using assms(2,5-7) by (auto simp: recordResponse_def updateAverageResponseTime_def Let_def one two)
qed

end
