(* ===== verification/Consistent_Hash.thy ===== *)
theory Consistent_Hash
  imports Load_Balancer Byte_Layout
begin

unbundle bit_operations_syntax

text \<open>
  The consistent-hash balancer of \<open>Stdbalancing/include/balancer/ConsistentHashBalancer.h\<close>, with its
  MurmurHash3. The ring is the \<open>std::map\<close> from 64-bit positions to servers; positions are 32-bit
  hashes widened. The counter of \<open>generateRandomKey\<close> is a function-local static; one balancer is
  considered, so it is a member of its record. The number of virtual nodes is an unbounded integer.

  The selection is related to its specification, the first live server clockwise from the hash of the
  key. From it follow the two laws that give consistent hashing its name: removing a server moves only
  the keys it owned, adding one moves keys only to it.
\<close>

section \<open>MurmurHash3\<close>

definition rotate_left :: "nat \<Rightarrow> 32 word \<Rightarrow> 32 word" where
  "rotate_left r k = push_bit r k OR drop_bit (32 - r) k"

definition mix_key :: "32 word \<Rightarrow> 32 word" where
  "mix_key k = rotate_left 15 (k * 0xcc9e2d51) * 0x1b873593"

definition murmur_body :: "bytes \<Rightarrow> 32 word \<Rightarrow> 32 word" where
  "murmur_body key seed =
     foldl (\<lambda>hash i. rotate_left 13 (hash XOR mix_key (from_bytes (take 4 (drop (4 * i) key)))) * 5 + 0xe6546b64)
       seed [0..<length key div 4]"

definition murmur_tail :: "bytes \<Rightarrow> 32 word \<Rightarrow> 32 word" where
  "murmur_tail key hash =
     (let tail = drop (4 * (length key div 4)) key;
          n = length key mod 4;
          k1 = 0;
          k1 = (if n \<ge> 3 then k1 XOR push_bit 16 (ucast (tail ! 2)) else k1);
          k1 = (if n \<ge> 2 then k1 XOR push_bit 8 (ucast (tail ! 1)) else k1)
      in if n \<ge> 1 then hash XOR mix_key (k1 XOR ucast (tail ! 0)) else hash)"

definition murmur_final :: "nat \<Rightarrow> 32 word \<Rightarrow> 32 word" where
  "murmur_final len hash =
     (let hash = hash XOR of_nat len;
          hash = hash XOR drop_bit 16 hash;
          hash = hash * 0x85ebca6b;
          hash = hash XOR drop_bit 13 hash;
          hash = hash * 0xc2b2ae35
      in hash XOR drop_bit 16 hash)"

definition murmur3_32 :: "bytes \<Rightarrow> 32 word \<Rightarrow> 32 word" where
  "murmur3_32 key seed = murmur_final (length key) (murmur_tail key (murmur_body key seed))"

definition hash_function :: "string \<Rightarrow> 64 word" where
  "hash_function key = ucast (murmur3_32 (map of_char key) 0x9747b28c)"

text \<open>Published test vectors of the 32-bit MurmurHash3.\<close>

lemma murmur_test_vectors:
  "murmur3_32 [] 1 = 0x514e28b7"
  "murmur3_32 (map of_char ''abc'') 0 = 0xb3dd93fa"
  "murmur3_32 (map of_char ''Hello, world!'') 0x9747b28c = 0x24884cba"
  by code_simp+

section \<open>The ring\<close>

type_synonym ring = "(64 word \<times> server_ptr) list"

record ConsistentHashBalancer = LoadBalancer +
  virtual_nodes_per_server :: int
  hash_ring :: ring
  random_key_counter :: "64 word"

definition ConsistentHashBalancer_new :: "int \<Rightarrow> ConsistentHashBalancer" where
  "ConsistentHashBalancer_new n =
     \<lparr>servers = [], server_map = Map.empty, virtual_nodes_per_server = (if n \<le> 0 then 150 else n),
      hash_ring = [], random_key_counter = 0\<rparr>"

definition generateVirtualKey :: "string \<Rightarrow> nat \<Rightarrow> string" where
  "generateVirtualKey sid index = sid @ ''#VN'' @ nat_dec index"

definition generateRandomKey :: "time_point \<Rightarrow> ConsistentHashBalancer \<Rightarrow> string \<times> ConsistentHashBalancer" where
  "generateRandomKey now lb =
     (''random_key_'' @ nat_dec (unat (random_key_counter lb)) @ ''_'' @ int_dec now,
      lb\<lparr>random_key_counter := random_key_counter lb + 1\<rparr>)"

definition addServerToHashRing :: "server_ptr \<Rightarrow> store \<Rightarrow> ConsistentHashBalancer \<Rightarrow> ConsistentHashBalancer" where
  "addServerToHashRing server st lb =
     (let virtual_nodes = virtual_nodes_per_server lb * weight (st server)
      in lb\<lparr>hash_ring :=
           foldl (\<lambda>ring i. mput (hash_function (generateVirtualKey (server_id (st server)) i)) server ring)
             (hash_ring lb) [0..<nat virtual_nodes]\<rparr>)"

definition removeServerFromHashRing :: "server_ptr \<Rightarrow> store \<Rightarrow> ConsistentHashBalancer \<Rightarrow> ConsistentHashBalancer" where
  "removeServerFromHashRing server st lb =
     lb\<lparr>hash_ring := filter (\<lambda>it. server_id (st (snd it)) \<noteq> server_id (st server)) (hash_ring lb)\<rparr>"

definition rebuildHashRing :: "store \<Rightarrow> ConsistentHashBalancer \<Rightarrow> ConsistentHashBalancer" where
  "rebuildHashRing st lb = foldl (\<lambda>lb server. addServerToHashRing server st lb) (lb\<lparr>hash_ring := []\<rparr>) (servers lb)"

definition ch_onReset :: "store \<Rightarrow> ConsistentHashBalancer \<Rightarrow> ConsistentHashBalancer" where
  "ch_onReset st lb = rebuildHashRing st (lb\<lparr>hash_ring := []\<rparr>)"

definition setVirtualNodesCount :: "int \<Rightarrow> store \<Rightarrow> ConsistentHashBalancer \<Rightarrow> ConsistentHashBalancer" where
  "setVirtualNodesCount n st lb =
     (if n > 0 then rebuildHashRing st (lb\<lparr>virtual_nodes_per_server := n\<rparr>) else lb)"

definition getHashRingSize :: "ConsistentHashBalancer \<Rightarrow> nat" where
  "getHashRingSize lb = length (hash_ring lb)"

text \<open>
  \<open>lower_bound\<close> and the walk around the ring. Iterators are positions in the ring; the walk never
  leaves it, and a position outside would have no server.
\<close>

definition lower_bound :: "64 word \<Rightarrow> ring \<Rightarrow> nat" where
  "lower_bound hash ring = length (takeWhile (\<lambda>it. fst it < hash) ring)"

function walk_ring :: "store \<Rightarrow> ring \<Rightarrow> nat \<Rightarrow> nat \<Rightarrow> server_ptr option" where
  "walk_ring st ring start_it it =
     (if it < length ring \<and> start_it < length ring then
        let server = snd (ring ! it) in
        if is_alive (st server) then Some server
        else
          let it = it + 1;
              it = (if it = length ring then 0 else it)
          in if it \<noteq> start_it then walk_ring st ring start_it it else None
      else None)"
  by pat_completeness auto
termination
  by (relation "measure (\<lambda>(st, ring, start_it, it). if it < start_it then start_it - it else start_it + length ring - it)")
    (auto split: if_splits)

declare walk_ring.simps [simp del]

definition ch_selectServer ::
  "string \<times> time_point \<Rightarrow> store \<Rightarrow> ConsistentHashBalancer \<Rightarrow>
   server_ptr option \<times> store \<times> ConsistentHashBalancer" where
  "ch_selectServer = (\<lambda>(key, now) st lb.
     (if servers lb = [] \<or> hash_ring lb = [] then (None, st, lb)
      else
        let (hash_key, lb) = (if key = [] then generateRandomKey now lb else (key, lb));
            hash = hash_function hash_key;
            it = lower_bound hash (hash_ring lb);
            it = (if it = length (hash_ring lb) then 0 else it)
        in (case walk_ring st (hash_ring lb) it it of
              Some server \<Rightarrow> (Some server, update_at server addConnection st, lb)
            | None \<Rightarrow> (None, st, lb))))"

definition ch_methods where
  "ch_methods = \<lparr>onServerAdded = addServerToHashRing, onServerRemoved = removeServerFromHashRing,
     onReset = ch_onReset, selectServer = ch_selectServer\<rparr>"

section \<open>The walk finds the first live server clockwise\<close>

definition clockwise :: "64 word \<Rightarrow> ring \<Rightarrow> ring" where
  "clockwise hash ring = filter (\<lambda>it. \<not> fst it < hash) ring @ filter (\<lambda>it. fst it < hash) ring"

definition owner :: "store \<Rightarrow> ring \<Rightarrow> 64 word \<Rightarrow> server_ptr option" where
  "owner st ring hash = find (\<lambda>s. is_alive (st s)) (map snd (clockwise hash ring))"

text \<open>The nodes the walk has still to look at.\<close>

definition still_to_visit :: "ring \<Rightarrow> nat \<Rightarrow> nat \<Rightarrow> ring" where
  "still_to_visit ring start it = (if it < start then drop it (take start ring) else drop it ring @ take start ring)"

lemma still_to_visit_step:
  assumes "it < length ring" "start < length ring"
  defines "next_it \<equiv> (if it + 1 = length ring then 0 else it + 1)"
  shows "still_to_visit ring start it =
    ring ! it # (if next_it \<noteq> start then still_to_visit ring start next_it else [])"
proof (cases "it < start")
  case True
  then have "drop it (take start ring) = ring ! it # drop (it + 1) (take start ring)"
    using assms(1,2) by (simp add: Cons_nth_drop_Suc [symmetric])
  with True assms show ?thesis by (auto simp: still_to_visit_def next_it_def)
next
  case False
  then have "drop it ring = ring ! it # drop (it + 1) ring" using assms(1) by (simp add: Cons_nth_drop_Suc)
  with False assms show ?thesis by (auto simp: still_to_visit_def next_it_def)
qed

lemma walk_ring_visits:
  assumes "it < length ring" "start < length ring"
  shows "walk_ring st ring start it = find (\<lambda>s. is_alive (st s)) (map snd (still_to_visit ring start it))"
  using assms
proof (induction st ring start it rule: walk_ring.induct)
  case (1 st ring start it)
  define next_it where "next_it = (if it + 1 = length ring then 0 else it + 1)"
  note IH = "1.IH" [OF _ refl _ refl refl, folded next_it_def]
  have "next_it < length ring" using "1.prems" by (auto simp: next_it_def)
  then have "walk_ring st ring start next_it = find (\<lambda>s. is_alive (st s)) (map snd (still_to_visit ring start next_it))"
    if "\<not> is_alive (st (snd (ring ! it)))" "next_it \<noteq> start"
    using IH that "1.prems" by simp
  moreover have "walk_ring st ring start it = (if is_alive (st (snd (ring ! it))) then Some (snd (ring ! it))
      else if next_it \<noteq> start then walk_ring st ring start next_it else None)"
    using "1.prems" by (subst walk_ring.simps) (simp add: Let_def next_it_def)
  ultimately show ?case
    using still_to_visit_step [OF "1.prems", folded next_it_def] by simp
qed

lemma sorted_split:
  assumes "msorted ring"
  shows "filter (\<lambda>it. fst it < hash) ring = takeWhile (\<lambda>it. fst it < hash) ring \<and>
    filter (\<lambda>it. \<not> fst it < hash) ring = dropWhile (\<lambda>it. fst it < hash) ring"
  using assms
proof (induction ring)
  case (Cons x ring)
  then have later: "\<forall>y \<in> set ring. fst x < fst y" and IH: "filter (\<lambda>it. fst it < hash) ring = takeWhile (\<lambda>it. fst it < hash) ring"
    "filter (\<lambda>it. \<not> fst it < hash) ring = dropWhile (\<lambda>it. fst it < hash) ring" by (cases x; simp)+
  show ?case
  proof (cases "fst x < hash")
    case False
    with later have "\<forall>y \<in> set ring. \<not> fst y < hash" by (meson less_trans)
    with False show ?thesis by (simp add: filter_empty_conv filter_id_conv)
  qed (use IH in simp)
qed simp

lemma walk_is_owner:
  assumes "msorted ring" "ring \<noteq> []"
  shows "(let it = lower_bound hash ring; it = (if it = length ring then 0 else it)
          in walk_ring st ring it it) = owner st ring hash"
proof -
  define n where "n = lower_bound hash ring"
  define i where "i = (if n = length ring then 0 else n)"
  have n: "n \<le> length ring" by (simp add: n_def lower_bound_def length_takeWhile_le)
  have "drop n ring @ take n ring = clockwise hash ring"
    using sorted_split [OF assms(1), of hash]
    by (simp add: n_def lower_bound_def clockwise_def dropWhile_eq_drop [symmetric] takeWhile_eq_take [symmetric])
  moreover have "still_to_visit ring i i = drop n ring @ take n ring" by (simp add: still_to_visit_def i_def)
  moreover have "i < length ring" using n assms(2) by (auto simp: i_def)
  ultimately have "walk_ring st ring i i = owner st ring hash" using walk_ring_visits [of i ring i st] by (simp add: owner_def)
  then show ?thesis by (simp only: Let_def i_def n_def)
qed

text \<open>
  Going clockwise is going by increasing distance, and the distance from \<open>hash\<close> to a position \<open>k\<close> is
  the difference \<open>k - hash\<close> of the words, which wraps around as the ring does.
\<close>

lemma clockwise_sorted:
  assumes "msorted ring"
  shows "sorted_wrt (\<lambda>x y. fst x - hash \<le> fst y - hash) (clockwise hash ring)"
proof -
  have dist: "uint (k - hash) = (if hash \<le> k then uint k - uint hash else uint k - uint hash + 2 ^ 64)" for k
    using uint_lt2p [of k] uint_lt2p [of hash] by (auto simp: uint_sub_if' word_le_def)
  have order: "k - hash \<le> k' - hash"
    if "hash \<le> k \<and> (k' < hash \<or> k \<le> k') \<or> k' < hash \<and> k \<le> k'" for k k'
  proof -
    have "uint k < uint k' + 2 ^ 64" using uint_lt2p [of k] by (intro add_strict_increasing2) simp_all
    with that show ?thesis by (auto simp: word_le_def word_less_def dist)
  qed
  have sorted: "sorted_wrt (\<lambda>x y. fst x < fst y) ring" using assms by (simp add: msorted_def sorted_wrt_map)
  have "sorted_wrt (\<lambda>x y. fst x - hash \<le> fst y - hash) (filter Q ring)"
    if "Q = (\<lambda>it. fst it < hash) \<or> Q = (\<lambda>it. \<not> fst it < hash)" for Q
    by (rule sorted_wrt_mono_rel [OF _ sorted_wrt_filter [OF sorted]]) (use that in \<open>auto simp: not_less intro!: order\<close>)
  then show ?thesis by (auto simp: clockwise_def sorted_wrt_append not_less intro!: order)
qed

lemma find_sorted_least:
  assumes "sorted_wrt (\<lambda>x y. d x \<le> (d y :: 'b::linorder)) xs" "find P xs = Some x" "y \<in> set xs" "P y"
  shows "d x \<le> d y"
  using assms by (induction xs) (auto split: if_splits)

lemma find_map_snd: "find P (map snd xs) = map_option snd (find (\<lambda>x. P (snd x)) xs)"
  by (induction xs) auto

lemma set_clockwise [simp]: "set (clockwise hash ring) = set ring"
  by (auto simp: clockwise_def)

lemma owner_None: "owner st ring hash = None \<longleftrightarrow> (\<forall>it \<in> set ring. \<not> is_alive (st (snd it)))"
  by (simp add: owner_def find_None_iff)

lemma owner_SomeD:
  assumes "msorted ring" "owner st ring hash = Some p"
  shows "is_alive (st p) \<and>
    (\<exists>k. (k, p) \<in> set ring \<and> (\<forall>it \<in> set ring. is_alive (st (snd it)) \<longrightarrow> k - hash \<le> fst it - hash))"
proof -
  obtain x where x: "find (\<lambda>it. is_alive (st (snd it))) (clockwise hash ring) = Some x" "p = snd x"
    using assms(2) by (auto simp: owner_def find_map_snd)
  then have "x \<in> set ring" "is_alive (st (snd x))" by (auto simp: find_Some_iff dest: nth_mem)
  moreover have "fst x - hash \<le> fst it - hash" if "it \<in> set ring" "is_alive (st (snd it))" for it
    using find_sorted_least [OF clockwise_sorted [OF assms(1)] x(1)] that by simp
  ultimately show ?thesis using x(2) by (intro conjI exI [of _ "fst x"]) auto
qed

lemma owner_SomeI:
  assumes "msorted ring" "(k, p) \<in> set ring" "is_alive (st p)"
    "\<And>k' p'. (k', p') \<in> set ring \<Longrightarrow> is_alive (st p') \<Longrightarrow> k - hash \<le> k' - hash"
  shows "owner st ring hash = Some p"
proof (cases "owner st ring hash")
  case None
  with assms(2,3) show ?thesis by (auto simp: owner_None)
next
  case (Some q)
  then obtain k' where k': "(k', q) \<in> set ring" "is_alive (st q)" "k' - hash \<le> k - hash"
    using owner_SomeD [OF assms(1)] assms(2,3) by force
  with assms(4) have "k' - hash = k - hash" by (meson order_antisym)
  then have "k' = k" by (metis diff_add_cancel)
  with k'(1) assms(1,2) Some show ?thesis by (simp add: msorted_map_of)
qed

section \<open>The ring along histories\<close>

definition ch_inv :: "ConsistentHashBalancer \<Rightarrow> bool" where
  "ch_inv lb \<longleftrightarrow> msorted (hash_ring lb) \<and> snd ` set (hash_ring lb) \<subseteq> set (servers lb)"

lemma map_of_add_nodes:
  "map_of (foldl (\<lambda>ring i. mput (f i) p ring) ring is) k = (if k \<in> f ` set is then Some p else map_of ring k)"
  by (induction "is" arbitrary: ring) (auto simp: cpp_lib)

lemma msorted_add_nodes: "msorted ring \<Longrightarrow> msorted (foldl (\<lambda>ring i. mput (f i) p ring) ring is)"
  by (induction "is" arbitrary: ring) (auto intro: msorted_mput)

lemma addServerToHashRing_keeps [simp]:
  "servers (addServerToHashRing p st lb) = servers lb" "server_map (addServerToHashRing p st lb) = server_map lb"
  by (simp_all add: addServerToHashRing_def Let_def)

lemma addServerToHashRing_sorted: "msorted (hash_ring lb) \<Longrightarrow> msorted (hash_ring (addServerToHashRing p st lb))"
  by (simp add: addServerToHashRing_def Let_def msorted_add_nodes)

lemma addServerToHashRing_nodes:
  assumes "msorted (hash_ring lb)"
  shows "(k, q) \<in> set (hash_ring (addServerToHashRing p st lb)) \<Longrightarrow> q = p \<or> (k, q) \<in> set (hash_ring lb)"
    and "(k, q) \<in> set (hash_ring lb) \<Longrightarrow>
      (k, q) \<in> set (hash_ring (addServerToHashRing p st lb)) \<or> (k, p) \<in> set (hash_ring (addServerToHashRing p st lb))"
  using assms addServerToHashRing_sorted [OF assms, of p st]
  by (auto simp: msorted_map_of addServerToHashRing_def Let_def map_of_add_nodes split: if_splits)

lemma addServerToHashRing_inv:
  assumes "ch_inv lb" "p \<in> set (servers lb)"
  shows "ch_inv (addServerToHashRing p st lb)"
  using assms addServerToHashRing_sorted addServerToHashRing_nodes(1) [of lb _ _ p st] by (fastforce simp: ch_inv_def)

lemma rebuild_loop:
  assumes "ch_inv lb" "set ps \<subseteq> set (servers lb)"
  shows "ch_inv (foldl (\<lambda>lb server. addServerToHashRing server st lb) lb ps) \<and>
    servers (foldl (\<lambda>lb server. addServerToHashRing server st lb) lb ps) = servers lb \<and>
    server_map (foldl (\<lambda>lb server. addServerToHashRing server st lb) lb ps) = server_map lb"
  using assms
proof (induction ps arbitrary: lb)
  case (Cons p ps)
  from Cons.IH [of "addServerToHashRing p st lb"] Cons.prems addServerToHashRing_inv [of lb p st] show ?case by simp
qed simp

lemma rebuildHashRing_inv:
  "ch_inv (rebuildHashRing st lb)" "servers (rebuildHashRing st lb) = servers lb"
  "server_map (rebuildHashRing st lb) = server_map lb"
proof -
  have "ch_inv (lb\<lparr>hash_ring := []\<rparr>)" by (simp add: ch_inv_def)
  from rebuild_loop [OF this, of "servers lb" st]
  show "ch_inv (rebuildHashRing st lb)" "servers (rebuildHashRing st lb) = servers lb"
    "server_map (rebuildHashRing st lb) = server_map lb" by (simp_all add: rebuildHashRing_def)
qed

lemma setVirtualNodesCount_inv: "ch_inv lb \<Longrightarrow> ch_inv (setVirtualNodesCount n st lb)"
  by (simp add: setVirtualNodesCount_def rebuildHashRing_inv)

text \<open>What a selection does, for the key that is hashed in the end.\<close>

definition routed_key :: "string \<times> time_point \<Rightarrow> ConsistentHashBalancer \<Rightarrow> string" where
  "routed_key = (\<lambda>(key, now) lb. if key = [] then fst (generateRandomKey now lb) else key)"

lemma ch_select:
  assumes "ch_inv lb"
  obtains lb' where "ch_selectServer kn st lb =
      (case owner st (hash_ring lb) (hash_function (routed_key kn lb)) of
         Some p \<Rightarrow> (Some p, update_at p addConnection st, lb') | None \<Rightarrow> (None, st, lb'))"
    "servers lb' = servers lb" "server_map lb' = server_map lb" "hash_ring lb' = hash_ring lb"
proof (cases "servers lb = [] \<or> hash_ring lb = []")
  case True
  with assms have "hash_ring lb = []" by (auto simp: ch_inv_def)
  then show ?thesis using that [of lb] by (cases kn) (simp add: ch_selectServer_def owner_def clockwise_def)
next
  case False
  obtain key now where kn: "kn = (key, now)" by (cases kn)
  obtain hk lb1 where hk: "(if key = [] then generateRandomKey now lb else (key, lb)) = (hk, lb1)" by fastforce
  then have lb1: "hk = routed_key kn lb" "servers lb1 = servers lb" "server_map lb1 = server_map lb" "hash_ring lb1 = hash_ring lb"
    by (auto simp: kn routed_key_def generateRandomKey_def split: if_splits)
  have "ch_selectServer kn st lb =
      (case owner st (hash_ring lb) (hash_function (routed_key kn lb)) of
         Some p \<Rightarrow> (Some p, update_at p addConnection st, lb1) | None \<Rightarrow> (None, st, lb1))"
    using False walk_is_owner [of "hash_ring lb" "hash_function (routed_key kn lb)" st] assms
    unfolding ch_selectServer_def kn prod.case hk lb1 Let_def by (auto simp: ch_inv_def split: option.split)
  then show ?thesis using that [of lb1] lb1 by blast
qed

interpretation ch: balancer ch_methods ch_inv
proof unfold_locales
  fix d st and lb :: ConsistentHashBalancer and r st' lb'
  assume "selectServer ch_methods d st lb = (r, st', lb')"
  then show "servers lb' = servers lb \<and> server_map lb' = server_map lb"
    by (cases d) (auto simp: ch_methods_def ch_selectServer_def generateRandomKey_def Let_def split: if_splits option.splits)
next
  fix d st and lb :: ConsistentHashBalancer and p st' lb'
  assume inv: "ch_inv lb" and sel: "selectServer ch_methods d st lb = (Some p, st', lb')"
  obtain lb1 where "ch_selectServer d st lb =
      (case owner st (hash_ring lb) (hash_function (routed_key d lb)) of
         Some p \<Rightarrow> (Some p, update_at p addConnection st, lb1) | None \<Rightarrow> (None, st, lb1))"
    using ch_select [OF inv] by blast
  with sel have "owner st (hash_ring lb) (hash_function (routed_key d lb)) = Some p" "st' = update_at p addConnection st"
    by (auto simp: ch_methods_def split: option.splits)
  with owner_SomeD inv show "p \<in> set (getAvailableServers st lb) \<and> st' = update_at p addConnection st"
    by (fastforce simp: ch_inv_def getAvailableServers_def)
next
  fix d st and lb :: ConsistentHashBalancer and st' lb'
  assume "selectServer ch_methods d st lb = (None, st', lb')"
  then show "st' = st"
    by (cases d) (auto simp: ch_methods_def ch_selectServer_def generateRandomKey_def Let_def split: if_splits option.splits)
next
  fix lb p and st :: store assume "ch_inv lb"
  then have "ch_inv (lb\<lparr>servers := servers lb @ [p], server_map := (server_map lb)(server_id (st p) \<mapsto> p)\<rparr>)"
    by (auto simp: ch_inv_def)
  then show "ch_inv (addServer (onServerAdded ch_methods) p st lb)"
    by (simp add: addServer_def ch_methods_def Let_def addServerToHashRing_inv)
next
  fix lb st i assume "ch_inv lb" "lb_inv st lb"
  then show "ch_inv (snd (removeServer (onServerRemoved ch_methods) i st lb))"
    by (cases "server_map lb i")
      (auto simp: removeServer_def ch_methods_def Let_def removeServerFromHashRing_def ch_inv_def lb_inv_def msorted_filter)
next
  fix d st and lb :: ConsistentHashBalancer and r st' lb'
  assume inv: "ch_inv lb" and sel: "selectServer ch_methods d st lb = (r, st', lb')"
  obtain lb1 where "ch_selectServer d st lb =
      (case owner st (hash_ring lb) (hash_function (routed_key d lb)) of
         Some p \<Rightarrow> (Some p, update_at p addConnection st, lb1) | None \<Rightarrow> (None, st, lb1))"
    and "servers lb1 = servers lb" "hash_ring lb1 = hash_ring lb"
    using ch_select [OF inv] by blast
  with inv sel show "ch_inv lb'" by (auto simp: ch_methods_def ch_inv_def split: option.splits)
qed (simp_all add: ch_methods_def removeServerFromHashRing_def ch_onReset_def rebuildHashRing_inv)

section \<open>What moves when servers come and go\<close>

lemma selected_is_owner:
  assumes "ch_inv lb" "key \<noteq> []"
  shows "fst (ch_selectServer (key, now) st lb) = owner st (hash_ring lb) (hash_function key)"
proof -
  obtain lb' where "ch_selectServer (key, now) st lb =
      (case owner st (hash_ring lb) (hash_function (routed_key (key, now) lb)) of
         Some p \<Rightarrow> (Some p, update_at p addConnection st, lb') | None \<Rightarrow> (None, st, lb'))"
    using ch_select [OF assms(1)] by blast
  with assms(2) show ?thesis by (simp add: routed_key_def split: option.splits)
qed

lemma owner_after_removal:
  assumes "msorted ring" "owner st ring hash = Some p" "Q p"
  shows "owner st (filter (\<lambda>it. Q (snd it)) ring) hash = Some p"
proof -
  obtain k where "(k, p) \<in> set ring" "is_alive (st p)"
    "\<forall>it \<in> set ring. is_alive (st (snd it)) \<longrightarrow> k - hash \<le> fst it - hash"
    using owner_SomeD [OF assms(1,2)] by blast
  with assms(1,3) show ?thesis by (intro owner_SomeI [of _ k]) (auto intro: msorted_filter)
qed

lemma owner_after_addition:
  assumes sorted: "msorted ring" "msorted ring'" and p: "is_alive (st p)"
    and new: "\<And>k q. (k, q) \<in> set ring' \<Longrightarrow> q = p \<or> (k, q) \<in> set ring"
    and old: "\<And>k q. (k, q) \<in> set ring \<Longrightarrow> (k, q) \<in> set ring' \<or> (k, p) \<in> set ring'"
  shows "owner st ring' hash = Some p \<or> owner st ring' hash = owner st ring hash"
proof (cases "owner st ring' hash")
  case None
  then have dead: "\<not> is_alive (st s)" if "(k, s) \<in> set ring'" for k s using that by (auto simp: owner_None)
  have "\<not> is_alive (st s)" if "(k, s) \<in> set ring" for k s using old [OF that] dead p by blast
  then have "owner st ring hash = None" by (auto simp: owner_None)
  with None show ?thesis by simp
next
  case (Some q)
  then obtain k where k: "(k, q) \<in> set ring'" "is_alive (st q)"
    and least: "\<forall>it \<in> set ring'. is_alive (st (snd it)) \<longrightarrow> k - hash \<le> fst it - hash"
    using owner_SomeD [OF sorted(2)] by blast
  show ?thesis
  proof (cases "q = p")
    case False
    have "owner st ring hash = Some q"
    proof (rule owner_SomeI [where k = k, OF sorted(1)])
      show "is_alive (st q)" by (rule k(2))
      show "(k, q) \<in> set ring" using new [OF k(1)] False by blast
      fix k' p' assume "(k', p') \<in> set ring" "is_alive (st p')"
      then have "\<exists>s. (k', s) \<in> set ring' \<and> is_alive (st s)" using old p by blast
      with least show "k - hash \<le> k' - hash" by auto
    qed
    with Some show ?thesis by simp
  qed (use Some in simp)
qed

lemma reachable_ring:
  assumes "snd (lb_run ch_methods ops (st0, ConsistentHashBalancer_new n)) = (st, lb)"
  shows "ch_inv lb \<and> lb_inv st lb"
proof -
  have "ch_inv (ConsistentHashBalancer_new n)" "lb_inv st0 (ConsistentHashBalancer_new n)"
    by (simp_all add: ch_inv_def lb_inv_def ConsistentHashBalancer_new_def)
  with assms ch.run_ids [of st0 "ConsistentHashBalancer_new n" ops _ st lb] show ?thesis by (metis prod.collapse)
qed

text \<open>
  C9. Consistent hashing moves only what it must. After any history of a consistent-hash balancer and
  for every key: removing a server leaves every key of another server where it was, and adding a live
  server either attracts a key or leaves it where it was.
\<close>

theorem consistent_hash_moves_little:
  assumes "snd (lb_run ch_methods ops (st0, ConsistentHashBalancer_new n)) = (st, lb)" "key \<noteq> []"
  shows "(fst (ch_selectServer (key, now) st lb) = Some p \<and> server_id (st p) \<noteq> sid \<longrightarrow>
      fst (ch_selectServer (key, now') st (snd (removeServer removeServerFromHashRing sid st lb))) = Some p) \<and>
    (is_alive (st q) \<longrightarrow>
      fst (ch_selectServer (key, now') st (addServer addServerToHashRing q st lb)) \<in>
        {Some q, fst (ch_selectServer (key, now) st lb)})"
proof (intro conjI impI)
  have inv: "ch_inv lb" "lb_inv st lb" using reachable_ring [OF assms(1)] by simp_all
  then have sorted: "msorted (hash_ring lb)" by (simp add: ch_inv_def)
  let ?gone = "snd (removeServer removeServerFromHashRing sid st lb)"
  assume p: "fst (ch_selectServer (key, now) st lb) = Some p \<and> server_id (st p) \<noteq> sid"
  then have own: "owner st (hash_ring lb) (hash_function key) = Some p" using selected_is_owner [OF inv(1) assms(2)] by simp
  have "hash_ring ?gone = hash_ring lb \<or> hash_ring ?gone = filter (\<lambda>it. server_id (st (snd it)) \<noteq> sid) (hash_ring lb)"
    using inv(2) by (auto simp: removeServer_def removeServerFromHashRing_def Let_def lb_inv_def split: option.split)
  then have "owner st (hash_ring ?gone) (hash_function key) = Some p"
    using own owner_after_removal [OF sorted own, of "\<lambda>s. server_id (st s) \<noteq> sid"] p by auto
  moreover have "ch_inv ?gone" using ch.removed_ok [OF inv] by (simp add: ch_methods_def)
  ultimately show "fst (ch_selectServer (key, now') st ?gone) = Some p" using selected_is_owner assms(2) by simp
next
  have inv: "ch_inv lb" using reachable_ring [OF assms(1)] by simp
  then have sorted: "msorted (hash_ring lb)" by (simp add: ch_inv_def)
  let ?lb = "lb\<lparr>servers := servers lb @ [q], server_map := (server_map lb)(server_id (st q) \<mapsto> q)\<rparr>"
  have grown: "addServer addServerToHashRing q st lb = addServerToHashRing q st ?lb" by (simp add: addServer_def Let_def)
  have inv': "ch_inv (addServer addServerToHashRing q st lb)" using ch.added_ok [OF inv] by (simp add: ch_methods_def)
  assume "is_alive (st q)"
  then have "owner st (hash_ring (addServerToHashRing q st ?lb)) (hash_function key) \<in>
      {Some q, owner st (hash_ring lb) (hash_function key)}"
    using owner_after_addition [OF sorted, of "hash_ring (addServerToHashRing q st ?lb)" st q "hash_function key"]
      addServerToHashRing_nodes [of ?lb _ _ q st] addServerToHashRing_sorted [of ?lb q st] sorted by auto
  then show "fst (ch_selectServer (key, now') st (addServer addServerToHashRing q st lb)) \<in>
      {Some q, fst (ch_selectServer (key, now) st lb)}"
    by (simp only: selected_is_owner [OF inv assms(2)] selected_is_owner [OF inv' assms(2)]) (simp only: grown)
qed

definition colliding_store :: store where
  "colliding_store p = Server_new (if p = 0 then ''s22858'' else ''s93910'') ''10.0.0.1:80'' 1 0"

lemma colliding_store_simps:
  "server_id (colliding_store 0) = ''s22858''" "server_id (colliding_store (Suc 0)) = ''s93910''"
  "weight (colliding_store p) = 1" "is_alive (colliding_store p)"
  by (simp_all add: colliding_store_def Server_new_def)

theorem consistent_hash_moves_little_witness:
  "case snd (lb_run ch_methods [Add 0] (colliding_store, ConsistentHashBalancer_new 1)) of (st, lb) \<Rightarrow>
     fst (ch_selectServer (''user'', 5) st (addServer addServerToHashRing 1 st lb)) \<in>
       {Some 1, fst (ch_selectServer (''user'', 4) st lb)}"
proof -
  obtain st lb where run: "snd (lb_run ch_methods [Add 0] (colliding_store, ConsistentHashBalancer_new 1)) = (st, lb)"
    by (rule prod.exhaust)
  have "st = colliding_store" using run by simp
  then have "is_alive (st 1)" by (simp add: colliding_store_simps)
  from consistent_hash_moves_little [OF run list.distinct(2), THEN conjunct2, THEN mp, OF this]
  show ?thesis unfolding run prod.case .
qed

lemma colliding_nodes:
  "hash_function (generateVirtualKey ''s22858'' 0) = 864692881"
  "hash_function (generateVirtualKey ''s93910'' 0) = 864692881"
  by code_simp+

lemma colliding_ring:
  "addServer addServerToHashRing 0 colliding_store (ConsistentHashBalancer_new 1) =
     ConsistentHashBalancer_new 1\<lparr>servers := [0], server_map := [''s22858'' \<mapsto> 0], hash_ring := [(864692881, 0)]\<rparr>"
  "addServer addServerToHashRing (Suc 0) colliding_store
     (ConsistentHashBalancer_new 1\<lparr>servers := [0], server_map := [''s22858'' \<mapsto> 0], hash_ring := [(864692881, 0)]\<rparr>) =
   ConsistentHashBalancer_new 1\<lparr>servers := [0, Suc 0], server_map := [''s22858'' \<mapsto> 0, ''s93910'' \<mapsto> Suc 0],
     hash_ring := [(864692881, Suc 0)]\<rparr>"
  by (simp_all add: addServer_def addServerToHashRing_def ConsistentHashBalancer_new_def colliding_store_simps
      colliding_nodes Let_def)

text \<open>
  Two virtual nodes can have the same position; the later one replaces the earlier. When its
  server is removed the position is gone for both. Two servers with one virtual node each, whose
  keys collide, show what this can cost: after adding both and removing the second, the first is
  registered and alive, and no request will ever reach it.
\<close>

theorem hash_collision_orphans_server:
  "case snd (lb_run ch_methods [Add 0, Add 1, Remove ''s93910''] (colliding_store, ConsistentHashBalancer_new 1)) of
     (st, lb) \<Rightarrow> servers lb = [0] \<and> getAvailableServers st lb = [0] \<and>
       (\<forall>key now. fst (ch_selectServer (key, now) st lb) = None)"
  by (simp add: ch_methods_def colliding_ring removeServer_def removeServerFromHashRing_def colliding_store_simps
      ch_selectServer_def getAvailableServers_def Let_def)

end
