(* ===== verification/Indexed_Pool.thy ===== *)
theory Indexed_Pool
  imports Prelude
begin

unbundle bit_operations_syntax

text \<open>
  The indexed memory pool of \<open>StdMemPool/StdIndexedMemPool.h\<close>. Slots are numbered from 1 and linked
  into free lists by their \<open>localNext\<close> and \<open>globalNext\<close> members: one list per stripe, and a global list
  whose elements are the heads of full lists. List heads carry a size in the low 8 bits and a tag in the
  upper 24. Operations are modelled one at a time: an operation that runs alone finds every
  \<open>compare_exchange\<close> successful at the first attempt, so the retry loops are straight-line code here.
  A failed \<open>assert\<close> is an error value.

  The template parameters are the record \<open>pool_params\<close>. An element is \<open>Some\<close> object or, when its storage
  holds no constructed object, \<open>None\<close>.
\<close>

section \<open>The pool\<close>

record 'v pool_params =
  NumLocalLists :: nat
  LocalListLimit :: "32 word"
  eagerRecycle :: bool
  default_value :: 'v

datatype pool_error = AssertFailed

type_synonym slot_index = "32 word"

record 'v Slot =
  elem :: "'v option"
  localNext :: slot_index
  globalNext :: slot_index

record TaggedPtr =
  tp_idx :: slot_index
  tagAndSize :: "32 word"

record 'v IndexedMemPool =
  actualCapacity :: "32 word"
  pool_size :: "32 word"
  slots :: "slot_index \<Rightarrow> 'v Slot"
  local_heads :: "TaggedPtr list"
  globalHead :: TaggedPtr

definition try_then :: "'e + 'a \<Rightarrow> ('a \<Rightarrow> 'e + 'b) \<Rightarrow> 'e + 'b" where
  "try_then m f = (case m of Inl e \<Rightarrow> Inl e | Inr x \<Rightarrow> f x)"

lemma try_then_simps [simp]: "try_then (Inr x) f = f x" "try_then (Inl e) f = Inl e"
  by (simp_all add: try_then_def)

definition tp_size :: "TaggedPtr \<Rightarrow> 32 word" where
  "tp_size t = tagAndSize t AND 0xFF"

definition withSize :: "'v pool_params \<Rightarrow> 32 word \<Rightarrow> TaggedPtr \<Rightarrow> pool_error + TaggedPtr" where
  "withSize P repl t =
     (if repl \<le> LocalListLimit P then Inr (t\<lparr>tagAndSize := (tagAndSize t AND NOT 0xFF) OR repl\<rparr>)
      else Inl AssertFailed)"

definition withSizeIncr :: "'v pool_params \<Rightarrow> TaggedPtr \<Rightarrow> pool_error + TaggedPtr" where
  "withSizeIncr P t =
     (if tp_size t < LocalListLimit P then Inr (t\<lparr>tagAndSize := tagAndSize t + 1\<rparr>) else Inl AssertFailed)"

definition withSizeDecr :: "TaggedPtr \<Rightarrow> pool_error + TaggedPtr" where
  "withSizeDecr t = (if tp_size t > 0 then Inr (t\<lparr>tagAndSize := tagAndSize t - 1\<rparr>) else Inl AssertFailed)"

definition withIdx :: "slot_index \<Rightarrow> TaggedPtr \<Rightarrow> TaggedPtr" where
  "withIdx repl t = \<lparr>tp_idx = repl, tagAndSize = tagAndSize t + 0x100\<rparr>"

definition withEmpty :: "'v pool_params \<Rightarrow> TaggedPtr \<Rightarrow> pool_error + TaggedPtr" where
  "withEmpty P t = withSize P 0 (withIdx 0 t)"

text \<open>The sizes: the largest index for a capacity, computed with 64 bits, and the capacity for a largest index.\<close>

definition spare :: "'v pool_params \<Rightarrow> 32 word" where
  "spare P = (of_nat (NumLocalLists P) - 1) * LocalListLimit P"

definition maxIndexForCapacity :: "'v pool_params \<Rightarrow> 32 word \<Rightarrow> 32 word" where
  "maxIndexForCapacity P capacity = of_nat (min (unat capacity + unat (spare P)) (2 ^ 32 - 2))"

definition capacityForMaxIndex :: "'v pool_params \<Rightarrow> 32 word \<Rightarrow> 32 word" where
  "capacityForMaxIndex P maxIndex = maxIndex - spare P"

definition IndexedMemPool_new :: "'v pool_params \<Rightarrow> 32 word \<Rightarrow> (slot_index \<Rightarrow> 'v Slot) \<Rightarrow> 'v IndexedMemPool" where
  "IndexedMemPool_new P capacity raw =
     \<lparr>actualCapacity = maxIndexForCapacity P capacity, pool_size = 0, slots = raw,
      local_heads = replicate (NumLocalLists P) \<lparr>tp_idx = 0, tagAndSize = 0\<rparr>,
      globalHead = \<lparr>tp_idx = 0, tagAndSize = 0\<rparr>\<rparr>"

definition pool_capacity :: "'v pool_params \<Rightarrow> 'v IndexedMemPool \<Rightarrow> 32 word" where
  "pool_capacity P p = capacityForMaxIndex P (actualCapacity p)"

definition maxAllocatedIndex :: "'v IndexedMemPool \<Rightarrow> 32 word" where
  "maxAllocatedIndex p = min (pool_size p) (actualCapacity p)"

text \<open>\<open>slot(idx)\<close> asserts that the index is in range.\<close>

definition slotIndex :: "slot_index \<Rightarrow> 'v IndexedMemPool \<Rightarrow> pool_error + slot_index" where
  "slotIndex idx p =
     (if 0 < idx \<and> idx \<le> actualCapacity p \<and> idx \<le> pool_size p then Inr idx else Inl AssertFailed)"

definition update_slot :: "slot_index \<Rightarrow> ('v Slot \<Rightarrow> 'v Slot) \<Rightarrow> 'v IndexedMemPool \<Rightarrow> 'v IndexedMemPool" where
  "update_slot i f p = p\<lparr>slots := (slots p)(i := f (slots p i))\<rparr>"

definition isAllocated :: "slot_index \<Rightarrow> 'v IndexedMemPool \<Rightarrow> pool_error + bool" where
  "isAllocated idx p = try_then (slotIndex idx p) (\<lambda>i. Inr (localNext (slots p i) = - 1))"

definition markAllocated :: "slot_index \<Rightarrow> 'v IndexedMemPool \<Rightarrow> 'v IndexedMemPool" where
  "markAllocated i p = update_slot i (\<lambda>s. s\<lparr>localNext := - 1\<rparr>) p"

text \<open>The traits: when an object is constructed and destroyed.\<close>

definition traits_initialize :: "'v pool_params \<Rightarrow> 'v Slot \<Rightarrow> 'v Slot" where
  "traits_initialize P s = (if \<not> eagerRecycle P then s\<lparr>elem := Some (default_value P)\<rparr> else s)"

definition traits_onAllocate :: "'v pool_params \<Rightarrow> 'v \<Rightarrow> 'v Slot \<Rightarrow> 'v Slot" where
  "traits_onAllocate P v s = (if eagerRecycle P then s\<lparr>elem := Some v\<rparr> else s)"

definition traits_onRecycle :: "'v pool_params \<Rightarrow> 'v Slot \<Rightarrow> 'v Slot" where
  "traits_onRecycle P s = (if eagerRecycle P then s\<lparr>elem := None\<rparr> else s)"

text \<open>The stripe of a thread.\<close>

definition current_stripe :: "'v pool_params \<Rightarrow> nat \<Rightarrow> nat" where
  "current_stripe P threadId = (threadId mod 256) mod NumLocalLists P"

definition globalPush :: "slot_index \<Rightarrow> 'v IndexedMemPool \<Rightarrow> 'v IndexedMemPool" where
  "globalPush localHead p =
     (let gh = globalHead p;
          p = update_slot localHead (\<lambda>s. s\<lparr>globalNext := tp_idx gh\<rparr>) p
      in p\<lparr>globalHead := withIdx localHead gh\<rparr>)"

definition localPush :: "'v pool_params \<Rightarrow> nat \<Rightarrow> slot_index \<Rightarrow> 'v IndexedMemPool \<Rightarrow> pool_error + 'v IndexedMemPool" where
  "localPush P k idx p =
     try_then (slotIndex idx p) (\<lambda>i.
       let h = local_heads p ! k;
           p = update_slot i (\<lambda>s. s\<lparr>localNext := tp_idx h\<rparr>) p;
           p = update_slot i (traits_onRecycle P) p
       in if tp_size h = LocalListLimit P then
            try_then (withEmpty P h) (\<lambda>h'. Inr (globalPush idx (p\<lparr>local_heads := (local_heads p)[k := h']\<rparr>)))
          else
            try_then (withSizeIncr P (withIdx idx h)) (\<lambda>h'. Inr (p\<lparr>local_heads := (local_heads p)[k := h']\<rparr>)))"

definition globalPop :: "'v IndexedMemPool \<Rightarrow> pool_error + slot_index \<times> 'v IndexedMemPool" where
  "globalPop p =
     (let gh = globalHead p in
      if tp_idx gh = 0 then Inr (0, p)
      else try_then (slotIndex (tp_idx gh) p) (\<lambda>i.
        Inr (tp_idx gh, p\<lparr>globalHead := withIdx (globalNext (slots p i)) gh\<rparr>)))"

definition newSlot :: "'v pool_params \<Rightarrow> 'v IndexedMemPool \<Rightarrow> pool_error + slot_index \<times> 'v IndexedMemPool" where
  "newSlot P p =
     (if pool_size p \<ge> actualCapacity p then Inr (0, p)
      else
        let p = p\<lparr>pool_size := pool_size p + 1\<rparr>; idx = pool_size p in
        if idx > actualCapacity p then Inr (0, p)
        else try_then (slotIndex idx p) (\<lambda>i. Inr (idx, update_slot i (traits_initialize P) p)))"

definition localPop :: "'v pool_params \<Rightarrow> nat \<Rightarrow> 'v IndexedMemPool \<Rightarrow> pool_error + slot_index \<times> 'v IndexedMemPool" where
  "localPop P k p =
     (let h = local_heads p ! k in
      if tp_idx h \<noteq> 0 then
        try_then (slotIndex (tp_idx h) p) (\<lambda>i.
          try_then (withSizeDecr (withIdx (localNext (slots p i)) h)) (\<lambda>h'.
            Inr (tp_idx h, p\<lparr>local_heads := (local_heads p)[k := h']\<rparr>)))
      else
        try_then (globalPop p) (\<lambda>(idx, p).
          if idx = 0 then newSlot P p
          else try_then (slotIndex idx p) (\<lambda>i.
            try_then (withSize P (LocalListLimit P) (withIdx (localNext (slots p i)) h)) (\<lambda>h'.
              Inr (idx, p\<lparr>local_heads := (local_heads p)[k := h']\<rparr>)))))"

definition allocIndex ::
  "'v pool_params \<Rightarrow> nat \<Rightarrow> 'v \<Rightarrow> 'v IndexedMemPool \<Rightarrow> pool_error + slot_index \<times> 'v IndexedMemPool" where
  "allocIndex P threadId v p =
     try_then (localPop P (current_stripe P threadId) p) (\<lambda>(idx, p).
       if idx \<noteq> 0 then
         try_then (slotIndex idx p) (\<lambda>i.
           Inr (idx, markAllocated i (update_slot i (traits_onAllocate P v) p)))
       else Inr (idx, p))"

definition recycleIndex ::
  "'v pool_params \<Rightarrow> nat \<Rightarrow> slot_index \<Rightarrow> 'v IndexedMemPool \<Rightarrow> pool_error + 'v IndexedMemPool" where
  "recycleIndex P threadId idx p =
     try_then (isAllocated idx p) (\<lambda>allocated.
       if allocated then localPush P (current_stripe P threadId) idx p else Inl AssertFailed)"

definition pool_at :: "slot_index \<Rightarrow> 'v IndexedMemPool \<Rightarrow> pool_error + 'v option" where
  "pool_at idx p = try_then (slotIndex idx p) (\<lambda>i. Inr (elem (slots p i)))"

section \<open>Sizes and tags\<close>

lemma unat_tp_size: "unat (tp_size t) = unat (tagAndSize t) mod 256"
proof -
  have "unat (take_bit 8 (tagAndSize t)) = unat (tagAndSize t) mod 2 ^ 8"
    by (simp only: unsigned_take_bit_eq take_bit_nat_def)
  then show ?thesis by (simp only: take_bit_eq_mask) (simp add: tp_size_def mask_numeral)
qed

lemma tp_size_less: "unat (tp_size t) < 256"
  by (simp add: unat_tp_size)

lemma tp_size_eqI: "unat (tp_size t) = unat s \<Longrightarrow> tp_size t = s"
  by (simp add: word_unat_eq_iff)

lemma withIdx_sel [simp]: "tp_idx (withIdx i t) = i" "tp_size (withIdx i t) = tp_size t"
proof -
  show "tp_idx (withIdx i t) = i" by (simp add: withIdx_def)
  have "unat (tp_size (withIdx i t)) = (unat (tagAndSize t) + 256) mod 2 ^ 32 mod 256"
    by (simp add: unat_tp_size withIdx_def unat_word_ariths)
  also have "\<dots> = unat (tagAndSize t) mod 256" by (simp add: mod_mod_cancel)
  finally show "tp_size (withIdx i t) = tp_size t" by (simp add: word_unat_eq_iff unat_tp_size)
qed

lemma withSize_ok:
  assumes "r \<le> LocalListLimit P" "LocalListLimit P \<le> 255"
  obtains t' where "withSize P r t = Inr t'" "tp_idx t' = tp_idx t" "tp_size t' = r"
proof -
  have "unat r < 256" using assms by (simp add: word_le_nat_alt)
  then have "take_bit 8 r = r" by (simp add: word_unat_eq_iff unsigned_take_bit_eq take_bit_nat_eq_self)
  then have r: "r AND 0xFF = r" by (simp add: take_bit_eq_mask mask_numeral)
  have "((tagAndSize t AND NOT 0xFF) OR r) AND 0xFF = r AND 0xFF"
    by (rule bit_word_eqI) (auto simp: bit_simps)
  with r assms(1) that show ?thesis by (simp add: withSize_def tp_size_def)
qed

lemma withSizeIncr_ok:
  assumes "tp_size t < LocalListLimit P" "LocalListLimit P \<le> 255"
  obtains t' where "withSizeIncr P t = Inr t'" "tp_idx t' = tp_idx t" "unat (tp_size t') = unat (tp_size t) + 1"
proof -
  have "unat (tagAndSize t) mod 256 + 1 < 256"
    using assms by (simp add: word_less_nat_alt word_le_nat_alt unat_tp_size)
  then have "(unat (tagAndSize t) + 1) mod 256 = unat (tagAndSize t) mod 256 + 1" by (metis mod_add_left_eq mod_less)
  then have "unat (tagAndSize t + 1) mod 256 = unat (tagAndSize t) mod 256 + 1"
    by (simp add: unat_word_ariths mod_mod_cancel)
  with assms(1) that show ?thesis by (simp add: withSizeIncr_def unat_tp_size)
qed

lemma withSizeDecr_ok:
  assumes "0 < unat (tp_size t)"
  obtains t' where "withSizeDecr t = Inr t'" "tp_idx t' = tp_idx t" "unat (tp_size t') = unat (tp_size t) - 1"
proof -
  have pos: "0 < unat (tagAndSize t) mod 256" using assms by (simp add: unat_tp_size)
  then have "unat (tagAndSize t - 1) = unat (tagAndSize t) - 1" by (intro unat_minus_one) (auto simp: unat_eq_0)
  moreover have "(unat (tagAndSize t) - 1) mod 256 = unat (tagAndSize t) mod 256 - 1"
    using pos by (cases "unat (tagAndSize t)") (simp_all add: mod_Suc split: if_splits)
  ultimately show ?thesis
    using that assms by (simp add: withSizeDecr_def unat_tp_size word_less_nat_alt)
qed

section \<open>The free lists\<close>

lemma finite_word: "finite (F :: 'a::len word set)"
proof (rule finite_imageD)
  show "finite (unat ` F)" by (rule finite_subset [of _ "{..<2 ^ LENGTH('a)}"]) auto
  show "inj_on unat F" by (rule inj_onI) (simp add: word_unat_eq_iff)
qed

text \<open>\<open>chain next h xs\<close>: following \<open>next\<close> from \<open>h\<close> visits \<open>xs\<close> and ends at 0.\<close>

fun chain :: "(slot_index \<Rightarrow> slot_index) \<Rightarrow> slot_index \<Rightarrow> slot_index list \<Rightarrow> bool" where
  "chain nxt h [] \<longleftrightarrow> h = 0"
| "chain nxt h (x # xs) \<longleftrightarrow> h = x \<and> x \<noteq> 0 \<and> chain nxt (nxt x) xs"

lemma chain_cong: "(\<And>x. x \<in> set xs \<Longrightarrow> f x = g x) \<Longrightarrow> chain f h xs \<longleftrightarrow> chain g h xs"
  by (induction xs arbitrary: h) auto

lemma chain_head: "chain nxt h xs \<Longrightarrow> h \<noteq> 0 \<Longrightarrow> \<exists>ys. xs = h # ys"
  by (cases xs) auto

abbreviation "next_local p \<equiv> (\<lambda>i. localNext (slots p i))"
abbreviation "next_global p \<equiv> (\<lambda>i. globalNext (slots p i))"

definition lists_rep :: "'v pool_params \<Rightarrow> 'v IndexedMemPool \<Rightarrow> slot_index list list \<Rightarrow> slot_index list list \<Rightarrow> bool" where
  "lists_rep P p ls gs \<longleftrightarrow>
     length ls = NumLocalLists P \<and> length (local_heads p) = NumLocalLists P \<and>
     (\<forall>k < NumLocalLists P.
        chain (next_local p) (tp_idx (local_heads p ! k)) (ls ! k) \<and>
        length (ls ! k) = unat (tp_size (local_heads p ! k)) \<and>
        unat (tp_size (local_heads p ! k)) \<le> unat (LocalListLimit P)) \<and>
     chain (next_global p) (tp_idx (globalHead p)) (map hd gs) \<and>
     (\<forall>b \<in> set gs. chain (next_local p) (hd b) b \<and> length b = unat (LocalListLimit P) + 1)"

definition lists_ok :: "'v pool_params \<Rightarrow> 'v IndexedMemPool \<Rightarrow> slot_index set \<Rightarrow> bool" where
  "lists_ok P p F \<longleftrightarrow> (\<exists>ls gs. lists_rep P p ls gs \<and> mset (concat ls) + mset (concat gs) = mset_set F)"

lemma lists_rep_local:
  assumes "lists_rep P p ls gs" "k < NumLocalLists P"
  shows "chain (next_local p) (tp_idx (local_heads p ! k)) (ls ! k)"
    "length (ls ! k) = unat (tp_size (local_heads p ! k))" "length (ls ! k) \<le> unat (LocalListLimit P)"
    "k < length ls" "k < length (local_heads p)"
  using assms by (simp_all add: lists_rep_def)

lemma lists_rep_set_local:
  assumes "lists_rep P p ls gs" "k < NumLocalLists P" "chain (next_local p) (tp_idx h) ys"
    "length ys = unat (tp_size h)" "length ys \<le> unat (LocalListLimit P)"
  shows "lists_rep P (p\<lparr>local_heads := (local_heads p)[k := h]\<rparr>) (ls[k := ys]) gs"
  using assms by (auto simp: lists_rep_def nth_list_update)

lemma lists_rep_frame:
  assumes "lists_rep P p ls gs" "local_heads p' = local_heads p" "globalHead p' = globalHead p"
    and "\<And>i. i \<in> set (concat ls) \<union> set (concat gs) \<Longrightarrow>
      localNext (slots p' i) = localNext (slots p i) \<and> globalNext (slots p' i) = globalNext (slots p i)"
  shows "lists_rep P p' ls gs"
proof -
  have heads: "hd b \<in> set b" if "b \<in> set gs" for b
    using assms(1) that by (cases b) (auto simp: lists_rep_def)
  have "chain (next_local p') h (ls ! k) = chain (next_local p) h (ls ! k)" if "k < length ls" for h k
    using that assms(4) by (intro chain_cong) (auto intro: nth_mem)
  moreover have "chain (next_local p') h b = chain (next_local p) h b" if "b \<in> set gs" for h b
    using that assms(4) by (intro chain_cong) auto
  moreover have "chain (next_global p') h (map hd gs) = chain (next_global p) h (map hd gs)" for h
    using assms(4) heads by (intro chain_cong) auto
  ultimately show ?thesis using assms(1-3) by (simp add: lists_rep_def)
qed

lemma lists_rep_pop_global:
  assumes "lists_rep P p ls (b # gs)"
  shows "lists_rep P (p\<lparr>globalHead := withIdx (globalNext (slots p (hd b))) (globalHead p)\<rparr>) ls gs"
  using assms by (auto simp: lists_rep_def)

lemma lists_rep_push_global:
  assumes "lists_rep P p ls gs" "chain (next_local p) x (x # ys)" "length ys = unat (LocalListLimit P)"
    and "x \<notin> set (concat gs)"
  shows "lists_rep P (globalPush x p) ls ((x # ys) # gs)"
proof -
  let ?p = "update_slot x (\<lambda>s. s\<lparr>globalNext := tp_idx (globalHead p)\<rparr>) p"
  have local: "next_local ?p = next_local p" by (auto simp: update_slot_def)
  have "hd b \<in> set b" if "b \<in> set gs" for b using assms(1) that by (cases b) (auto simp: lists_rep_def)
  then have "x \<notin> set (map hd gs)" using assms(4) by auto
  then have "chain (next_global ?p) (tp_idx (globalHead p)) (map hd gs) = chain (next_global p) (tp_idx (globalHead p)) (map hd gs)"
    by (intro chain_cong) (auto simp: update_slot_def)
  with assms(1-3) local show ?thesis
    by (auto simp: lists_rep_def globalPush_def Let_def update_slot_def)
qed

lemma lists_in_free:
  fixes F :: "slot_index set"
  assumes "mset (concat ls) + mset (concat gs) = mset_set F"
  shows "set (concat ls) \<union> set (concat gs) = F"
proof -
  have "finite F" by (rule finite_word)
  then have "set_mset (mset_set F) = F" by simp
  then show ?thesis using assms by (metis set_mset_mset set_mset_union)
qed

section \<open>Taking a slot and giving it back\<close>

definition in_range :: "'v IndexedMemPool \<Rightarrow> slot_index set" where
  "in_range p = {i. 0 < i \<and> i \<le> pool_size p}"

lemma slotIndex_in_range: "i \<in> in_range p \<Longrightarrow> pool_size p \<le> actualCapacity p \<Longrightarrow> slotIndex i p = Inr i"
  by (auto simp: slotIndex_def in_range_def)

lemma card_free:
  assumes "mset (concat ls) + mset (concat gs) = mset_set (F :: slot_index set)"
  shows "card F = length (concat ls) + length (concat gs)"
  using arg_cong [OF assms, of size] by simp

lemma length_concat_bound:
  assumes "k < length ls" "ls ! k = []" "\<And>i. i < length ls \<Longrightarrow> length (ls ! i) \<le> m"
  shows "length (concat ls) \<le> (length ls - 1) * m"
proof -
  have "length (concat ls) = (\<Sum>i < length ls. length (ls ! i))"
    by (simp add: length_concat sum_list_sum_nth atLeast0LessThan)
  also have "\<dots> = (\<Sum>i \<in> {..<length ls} - {k}. length (ls ! i))"
    using assms(1,2) by (simp add: sum.remove [of "{..<length ls}" k])
  also have "\<dots> \<le> (\<Sum>i \<in> {..<length ls} - {k}. m)" using assms(3) by (intro sum_mono) auto
  also have "\<dots> = (length ls - 1) * m" using assms(1) by simp
  finally show ?thesis .
qed

lemma unat_next: "a < b \<Longrightarrow> unat (a + 1) = unat a + 1" for a b :: "'a::len word"
proof -
  assume "a < b"
  moreover have "unat b < 2 ^ LENGTH('a)" by (rule unsigned_less)
  ultimately have "unat a + 1 < 2 ^ LENGTH('a)" unfolding word_less_nat_alt by linarith
  then show ?thesis by (simp add: unat_word_ariths)
qed

text \<open>The three outcomes of \<open>localPop\<close>: a free slot, a slot never used before, or none.\<close>

lemma localPop_cases:
  assumes lists: "lists_ok P p F" and k: "k < NumLocalLists P" and limit: "LocalListLimit P \<le> 255"
    and F: "F \<subseteq> in_range p" and cap: "pool_size p \<le> actualCapacity p" "actualCapacity p < - 1"
  obtains
    (free) idx p' where "localPop P k p = Inr (idx, p')" "idx \<in> F" "lists_ok P p' (F - {idx})" "slots p' = slots p"
      "pool_size p' = pool_size p" "actualCapacity p' = actualCapacity p"
  | (fresh) idx p' where "localPop P k p = Inr (idx, p')" "pool_size p < actualCapacity p" "idx = pool_size p + 1"
      "p' = update_slot idx (traits_initialize P) (p\<lparr>pool_size := idx\<rparr>)"
  | (none) "localPop P k p = Inr (0, p)" "pool_size p = actualCapacity p"
      "card F \<le> (NumLocalLists P - 1) * unat (LocalListLimit P)"
proof -
  obtain ls gs where rep: "lists_rep P p ls gs" and content: "mset (concat ls) + mset (concat gs) = mset_set F"
    using lists by (auto simp: lists_ok_def)
  note here = lists_rep_local [OF rep k]
  let ?h = "local_heads p ! k"
  have ok: "slotIndex i p = Inr i" if "i \<in> F" for i using that F cap slotIndex_in_range by blast
  show ?thesis
  proof (cases "tp_idx ?h = 0")
    case False
    then obtain xs where xs: "ls ! k = tp_idx ?h # xs" "chain (next_local p) (localNext (slots p (tp_idx ?h))) xs"
      using here(1) chain_head by (metis chain.simps(2))
    have F_idx: "tp_idx ?h \<in> F" using lists_in_free [OF content] here(4) xs(1) by (force intro: nth_mem)
    have size: "unat (tp_size ?h) = length xs + 1" using here(2) xs(1) by simp
    obtain h' where h': "withSizeDecr (withIdx (localNext (slots p (tp_idx ?h))) ?h) = Inr h'"
      "tp_idx h' = localNext (slots p (tp_idx ?h))" "unat (tp_size h') = length xs"
      using withSizeDecr_ok [of "withIdx (localNext (slots p (tp_idx ?h))) ?h"] size by auto
    let ?p = "p\<lparr>local_heads := (local_heads p)[k := h']\<rparr>"
    have "lists_rep P ?p (ls[k := xs]) gs"
      using lists_rep_set_local [OF rep k] xs(2) h' here(3) by (simp add: xs(1))
    moreover have "mset (concat (ls[k := xs])) + mset (concat gs) = mset_set (F - {tp_idx ?h})"
    proof -
      have "add_mset (tp_idx ?h) (mset (concat (ls[k := xs]))) + mset xs = mset (concat ls) + mset xs"
        using mset_concat_update [OF here(4), of xs] by (simp add: xs(1))
      then have "add_mset (tp_idx ?h) (mset (concat (ls[k := xs])) + mset (concat gs)) = mset_set F"
        using content by (simp add: add_mset_add_single [symmetric] flip: union_mset_add_mset_left)
      also have "\<dots> = add_mset (tp_idx ?h) (mset_set (F - {tp_idx ?h}))"
        using F_idx by (simp add: mset_set.remove finite_word)
      finally show ?thesis by simp
    qed
    ultimately have "lists_ok P ?p (F - {tp_idx ?h})" by (auto simp: lists_ok_def)
    moreover have "localPop P k p = Inr (tp_idx ?h, ?p)"
      using False ok [OF F_idx] h'(1) by (simp add: localPop_def Let_def)
    ultimately show ?thesis using F_idx free [of "tp_idx ?h" ?p] by simp
  next
    case True
    then have empty: "ls ! k = []" using here(1) by (cases "ls ! k") auto
    show ?thesis
    proof (cases gs)
      case Nil
      then have "tp_idx (globalHead p) = 0" using rep by (simp add: lists_rep_def)
      then have pop: "localPop P k p = newSlot P p" using True by (simp add: localPop_def globalPop_def Let_def)
      show ?thesis
      proof (cases "pool_size p < actualCapacity p")
        case room: True
        let ?idx = "pool_size p + 1"
        have idx: "?idx \<le> actualCapacity p" "0 < ?idx"
          using unat_next [OF room] room by (simp_all add: word_le_nat_alt word_less_nat_alt)
        then have "newSlot P p = Inr (?idx, update_slot ?idx (traits_initialize P) (p\<lparr>pool_size := ?idx\<rparr>))"
          using room [unfolded not_le [symmetric]] idx(1) [unfolded not_less [symmetric]] by (simp add: newSlot_def slotIndex_def Let_def)
        with pop room show ?thesis by (intro fresh [OF _ _ refl refl]) simp_all
      next
        case full: False
        with cap have eq: "pool_size p = actualCapacity p" by simp
        have "card F = length (concat ls)" using card_free [OF content] Nil by simp
        also have "\<dots> \<le> (length ls - 1) * unat (LocalListLimit P)"
          using here(4) empty lists_rep_local(3,4) [OF rep] rep
          by (intro length_concat_bound) (auto simp: lists_rep_def)
        finally have "card F \<le> (NumLocalLists P - 1) * unat (LocalListLimit P)" using rep by (simp add: lists_rep_def)
        moreover have "localPop P k p = Inr (0, p)" using pop eq by (simp add: newSlot_def)
        ultimately show ?thesis using eq by (intro none)
      qed
    next
      case (Cons b gs')
      let ?i = "tp_idx (globalHead p)"
      let ?p1 = "p\<lparr>globalHead := withIdx (globalNext (slots p ?i)) (globalHead p)\<rparr>"
      have b: "hd b = ?i" "?i \<noteq> 0" "chain (next_local p) ?i b" "length b = unat (LocalListLimit P) + 1"
        using rep Cons by (auto simp: lists_rep_def)
      then obtain ys where ys: "b = ?i # ys" using chain_head by blast
      with b have chain: "chain (next_local p) (localNext (slots p ?i)) ys" "length ys = unat (LocalListLimit P)" by auto
      have F_idx: "?i \<in> F" using lists_in_free [OF content] Cons ys by auto
      obtain h' where h': "withSize P (LocalListLimit P) (withIdx (localNext (slots p ?i)) ?h) = Inr h'"
        "tp_idx h' = localNext (slots p ?i)" "tp_size h' = LocalListLimit P"
        using withSize_ok [OF order.refl limit] by (metis withIdx_sel(1))
      let ?p = "?p1\<lparr>local_heads := (local_heads p)[k := h']\<rparr>"
      have "lists_rep P ?p1 ls gs'" using lists_rep_pop_global [of P p ls b gs'] rep Cons b(1) by simp
      then have "lists_rep P ?p (ls[k := ys]) gs'"
        using lists_rep_set_local [of P ?p1 ls gs' k h' ys] k chain h' by simp
      moreover have "mset (concat (ls[k := ys])) + mset (concat gs') = mset_set (F - {?i})"
      proof -
        have "mset (concat (ls[k := ys])) = mset (concat ls) + mset ys"
          using mset_concat_update [OF here(4), of ys] empty by simp
        then have "add_mset ?i (mset (concat (ls[k := ys])) + mset (concat gs')) = mset_set F"
          using content Cons ys by (simp add: ac_simps)
        also have "\<dots> = add_mset ?i (mset_set (F - {?i}))" using F_idx by (simp add: mset_set.remove finite_word)
        finally show ?thesis by simp
      qed
      ultimately have "lists_ok P ?p (F - {?i})" by (auto simp: lists_ok_def)
      moreover have "localPop P k p = Inr (?i, ?p)"
        using True b(2) ok [OF F_idx] h'(1)
        by (simp add: localPop_def globalPop_def Let_def slotIndex_def split: if_splits)
      ultimately show ?thesis using F_idx free [of ?i ?p] by simp
    qed
  qed
qed
lemma lists_ok_frame:
  assumes "lists_ok P p F" "local_heads p' = local_heads p" "globalHead p' = globalHead p"
    and "\<And>i. i \<in> F \<Longrightarrow>
      localNext (slots p' i) = localNext (slots p i) \<and> globalNext (slots p' i) = globalNext (slots p i)"
  shows "lists_ok P p' F"
proof -
  obtain ls gs where rep: "lists_rep P p ls gs" and content: "mset (concat ls) + mset (concat gs) = mset_set F"
    using assms(1) by (auto simp: lists_ok_def)
  have "lists_rep P p' ls gs"
    by (rule lists_rep_frame [OF rep assms(2,3)]) (use assms(4) lists_in_free [OF content] in blast)
  with content show ?thesis by (auto simp: lists_ok_def)
qed

text \<open>The slots in use, and the invariant of the pool.\<close>

definition allocated :: "'v IndexedMemPool \<Rightarrow> slot_index set" where
  "allocated p = {i \<in> in_range p. localNext (slots p i) = - 1}"

definition pool_inv :: "'v pool_params \<Rightarrow> 'v IndexedMemPool \<Rightarrow> bool" where
  "pool_inv P p \<longleftrightarrow>
     lists_ok P p (in_range p - allocated p) \<and> pool_size p \<le> actualCapacity p \<and> actualCapacity p < - 1 \<and>
     (eagerRecycle P \<longrightarrow> (\<forall>i. i \<in> allocated p \<longleftrightarrow> elem (slots p i) \<noteq> None))"

definition params_ok :: "'v pool_params \<Rightarrow> bool" where
  "params_ok P \<longleftrightarrow> 0 < NumLocalLists P \<and> LocalListLimit P \<le> 255 \<and>
     (NumLocalLists P - 1) * unat (LocalListLimit P) \<le> 2 ^ 32 - 2 \<and> NumLocalLists P < 2 ^ 32"

lemma stripe_less: "params_ok P \<Longrightarrow> current_stripe P t < NumLocalLists P"
  by (simp add: current_stripe_def params_ok_def)

lemma update_slot_sel [simp]:
  "pool_size (update_slot i f p) = pool_size p" "actualCapacity (update_slot i f p) = actualCapacity p"
  "local_heads (update_slot i f p) = local_heads p" "globalHead (update_slot i f p) = globalHead p"
  "slots (update_slot i f p) j = (if j = i then f (slots p i) else slots p j)"
  by (simp_all add: update_slot_def)

lemma traits_next [simp]:
  "localNext (traits_onAllocate P v s) = localNext s" "globalNext (traits_onAllocate P v s) = globalNext s"
  "localNext (traits_onRecycle P s) = localNext s" "globalNext (traits_onRecycle P s) = globalNext s"
  "localNext (traits_initialize P s) = localNext s" "globalNext (traits_initialize P s) = globalNext s"
  by (simp_all add: traits_onAllocate_def traits_onRecycle_def traits_initialize_def)

lemma allocIndex_after_pop:
  assumes "localPop P (current_stripe P t) p = Inr (idx, p')" "idx \<in> in_range p'" "pool_size p' \<le> actualCapacity p'"
  shows "allocIndex P t v p = Inr (idx, markAllocated idx (update_slot idx (traits_onAllocate P v) p'))"
proof -
  have "idx \<noteq> 0" using assms(2) by (auto simp: in_range_def)
  then show ?thesis using assms slotIndex_in_range [OF assms(2,3)] by (simp add: allocIndex_def)
qed

lemma allocIndex_cases:
  assumes P: "params_ok P" and inv: "pool_inv P p"
  obtains
    (got) idx p' where "allocIndex P t v p = Inr (idx, p')" "pool_inv P p'" "0 < idx" "idx \<le> actualCapacity p"
      "idx \<notin> allocated p" "allocated p' = insert idx (allocated p)"
      "eagerRecycle P \<Longrightarrow> elem (slots p' idx) = Some v" "\<And>j. j \<noteq> idx \<Longrightarrow> elem (slots p' j) = elem (slots p j)"
      "actualCapacity p' = actualCapacity p"
  | (none) "allocIndex P t v p = Inr (0, p)" "pool_size p = actualCapacity p"
      "card (in_range p - allocated p) \<le> (NumLocalLists P - 1) * unat (LocalListLimit P)"
proof -
  let ?F = "in_range p - allocated p"
  have lists: "lists_ok P p ?F" and cap: "pool_size p \<le> actualCapacity p" "actualCapacity p < - 1"
    and live: "\<And>i. eagerRecycle P \<Longrightarrow> i \<in> allocated p \<longleftrightarrow> elem (slots p i) \<noteq> None"
    using inv by (auto simp: pool_inv_def)
  have limit: "LocalListLimit P \<le> 255" using P by (simp add: params_ok_def)
  show ?thesis
  proof (cases rule: localPop_cases [OF lists stripe_less [OF P, of t] limit _ cap])
    case 1
    show ?case by blast
  next
    case (2 idx p')
    let ?p = "markAllocated idx (update_slot idx (traits_onAllocate P v) p')"
    have range: "in_range ?p = in_range p" "in_range p' = in_range p" using 2 by (simp_all add: in_range_def markAllocated_def)
    have alloc: "allocIndex P t v p = Inr (idx, ?p)"
      using allocIndex_after_pop [OF 2(1)] 2 cap range by auto
    have all: "allocated ?p = insert idx (allocated p)"
      using 2 range by (auto simp: allocated_def markAllocated_def)
    have lists': "lists_ok P ?p (in_range ?p - allocated ?p)"
    proof -
      have "lists_ok P ?p (?F - {idx})" by (rule lists_ok_frame [OF 2(3)]) (auto simp: markAllocated_def)
      moreover have "?F - {idx} = in_range ?p - allocated ?p" using all range by auto
      ultimately show ?thesis by simp
    qed
    have el: "elem (slots ?p j) = (if j = idx \<and> eagerRecycle P then Some v else elem (slots p j))" for j
      using 2 by (simp add: markAllocated_def traits_onAllocate_def)
    have "pool_inv P ?p"
      unfolding pool_inv_def all el using lists' [unfolded all] 2 cap live by (auto simp: markAllocated_def)
    moreover have "0 < idx" "idx \<le> actualCapacity p" "idx \<notin> allocated p" using 2(2) cap by (auto simp: in_range_def)
    moreover have "actualCapacity ?p = actualCapacity p" using 2 by (simp add: markAllocated_def)
    ultimately show ?thesis using got [OF alloc _ _ _ _ all] by (simp add: el)
  next
    case (3 idx p')
    let ?p = "markAllocated idx (update_slot idx (traits_onAllocate P v) p')"
    have "unat idx = unat (pool_size p) + 1" using unat_next 3 by simp
    then have new: "0 < idx" "pool_size p < idx" "idx \<le> actualCapacity p"
      "\<And>i. i \<le> idx \<longleftrightarrow> i \<le> pool_size p \<or> i = idx"
      using 3(2) by (auto simp: word_less_nat_alt word_le_nat_alt word_unat_eq_iff)
    then have range: "in_range ?p = insert idx (in_range p)" "in_range p' = insert idx (in_range p)" "idx \<notin> in_range p"
      using 3 by (auto simp: in_range_def markAllocated_def)
    have alloc: "allocIndex P t v p = Inr (idx, ?p)"
      using allocIndex_after_pop [OF 3(1)] range new 3 by auto
    have all: "allocated ?p = insert idx (allocated p)"
      using 3 range by (auto simp: allocated_def markAllocated_def)
    have lists': "lists_ok P ?p (in_range ?p - allocated ?p)"
    proof -
      have "lists_ok P ?p ?F" by (rule lists_ok_frame [OF lists]) (use 3 range in \<open>auto simp: markAllocated_def\<close>)
      moreover have "?F = in_range ?p - allocated ?p" using all range by auto
      ultimately show ?thesis by simp
    qed
    have el: "j \<noteq> idx \<Longrightarrow> elem (slots ?p j) = elem (slots p j)" "eagerRecycle P \<Longrightarrow> elem (slots ?p idx) = Some v" for j
      using 3 by (simp_all add: markAllocated_def traits_onAllocate_def)
    have live': "i \<in> insert idx (allocated p) \<longleftrightarrow> elem (slots ?p i) \<noteq> None" if "eagerRecycle P" for i
      using el(1) [of i] el(2) [OF that] live [OF that, of i] by (cases "i = idx") auto
    have caps: "pool_size ?p = idx" "actualCapacity ?p = actualCapacity p" using 3 by (simp_all add: markAllocated_def)
    have "pool_inv P ?p"
      unfolding pool_inv_def all caps using lists' [unfolded all] new cap live' by blast
    moreover have "idx \<notin> allocated p" using range by (auto simp: allocated_def)
    ultimately show ?thesis using got [OF alloc _ _ _ _ all] new caps el by blast
  next
    case 4
    then have "allocIndex P t v p = Inr (0, p)" by (simp add: allocIndex_def)
    with 4 show ?thesis using none by blast
  qed
qed
lemma chain_start: "chain nxt h xs \<Longrightarrow> h = 0 \<or> h \<in> set xs"
  by (cases xs) auto

text \<open>What \<open>localPush\<close> does to the lists: the slot becomes free.\<close>

lemma localPush_lists:
  assumes lists: "lists_ok P p F" and k: "k < NumLocalLists P" and limit: "LocalListLimit P \<le> 255"
    and idx: "idx \<in> in_range p" "idx \<notin> F" and cap: "pool_size p \<le> actualCapacity p"
  obtains p' where "localPush P k idx p = Inr p'" "lists_ok P p' (insert idx F)"
    "localNext (slots p' idx) \<in> insert 0 F" "\<And>j. j \<noteq> idx \<Longrightarrow> slots p' j = slots p j"
    "elem (slots p' idx) = elem (traits_onRecycle P (slots p idx))"
    "pool_size p' = pool_size p" "actualCapacity p' = actualCapacity p"
proof -
  obtain ls gs where rep: "lists_rep P p ls gs" and content: "mset (concat ls) + mset (concat gs) = mset_set F"
    using lists by (auto simp: lists_ok_def)
  note members = lists_in_free [OF content]
  let ?h = "local_heads p ! k"
  let ?p1 = "update_slot idx (traits_onRecycle P) (update_slot idx (\<lambda>s. s\<lparr>localNext := tp_idx ?h\<rparr>) p)"
  have rep1: "lists_rep P ?p1 ls gs"
    by (rule lists_rep_frame [OF rep]) (use members idx(2) in auto)
  note here = lists_rep_local [OF rep1 k]
  have idx0: "idx \<noteq> 0" using idx(1) by (auto simp: in_range_def)
  have chain1: "chain (next_local ?p1) idx (idx # ls ! k)" using here(1) idx0 by simp
  have next_idx: "tp_idx ?h \<in> insert 0 F"
    using chain_start [OF here(1)] here(4) members by (auto dest: nth_mem)
  have elem1: "elem (slots ?p1 idx) = elem (traits_onRecycle P (slots p idx))"
    by (simp add: traits_onRecycle_def)
  have content': "add_mset idx (mset_set F) = mset_set (insert idx F)" using idx(2) by (simp add: finite_word)
  have slot: "slotIndex idx p = Inr idx" by (rule slotIndex_in_range [OF idx(1) cap])
  show ?thesis
  proof (cases "tp_size ?h = LocalListLimit P")
    case True
    obtain h' where h': "withEmpty P ?h = Inr h'" "tp_idx h' = 0" "tp_size h' = 0"
      using withSize_ok [OF word_zero_le limit] unfolding withEmpty_def by (metis withIdx_sel(1))
    let ?p2 = "?p1\<lparr>local_heads := (local_heads p)[k := h']\<rparr>"
    have "lists_rep P ?p2 (ls[k := []]) gs" using lists_rep_set_local [OF rep1 k, of h' "[]"] h' by simp
    moreover have "chain (next_local ?p2) idx (idx # ls ! k)" using chain1 by simp
    moreover have "length (ls ! k) = unat (LocalListLimit P)" using here(2) True by simp
    moreover have "idx \<notin> set (concat gs)" using members idx(2) by blast
    ultimately have "lists_rep P (globalPush idx ?p2) (ls[k := []]) ((idx # ls ! k) # gs)" by (rule lists_rep_push_global)
    moreover have "mset (concat (ls[k := []])) + mset (concat ((idx # ls ! k) # gs)) = mset_set (insert idx F)"
    proof -
      have "mset (concat (ls[k := []])) + mset (ls ! k) = mset (concat ls)"
        using mset_concat_update [OF here(4), of "[]"] by simp
      then show ?thesis using content by (simp add: content' [symmetric] flip: add.assoc)
    qed
    ultimately have "lists_ok P (globalPush idx ?p2) (insert idx F)" unfolding lists_ok_def by blast
    moreover have "localPush P k idx p = Inr (globalPush idx ?p2)"
      using True h'(1) slot by (simp add: localPush_def Let_def)
    ultimately show ?thesis
      using that [of "globalPush idx ?p2"] next_idx elem1 by (simp add: globalPush_def Let_def)
  next
    case False
    then have "tp_size (withIdx idx ?h) < LocalListLimit P"
      using here(2,3) by (simp add: word_less_nat_alt word_unat_eq_iff)
    then obtain h' where h': "withSizeIncr P (withIdx idx ?h) = Inr h'" "tp_idx h' = idx"
      "unat (tp_size h') = unat (tp_size ?h) + 1"
      using withSizeIncr_ok [OF _ limit] by (metis withIdx_sel)
    let ?p2 = "?p1\<lparr>local_heads := (local_heads p)[k := h']\<rparr>"
    have "length (idx # ls ! k) \<le> unat (LocalListLimit P)"
      using here(2) \<open>tp_size (withIdx idx ?h) < LocalListLimit P\<close> by (simp add: word_less_nat_alt Suc_le_eq)
    then have "lists_rep P ?p2 (ls[k := idx # ls ! k]) gs"
      using lists_rep_set_local [OF rep1 k, of h' "idx # ls ! k"] h' chain1 here(2) by simp
    moreover have "mset (concat (ls[k := idx # ls ! k])) + mset (concat gs) = mset_set (insert idx F)"
    proof -
      have "mset (concat (ls[k := idx # ls ! k])) + mset (ls ! k) = add_mset idx (mset (concat ls)) + mset (ls ! k)"
        using mset_concat_update [OF here(4), of "idx # ls ! k"] by simp
      then show ?thesis using content by (simp add: content' [symmetric])
    qed
    ultimately have "lists_ok P ?p2 (insert idx F)" unfolding lists_ok_def by blast
    moreover have "localPush P k idx p = Inr ?p2"
      using False h'(1) slot by (simp add: localPush_def Let_def)
    ultimately show ?thesis using that [of ?p2] next_idx elem1 by simp
  qed
qed

lemma recycleIndex_ok:
  assumes P: "params_ok P" and inv: "pool_inv P p" and idx: "idx \<in> allocated p"
  obtains p' where "recycleIndex P t idx p = Inr p'" "pool_inv P p'" "allocated p' = allocated p - {idx}"
    "\<And>j. j \<noteq> idx \<Longrightarrow> elem (slots p' j) = elem (slots p j)" "actualCapacity p' = actualCapacity p"
proof -
  let ?F = "in_range p - allocated p"
  have lists: "lists_ok P p ?F" and cap: "pool_size p \<le> actualCapacity p" "actualCapacity p < - 1"
    and live: "\<And>i. eagerRecycle P \<Longrightarrow> i \<in> allocated p \<longleftrightarrow> elem (slots p i) \<noteq> None"
    using inv by (auto simp: pool_inv_def)
  have limit: "LocalListLimit P \<le> 255" using P by (simp add: params_ok_def)
  have range: "idx \<in> in_range p" "idx \<notin> ?F" using idx by (auto simp: allocated_def)
  obtain p' where push: "localPush P (current_stripe P t) idx p = Inr p'" and lists': "lists_ok P p' (insert idx ?F)"
    and next': "localNext (slots p' idx) \<in> insert 0 ?F" and same: "\<And>j. j \<noteq> idx \<Longrightarrow> slots p' j = slots p j"
    and el: "elem (slots p' idx) = elem (traits_onRecycle P (slots p idx))"
    and keep: "pool_size p' = pool_size p" "actualCapacity p' = actualCapacity p"
    using localPush_lists [OF lists stripe_less [OF P] limit range cap(1)] by blast
  have "localNext (slots p' idx) \<noteq> - 1" using next' cap by (auto simp: in_range_def)
  then have all: "allocated p' = allocated p - {idx}"
    using same keep by (auto simp: allocated_def in_range_def) (metis+)
  moreover have "in_range p' - allocated p' = insert idx ?F" using all range keep by (auto simp: in_range_def)
  moreover have "i \<in> allocated p' \<longleftrightarrow> elem (slots p' i) \<noteq> None" if "eagerRecycle P" for i
    using that all live [of i] same [of i] el by (cases "i = idx") (auto simp: traits_onRecycle_def)
  ultimately have "pool_inv P p'" using lists' cap keep by (simp add: pool_inv_def)
  moreover have "recycleIndex P t idx p = Inr p'"
    using push idx slotIndex_in_range [OF range(1) cap(1)] by (simp add: recycleIndex_def isAllocated_def allocated_def)
  ultimately show ?thesis using that all same keep by simp
qed

lemma recycleIndex_refused:
  assumes "idx \<notin> allocated p"
  shows "recycleIndex P t idx p = Inl AssertFailed"
  using assms by (auto simp: recycleIndex_def isAllocated_def slotIndex_def allocated_def in_range_def)

lemma pool_inv_new:
  assumes "params_ok P" "\<And>i. elem (raw i) = None"
  shows "pool_inv P (IndexedMemPool_new P c raw)"
proof -
  have empty: "in_range (IndexedMemPool_new P c raw) = {}" by (auto simp: in_range_def IndexedMemPool_new_def)
  have "lists_rep P (IndexedMemPool_new P c raw) (replicate (NumLocalLists P) []) []"
    by (simp add: lists_rep_def IndexedMemPool_new_def tp_size_def)
  then have "lists_ok P (IndexedMemPool_new P c raw) {}"
    unfolding lists_ok_def by (intro exI [of _ "replicate (NumLocalLists P) []"] exI [of _ "[]"]) (simp add: concat_replicate_trivial)
  moreover have "maxIndexForCapacity P c < - 1"
  proof -
    have "unat (of_nat (min (unat c + unat (spare P)) (2 ^ 32 - 2)) :: 32 word) \<le> 2 ^ 32 - 2"
      by (simp add: unsigned_of_nat take_bit_nat_def)
    then show ?thesis by (simp add: maxIndexForCapacity_def word_less_nat_alt unsigned_minus_1_eq_mask mask_eq_exp_minus_1)
  qed
  ultimately show ?thesis
    using empty assms(2) by (simp add: pool_inv_def allocated_def) (simp add: IndexedMemPool_new_def)
qed
section \<open>What the pool promises\<close>

text \<open>The states of a pool after any sequence of calls by any threads.\<close>

inductive pool_reachable :: "'v pool_params \<Rightarrow> 32 word \<Rightarrow> 'v IndexedMemPool \<Rightarrow> bool" for P c where
  new: "(\<And>i. elem (raw i) = None) \<Longrightarrow> pool_reachable P c (IndexedMemPool_new P c raw)"
| alloc: "pool_reachable P c p \<Longrightarrow> allocIndex P t v p = Inr (idx, p') \<Longrightarrow> pool_reachable P c p'"
| recycle: "pool_reachable P c p \<Longrightarrow> recycleIndex P t i p = Inr p' \<Longrightarrow> pool_reachable P c p'"

lemma reachable_inv:
  assumes "pool_reachable P c p" "params_ok P"
  shows "pool_inv P p \<and> actualCapacity p = maxIndexForCapacity P c"
  using assms
proof (induction rule: pool_reachable.induct)
  case (new raw)
  then show ?case by (simp add: pool_inv_new) (simp add: IndexedMemPool_new_def)
next
  case (alloc p t v idx p')
  then have "pool_inv P p" by simp
  from alloc show ?case by (cases rule: allocIndex_cases [OF \<open>params_ok P\<close> \<open>pool_inv P p\<close>, of t v]) auto
next
  case (recycle p t i p')
  then have i: "i \<in> allocated p" using recycleIndex_refused by force
  from recycle have "pool_inv P p" by simp
  from recycleIndex_ok [OF \<open>params_ok P\<close> this i, of t] recycle show ?case by (metis Inr_inject)
qed

text \<open>The abstraction: which indices hold which objects.\<close>

definition live_objects :: "'v IndexedMemPool \<Rightarrow> slot_index \<rightharpoonup> 'v" where
  "live_objects p = (\<lambda>i. if i \<in> allocated p then elem (slots p i) else None)"

lemma dom_live_objects: "pool_inv P p \<Longrightarrow> eagerRecycle P \<Longrightarrow> dom (live_objects p) = allocated p"
  by (auto simp: pool_inv_def live_objects_def dom_def split: if_splits)

lemma unat_of_small: "n < 2 ^ 32 \<Longrightarrow> unat (of_nat n :: 32 word) = n"
  by (simp add: unsigned_of_nat take_bit_nat_eq_self)

lemma unat_spare: "params_ok P \<Longrightarrow> unat (spare P) = (NumLocalLists P - 1) * unat (LocalListLimit P)"
proof -
  assume P: "params_ok P"
  have "spare P = of_nat ((NumLocalLists P - 1) * unat (LocalListLimit P))"
    using P by (simp add: spare_def params_ok_def of_nat_diff Suc_le_eq)
  moreover have "(NumLocalLists P - 1) * unat (LocalListLimit P) < 2 ^ 32" using P by (simp add: params_ok_def)
  ultimately show ?thesis by (simp only: unat_of_small)
qed

lemma card_in_range: "card (in_range p) = unat (pool_size p)"
proof -
  have "unat ` in_range p = {0<..unat (pool_size p)}"
  proof (intro equalityI subsetI)
    fix n assume n: "n \<in> {0<..unat (pool_size p)}"
    moreover have "unat (pool_size p) < 2 ^ 32" using unsigned_less [of "pool_size p", where ?'a = nat] by simp
    ultimately have "unat (of_nat n :: 32 word) = n" by (simp add: unsigned_of_nat take_bit_nat_eq_self)
    with n show "n \<in> unat ` in_range p"
      by (intro image_eqI [of _ _ "of_nat n"]) (auto simp: in_range_def word_less_nat_alt word_le_nat_alt)
  qed (auto simp: in_range_def word_less_nat_alt word_le_nat_alt)
  moreover have "inj_on unat (in_range p)" by (rule inj_onI) (simp add: word_unat_eq_iff)
  ultimately show ?thesis by (metis card_greaterThanAtMost card_image minus_nat.diff_0)
qed

lemma refused_only_when_full:
  assumes P: "params_ok P" and inv: "pool_inv P p" and fail: "allocIndex P t v p = Inr (0, p')"
  shows "unat (actualCapacity p) - unat (spare P) \<le> card (allocated p)"
proof (cases rule: allocIndex_cases [OF P inv, of t v])
  case (1 idx p'')
  with fail show ?thesis by simp
next
  case 2
  have "card (in_range p) = card (allocated p) + card (in_range p - allocated p)"
    by (subst card_Un_disjoint [symmetric]) (auto simp: finite_word allocated_def intro: arg_cong [of _ _ card])
  with 2 card_in_range [of p] unat_spare [OF P] show ?thesis by simp
qed

text \<open>
  C16. The indexed pool implements an allocator. After any sequence of calls from any stripes, with
  construction and destruction at allocation and recycling: no assertion of the pool fails in an
  allocation; an index that is handed out was not in use and now holds the new object; no other
  object changes; an index is handed back successfully exactly when it is in use, and then its object
  is gone. The free lists threaded through the slots, their packed sizes and tags and the
  global list of full lists do not show.
\<close>

theorem pool_refines_allocator:
  assumes "params_ok P" "eagerRecycle P" "pool_reachable P c p"
  shows "(case allocIndex P t v p of
            Inl e \<Rightarrow> False
          | Inr (idx, p') \<Rightarrow>
              (if idx = 0 then live_objects p' = live_objects p
               else live_objects p idx = None \<and> live_objects p' = (live_objects p)(idx \<mapsto> v))) \<and>
         (case recycleIndex P t i p of
            Inl e \<Rightarrow> live_objects p i = None
          | Inr p' \<Rightarrow> live_objects p i \<noteq> None \<and> live_objects p' = (live_objects p)(i := None))"
proof
  have inv: "pool_inv P p" using reachable_inv [OF assms(3,1)] by simp
  have dom: "live_objects p j \<noteq> None \<longleftrightarrow> j \<in> allocated p" for j using dom_live_objects [OF inv assms(2)] by auto
  show "case allocIndex P t v p of Inl e \<Rightarrow> False
      | Inr (idx, p') \<Rightarrow> (if idx = 0 then live_objects p' = live_objects p
         else live_objects p idx = None \<and> live_objects p' = (live_objects p)(idx \<mapsto> v))"
  proof (cases rule: allocIndex_cases [OF assms(1) inv, of t v])
    case (1 idx p')
    then have "live_objects p' = (live_objects p)(idx \<mapsto> v)" using assms(2) by (auto simp: live_objects_def)
    moreover have "live_objects p idx = None" using dom 1 by blast
    ultimately show ?thesis using 1 by auto
  qed auto
  show "case recycleIndex P t i p of Inl e \<Rightarrow> live_objects p i = None
      | Inr p' \<Rightarrow> live_objects p i \<noteq> None \<and> live_objects p' = (live_objects p)(i := None)"
  proof (cases "i \<in> allocated p")
    case True
    obtain p' where p': "recycleIndex P t i p = Inr p'" "allocated p' = allocated p - {i}"
      "\<And>j. j \<noteq> i \<Longrightarrow> elem (slots p' j) = elem (slots p j)"
      using recycleIndex_ok [OF assms(1) inv True] by metis
    then have "live_objects p' = (live_objects p)(i := None)" by (auto simp: live_objects_def)
    with p' True dom show ?thesis by auto
  next
    case False
    with recycleIndex_refused [OF False] dom [of i] show ?thesis by simp
  qed
qed

definition example_params :: "nat pool_params" where
  "example_params = \<lparr>NumLocalLists = 2, LocalListLimit = 2, eagerRecycle = True, default_value = 0\<rparr>"

definition example_pool :: "nat IndexedMemPool" where
  "example_pool = IndexedMemPool_new example_params 1 (\<lambda>i. \<lparr>elem = None, localNext = 9, globalNext = 9\<rparr>)"

lemma example_pool_ok:
  "params_ok example_params" "eagerRecycle example_params" "pool_reachable example_params 1 example_pool"
  "allocated example_pool = {}" "live_objects example_pool = Map.empty"
proof -
  show "params_ok example_params" "eagerRecycle example_params" by (simp_all add: params_ok_def example_params_def)
  show "pool_reachable example_params 1 example_pool"
    unfolding example_pool_def by (rule pool_reachable.new) simp
  show empty: "allocated example_pool = {}"
    by (auto simp: allocated_def in_range_def example_pool_def IndexedMemPool_new_def)
  then show "live_objects example_pool = Map.empty" by (simp add: live_objects_def)
qed

theorem pool_refines_allocator_witness:
  "case allocIndex example_params 5 (7 :: nat) example_pool of
     Inl e \<Rightarrow> False | Inr (idx, p') \<Rightarrow> idx = 0 \<or> live_objects p' = [idx \<mapsto> 7]"
  using pool_refines_allocator [OF example_pool_ok(1-3), where t = 5 and v = 7 and i = 1]
  by (auto simp: example_pool_ok split: sum.splits if_splits)

text \<open>
  C26. The capacity is guaranteed. As long as fewer elements are in use than the capacity the pool was
  constructed for, every thread gets one, even when all the free slots sit in the lists of other
  stripes. This needs the capacity and the slots set aside for those lists to stay below the largest
  32-bit index.
\<close>

theorem capacity_guaranteed:
  assumes "params_ok P" "pool_reachable P c p" "unat c + unat (spare P) \<le> 2 ^ 32 - 2"
    and "card (allocated p) < unat c"
  shows "\<exists>idx p'. allocIndex P t v p = Inr (idx, p') \<and> 0 < idx \<and> idx \<notin> allocated p"
proof -
  have inv: "pool_inv P p" and cap: "actualCapacity p = maxIndexForCapacity P c"
    using reachable_inv [OF assms(2,1)] by auto
  have "unat (actualCapacity p) = unat c + unat (spare P)"
    unfolding cap maxIndexForCapacity_def min_absorb1 [OF assms(3)] using assms(3) by (intro unat_of_small) simp
  then have "allocIndex P t v p \<noteq> Inr (0, p)" using refused_only_when_full [OF assms(1) inv, of t v p] assms(4) by auto
  then show ?thesis by (cases rule: allocIndex_cases [OF assms(1) inv, of t v]) auto
qed

theorem capacity_guaranteed_witness:
  "\<exists>idx p'. allocIndex example_params 5 (7 :: nat) example_pool = Inr (idx, p') \<and> 0 < idx"
proof -
  have "unat (1 :: 32 word) + unat (spare example_params) \<le> 2 ^ 32 - 2"
    unfolding unat_spare [OF example_pool_ok(1)] by (simp add: example_params_def)
  from capacity_guaranteed [OF example_pool_ok(1,3) this, of 5 7] show ?thesis by (auto simp: example_pool_ok)
qed

end
