(* ===== verification/Delay_Queue.thy ===== *)
theory Delay_Queue
  imports Prelude
begin

text \<open>
  The delay queue of \<open>Stddelay_queue/delay_queue.hpp\<close>. Time points count nanoseconds; every reading of the
  clock is an argument. \<open>std::priority_queue\<close> is a list in the order of extraction, and what the proofs
  use of it is the locale \<open>priority_queue\<close> of \<open>Prelude\<close>: the order of elements that expire at the same instant is
  left open by it. The loops of the two \<open>take\<close> functions are given by one pass of the loop body, which
  either returns or says how it waits on the condition variable; a waiting thread releases the mutex, so
  other operations may come between two passes.
\<close>

section \<open>Elements and the priority queue\<close>

record 'a DelayedElement =
  data :: 'a
  expiry :: time_point

definition isExpired :: "time_point \<Rightarrow> 'a DelayedElement \<Rightarrow> bool" where
  "isExpired now e \<longleftrightarrow> now \<ge> expiry e"

definition getRemainingDelay :: "time_point \<Rightarrow> 'a DelayedElement \<Rightarrow> int" where
  "getRemainingDelay now e = (if now \<ge> expiry e then 0 else tdiv (expiry e - now) 1000000)"

text \<open>\<open>before a b\<close>: the comparator puts \<open>a\<close> in front of \<open>b\<close>.\<close>

definition before :: "'a DelayedElement \<Rightarrow> 'a DelayedElement \<Rightarrow> bool" where
  "before a b \<longleftrightarrow> expiry b > expiry a"

definition in_order :: "'a DelayedElement list \<Rightarrow> bool" where
  "in_order q \<longleftrightarrow> sorted_wrt (\<lambda>a b. expiry a \<le> expiry b) q"

lemma in_order_insert: "in_order q \<Longrightarrow> in_order (ins_by before e q)"
  unfolding in_order_def by (induction q) (auto simp: before_def)

lemma ins_by_nonempty: "ins_by lt x xs \<noteq> []"
  by (cases xs) auto

interpretation pq: priority_queue mset "ins_by before" hd tl in_order expiry
proof
  fix q :: "'a DelayedElement list" and e
  show "mset (ins_by before e q) = add_mset e (mset q)" by simp
  show "in_order q \<Longrightarrow> in_order (ins_by before e q)" by (rule in_order_insert)
  show "in_order q \<Longrightarrow> in_order (tl q)" by (cases q) (auto simp: in_order_def)
  show "mset q \<noteq> {#} \<Longrightarrow> mset q = add_mset (hd q) (mset (tl q))" by (cases q) auto
  show "in_order q \<Longrightarrow> e \<in># mset q \<Longrightarrow> expiry (hd q) \<le> expiry e" by (cases q) (auto simp: in_order_def)
qed

section \<open>The queue\<close>

record 'a DelayQueue =
  queue :: "'a DelayedElement list"
  running :: bool

definition DelayQueue_new :: "'a DelayQueue" where
  "DelayQueue_new = \<lparr>queue = [], running = True\<rparr>"

definition dq_put :: "'a \<Rightarrow> int \<Rightarrow> time_point \<Rightarrow> 'a DelayQueue \<Rightarrow> 'a DelayQueue" where
  "dq_put d delay_ms now q =
     (let element = \<lparr>data = d, expiry = now + delay_ms * 1000000\<rparr>
      in q\<lparr>queue := ins_by before element (queue q)\<rparr>)"

text \<open>The overload for other durations, here in nanoseconds, rounds towards zero to milliseconds first.\<close>

definition dq_put_duration :: "'a \<Rightarrow> int \<Rightarrow> time_point \<Rightarrow> 'a DelayQueue \<Rightarrow> 'a DelayQueue" where
  "dq_put_duration d delay_ns now q = dq_put d (tdiv delay_ns 1000000) now q"

definition tryTake :: "time_point \<Rightarrow> 'a DelayQueue \<Rightarrow> 'a option \<times> 'a DelayQueue" where
  "tryTake now q =
     (if queue q = [] then (None, q)
      else
        let element = hd (queue q) in
        if \<not> isExpired now element then (None, q)
        else (Some (data element), q\<lparr>queue := tl (queue q)\<rparr>))"

datatype 'a take_step =
    Taken 'a
  | Closed
  | TimedOut
  | Wait
  | WaitFor int
  | WaitUntil time_point

definition take_pass :: "time_point \<Rightarrow> 'a DelayQueue \<Rightarrow> 'a take_step \<times> 'a DelayQueue" where
  "take_pass now q =
     (if \<not> running q then (Closed, q)
      else if queue q = [] then (Wait, q)
      else
        let element = hd (queue q); delay = getRemainingDelay now element in
        if delay \<le> 0 then (Taken (data element), q\<lparr>queue := tl (queue q)\<rparr>)
        else (WaitFor delay, q))"

text \<open>
  The overload with a timeout: the part of the body before the wait, with the two readings of the clock
  in it, and the part after a wait, which depends on whether the wait timed out.
\<close>

definition take_until_pass ::
  "time_point \<Rightarrow> time_point \<Rightarrow> time_point \<Rightarrow> 'a DelayQueue \<Rightarrow> 'a take_step \<times> 'a DelayQueue" where
  "take_until_pass timeout_point now now' q =
     (if \<not> running q then (Closed, q)
      else if now \<ge> timeout_point then (TimedOut, q)
      else if queue q = [] then (WaitUntil timeout_point, q)
      else
        let element = hd (queue q); element_delay = getRemainingDelay now' element in
        if element_delay \<le> 0 then (Taken (data element), q\<lparr>queue := tl (queue q)\<rparr>)
        else
          let wait_time = (if expiry element < timeout_point then expiry element else timeout_point)
          in (WaitUntil wait_time, q))"

definition take_until_wake ::
  "bool \<Rightarrow> bool \<Rightarrow> time_point \<Rightarrow> 'a DelayQueue \<Rightarrow> 'a take_step option \<times> 'a DelayQueue" where
  "take_until_wake was_empty timed_out now q =
     (if \<not> timed_out then (None, q)
      else if was_empty then (Some TimedOut, q)
      else if queue q \<noteq> [] \<and> isExpired now (hd (queue q)) then
        (Some (Taken (data (hd (queue q)))), q\<lparr>queue := tl (queue q)\<rparr>)
      else (Some TimedOut, q))"

definition dq_size :: "'a DelayQueue \<Rightarrow> nat" where
  "dq_size q = length (queue q)"

definition dq_clear :: "'a DelayQueue \<Rightarrow> 'a DelayQueue" where
  "dq_clear q = q\<lparr>queue := []\<rparr>"

definition peekDelay :: "time_point \<Rightarrow> 'a DelayQueue \<Rightarrow> int" where
  "peekDelay now q = (if queue q = [] then -1 else getRemainingDelay now (hd (queue q)))"

definition dq_shutdown :: "'a DelayQueue \<Rightarrow> 'a DelayQueue" where
  "dq_shutdown q = (if \<not> running q then q else q\<lparr>running := False\<rparr>)"

text \<open>The loop of \<open>drainExpired\<close>; \<open>clock n\<close> is what the clock shows in the n-th round.\<close>

fun drain_loop :: "(nat \<Rightarrow> time_point) \<Rightarrow> nat \<Rightarrow> nat \<Rightarrow> 'a DelayedElement list \<Rightarrow> 'a list \<times> 'a DelayedElement list" where
  "drain_loop clock max_count n [] = ([], [])"
| "drain_loop clock max_count n (element # q) =
     (if max_count = 0 \<or> n < max_count then
        (if \<not> isExpired (clock n) element then ([], element # q)
         else case drain_loop clock max_count (n + 1) q of (result, q') \<Rightarrow> (data element # result, q'))
      else ([], element # q))"

definition drainExpired :: "(nat \<Rightarrow> time_point) \<Rightarrow> nat \<Rightarrow> 'a DelayQueue \<Rightarrow> 'a list \<times> 'a DelayQueue" where
  "drainExpired clock max_count q =
     (case drain_loop clock max_count 0 (queue q) of (result, q') \<Rightarrow> (result, q\<lparr>queue := q'\<rparr>))"

section \<open>Delivery\<close>

datatype 'a dq_op =
    Put 'a int time_point
  | TryTake time_point
  | TakePass time_point
  | TakeUntilPass time_point time_point time_point
  | TakeUntilWake bool bool time_point
  | Drain "nat \<Rightarrow> time_point" nat
  | Shutdown

fun taken :: "'a take_step \<Rightarrow> 'a list" where
  "taken (Taken d) = [d]"
| "taken _ = []"

fun dq_step :: "'a dq_op \<Rightarrow> 'a DelayQueue \<Rightarrow> 'a list \<times> 'a DelayQueue" where
  "dq_step (Put d delay now) q = ([], dq_put d delay now q)"
| "dq_step (TryTake now) q = (case tryTake now q of (r, q') \<Rightarrow> (case r of None \<Rightarrow> [] | Some d \<Rightarrow> [d], q'))"
| "dq_step (TakePass now) q = (case take_pass now q of (r, q') \<Rightarrow> (taken r, q'))"
| "dq_step (TakeUntilPass t now now') q = (case take_until_pass t now now' q of (r, q') \<Rightarrow> (taken r, q'))"
| "dq_step (TakeUntilWake e w now) q =
     (case take_until_wake e w now q of (r, q') \<Rightarrow> (case r of None \<Rightarrow> [] | Some s \<Rightarrow> taken s, q'))"
| "dq_step (Drain clock n) q = drainExpired clock n q"
| "dq_step Shutdown q = ([], dq_shutdown q)"

fun dq_run :: "'a dq_op list \<Rightarrow> 'a DelayQueue \<Rightarrow> 'a list \<times> 'a DelayQueue" where
  "dq_run [] q = ([], q)"
| "dq_run (op # ops) q =
     (case dq_step op q of (out, q') \<Rightarrow> case dq_run ops q' of (out', q'') \<Rightarrow> (out @ out', q''))"

fun put_data :: "'a dq_op \<Rightarrow> 'a list" where
  "put_data (Put d delay now) = [d]"
| "put_data _ = []"

text \<open>\<open>delivers q ds q'\<close>: the data \<open>ds\<close> come from a front part of the queue and \<open>q'\<close> keeps the rest.\<close>

definition delivers :: "'a DelayQueue \<Rightarrow> 'a list \<Rightarrow> 'a DelayQueue \<Rightarrow> bool" where
  "delivers q ds q' \<longleftrightarrow> (\<exists>front. queue q = front @ queue q' \<and> ds = map data front)"

lemma delivers_none [simp]: "delivers q [] q"
  by (simp add: delivers_def)

lemma delivers_top: "queue q \<noteq> [] \<Longrightarrow> delivers q [data (hd (queue q))] (q\<lparr>queue := tl (queue q)\<rparr>)"
  unfolding delivers_def by (intro exI [of _ "[hd (queue q)]"]) simp

lemma drain_loop_front:
  "drain_loop clock m n q = (ds, q') \<Longrightarrow> \<exists>front. q = front @ q' \<and> ds = map data front"
proof (induction clock m n q arbitrary: ds q' rule: drain_loop.induct)
  case (2 clock m n e q)
  show ?case
  proof (cases "(m = 0 \<or> n < m) \<and> isExpired (clock n) e")
    case True
    obtain ds1 where rest: "drain_loop clock m (n + 1) q = (ds1, q')" and ds: "ds = data e # ds1"
      using True 2 by (auto split: prod.splits)
    then obtain front where "q = front @ q'" "ds1 = map data front" using 2 True by blast
    then show ?thesis using ds by (intro exI [of _ "e # front"]) simp
  qed (use 2 in \<open>auto split: if_splits\<close>)
qed simp

lemma dq_step_delivers:
  assumes "dq_step op q = (out, q')" "put_data op = []"
  shows "delivers q out q'"
proof (cases op)
  case (Drain clock n)
  with assms(1) drain_loop_front [of clock n 0 "queue q"] show ?thesis
    by (fastforce simp: drainExpired_def delivers_def split: prod.splits)
next
  case Shutdown
  with assms(1) show ?thesis by (auto simp: dq_shutdown_def delivers_def)
qed (use assms delivers_top [of q] in \<open>auto simp: tryTake_def take_pass_def take_until_pass_def take_until_wake_def
  Let_def split: if_splits prod.splits option.splits\<close>)

lemma in_order_suffix: "in_order (xs @ ys) \<Longrightarrow> in_order ys"
  by (simp add: in_order_def sorted_wrt_append)

lemma dq_step_conserves:
  assumes "in_order (queue q)" "dq_step op q = (out, q')"
  shows "in_order (queue q') \<and>
    mset out + image_mset data (mset (queue q')) = mset (put_data op) + image_mset data (mset (queue q))"
proof (cases "put_data op = []")
  case True
  then obtain front where "queue q = front @ queue q'" "out = map data front"
    using dq_step_delivers [OF assms(2)] by (auto simp: delivers_def)
  with assms(1) True show ?thesis by (auto dest: in_order_suffix)
next
  case False
  then obtain d delay now where "op = Put d delay now" by (cases op) auto
  with assms show ?thesis by (auto simp: dq_put_def Let_def in_order_insert)
qed

lemma dq_run_conserves:
  assumes "in_order (queue q)" "dq_run ops q = (out, q')"
  shows "in_order (queue q') \<and>
    mset out + image_mset data (mset (queue q')) = mset (concat (map put_data ops)) + image_mset data (mset (queue q))"
  using assms
proof (induction ops arbitrary: q out)
  case (Cons op ops)
  obtain o1 q1 where step: "dq_step op q = (o1, q1)" by fastforce
  obtain o2 where run: "dq_run ops q1 = (o2, q')" and out: "out = o1 @ o2"
    using Cons.prems(2) step by (auto split: prod.splits)
  from dq_step_conserves [OF Cons.prems(1) step] Cons.IH [OF _ run] show ?case
    by (auto simp: out ac_simps)
qed simp

text \<open>
  C32. Nothing is lost, duplicated or made up. Along any interleaving of insertions, attempts to
  take, waits that wake up, drains and a shutdown, what has been delivered and what is still in the
  queue are together exactly what has been put in; and the next element to be offered is always one
  that expires first.
\<close>

theorem delay_queue_conserves:
  assumes "dq_run ops DelayQueue_new = (out, q)"
  shows "mset out + image_mset data (mset (queue q)) = mset (concat (map put_data ops)) \<and>
    (\<forall>e \<in> set (queue q). expiry (hd (queue q)) \<le> expiry e)"
proof -
  have "in_order (queue DelayQueue_new)" by (simp add: DelayQueue_new_def in_order_def)
  from dq_run_conserves [OF this assms] have "in_order (queue q)"
    "mset out + image_mset data (mset (queue q)) = mset (concat (map put_data ops))"
    by (auto simp: DelayQueue_new_def)
  then show ?thesis by (cases "queue q") (auto simp: in_order_def)
qed

theorem delay_queue_conserves_witness:
  "case dq_run [Put (1 :: nat) 20 0, Put 2 10 5, TryTake 30000000] DelayQueue_new of (out, q) \<Rightarrow>
     mset out + image_mset data (mset (queue q)) = {#1, 2#}"
proof -
  obtain out q where run: "dq_run [Put (1 :: nat) 20 0, Put 2 10 5, TryTake 30000000] DelayQueue_new = (out, q)" by fastforce
  from delay_queue_conserves [OF run] show ?thesis unfolding run by simp
qed

text \<open>The states a queue can be in.\<close>

definition dq_reachable :: "'a DelayQueue \<Rightarrow> bool" where
  "dq_reachable q \<longleftrightarrow> (\<exists>ops out. dq_run ops DelayQueue_new = (out, q))"

lemma dq_reachable_order: "dq_reachable q \<Longrightarrow> in_order (queue q)"
  using dq_run_conserves [of DelayQueue_new] by (force simp: dq_reachable_def DelayQueue_new_def in_order_def)

text \<open>
  Draining takes what is due. With a clock that does not go back, a drain without a limit delivers a
  front part of the queue in the order of expiry. It contains every element that had expired when the
  drain began and none that had not when it ended; what stays behind had not expired then either.
\<close>

theorem drain_takes_what_is_due:
  assumes "dq_reachable q" "mono clock" "drainExpired clock 0 q = (ds, q')"
  shows "\<exists>front. queue q = front @ queue q' \<and> ds = map data front \<and>
    (\<forall>e \<in> set front. expiry e \<le> clock (length ds)) \<and>
    (\<forall>e \<in> set (queue q'). clock (length ds) < expiry e)"
proof -
  have main: "\<exists>front. q = front @ q' \<and> ds = map data front \<and>
      (\<forall>e \<in> set front. expiry e \<le> clock (n + length ds)) \<and> (\<forall>e \<in> set q'. clock (n + length ds) < expiry e)"
    if "drain_loop clock 0 n q = (ds, q')" "in_order q" for n ds and q q' :: "'a DelayedElement list"
    using that
  proof (induction q arbitrary: n ds)
    case (Cons e q)
    show ?case
    proof (cases "isExpired (clock n) e")
      case True
      obtain ds1 where rest: "drain_loop clock 0 (n + 1) q = (ds1, q')" and ds: "ds = data e # ds1"
        using True Cons.prems by (auto split: prod.splits)
      obtain front where "q = front @ q'" "ds1 = map data front"
        "\<forall>e \<in> set front. expiry e \<le> clock (n + 1 + length ds1)" "\<forall>e \<in> set q'. clock (n + 1 + length ds1) < expiry e"
        using Cons.IH [OF rest] Cons.prems(2) by (auto simp: in_order_def)
      moreover have "expiry e \<le> clock (n + 1 + length ds1)"
        using True monoD [OF assms(2), of n "n + 1 + length ds1"] by (simp add: isExpired_def)
      ultimately show ?thesis using ds by (intro exI [of _ "e # front"]) (auto simp: ac_simps)
    next
      case False
      then show ?thesis
        using Cons.prems by (fastforce simp: isExpired_def in_order_def)
    qed
  qed simp
  from assms(3) have "drain_loop clock 0 0 (queue q) = (ds, queue q')"
    by (auto simp: drainExpired_def split: prod.splits)
  from main [OF this dq_reachable_order [OF assms(1)]] show ?thesis by simp
qed

definition example_queue :: "nat DelayQueue" where
  "example_queue = snd (dq_run [Put 7 3 0, Put 8 1 0] DelayQueue_new)"

lemma example_queue_reachable: "dq_reachable example_queue"
  unfolding dq_reachable_def example_queue_def by (metis prod.collapse)

lemma example_queue_eq:
  "example_queue = \<lparr>queue = [\<lparr>data = 8, expiry = 1000000\<rparr>, \<lparr>data = 7, expiry = 3000000\<rparr>], running = True\<rparr>"
  by (simp add: example_queue_def DelayQueue_new_def dq_put_def before_def)

theorem drain_takes_what_is_due_witness:
  "\<exists>front. queue example_queue = front @ [\<lparr>data = 7, expiry = 3000000\<rparr>] \<and> [8] = map data front"
proof -
  have "drainExpired (\<lambda>_. 2000000) 0 example_queue = ([8], example_queue\<lparr>queue := [\<lparr>data = 7, expiry = 3000000\<rparr>]\<rparr>)"
    by (simp add: example_queue_eq drainExpired_def isExpired_def)
  from drain_takes_what_is_due [OF example_queue_reachable _ this] show ?thesis by (auto simp: mono_def)
qed

text \<open>
  A blocking \<open>take\<close> makes progress. When a pass of its loop waits for a delay, then the next pass at
  the end of that delay returns an element, whatever has been put in meanwhile, unless the queue has
  been shut down.
\<close>

theorem take_progresses:
  assumes "dq_reachable q" "take_pass now q = (WaitFor d, q)" "now' \<ge> now + d * 1000000"
    and "q' = foldl (\<lambda>q (x, delay, t). dq_put x delay t q) q puts"
  shows "\<exists>x q''. take_pass now' q' = (Taken x, q'')"
proof -
  have order: "in_order (queue q)" by (rule dq_reachable_order [OF assms(1)])
  have keep: "in_order (queue q') \<and> queue q' \<noteq> [] \<and> expiry (hd (queue q')) \<le> expiry (hd (queue q)) \<and> running q' = running q"
    if "queue q \<noteq> []"
    unfolding assms(4) using order that
  proof (induction puts arbitrary: q)
    case (Cons p puts)
    obtain x delay t where p: "p = (x, delay, t)" by (cases p)
    let ?e = "\<lparr>data = x, expiry = t + delay * 1000000\<rparr>" and ?q = "dq_put x delay t q"
    have q: "queue ?q = ins_by before ?e (queue q)" "running ?q = running q" by (simp_all add: dq_put_def Let_def)
    have "in_order (queue ?q)" "queue ?q \<noteq> []" "expiry (hd (queue ?q)) \<le> expiry (hd (queue q))"
      using Cons.prems pq.top_push_le [of "queue q" ?e] in_order_insert [of "queue q" ?e] by (simp_all add: q ins_by_nonempty)
    with Cons.IH [of ?q] show ?case by (auto simp: p q(2))
  qed simp
  have wait: "running q" "queue q \<noteq> []" "d = getRemainingDelay now (hd (queue q))" "0 < d"
    using assms(2) by (auto simp: take_pass_def Let_def split: if_splits)
  then have "d = (expiry (hd (queue q)) - now) div 1000000"
    by (auto simp: getRemainingDelay_def split: if_splits)
  then have "expiry (hd (queue q)) - now < d * 1000000 + 1000000" by (simp add: div_mult_mod_eq [symmetric] algebra_simps) 
  then have "expiry (hd (queue q')) - now' < 1000000" using keep wait(2) assms(3) by linarith
  then have "getRemainingDelay now' (hd (queue q')) \<le> 0"
    by (auto simp: getRemainingDelay_def div_pos_pos_trivial)
  with keep wait show ?thesis by (simp add: take_pass_def Let_def)
qed

theorem take_progresses_witness:
  "\<exists>x q''. take_pass 1000000 (dq_put 9 5 500 example_queue) = (Taken x, q'')"
proof -
  have "take_pass 0 example_queue = (WaitFor 1, example_queue)"
    by (simp add: example_queue_eq take_pass_def getRemainingDelay_def)
  from take_progresses [OF example_queue_reachable this, of 1000000 _ "[(9, 5, 500)]"] show ?thesis by simp
qed

text \<open>
  The remaining delay is rounded down to milliseconds, so a \<open>take\<close> returns an element up to a millisecond
  before it expires, when \<open>tryTake\<close> still refuses it.
\<close>

lemma take_can_be_early:
  assumes "running q" "queue q = e # rest" "now < expiry e" "expiry e < now + 1000000"
  shows "fst (take_pass now q) = Taken (data e) \<and> fst (tryTake now q) = None"
  using assms by (auto simp: take_pass_def tryTake_def getRemainingDelay_def isExpired_def div_pos_pos_trivial)

end
