(* ===== verification/Http_Parser.thy ===== *)
theory Http_Parser
  imports Chunked
begin

text \<open>
  The incremental HTTP parser of \<open>zsxq-cpp-ai/StdHTTPS\<close> (\<open>include/http_parser.h\<close>,
  \<open>src/http_parser.cpp\<close>).

  \<^item> A parser object is a record; \<open>HttpRequestParser\<close> and \<open>HttpResponseParser\<close> extend the record of
    \<open>HttpParser\<close> as the classes extend the base class. The virtual method \<open>parse_start_line\<close> is an
    argument of the operations of the base class; what they rely on is the locale \<open>start_line\<close>,
    interpreted by both subclasses.
  \<^item> \<open>std::multimap\<close> is an association list in key order in which an insertion goes behind the entries
    of its key; \<open>find\<close> gives the first entry of a key, as the implementations of the library do.
  \<^item> The (Chinese) error messages are a datatype. Sizes that are compared or subtracted are 64-bit words.
\<close>

section \<open>Methods, versions and status codes\<close>

datatype HttpVerb =
  GET | POST | PUT | DELETE | HEAD | OPTIONS | PATCH | CONNECT | TRACE | UNKNOWN

fun method_to_string :: "HttpVerb \<Rightarrow> string" where
  "method_to_string GET = ''GET''"
| "method_to_string POST = ''POST''"
| "method_to_string PUT = ''PUT''"
| "method_to_string DELETE = ''DELETE''"
| "method_to_string HEAD = ''HEAD''"
| "method_to_string OPTIONS = ''OPTIONS''"
| "method_to_string PATCH = ''PATCH''"
| "method_to_string CONNECT = ''CONNECT''"
| "method_to_string TRACE = ''TRACE''"
| "method_to_string UNKNOWN = ''UNKNOWN''"

definition string_to_method :: "string \<Rightarrow> HttpVerb" where
  "string_to_method m =
     (if m = ''GET'' then GET
      else if m = ''POST'' then POST
      else if m = ''PUT'' then PUT
      else if m = ''DELETE'' then DELETE
      else if m = ''HEAD'' then HEAD
      else if m = ''OPTIONS'' then OPTIONS
      else if m = ''PATCH'' then PATCH
      else if m = ''CONNECT'' then CONNECT
      else if m = ''TRACE'' then TRACE
      else UNKNOWN)"

record HttpVersion =
  ver_major :: int
  ver_minor :: int

definition version_to_string :: "HttpVersion \<Rightarrow> string" where
  "version_to_string v = ''HTTP/'' @ int_dec (ver_major v) @ ''.'' @ int_dec (ver_minor v)"

definition is_keep_alive_default :: "HttpVersion \<Rightarrow> bool" where
  "is_keep_alive_default v \<longleftrightarrow> 1 < ver_major v \<or> ver_major v = 1 \<and> 1 \<le> ver_minor v"

definition reason_phrases :: "(int \<times> string) list" where
  "reason_phrases =
     [(100, ''Continue''), (101, ''Switching Protocols''), (200, ''OK''), (201, ''Created''),
      (202, ''Accepted''), (204, ''No Content''), (206, ''Partial Content''),
      (301, ''Moved Permanently''), (302, ''Found''), (304, ''Not Modified''), (400, ''Bad Request''),
      (401, ''Unauthorized''), (403, ''Forbidden''), (404, ''Not Found''), (405, ''Method Not Allowed''),
      (409, ''Conflict''), (412, ''Precondition Failed''), (413, ''Payload Too Large''),
      (500, ''Internal Server Error''), (501, ''Not Implemented''), (502, ''Bad Gateway''),
      (503, ''Service Unavailable''), (504, ''Gateway Timeout'')]"

definition get_default_reason_phrase :: "int \<Rightarrow> string" where
  "get_default_reason_phrase code =
     (case map_of reason_phrases code of Some r \<Rightarrow> r | None \<Rightarrow> ''Unknown Status'')"

section \<open>Header fields\<close>

definition to_lower :: "string \<Rightarrow> string" where
  "to_lower s = map lower_char s"

fun memplace :: "'k::linorder \<Rightarrow> 'v \<Rightarrow> ('k \<times> 'v) list \<Rightarrow> ('k \<times> 'v) list" where
  "memplace k v [] = [(k, v)]"
| "memplace k v ((k', v') # m) = (if k < k' then (k, v) # (k', v') # m else (k', v') # memplace k v m)"

text \<open>\<open>std::stoull(s, nullptr, 16)\<close>: a sign and the prefix \<open>0x\<close> are accepted, a negative value wraps around.\<close>

definition is_hex :: "char \<Rightarrow> bool" where
  "is_hex c \<longleftrightarrow> hex_value c \<noteq> None"

definition drop_0x :: "string \<Rightarrow> string" where
  "drop_0x s = (if (is_prefix ''0x'' s \<or> is_prefix ''0X'' s) \<and> 2 < length s \<and> is_hex (s ! 2) then drop 2 s else s)"

definition stoull16 :: "string \<Rightarrow> std_error + 64 word" where
  "stoull16 s =
     (let t = dropWhile is_space s;
          neg = (t \<noteq> [] \<and> hd t = CHR ''-'');
          u = (if t \<noteq> [] \<and> (hd t = CHR ''-'' \<or> hd t = CHR ''+'') then tl t else t);
          ds = takeWhile is_hex (drop_0x u);
          v = foldl (\<lambda>a c. 16 * a + the (hex_value c)) 0 ds
      in if ds = [] then Inl InvalidArgument
         else if 2 ^ 64 \<le> v then Inl OutOfRange
         else Inr (if neg then - of_nat v else of_nat v))"

section \<open>The base class\<close>

datatype ParseState =
  START_LINE | HEADER_NAME | HEADER_VALUE | HEADER_COMPLETE | BODY |
  CHUNK_SIZE | CHUNK_DATA | CHUNK_TRAILER | COMPLETE | ERROR

datatype parse_error =
  Start_Line_Too_Long | Start_Line_Malformed | Header_Too_Large | Header_Malformed |
  Chunk_Size_Line_Malformed | Chunk_Size_Malformed | Chunk_Without_CRLF | Unknown_Parse_State

record HttpParser =
  hp_is_response :: bool
  hp_state :: ParseState
  hp_version :: HttpVersion
  hp_headers :: headers
  hp_body :: string
  hp_error :: "parse_error option"
  hp_buffer :: string
  hp_current_header_name :: string
  hp_expected_body_length :: "64 word"
  hp_chunk_remaining :: "64 word"
  hp_chunked_encoding :: bool
  hp_headers_complete :: bool

text \<open>A virtual \<open>parse_start_line\<close>: whether the line is accepted, and the updated object.\<close>

type_synonym 'a start_line_method = "string \<Rightarrow> 'a HttpParser_scheme \<Rightarrow> bool \<times> 'a HttpParser_scheme"

definition HttpParser_new :: "bool \<Rightarrow> HttpParser" where
  "HttpParser_new is_response =
     \<lparr>hp_is_response = is_response, hp_state = START_LINE, hp_version = \<lparr>ver_major = 1, ver_minor = 1\<rparr>,
      hp_headers = [], hp_body = [], hp_error = None, hp_buffer = [], hp_current_header_name = [],
      hp_expected_body_length = 0, hp_chunk_remaining = 0, hp_chunked_encoding = False,
      hp_headers_complete = False\<rparr>"

definition hp_reset :: "'a HttpParser_scheme \<Rightarrow> 'a HttpParser_scheme" where
  "hp_reset p = p\<lparr>hp_state := START_LINE, hp_version := \<lparr>ver_major = 1, ver_minor = 1\<rparr>, hp_headers := [],
     hp_body := [], hp_error := None, hp_buffer := [], hp_current_header_name := [],
     hp_expected_body_length := 0, hp_chunk_remaining := 0, hp_chunked_encoding := False,
     hp_headers_complete := False\<rparr>"

definition hp_set_error :: "parse_error \<Rightarrow> 'a HttpParser_scheme \<Rightarrow> 'a HttpParser_scheme" where
  "hp_set_error e p = p\<lparr>hp_state := ERROR, hp_error := Some e\<rparr>"

definition find_header :: "string \<Rightarrow> headers \<Rightarrow> string" where
  "find_header name hs = (case map_of hs name of Some v \<Rightarrow> v | None \<Rightarrow> [])"

definition hp_get_header :: "string \<Rightarrow> 'a HttpParser_scheme \<Rightarrow> string" where
  "hp_get_header name p = find_header (to_lower name) (hp_headers p)"

definition hp_has_header :: "string \<Rightarrow> 'a HttpParser_scheme \<Rightarrow> bool" where
  "hp_has_header name p \<longleftrightarrow> map_of (hp_headers p) (to_lower name) \<noteq> None"

definition hp_is_chunked :: "'a HttpParser_scheme \<Rightarrow> bool" where
  "hp_is_chunked p = hp_chunked_encoding p"

definition hp_is_keep_alive :: "'a HttpParser_scheme \<Rightarrow> bool" where
  "hp_is_keep_alive p =
     (let lower_conn = to_lower (hp_get_header ''connection'' p)
      in if lower_conn = ''close'' then False
         else if lower_conn = ''keep-alive'' then True
         else is_keep_alive_default (hp_version p))"

text \<open>The number in a \<open>Content-Length\<close> value; -1 when it is empty or not a number.\<close>

definition length_value :: "string \<Rightarrow> int" where
  "length_value length_str =
     (if length_str = [] then -1 else case stoll length_str of Inl _ \<Rightarrow> -1 | Inr n \<Rightarrow> n)"

definition hp_get_content_length :: "'a HttpParser_scheme \<Rightarrow> int" where
  "hp_get_content_length p = length_value (hp_get_header ''content-length'' p)"

definition should_read_body :: "'a HttpParser_scheme \<Rightarrow> bool" where
  "should_read_body p =
     (if \<not> hp_headers_complete p then False
      else if hp_is_chunked p then True
      else 0 < hp_get_content_length p)"

definition parse_header_line :: "string \<Rightarrow> 'a HttpParser_scheme \<Rightarrow> bool \<times> 'a HttpParser_scheme" where
  "parse_header_line line p =
     (case find_char (CHR '':'') line of
        None \<Rightarrow> (False, p)
      | Some colon_pos \<Rightarrow>
          (let name = trim_blanks (take colon_pos line);
               value = trim_blanks (drop (colon_pos + 1) line)
           in if name = [] then (False, p)
              else (True, p\<lparr>hp_headers := memplace (to_lower name) value (hp_headers p)\<rparr>)))"

text \<open>The state functions give the C++ return value, the number of bytes consumed, and the parser.\<close>

definition parse_start_line_state ::
  "'a start_line_method \<Rightarrow> string \<Rightarrow> 'a HttpParser_scheme \<Rightarrow> int \<times> nat \<times> 'a HttpParser_scheme" where
  "parse_start_line_state parse_start_line data p =
     (case find_line_end data of
        None \<Rightarrow>
          (let p1 = p\<lparr>hp_buffer := hp_buffer p @ data\<rparr>
           in if 8192 < length (hp_buffer p1) then (-1, length data, hp_set_error Start_Line_Too_Long p1)
              else (0, length data, p1))
      | Some line_end \<Rightarrow>
          (case parse_start_line (drop_last_cr (hp_buffer p @ take line_end data)) p of
             (ok, p1) \<Rightarrow>
               if \<not> ok then (-1, line_end + 2, hp_set_error Start_Line_Malformed p1)
               else (1, line_end + 2, p1\<lparr>hp_buffer := [], hp_state := HEADER_NAME\<rparr>)))"

text \<open>The empty line: \<open>on_headers_complete\<close> does nothing in either subclass.\<close>

definition end_of_headers :: "'a HttpParser_scheme \<Rightarrow> 'a HttpParser_scheme" where
  "end_of_headers p =
     (let p1 = p\<lparr>hp_headers_complete := True\<rparr>
      in if hp_is_chunked p1 then p1\<lparr>hp_chunked_encoding := True, hp_state := CHUNK_SIZE\<rparr>
         else if should_read_body p1 then
           (if 0 < hp_get_content_length p1
            then p1\<lparr>hp_expected_body_length := word_of_int (hp_get_content_length p1), hp_state := BODY\<rparr>
            else p1\<lparr>hp_state := COMPLETE\<rparr>)
         else p1\<lparr>hp_state := COMPLETE\<rparr>)"

definition parse_header_name_state :: "string \<Rightarrow> 'a HttpParser_scheme \<Rightarrow> int \<times> nat \<times> 'a HttpParser_scheme" where
  "parse_header_name_state data p =
     (case find_line_end data of
        None \<Rightarrow>
          (let p1 = p\<lparr>hp_buffer := hp_buffer p @ data\<rparr>
           in if 65536 < length (hp_buffer p1) then (-1, length data, hp_set_error Header_Too_Large p1)
              else (0, length data, p1))
      | Some line_end \<Rightarrow>
          (let line = drop_last_cr (hp_buffer p @ take line_end data); p1 = p\<lparr>hp_buffer := []\<rparr>
           in if line = [] then (1, line_end + 2, end_of_headers p1)
              else case parse_header_line line p1 of
                     (ok, p2) \<Rightarrow> if \<not> ok then (-1, line_end + 2, hp_set_error Header_Malformed p2)
                                else (1, line_end + 2, p2)))"

definition parse_body_state :: "string \<Rightarrow> 'a HttpParser_scheme \<Rightarrow> int \<times> nat \<times> 'a HttpParser_scheme" where
  "parse_body_state data p =
     (let remaining_body = hp_expected_body_length p - of_nat (length (hp_body p));
          to_consume = min (length data) (unat remaining_body);
          p1 = p\<lparr>hp_body := hp_body p @ take to_consume data\<rparr>;
          p2 = (if unat (hp_expected_body_length p) \<le> length (hp_body p1) then p1\<lparr>hp_state := COMPLETE\<rparr> else p1)
      in (if 0 < to_consume then 1 else 0, to_consume, p2))"

definition parse_chunk_size_state :: "string \<Rightarrow> 'a HttpParser_scheme \<Rightarrow> int \<times> nat \<times> 'a HttpParser_scheme" where
  "parse_chunk_size_state data p =
     (case find_line_end data of
        None \<Rightarrow>
          (let p1 = p\<lparr>hp_buffer := hp_buffer p @ data\<rparr>
           in if 32 < length (hp_buffer p1) then (-1, length data, hp_set_error Chunk_Size_Line_Malformed p1)
              else (0, length data, p1))
      | Some line_end \<Rightarrow>
          (let line = drop_last_cr (hp_buffer p @ take line_end data);
               p1 = p\<lparr>hp_buffer := []\<rparr>;
               size_str = (case find_char (CHR '';'') line of None \<Rightarrow> line | Some pos \<Rightarrow> take pos line)
           in case stoull16 size_str of
                Inl _ \<Rightarrow> (-1, line_end + 2, hp_set_error Chunk_Size_Malformed p1)
              | Inr n \<Rightarrow> (1, line_end + 2,
                  p1\<lparr>hp_chunk_remaining := n, hp_state := (if n = 0 then CHUNK_TRAILER else CHUNK_DATA)\<rparr>)))"

definition parse_chunk_data_state :: "string \<Rightarrow> 'a HttpParser_scheme \<Rightarrow> int \<times> nat \<times> 'a HttpParser_scheme" where
  "parse_chunk_data_state data p =
     (let to_consume = min (length data) (unat (hp_chunk_remaining p));
          p1 = p\<lparr>hp_body := hp_body p @ take to_consume data,
                 hp_chunk_remaining := hp_chunk_remaining p - of_nat to_consume\<rparr>
      in if hp_chunk_remaining p1 \<noteq> 0 then (if 0 < to_consume then 1 else 0, to_consume, p1)
         else if to_consume + 2 \<le> length data then
           (if data ! to_consume = CR \<and> data ! (to_consume + 1) = LF
            then (1, to_consume + 2, p1\<lparr>hp_state := CHUNK_SIZE\<rparr>)
            else (-1, to_consume, hp_set_error Chunk_Without_CRLF p1))
         else (if 0 < to_consume then 1 else 0, to_consume, p1\<lparr>hp_state := CHUNK_SIZE\<rparr>))"

definition parse_chunk_trailer_state :: "string \<Rightarrow> 'a HttpParser_scheme \<Rightarrow> int \<times> nat \<times> 'a HttpParser_scheme" where
  "parse_chunk_trailer_state data p =
     (case find_line_end data of
        None \<Rightarrow> (0, length data, p\<lparr>hp_buffer := hp_buffer p @ data\<rparr>)
      | Some line_end \<Rightarrow>
          (let line = drop_last_cr (hp_buffer p @ take line_end data); p1 = p\<lparr>hp_buffer := []\<rparr>
           in if line = [] then (1, line_end + 2, p1\<lparr>hp_state := COMPLETE\<rparr>)
              else (1, line_end + 2, snd (parse_header_line line p1))))"

definition parse_step ::
  "'a start_line_method \<Rightarrow> string \<Rightarrow> 'a HttpParser_scheme \<Rightarrow> int \<times> nat \<times> 'a HttpParser_scheme" where
  "parse_step parse_start_line data p =
     (case hp_state p of
        START_LINE \<Rightarrow> parse_start_line_state parse_start_line data p
      | HEADER_NAME \<Rightarrow> parse_header_name_state data p
      | HEADER_VALUE \<Rightarrow> (0, 0, p)
      | BODY \<Rightarrow> parse_body_state data p
      | CHUNK_SIZE \<Rightarrow> parse_chunk_size_state data p
      | CHUNK_DATA \<Rightarrow> parse_chunk_data_state data p
      | CHUNK_TRAILER \<Rightarrow> parse_chunk_trailer_state data p
      | _ \<Rightarrow> (-1, 0, hp_set_error Unknown_Parse_State p))"

lemma parse_step_consumes:
  "parse_step pl data p = (r, c, p') \<Longrightarrow> \<not> r < 0 \<Longrightarrow> \<not> (c = 0 \<and> r = 0) \<Longrightarrow> 0 < c"
  by (auto simp: parse_step_def parse_start_line_state_def parse_header_name_state_def parse_body_state_def
      parse_chunk_size_state_def parse_chunk_data_state_def parse_chunk_trailer_state_def Let_def
      split: ParseState.splits option.splits sum.splits prod.splits if_splits) (rule gr0I, simp)

text \<open>The loop of \<open>parse\<close> on the data not yet consumed; \<open>None\<close> is the return value -1.\<close>

function parse_loop ::
  "'a start_line_method \<Rightarrow> string \<Rightarrow> nat \<Rightarrow> 'a HttpParser_scheme \<Rightarrow> nat option \<times> 'a HttpParser_scheme" where
  "parse_loop pl data tot p =
     (if data = [] \<or> hp_state p = COMPLETE \<or> hp_state p = ERROR then (Some tot, p)
      else case parse_step pl data p of
             (r, c, p') \<Rightarrow>
               (if r < 0 then (None, p')
                else if c = 0 \<and> r = 0 then (Some (tot + c), p')
                else parse_loop pl (drop c data) (tot + c) p'))"
  by pat_completeness auto
termination
  by (relation "measure (\<lambda>(pl, data, tot, p). length data)") (auto dest: parse_step_consumes [OF sym])

declare parse_loop.simps [simp del]

definition hp_parse :: "'a start_line_method \<Rightarrow> string \<Rightarrow> 'a HttpParser_scheme \<Rightarrow> int \<times> 'a HttpParser_scheme" where
  "hp_parse pl data p =
     (if hp_state p = ERROR \<or> hp_state p = COMPLETE then (0, p)
      else case parse_loop pl data 0 p of
             (None, p') \<Rightarrow> (-1, p')
           | (Some tot, p') \<Rightarrow> (to_int32 tot, p'))"

section \<open>Request and response parsers\<close>

text \<open>Both subclasses parse the version the same way; the first number is stored before the second is read.\<close>

definition parse_version :: "string \<Rightarrow> HttpVersion \<Rightarrow> bool \<times> HttpVersion" where
  "parse_version version_str v =
     (if take 5 version_str \<noteq> ''HTTP/'' then (False, v)
      else let version_part = drop 5 version_str
           in case find_char (CHR ''.'') version_part of
                None \<Rightarrow> (False, v)
              | Some dot_pos \<Rightarrow>
                  (case stoi (take dot_pos version_part) of
                     Inl _ \<Rightarrow> (False, v)
                   | Inr a \<Rightarrow>
                       (case stoi (drop (dot_pos + 1) version_part) of
                          Inl _ \<Rightarrow> (False, v\<lparr>ver_major := a\<rparr>)
                        | Inr b \<Rightarrow> (True, v\<lparr>ver_major := a, ver_minor := b\<rparr>))))"

definition split_uri :: "string \<Rightarrow> string \<times> string" where
  "split_uri uri =
     (case find_char (CHR ''?'') uri of
        Some query_pos \<Rightarrow> (take query_pos uri, drop (query_pos + 1) uri)
      | None \<Rightarrow> (uri, []))"

record HttpRequestParser = HttpParser +
  rp_method :: HttpVerb
  rp_uri :: string
  rp_path :: string
  rp_query :: string

text \<open>The constructor leaves \<open>method_\<close> uninitialised: its value is an argument.\<close>

definition HttpRequestParser_new :: "HttpVerb \<Rightarrow> HttpRequestParser" where
  "HttpRequestParser_new m = HttpParser.extend (HttpParser_new False)
     (HttpRequestParser.fields m [] [] [])"

definition rp_parse_uri :: "HttpRequestParser \<Rightarrow> HttpRequestParser" where
  "rp_parse_uri p = p\<lparr>rp_path := fst (split_uri (rp_uri p)), rp_query := snd (split_uri (rp_uri p))\<rparr>"

definition request_start_line :: "string \<Rightarrow> HttpRequestParser \<Rightarrow> bool \<times> HttpRequestParser" where
  "request_start_line line p =
     (let (method_str, r1) = next_word line; (uri_str, r2) = next_word r1; (version_str, _) = next_word r2
      in if method_str = [] \<or> uri_str = [] \<or> version_str = [] then (False, p)
         else let p1 = p\<lparr>rp_method := string_to_method method_str\<rparr>
              in if rp_method p1 = UNKNOWN then (False, p1)
                 else let p2 = rp_parse_uri (p1\<lparr>rp_uri := uri_str\<rparr>);
                          (ok, v) = parse_version version_str (hp_version p2)
                      in (ok, p2\<lparr>hp_version := v\<rparr>))"

record HttpResponseParser = HttpParser +
  sp_status_code :: int
  sp_reason_phrase :: string

definition HttpResponseParser_new :: "int \<Rightarrow> HttpResponseParser" where
  "HttpResponseParser_new code = HttpParser.extend (HttpParser_new True)
     (HttpResponseParser.fields code [])"

text \<open>The end of the first occurrence of the status in the line: it always occurs there.\<close>

definition status_end :: "string \<Rightarrow> string \<Rightarrow> nat" where
  "status_end status_str line =
     (case find_sub status_str line of Some i \<Rightarrow> i + length status_str | None \<Rightarrow> length status_str - 1)"

definition response_start_line :: "string \<Rightarrow> HttpResponseParser \<Rightarrow> bool \<times> HttpResponseParser" where
  "response_start_line line p =
     (let (version_str, r1) = next_word line; (status_str, _) = next_word r1
      in if version_str = [] \<or> status_str = [] then (False, p)
         else let (ok, v) = parse_version version_str (hp_version p); p1 = p\<lparr>hp_version := v\<rparr>
              in if \<not> ok then (False, p1)
                 else case stoi status_str of
                        Inl _ \<Rightarrow> (False, p1)
                      | Inr code \<Rightarrow>
                          (True, p1\<lparr>sp_status_code := code,
                             sp_reason_phrase :=
                               (if status_end status_str line < length line
                                then drop (status_end status_str line + 1) line
                                else get_default_reason_phrase code)\<rparr>))"

end
