(* ===== verification/Http_Message.thy ===== *)
theory Http_Message
  imports Http_Parser
begin

text \<open>
  HTTP messages of \<open>zsxq-cpp-ai/StdHTTPS\<close> (\<open>include/http_message.h\<close>, \<open>src/http_message.cpp\<close>): the header
  table with its case-insensitive names, the body and its length, requests and responses with their
  text form and the parser each of them owns. As in \<open>Http_Parser\<close> a subclass extends the record of
  its base class.
\<close>

section \<open>The base class\<close>

record HttpMessage =
  msg_is_response :: bool
  msg_version :: HttpVersion
  msg_headers :: headers
  msg_body :: string

definition HttpMessage_new :: "bool \<Rightarrow> HttpMessage" where
  "HttpMessage_new is_response =
     \<lparr>msg_is_response = is_response, msg_version = \<lparr>ver_major = 1, ver_minor = 1\<rparr>, msg_headers = [], msg_body = []\<rparr>"

definition msg_set_version :: "HttpVersion \<Rightarrow> 'a HttpMessage_scheme \<Rightarrow> 'a HttpMessage_scheme" where
  "msg_set_version v m = m\<lparr>msg_version := v\<rparr>"

definition normalize_header_name :: "string \<Rightarrow> string" where
  "normalize_header_name name = map lower_char name"

definition msg_set_header :: "string \<Rightarrow> string \<Rightarrow> 'a HttpMessage_scheme \<Rightarrow> 'a HttpMessage_scheme" where
  "msg_set_header name value m =
     (let norm_name = normalize_header_name name
      in m\<lparr>msg_headers := memplace norm_name value (merase norm_name (msg_headers m))\<rparr>)"

definition msg_add_header :: "string \<Rightarrow> string \<Rightarrow> 'a HttpMessage_scheme \<Rightarrow> 'a HttpMessage_scheme" where
  "msg_add_header name value m =
     m\<lparr>msg_headers := memplace (normalize_header_name name) value (msg_headers m)\<rparr>"

definition msg_get_header :: "string \<Rightarrow> 'a HttpMessage_scheme \<Rightarrow> string" where
  "msg_get_header name m = find_header (normalize_header_name name) (msg_headers m)"

definition msg_get_headers :: "string \<Rightarrow> 'a HttpMessage_scheme \<Rightarrow> string list" where
  "msg_get_headers name m = map snd (filter (\<lambda>(k, _). k = normalize_header_name name) (msg_headers m))"

definition msg_has_header :: "string \<Rightarrow> 'a HttpMessage_scheme \<Rightarrow> bool" where
  "msg_has_header name m \<longleftrightarrow> map_of (msg_headers m) (normalize_header_name name) \<noteq> None"

definition msg_remove_header :: "string \<Rightarrow> 'a HttpMessage_scheme \<Rightarrow> 'a HttpMessage_scheme" where
  "msg_remove_header name m = m\<lparr>msg_headers := merase (normalize_header_name name) (msg_headers m)\<rparr>"

definition msg_clear_headers :: "'a HttpMessage_scheme \<Rightarrow> 'a HttpMessage_scheme" where
  "msg_clear_headers m = m\<lparr>msg_headers := []\<rparr>"

definition msg_set_body :: "string \<Rightarrow> 'a HttpMessage_scheme \<Rightarrow> 'a HttpMessage_scheme" where
  "msg_set_body body m = m\<lparr>msg_body := body\<rparr>"

definition msg_append_body :: "string \<Rightarrow> 'a HttpMessage_scheme \<Rightarrow> 'a HttpMessage_scheme" where
  "msg_append_body data m = m\<lparr>msg_body := msg_body m @ data\<rparr>"

definition msg_clear_body :: "'a HttpMessage_scheme \<Rightarrow> 'a HttpMessage_scheme" where
  "msg_clear_body m = m\<lparr>msg_body := []\<rparr>"

definition msg_is_chunked :: "'a HttpMessage_scheme \<Rightarrow> bool" where
  "msg_is_chunked m \<longleftrightarrow> contains_sub ''chunked'' (map lower_char (msg_get_header ''transfer-encoding'' m))"

definition msg_get_content_length :: "'a HttpMessage_scheme \<Rightarrow> int" where
  "msg_get_content_length m = length_value (msg_get_header ''content-length'' m)"

definition msg_set_content_length :: "int \<Rightarrow> 'a HttpMessage_scheme \<Rightarrow> 'a HttpMessage_scheme" where
  "msg_set_content_length n m = msg_set_header ''content-length'' (int_dec n) m"

definition msg_update_content_length :: "'a HttpMessage_scheme \<Rightarrow> 'a HttpMessage_scheme" where
  "msg_update_content_length m =
     (if \<not> msg_is_chunked m then msg_set_content_length (int (length (msg_body m))) m else m)"

definition msg_set_chunked :: "bool \<Rightarrow> 'a HttpMessage_scheme \<Rightarrow> 'a HttpMessage_scheme" where
  "msg_set_chunked chunked m =
     (if chunked then msg_remove_header ''content-length'' (msg_set_header ''transfer-encoding'' ''chunked'' m)
      else msg_update_content_length (msg_remove_header ''transfer-encoding'' m))"

definition msg_is_keep_alive :: "'a HttpMessage_scheme \<Rightarrow> bool" where
  "msg_is_keep_alive m =
     (let connection = map lower_char (msg_get_header ''connection'' m)
      in if connection = ''close'' then False
         else if connection = ''keep-alive'' then True
         else is_keep_alive_default (msg_version m))"

definition msg_set_keep_alive :: "bool \<Rightarrow> 'a HttpMessage_scheme \<Rightarrow> 'a HttpMessage_scheme" where
  "msg_set_keep_alive keep_alive m =
     (if keep_alive
      then (if \<not> is_keep_alive_default (msg_version m) then msg_set_header ''connection'' ''keep-alive'' m else m)
      else msg_set_header ''connection'' ''close'' m)"

definition msg_reset :: "'a HttpMessage_scheme \<Rightarrow> 'a HttpMessage_scheme" where
  "msg_reset m = m\<lparr>msg_headers := [], msg_body := []\<rparr>"

definition is_alpha :: "char \<Rightarrow> bool" where
  "is_alpha c \<longleftrightarrow> (65::nat) \<le> of_char c \<and> (of_char c :: nat) \<le> 90 \<or> (97::nat) \<le> of_char c \<and> (of_char c :: nat) \<le> 122"

definition upper_char :: "char \<Rightarrow> char" where
  "upper_char c =
     (if (97::nat) \<le> of_char c \<and> (of_char c :: nat) \<le> 122 then char_of (of_char c - 32 :: nat) else c)"

fun format_name :: "bool \<Rightarrow> string \<Rightarrow> string" where
  "format_name capitalize_next [] = []"
| "format_name capitalize_next (c # cs) =
     (if capitalize_next \<and> is_alpha c then upper_char c # format_name False cs
      else if c = CHR ''-'' then c # format_name True cs
      else lower_char c # format_name capitalize_next cs)"

definition build_headers :: "'a HttpMessage_scheme \<Rightarrow> string" where
  "build_headers m = concat (map (\<lambda>(k, v). format_name True k @ '': '' @ v @ CRLF) (msg_headers m)) @ CRLF"

section \<open>Requests\<close>

record HttpRequestMsg = HttpMessage +
  rq_parser :: HttpRequestParser
  rq_method :: HttpVerb
  rq_uri :: string
  rq_path :: string
  rq_query :: string

text \<open>\<open>i\<close> is the value of the uninitialised member of the owned parser.\<close>

definition HttpRequest_default :: "HttpVerb \<Rightarrow> HttpRequestMsg" where
  "HttpRequest_default i = HttpMessage.extend (HttpMessage_new False)
     (HttpRequestMsg.fields (HttpRequestParser_new i) GET [] [] [])"

definition rq_parse_uri :: "HttpRequestMsg \<Rightarrow> HttpRequestMsg" where
  "rq_parse_uri m = m\<lparr>rq_path := fst (split_uri (rq_uri m)), rq_query := snd (split_uri (rq_uri m))\<rparr>"

definition HttpRequest_new :: "HttpVerb \<Rightarrow> HttpVerb \<Rightarrow> string \<Rightarrow> HttpVersion \<Rightarrow> HttpRequestMsg" where
  "HttpRequest_new i method uri version =
     rq_parse_uri (msg_set_version version (HttpMessage.extend (HttpMessage_new False)
       (HttpRequestMsg.fields (HttpRequestParser_new i) method uri [] [])))"

definition rq_set_method :: "HttpVerb \<Rightarrow> HttpRequestMsg \<Rightarrow> HttpRequestMsg" where
  "rq_set_method method m = m\<lparr>rq_method := method\<rparr>"

definition rq_set_uri :: "string \<Rightarrow> HttpRequestMsg \<Rightarrow> HttpRequestMsg" where
  "rq_set_uri uri m = rq_parse_uri (m\<lparr>rq_uri := uri\<rparr>)"

definition add_query_param :: "string smap \<Rightarrow> string \<Rightarrow> string smap" where
  "add_query_param params pair =
     (case find_char (CHR ''='') pair of
        Some eq_pos \<Rightarrow> mput (take eq_pos pair) (drop (eq_pos + 1) pair) params
      | None \<Rightarrow> mput pair [] params)"

definition get_query_params :: "HttpRequestMsg \<Rightarrow> string smap" where
  "get_query_params m =
     (if rq_query m = [] then [] else foldl add_query_param [] (getdelims (CHR ''&'') (rq_query m)))"

definition get_query_param :: "string \<Rightarrow> HttpRequestMsg \<Rightarrow> string" where
  "get_query_param name m = find_header name (get_query_params m)"

definition create_get :: "HttpVerb \<Rightarrow> string \<Rightarrow> HttpVersion \<Rightarrow> HttpRequestMsg" where
  "create_get i uri version = msg_update_content_length (HttpRequest_new i GET uri version)"

definition create_post :: "HttpVerb \<Rightarrow> string \<Rightarrow> string \<Rightarrow> string \<Rightarrow> HttpVersion \<Rightarrow> HttpRequestMsg" where
  "create_post i uri body content_type version =
     msg_update_content_length (msg_set_header ''content-type'' content_type
       (msg_set_body body (HttpRequest_new i POST uri version)))"

definition rq_build_start_line :: "HttpRequestMsg \<Rightarrow> string" where
  "rq_build_start_line m = method_to_string (rq_method m) @ '' '' @ rq_uri m @ '' '' @ version_to_string (msg_version m)"

definition rq_to_string :: "HttpRequestMsg \<Rightarrow> string" where
  "rq_to_string m = rq_build_start_line m @ CRLF @ build_headers m @ msg_body m"

definition rq_parse :: "string \<Rightarrow> HttpRequestMsg \<Rightarrow> int \<times> HttpRequestMsg" where
  "rq_parse data m =
     (case hp_parse request_start_line data (rq_parser m) of
        (result, p) \<Rightarrow>
          (result,
           if 0 < result \<and> hp_state p = COMPLETE
           then m\<lparr>rq_parser := p, rq_method := rp_method p, rq_uri := rp_uri p, rq_path := rp_path p,
                  rq_query := rp_query p, msg_version := hp_version p, msg_headers := hp_headers p,
                  msg_body := hp_body p\<rparr>
           else m\<lparr>rq_parser := p\<rparr>))"

definition rq_is_complete :: "HttpRequestMsg \<Rightarrow> bool" where
  "rq_is_complete m \<longleftrightarrow> hp_state (rq_parser m) = COMPLETE"

definition rq_has_error :: "HttpRequestMsg \<Rightarrow> bool" where
  "rq_has_error m \<longleftrightarrow> hp_state (rq_parser m) = ERROR"

definition rq_reset :: "HttpRequestMsg \<Rightarrow> HttpRequestMsg" where
  "rq_reset m =
     (msg_reset m)\<lparr>rq_parser := hp_reset (rq_parser m), rq_method := GET, rq_uri := [], rq_path := [], rq_query := []\<rparr>"

section \<open>Responses\<close>

record HttpResponseMsg = HttpMessage +
  rs_parser :: HttpResponseParser
  rs_status_code :: int
  rs_reason_phrase :: string

definition HttpResponse_default :: "int \<Rightarrow> HttpResponseMsg" where
  "HttpResponse_default i = HttpMessage.extend (HttpMessage_new True)
     (HttpResponseMsg.fields (HttpResponseParser_new i) 200 ''OK'')"

definition HttpResponse_new :: "int \<Rightarrow> int \<Rightarrow> string \<Rightarrow> HttpVersion \<Rightarrow> HttpResponseMsg" where
  "HttpResponse_new i status_code reason_phrase version =
     msg_set_version version (HttpMessage.extend (HttpMessage_new True)
       (HttpResponseMsg.fields (HttpResponseParser_new i) status_code
          (if reason_phrase = [] then get_default_reason_phrase status_code else reason_phrase)))"

definition set_status_code :: "int \<Rightarrow> HttpResponseMsg \<Rightarrow> HttpResponseMsg" where
  "set_status_code status_code m =
     (let m1 = m\<lparr>rs_status_code := status_code\<rparr>
      in if rs_reason_phrase m1 = [] \<or> rs_reason_phrase m1 = get_default_reason_phrase (rs_status_code m1)
         then m1\<lparr>rs_reason_phrase := get_default_reason_phrase status_code\<rparr> else m1)"

definition set_reason_phrase :: "string \<Rightarrow> HttpResponseMsg \<Rightarrow> HttpResponseMsg" where
  "set_reason_phrase reason_phrase m = m\<lparr>rs_reason_phrase := reason_phrase\<rparr>"

definition create_ok :: "int \<Rightarrow> string \<Rightarrow> string \<Rightarrow> HttpVersion \<Rightarrow> HttpResponseMsg" where
  "create_ok i body content_type version =
     msg_update_content_length (msg_set_header ''content-type'' content_type
       (msg_set_body body (HttpResponse_new i 200 ''OK'' version)))"

definition create_json :: "int \<Rightarrow> string \<Rightarrow> HttpVersion \<Rightarrow> HttpResponseMsg" where
  "create_json i json_body version = create_ok i json_body ''application/json'' version"

definition create_error :: "int \<Rightarrow> int \<Rightarrow> string \<Rightarrow> HttpVersion \<Rightarrow> HttpResponseMsg" where
  "create_error i status_code message version =
     (let reason = (if message = [] then get_default_reason_phrase status_code else message);
          body = ''<html><body><h1>'' @ int_dec status_code @ '' '' @ reason @ ''</h1></body></html>''
      in msg_update_content_length (msg_set_header ''content-type'' ''text/html''
           (msg_set_body body (HttpResponse_new i status_code reason version))))"

definition rs_build_start_line :: "HttpResponseMsg \<Rightarrow> string" where
  "rs_build_start_line m =
     version_to_string (msg_version m) @ '' '' @ int_dec (rs_status_code m) @ '' '' @ rs_reason_phrase m"

definition rs_to_string :: "HttpResponseMsg \<Rightarrow> string" where
  "rs_to_string m = rs_build_start_line m @ CRLF @ build_headers m @ msg_body m"

definition rs_parse :: "string \<Rightarrow> HttpResponseMsg \<Rightarrow> int \<times> HttpResponseMsg" where
  "rs_parse data m =
     (case hp_parse response_start_line data (rs_parser m) of
        (result, p) \<Rightarrow>
          (result,
           if 0 < result \<and> hp_state p = COMPLETE
           then m\<lparr>rs_parser := p, rs_status_code := sp_status_code p, rs_reason_phrase := sp_reason_phrase p,
                  msg_version := hp_version p, msg_headers := hp_headers p, msg_body := hp_body p\<rparr>
           else m\<lparr>rs_parser := p\<rparr>))"

definition rs_reset :: "HttpResponseMsg \<Rightarrow> HttpResponseMsg" where
  "rs_reset m =
     (msg_reset m)\<lparr>rs_parser := hp_reset (rs_parser m), rs_status_code := 200, rs_reason_phrase := ''OK''\<rparr>"

end
