(* ===== verification/Http_Service.thy ===== *)
theory Http_Service
  imports Http_Message
begin

text \<open>
  The HTTP server of \<open>zsxq-cpp-ai/StdHTTPS\<close> (\<open>include/http_server.h\<close>, \<open>src/http_server.cpp\<close>): routing,
  middlewares, static files, the connection loop that reads requests and answers them, and the
  queue between the accepting thread and the workers.

  \<^item> Handlers are functions from the request and the response to the new response, or an exception.
    A middleware is a finite interaction: it ends, throws, or calls \<open>next\<close> with the response it has
    built so far and goes on with what that call made of it.
  \<^item> The file system is an argument: the content of each file that can be opened. The table of static
    directories is a list in the order in which the hash table is traversed.
  \<^item> A connection without TLS sees a sequence of events: the clock reading of a pass of the read loop
    and what \<open>poll\<close> and \<open>recv\<close> gave. What the \<open>send\<close> calls accept is a list of counts.
  \<^item> TLS, the creation of sockets and threads and the console output are not modelled.
\<close>

section \<open>Routing\<close>

datatype handler_error = Handler_Exception

type_synonym request_handler = "HttpRequestMsg \<Rightarrow> HttpResponseMsg \<Rightarrow> handler_error + HttpResponseMsg"

record Route =
  route_method :: HttpVerb
  route_path :: string
  route_handler :: request_handler

record HttpRouter =
  routes :: "Route list"
  default_handler :: "request_handler option"

definition add_route :: "HttpVerb \<Rightarrow> string \<Rightarrow> request_handler \<Rightarrow> HttpRouter \<Rightarrow> HttpRouter" where
  "add_route method path handler r =
     r\<lparr>routes := routes r @ [\<lparr>route_method = method, route_path = path, route_handler = handler\<rparr>]\<rparr>"

definition set_default_handler :: "request_handler \<Rightarrow> HttpRouter \<Rightarrow> HttpRouter" where
  "set_default_handler handler r = r\<lparr>default_handler := Some handler\<rparr>"

definition match_path :: "string \<Rightarrow> string \<Rightarrow> bool" where
  "match_path pattern path =
     (if pattern = path then True
      else case find_char (CHR ''*'') pattern of
             None \<Rightarrow> False
           | Some star_pos \<Rightarrow>
               (let pre = take star_pos pattern; suf = drop (star_pos + 1) pattern
                in if length pre \<le> length path \<and> take (length pre) path = pre then
                     (if star_pos = length pattern - 1 then True
                      else length suf \<le> length path \<and> drop (length path - length suf) path = suf)
                   else False))"

fun find_route :: "HttpVerb \<Rightarrow> string \<Rightarrow> Route list \<Rightarrow> Route option" where
  "find_route method path [] = None"
| "find_route method path (r # rs) =
     (if route_method r = method \<and> match_path (route_path r) path then Some r else find_route method path rs)"

text \<open>\<open>Inr (found, response)\<close>, or the exception of the handler.\<close>

definition route_request ::
  "HttpRouter \<Rightarrow> HttpRequestMsg \<Rightarrow> HttpResponseMsg \<Rightarrow> handler_error + bool \<times> HttpResponseMsg" where
  "route_request r request response =
     (case find_route (rq_method request) (rq_path request) (routes r) of
        Some rt \<Rightarrow> map_sum id (Pair True) (route_handler rt request response)
      | None \<Rightarrow>
          (case default_handler r of
             Some h \<Rightarrow> map_sum id (Pair True) (h request response)
           | None \<Rightarrow> Inr (False, response)))"

section \<open>Static files\<close>

definition mime_types :: "(string \<times> string) list" where
  "mime_types =
     [(''html'', ''text/html''), (''htm'', ''text/html''), (''css'', ''text/css''), (''js'', ''text/javascript''),
      (''json'', ''application/json''), (''png'', ''image/png''), (''jpg'', ''image/jpeg''), (''jpeg'', ''image/jpeg''),
      (''gif'', ''image/gif''), (''svg'', ''image/svg+xml''), (''txt'', ''text/plain''), (''pdf'', ''application/pdf''),
      (''zip'', ''application/zip'')]"

definition get_mime_type :: "string \<Rightarrow> string" where
  "get_mime_type file_path =
     (if CHR ''.'' \<notin> set file_path then ''application/octet-stream''
      else let extension = to_lower (rev (takeWhile (\<lambda>c. c \<noteq> CHR ''.'') (rev file_path)))
           in case map_of mime_types extension of Some t \<Rightarrow> t | None \<Rightarrow> ''application/octet-stream'')"

type_synonym files = "string \<Rightarrow> string option"

definition serve_file :: "files \<Rightarrow> string \<Rightarrow> HttpResponseMsg \<Rightarrow> bool \<times> HttpResponseMsg" where
  "serve_file fs file_path response =
     (case fs file_path of
        None \<Rightarrow> (False, response)
      | Some content \<Rightarrow>
          (True, msg_update_content_length (msg_set_body content
             (msg_set_header ''Content-Type'' (get_mime_type file_path) (set_status_code 200 response)))))"

fun serve_static_dirs ::
  "files \<Rightarrow> string \<Rightarrow> (string \<times> string) list \<Rightarrow> HttpResponseMsg \<Rightarrow> bool \<times> HttpResponseMsg" where
  "serve_static_dirs fs path [] response = (False, response)"
| "serve_static_dirs fs path ((pre, dir) # dirs) response =
     (if is_prefix pre path then
        (case serve_file fs (dir @ drop (length pre) path) response of
           (True, response') \<Rightarrow> (True, response')
         | (False, response') \<Rightarrow> serve_static_dirs fs path dirs response')
      else serve_static_dirs fs path dirs response)"

section \<open>Handling a request\<close>

datatype interaction =
    Finish HttpResponseMsg
  | Throw
  | Next HttpResponseMsg "HttpResponseMsg \<Rightarrow> interaction"

type_synonym middleware = "HttpRequestMsg \<Rightarrow> HttpResponseMsg \<Rightarrow> interaction"

record HttpSrv =
  srv_router :: HttpRouter
  srv_middlewares :: "middleware list"
  srv_static :: "(string \<times> string) list"
  srv_max_request_size :: nat
  srv_request_timeout :: int
  srv_max_connections :: nat

definition srv_use :: "middleware \<Rightarrow> HttpSrv \<Rightarrow> HttpSrv" where
  "srv_use m s = s\<lparr>srv_middlewares := srv_middlewares s @ [m]\<rparr>"

definition serve_static :: "string \<Rightarrow> string \<Rightarrow> HttpSrv \<Rightarrow> HttpSrv" where
  "serve_static path directory s =
     s\<lparr>srv_static := (if path \<in> fst ` set (srv_static s)
                       then map (\<lambda>(p, d). (p, if p = path then directory else d)) (srv_static s)
                       else srv_static s @ [(path, directory)])\<rparr>"

text \<open>The last link of the chain: routes, then static files, then 404.\<close>

definition end_of_chain :: "files \<Rightarrow> HttpSrv \<Rightarrow> HttpRequestMsg \<Rightarrow> HttpResponseMsg \<Rightarrow> handler_error + HttpResponseMsg" where
  "end_of_chain fs s request response =
     (case route_request (srv_router s) request response of
        Inl e \<Rightarrow> Inl e
      | Inr (True, response') \<Rightarrow> Inr response'
      | Inr (False, response') \<Rightarrow>
          (case serve_static_dirs fs (rq_path request) (srv_static s) response' of
             (True, r) \<Rightarrow> Inr r
           | (False, _) \<Rightarrow> Inr (create_error 0 404 ''Not Found'' \<lparr>ver_major = 1, ver_minor = 1\<rparr>)))"

text \<open>
  One middleware at work. All calls of \<open>next\<close> share the index, so each of them goes on behind the
  middlewares that have already been started: the state is the list of those that have not.
\<close>

primrec run_middleware ::
  "(middleware list \<Rightarrow> HttpResponseMsg \<Rightarrow> handler_error + HttpResponseMsg \<times> middleware list) \<Rightarrow>
   interaction \<Rightarrow> middleware list \<Rightarrow> handler_error + HttpResponseMsg \<times> middleware list" where
  "run_middleware next (Finish r) ms = Inr (r, ms)"
| "run_middleware next Throw ms = Inl Handler_Exception"
| "run_middleware next (Next r k) ms =
     (case next ms r of
        Inl e \<Rightarrow> Inl e
      | Inr (r', ms') \<Rightarrow> run_middleware next (k r') ms')"

text \<open>
  \<open>next\<close>. The first argument bounds the depth of the calls; with the number of middlewares that are
  left it is never reached.
\<close>

fun next_link ::
  "nat \<Rightarrow> (HttpResponseMsg \<Rightarrow> handler_error + HttpResponseMsg) \<Rightarrow> HttpRequestMsg \<Rightarrow> middleware list \<Rightarrow>
   HttpResponseMsg \<Rightarrow> handler_error + HttpResponseMsg \<times> middleware list" where
  "next_link n final request [] response = map_sum id (\<lambda>r. (r, [])) (final response)"
| "next_link 0 final request (m # ms) response = Inl Handler_Exception"
| "next_link (Suc n) final request (m # ms) response =
     run_middleware (next_link n final request) (m request response) ms"

definition handle_request :: "files \<Rightarrow> HttpSrv \<Rightarrow> HttpRequestMsg \<Rightarrow> HttpResponseMsg \<Rightarrow> handler_error + HttpResponseMsg" where
  "handle_request fs s request response =
     map_sum id fst (next_link (length (srv_middlewares s)) (end_of_chain fs s request) request (srv_middlewares s) response)"

section \<open>A connection\<close>

record HttpServerStats =
  st_total_connections :: "64 word"
  st_active_connections :: "64 word"
  st_total_requests :: "64 word"
  st_successful_requests :: "64 word"
  st_failed_requests :: "64 word"
  st_bytes_received :: "64 word"
  st_bytes_sent :: "64 word"

datatype io_event = Poll_Timeout | Poll_Error | Received string | Recv_Failed

text \<open>A connection: whether it is active, the statistics it updates, and the bytes that went out.\<close>

record HttpServerConnection =
  con_active :: bool
  con_stats :: HttpServerStats
  con_sent :: string

text \<open>
  The loop of \<open>send_response\<close>: \<open>counts\<close> is what the \<open>send\<close> calls return. The first component says
  whether everything has been sent; \<open>None\<close> means that the last call has not returned yet.
\<close>

fun send_loop :: "string \<Rightarrow> int list \<Rightarrow> string \<Rightarrow> bool option \<times> string \<times> int list" where
  "send_loop data [] out = (if data = [] then Some True else None, out, [])"
| "send_loop data (n # counts) out =
     (if data = [] then (Some True, out, n # counts)
      else if n \<le> 0 then (Some False, out, counts)
      else send_loop (drop (nat n) data) counts (out @ take (nat n) data))"

definition send_response ::
  "HttpResponseMsg \<Rightarrow> int list \<Rightarrow> HttpServerConnection \<Rightarrow> bool option \<times> HttpServerConnection \<times> int list" where
  "send_response response counts c =
     (let data = rs_to_string response;
          c1 = c\<lparr>con_stats := (con_stats c)\<lparr>st_bytes_sent := st_bytes_sent (con_stats c) + of_nat (length data)\<rparr>\<rparr>
      in if \<not> con_active c then (Some (data = []), c1, counts)
         else case send_loop data counts [] of
                (ok, out, counts') \<Rightarrow> (ok, c1\<lparr>con_sent := con_sent c1 @ out\<rparr>, counts'))"

definition send_error_response ::
  "int \<Rightarrow> string \<Rightarrow> int list \<Rightarrow> HttpServerConnection \<Rightarrow> bool option \<times> HttpServerConnection \<times> int list" where
  "send_error_response status_code message counts c =
     send_response (msg_set_keep_alive False (create_error 0 status_code message \<lparr>ver_major = 1, ver_minor = 1\<rparr>)) counts c"

text \<open>
  What \<open>read_request\<close> leaves behind: its return value, or \<open>None\<close> when it still waits for the peer; the
  request; the connection; and what is left of the events and counts.
\<close>

type_synonym reading =
  "bool option \<times> HttpRequestMsg \<times> HttpServerConnection \<times> (int \<times> io_event) list \<times> int list"

definition reject ::
  "int \<Rightarrow> string \<Rightarrow> HttpRequestMsg \<Rightarrow> (int \<times> io_event) list \<Rightarrow> int list \<Rightarrow> HttpServerConnection \<Rightarrow> reading" where
  "reject status_code message request events counts c =
     (case send_error_response status_code message counts c of
        (sent, c', counts') \<Rightarrow> (if sent = None then None else Some False, request, c', events, counts'))"

fun read_loop ::
  "HttpSrv \<Rightarrow> int \<Rightarrow> HttpRequestMsg \<Rightarrow> (int \<times> io_event) list \<Rightarrow> int list \<Rightarrow> HttpServerConnection \<Rightarrow> reading" where
  "read_loop s start request [] counts c =
     (if rq_is_complete request \<or> \<not> con_active c
      then Some (rq_is_complete request \<and> \<not> rq_has_error request) else None, request, c, [], counts)"
| "read_loop s start request ((now, e) # events) counts c =
     (if rq_is_complete request \<or> \<not> con_active c
      then (Some (rq_is_complete request \<and> \<not> rq_has_error request), request, c, (now, e) # events, counts)
      else if srv_request_timeout s < now - start then reject 408 ''Request Timeout'' request events counts c
      else case e of
             Poll_Timeout \<Rightarrow> read_loop s start request events counts c
           | Poll_Error \<Rightarrow> (Some False, request, c, events, counts)
           | Recv_Failed \<Rightarrow> (Some False, request, c, events, counts)
           | Received data \<Rightarrow>
               (let c1 = c\<lparr>con_stats := (con_stats c)\<lparr>st_bytes_received := st_bytes_received (con_stats c) + of_nat (length data)\<rparr>\<rparr>;
                    (parsed, request') = rq_parse data request
                in if parsed < 0 then reject 400 ''Bad Request'' request' events counts c1
                   else if srv_max_request_size s < length (msg_body request')
                   then reject 413 ''Payload Too Large'' request' events counts c1
                   else read_loop s start request' events counts c1))"

definition read_request ::
  "HttpSrv \<Rightarrow> HttpRequestMsg \<Rightarrow> int \<Rightarrow> (int \<times> io_event) list \<Rightarrow> int list \<Rightarrow> HttpServerConnection \<Rightarrow> reading" where
  "read_request s request start events counts c = read_loop s start (rq_reset request) events counts c"

text \<open>The answer to a request: the response of the handler or 500, and whether the connection is kept.\<close>

definition answer ::
  "files \<Rightarrow> HttpSrv \<Rightarrow> HttpRequestMsg \<Rightarrow> HttpServerStats \<Rightarrow> bool \<times> HttpResponseMsg \<times> HttpServerStats" where
  "answer fs s request st =
     (let st1 = st\<lparr>st_total_requests := st_total_requests st + 1\<rparr>;
          (response, st2) =
            (case handle_request fs s request (msg_set_version (msg_version request) (HttpResponse_default 0)) of
               Inr r \<Rightarrow> (r, st1\<lparr>st_successful_requests := st_successful_requests st1 + 1\<rparr>)
             | Inl _ \<Rightarrow> (create_error 0 500 ''Internal Server Error'' \<lparr>ver_major = 1, ver_minor = 1\<rparr>,
                         st1\<lparr>st_failed_requests := st_failed_requests st1 + 1\<rparr>));
          keep_alive = (msg_is_keep_alive request \<and> msg_is_keep_alive response \<and>
                        1 \<le> ver_major (msg_version request) \<and> 1 \<le> ver_minor (msg_version request))
      in (keep_alive, if keep_alive then response else msg_set_keep_alive False response, st2))"

text \<open>
  The loop of \<open>handle_connection\<close>: whether it has ended, and the connection. Each pass reads the clock
  at the beginning of \<open>read_request\<close>; \<open>starts\<close> has these readings.
\<close>

fun connection_loop ::
  "files \<Rightarrow> HttpSrv \<Rightarrow> int list \<Rightarrow> (int \<times> io_event) list \<Rightarrow> int list \<Rightarrow> HttpServerConnection \<Rightarrow> bool \<times> HttpServerConnection" where
  "connection_loop fs s [] events counts c = (\<not> con_active c, c)"
| "connection_loop fs s (start # starts) events counts c =
     (if \<not> con_active c then (True, c)
      else case read_request s (HttpRequest_default GET) start events counts c of
             (None, _, c1, _, _) \<Rightarrow> (False, c1)
           | (Some False, _, c1, _, _) \<Rightarrow> (True, c1)
           | (Some True, request, c1, events', counts') \<Rightarrow>
               (case answer fs s request (con_stats c1) of
                  (keep_alive, response, st) \<Rightarrow>
                    (case send_response response counts' (c1\<lparr>con_stats := st\<rparr>) of
                       (None, c2, _) \<Rightarrow> (False, c2)
                     | (Some sent, c2, counts'') \<Rightarrow>
                         (if \<not> sent \<or> \<not> keep_alive then (True, c2)
                          else connection_loop fs s starts events' counts'' c2))))"

definition handle_connection ::
  "files \<Rightarrow> HttpSrv \<Rightarrow> int list \<Rightarrow> (int \<times> io_event) list \<Rightarrow> int list \<Rightarrow> HttpServerConnection \<Rightarrow> bool \<times> HttpServerConnection" where
  "handle_connection fs s starts events counts c =
     (case connection_loop fs s starts events counts c of
        (True, c') \<Rightarrow> (True, c'\<lparr>con_active := False\<rparr>)
      | (False, c') \<Rightarrow> (False, c'))"

section \<open>The connection queue\<close>

text \<open>Connections are numbers; \<open>q_serving\<close> are those that a worker has taken from the queue.\<close>

record conn_queue =
  q_waiting :: "nat list"
  q_serving :: "nat list"
  q_closed :: "nat list"
  q_stats :: HttpServerStats

definition accept_connection :: "HttpSrv \<Rightarrow> nat \<Rightarrow> conn_queue \<Rightarrow> conn_queue" where
  "accept_connection s conn q =
     (if of_nat (srv_max_connections s) \<le> st_active_connections (q_stats q) then q\<lparr>q_closed := q_closed q @ [conn]\<rparr>
      else q\<lparr>q_stats := (q_stats q)\<lparr>st_total_connections := st_total_connections (q_stats q) + 1,
                                      st_active_connections := st_active_connections (q_stats q) + 1\<rparr>,
             q_waiting := q_waiting q @ [conn]\<rparr>)"

definition worker_take :: "conn_queue \<Rightarrow> conn_queue" where
  "worker_take q =
     (case q_waiting q of [] \<Rightarrow> q | conn # rest \<Rightarrow> q\<lparr>q_waiting := rest, q_serving := q_serving q @ [conn]\<rparr>)"

definition worker_finish :: "nat \<Rightarrow> conn_queue \<Rightarrow> conn_queue" where
  "worker_finish conn q =
     (if conn \<in> set (q_serving q)
      then q\<lparr>q_serving := remove1 conn (q_serving q), q_closed := q_closed q @ [conn],
             q_stats := (q_stats q)\<lparr>st_active_connections := st_active_connections (q_stats q) - 1\<rparr>\<rparr>
      else q)"

end
