(* ===== verification/Http_Parser_Props.thy ===== *)
theory Http_Parser_Props
  imports Http_Parser
begin

text \<open>
  What the incremental parser guarantees: its invariant after any calls, that every byte is consumed
  until the message is complete, and that the way a message is cut into buffers does not matter as
  long as no buffer ends between the two characters of a line end.
\<close>

section \<open>Multimaps and header fields\<close>

lemma memplace_last: "(\<forall>x \<in> set m. fst x \<le> k) \<Longrightarrow> memplace k v m = m @ [(k, v)]"
  by (induction m) auto

lemma set_memplace [simp]: "set (memplace k v m) = insert (k, v) (set m)"
  by (induction k v m rule: memplace.induct) auto

lemma sorted_memplace: "sorted (map fst m) \<Longrightarrow> sorted (map fst (memplace k v m))"
  by (induction k v m rule: memplace.induct) (auto dest: order_less_imp_le)

lemma foldl_memplace:
  "sorted (map fst (a @ b)) \<Longrightarrow> foldl (\<lambda>m (k, v). memplace k v m) a b = a @ b"
proof (induction b arbitrary: a)
  case (Cons x b)
  obtain k v where x: "x = (k, v)" by (cases x)
  with Cons.prems have "memplace k v a = a @ [(k, v)]" by (intro memplace_last) (auto simp: sorted_append)
  with Cons.IH [of "a @ [(k, v)]"] Cons.prems x show ?case by simp
qed simp

lemma of_char_lower:
  "(of_char (lower_char c) :: nat) =
     (if 65 \<le> (of_char c :: nat) \<and> (of_char c :: nat) \<le> 90 then of_char c + 32 else of_char c)"
  by (simp add: lower_char_def)

lemma lower_char_idem [simp]: "lower_char (lower_char c) = lower_char c"
  by (simp add: lower_char_def)

lemma to_lower_idem [simp]: "to_lower (to_lower s) = to_lower s"
  by (simp add: to_lower_def)

lemma lower_char_eq_iff:
  assumes "\<not> (65 \<le> (of_char d :: nat) \<and> (of_char d :: nat) \<le> 90)" "\<not> (97 \<le> (of_char d :: nat) \<and> (of_char d :: nat) \<le> 122)"
  shows "lower_char c = d \<longleftrightarrow> c = d"
proof -
  have "lower_char c = d \<longleftrightarrow> (of_char (lower_char c) :: nat) = of_char d" by simp
  also have "\<dots> \<longleftrightarrow> (of_char c :: nat) = of_char d" using assms by (auto simp: of_char_lower simp del: of_char_eq_iff)
  finally show ?thesis by simp
qed

lemma lower_char_special [simp]:
  "lower_char c = CHR '':'' \<longleftrightarrow> c = CHR '':''" "lower_char c = CHR '' '' \<longleftrightarrow> c = CHR '' ''"
  "lower_char c = CHR 0x09 \<longleftrightarrow> c = CHR 0x09" "lower_char c = CR \<longleftrightarrow> c = CR"
  by (rule lower_char_eq_iff, simp, simp)+

lemma colon_to_lower [simp]: "CHR '':'' \<in> set (to_lower s) \<longleftrightarrow> CHR '':'' \<in> set s"
  unfolding to_lower_def set_map image_iff by (metis lower_char_special(1))

lemma is_blank_lower [simp]: "is_blank (lower_char c) = is_blank c"
  by (simp add: is_blank_def)

lemma trimmed_lower [simp]: "trimmed (to_lower s) = trimmed s"
  by (cases "s = []") (simp_all add: trimmed_def to_lower_def hd_map last_map)

lemma set_trim_blanks: "set (trim_blanks s) \<subseteq> set s"
  unfolding trim_blanks_def by (auto dest!: set_dropWhileD)

text \<open>A field of the header table: a lower-case name without colon, and no blanks around either part.\<close>

definition field_ok :: "string \<times> string \<Rightarrow> bool" where
  "field_ok = (\<lambda>(k, v). k \<noteq> [] \<and> to_lower k = k \<and> trimmed k \<and> CHR '':'' \<notin> set k \<and> trimmed v)"

definition headers_ok :: "headers \<Rightarrow> bool" where
  "headers_ok hs \<longleftrightarrow> sorted (map fst hs) \<and> (\<forall>f \<in> set hs. field_ok f)"

lemma headers_ok_Nil [simp]: "headers_ok []"
  by (simp add: headers_ok_def)

lemma headers_ok_memplace: "headers_ok hs \<Longrightarrow> field_ok (k, v) \<Longrightarrow> headers_ok (memplace k v hs)"
  by (auto simp: headers_ok_def sorted_memplace)

lemma parse_header_line_cases:
  assumes "parse_header_line line p = (ok, p')" "headers_ok (hp_headers p)"
  shows "if ok then \<exists>hs. p' = p\<lparr>hp_headers := hs\<rparr> \<and> headers_ok hs else p' = p"
proof (cases "find_char (CHR '':'') line")
  case None
  with assms(1) show ?thesis by (simp add: parse_header_line_def)
next
  case (Some pos)
  let ?n = "trim_blanks (take pos line)" and ?v = "trim_blanks (drop (pos + 1) line)"
  have "CHR '':'' \<notin> set ?n" using find_char_Some [OF Some] set_trim_blanks by blast
  then have "?n \<noteq> [] \<Longrightarrow> field_ok (to_lower ?n, ?v)"
    by (simp add: field_ok_def trimmed_trim_blanks) (simp add: to_lower_def)
  with Some assms headers_ok_memplace show ?thesis
    by (auto simp: parse_header_line_def Let_def split: if_splits)
qed
section \<open>The invariant\<close>

text \<open>
  In every reachable state: the header table is in order, chunked coding is off, at most
  \<open>MAX_LINE_LENGTH\<close> (in the headers \<open>MAX_HEADER_SIZE\<close>) bytes of an unfinished line are kept, the body
  has not outgrown the announced length, a complete message has a body of exactly that length, and
  there is an error message exactly in the error state.
\<close>

definition parser_ok :: "'a HttpParser_scheme \<Rightarrow> bool" where
  "parser_ok p \<longleftrightarrow>
     headers_ok (hp_headers p) \<and> \<not> hp_chunked_encoding p \<and> (hp_error p \<noteq> None \<longleftrightarrow> hp_state p = ERROR) \<and>
     (case hp_state p of
        START_LINE \<Rightarrow> hp_headers p = [] \<and> hp_body p = [] \<and> length (hp_buffer p) \<le> 8192
      | HEADER_NAME \<Rightarrow> hp_body p = [] \<and> length (hp_buffer p) \<le> 65536
      | BODY \<Rightarrow> hp_buffer p = [] \<and> int (length (hp_body p)) < hp_get_content_length p \<and>
          uint (hp_expected_body_length p) = hp_get_content_length p
      | COMPLETE \<Rightarrow> hp_buffer p = [] \<and> int (length (hp_body p)) = max 0 (hp_get_content_length p)
      | ERROR \<Rightarrow> True
      | _ \<Rightarrow> False)"

lemma length_value_bound: "length_value s < 2 ^ 64"
  by (auto simp: length_value_def stoll_def sto_signed_def Let_def split: sum.splits if_splits)

locale start_line =
  fixes pl :: "'a start_line_method"
  assumes pl_buffer: "pl line (p\<lparr>hp_buffer := b\<rparr>) = (fst (pl line p), (snd (pl line p))\<lparr>hp_buffer := b\<rparr>)"
    and pl_state: "hp_state (snd (pl line p)) = hp_state p"
    and pl_headers: "hp_headers (snd (pl line p)) = hp_headers p"
    and pl_body: "hp_body (snd (pl line p)) = hp_body p"
    and pl_error: "hp_error (snd (pl line p)) = hp_error p"
    and pl_chunked: "hp_chunked_encoding (snd (pl line p)) = hp_chunked_encoding p"
begin

lemmas pl_frame = pl_state pl_headers pl_body pl_error pl_chunked

lemma start_line_state_ok:
  assumes "parser_ok p" "hp_state p = START_LINE" "parse_start_line_state pl data p = (r, c, p')"
  shows "parser_ok p' \<and> (r < 0 \<longleftrightarrow> hp_state p' = ERROR) \<and> (data \<noteq> [] \<longrightarrow> 0 < c)"
proof (cases "find_line_end data")
  case None
  with assms show ?thesis
    by (auto simp: parse_start_line_state_def parser_ok_def hp_set_error_def Let_def split: if_splits)
next
  case (Some e)
  let ?l = "drop_last_cr (hp_buffer p @ take e data)"
  obtain ok p1 where p1: "pl ?l p = (ok, p1)" by fastforce
  then have "hp_headers p1 = hp_headers p" "hp_body p1 = hp_body p" "hp_error p1 = hp_error p"
    "hp_chunked_encoding p1 = hp_chunked_encoding p"
    using pl_frame [of ?l p] by simp_all
  with Some p1 assms show ?thesis
    by (auto simp: parse_start_line_state_def parser_ok_def hp_set_error_def split: if_splits)
qed

end

lemma end_of_headers_ok:
  assumes "headers_ok (hp_headers p)" "\<not> hp_chunked_encoding p" "hp_error p = None" "hp_buffer p = []" "hp_body p = []"
  shows "parser_ok (end_of_headers p) \<and> hp_state (end_of_headers p) \<noteq> ERROR"
proof -
  have "uint (word_of_int (hp_get_content_length p) :: 64 word) = hp_get_content_length p"
    if "0 < hp_get_content_length p"
    using that length_value_bound by (simp add: hp_get_content_length_def uint_word_of_int)
  then show ?thesis
    using assms
    by (auto simp: end_of_headers_def parser_ok_def should_read_body_def hp_is_chunked_def Let_def
        hp_get_content_length_def hp_get_header_def max_def)
qed

lemma header_name_state_ok:
  assumes "parser_ok p" "hp_state p = HEADER_NAME" "parse_header_name_state data p = (r, c, p')"
  shows "parser_ok p' \<and> (r < 0 \<longleftrightarrow> hp_state p' = ERROR) \<and> (data \<noteq> [] \<longrightarrow> 0 < c)"
proof (cases "find_line_end data")
  case None
  with assms show ?thesis
    by (auto simp: parse_header_name_state_def parser_ok_def hp_set_error_def Let_def split: if_splits)
next
  case (Some e)
  let ?l = "drop_last_cr (hp_buffer p @ take e data)" and ?p1 = "p\<lparr>hp_buffer := []\<rparr>"
  have p: "headers_ok (hp_headers p)" "\<not> hp_chunked_encoding p" "hp_error p = None" "hp_body p = []"
    using assms(1,2) by (auto simp: parser_ok_def)
  show ?thesis
  proof (cases "?l = []")
    case True
    with Some assms(3) end_of_headers_ok [of ?p1] p show ?thesis
      by (auto simp: parse_header_name_state_def Let_def)
  next
    case False
    obtain ok p2 where p2: "parse_header_line ?l ?p1 = (ok, p2)" by fastforce
    from parse_header_line_cases [OF this] p have "if ok then \<exists>hs. p2 = ?p1\<lparr>hp_headers := hs\<rparr> \<and> headers_ok hs else p2 = ?p1"
      by simp
    with False Some assms p2 show ?thesis
      by (auto simp: parse_header_name_state_def parser_ok_def hp_set_error_def Let_def split: if_splits)
  qed
qed

lemma body_state_eq:
  assumes "parser_ok p" "hp_state p = BODY"
  defines "left \<equiv> unat (hp_expected_body_length p) - length (hp_body p)"
  shows "0 < left \<and> parse_body_state data p =
    (if data = [] then 0 else 1, min (length data) left,
     p\<lparr>hp_body := hp_body p @ take left data,
       hp_state := (if left \<le> length data then COMPLETE else BODY)\<rparr>)"
proof -
  have "int (length (hp_body p)) < int (unat (hp_expected_body_length p))"
    using assms(1,2) by (simp add: parser_ok_def)
  then have lt: "length (hp_body p) < unat (hp_expected_body_length p)" by (simp only: of_nat_less_iff)
  moreover have "unat (hp_expected_body_length p) < 2 ^ 64"
    by (rule order_less_le_trans [OF unsigned_less]) simp
  ultimately have "unat (hp_expected_body_length p - of_nat (length (hp_body p))) = left"
    by (simp add: left_def unat_sub_if_size unat_of_nat word_size)
  then show ?thesis
    using lt assms(2) by (auto simp: parse_body_state_def Let_def left_def min_def)
qed

lemma body_state_ok:
  assumes "parser_ok p" "hp_state p = BODY" "parse_body_state data p = (r, c, p')"
  shows "parser_ok p' \<and> (r < 0 \<longleftrightarrow> hp_state p' = ERROR) \<and> (data \<noteq> [] \<longrightarrow> 0 < c)"
proof -
  define n where "n = unat (hp_expected_body_length p)"
  have n: "hp_get_content_length p = int n" "int (length (hp_body p)) < int n"
    using assms(1,2) by (simp_all add: parser_ok_def n_def)
  have "hp_get_content_length p' = hp_get_content_length p"
    using body_state_eq [OF assms(1,2), of data] assms(3)
    by (auto simp: hp_get_content_length_def hp_get_header_def)
  with n body_state_eq [OF assms(1,2), of data, folded n_def] assms show ?thesis
    by (auto simp: parser_ok_def of_nat_diff)
qed

section \<open>Runs of the loop\<close>

text \<open>The parser after the loop of \<open>parse\<close>; what it has consumed does not depend on the count so far.\<close>

definition run :: "'a start_line_method \<Rightarrow> string \<Rightarrow> 'a HttpParser_scheme \<Rightarrow> 'a HttpParser_scheme" where
  "run pl data p = snd (parse_loop pl data 0 p)"

lemma parse_loop_step:
  assumes "data \<noteq> []" "hp_state p \<noteq> COMPLETE" "hp_state p \<noteq> ERROR" "parse_step pl data p = (r, c, p')"
    "\<not> r < 0" "\<not> (c = 0 \<and> r = 0)"
  shows "parse_loop pl data tot p = parse_loop pl (drop c data) (tot + c) p'"
  using assms by (subst parse_loop.simps) auto

lemma parse_loop_tot: "parse_loop pl data tot p =
    (map_option ((+) tot) (fst (parse_loop pl data 0 p)), run pl data p)"
proof (induction "length data" arbitrary: data tot p rule: less_induct)
  case less
  obtain r c p' where step: "parse_step pl data p = (r, c, p')" using prod_cases3 by blast
  show ?case
  proof (cases "data = [] \<or> hp_state p = COMPLETE \<or> hp_state p = ERROR \<or> r < 0 \<or> c = 0 \<and> r = 0")
    case True
    then show ?thesis unfolding run_def by (subst (1 2 3) parse_loop.simps) (auto simp: step)
  next
    case False
    then have "length (drop c data) < length data"
      using parse_step_consumes [OF step] by auto
    note IH = less [OF this]
    from False have loop: "parse_loop pl data t p = parse_loop pl (drop c data) (t + c) p'" for t
      using parse_loop_step [OF _ _ _ step] by blast
    show ?thesis
      unfolding run_def loop [of tot] loop [of 0] IH [of "tot + c"] IH [of "0 + c"]
      by (cases "fst (parse_loop pl (drop c data) 0 p')") simp_all
  qed
qed

lemma snd_parse_loop [simp]: "snd (parse_loop pl data tot p) = run pl data p"
  by (subst parse_loop_tot) simp

lemma parse_loop_final: "hp_state p = COMPLETE \<or> hp_state p = ERROR \<Longrightarrow> parse_loop pl data tot p = (Some tot, p)"
  by (subst parse_loop.simps) auto

lemma run_final [simp]: "hp_state p = COMPLETE \<or> hp_state p = ERROR \<Longrightarrow> run pl data p = p"
  by (simp add: run_def parse_loop.simps)

lemma run_Nil [simp]: "run pl [] p = p"
  by (simp add: run_def parse_loop.simps)

lemma snd_hp_parse: "snd (hp_parse pl data p) = run pl data p"
proof (cases "parse_loop pl data 0 p")
  case (Pair n q)
  then have "run pl data p = q" by (simp add: run_def)
  with Pair show ?thesis by (auto simp: hp_parse_def split: option.split)
qed

context start_line
begin

lemma step_ok:
  assumes "parser_ok p" "hp_state p \<noteq> COMPLETE" "hp_state p \<noteq> ERROR" "parse_step pl data p = (r, c, p')"
  shows "parser_ok p' \<and> (r < 0 \<longleftrightarrow> hp_state p' = ERROR) \<and> (data \<noteq> [] \<longrightarrow> 0 < c)"
proof -
  consider "hp_state p = START_LINE" | "hp_state p = HEADER_NAME" | "hp_state p = BODY"
    using assms(1-3) by (auto simp: parser_ok_def split: ParseState.splits)
  then show ?thesis
  proof cases
    case 1
    with assms start_line_state_ok [OF assms(1) 1] show ?thesis by (simp add: parse_step_def)
  next
    case 2
    with assms header_name_state_ok [OF assms(1) 2] show ?thesis by (simp add: parse_step_def)
  next
    case 3
    with assms body_state_ok [OF assms(1) 3] show ?thesis by (simp add: parse_step_def)
  qed
qed

text \<open>In a reachable state the loop never stops before the end of the data or of the message.\<close>

lemma run_step:
  assumes "parser_ok p" "hp_state p \<noteq> COMPLETE" "hp_state p \<noteq> ERROR" "parse_step pl data p = (r, c, p')"
    and "data \<noteq> []"
  shows "run pl data p = run pl (drop c data) p'"
proof (cases "r < 0")
  case True
  with step_ok [OF assms(1-4)] assms show ?thesis by (simp add: run_def [of pl data] parse_loop.simps)
next
  case False
  with step_ok [OF assms(1-4)] assms parse_loop_step [OF assms(5,2,3,4)] show ?thesis
    by (simp add: run_def [of pl data])
qed

lemma run_ok: "parser_ok p \<Longrightarrow> parser_ok (run pl data p)"
proof (induction "length data" arbitrary: data p rule: less_induct)
  case less
  obtain r c p' where step: "parse_step pl data p = (r, c, p')" using prod_cases3 by blast
  show ?case
  proof (cases "data = [] \<or> hp_state p = COMPLETE \<or> hp_state p = ERROR")
    case True
    with less.prems show ?thesis by auto
  next
    case False
    with step_ok [OF less.prems _ _ step] have "parser_ok p'" "length (drop c data) < length data" by auto
    with less.hyps run_step [OF less.prems _ _ step] False show ?thesis by metis
  qed
qed

end

section \<open>The two parsers\<close>

interpretation reqs: start_line request_start_line
  by unfold_locales (auto simp: request_start_line_def Let_def rp_parse_uri_def split: prod.splits)

interpretation ress: start_line response_start_line
  by unfold_locales (auto simp: response_start_line_def Let_def split: prod.splits sum.splits)

text \<open>The calls on a parser object.\<close>

datatype hp_call = Feed string | Reset

fun hp_do :: "'a start_line_method \<Rightarrow> 'a HttpParser_scheme \<Rightarrow> hp_call \<Rightarrow> 'a HttpParser_scheme" where
  "hp_do pl p (Feed data) = snd (hp_parse pl data p)"
| "hp_do pl p Reset = hp_reset p"

lemma parser_ok_reset: "parser_ok (hp_reset p)"
  by (simp add: parser_ok_def hp_reset_def)

lemma parser_ok_new: "parser_ok (HttpRequestParser_new m)" "parser_ok (HttpResponseParser_new c)"
  by (simp_all add: parser_ok_def HttpRequestParser_new_def HttpResponseParser_new_def HttpParser_new_def HttpParser.defs)

lemma hp_do_ok:
  assumes "start_line pl" "parser_ok p"
  shows "parser_ok (hp_do pl p call)"
  using start_line.run_ok [OF assms] by (cases call) (simp_all add: snd_hp_parse parser_ok_reset)

interpretation reqm: machine "hp_do request_start_line" parser_ok
  by unfold_locales (rule hp_do_ok [OF reqs.start_line_axioms])

interpretation resm: machine "hp_do response_start_line" parser_ok
  by unfold_locales (rule hp_do_ok [OF ress.start_line_axioms])

text \<open>
  C20. The parsers keep their invariant. After any sequence of \<open>parse\<close> and \<open>reset\<close> calls on any data, in a
  request or a response parser: header names are lower-case, non-empty, free of colons and blanks
  around them and in order; an unfinished line is never longer than the limit; the body never
  outgrows the announced length and has exactly that length when the message is complete; there
  is an error message exactly in the error state; and chunked coding is never on.
\<close>

theorem parsers_well_formed:
  "parser_ok (foldl (hp_do request_start_line) (HttpRequestParser_new m) calls) \<and>
   parser_ok (foldl (hp_do response_start_line) (HttpResponseParser_new c) calls')"
  by (intro conjI reqm.run_inv resm.run_inv parser_ok_new)

section \<open>How the data is cut\<close>

lemma find_line_end_Some: "find_line_end s = Some e \<Longrightarrow> e + 2 \<le> length s \<and> find_line_end (s @ t) = Some e"
  by (induction s arbitrary: e rule: find_line_end.induct) (auto split: if_splits)

lemma find_line_end_None:
  assumes "find_line_end a = None" "b \<noteq> []" "\<not> (a \<noteq> [] \<and> last a = CR \<and> hd b = LF)"
  shows "find_line_end (a @ b) = (case find_line_end b of None \<Rightarrow> None | Some e \<Rightarrow> Some (length a + e))"
proof (cases "find_line_end b")
  case None
  with assms show ?thesis
    by (induction a rule: find_line_end.induct) (auto simp: neq_Nil_conv split: if_splits)
next
  case (Some e)
  with assms show ?thesis
    by (induction a rule: find_line_end.induct) (auto simp: neq_Nil_conv split: if_splits)
qed

text \<open>
  Equal parsers, or two parsers in the error state that differ in what is left in the buffer: only
  \<open>reset\<close>, which clears it, brings a parser out of that state.
\<close>

definition same_parser :: "'a HttpParser_scheme \<Rightarrow> 'a HttpParser_scheme \<Rightarrow> bool" where
  "same_parser p q \<longleftrightarrow> p = q \<or> hp_state p = ERROR \<and> p\<lparr>hp_buffer := []\<rparr> = q\<lparr>hp_buffer := []\<rparr>"

definition overlong :: "'a HttpParser_scheme \<Rightarrow> bool" where
  "overlong p \<longleftrightarrow> hp_error p = Some Start_Line_Too_Long \<or> hp_error p = Some Header_Too_Large"

text \<open>\<open>a\<close> ends inside a line end that is completed by \<open>b\<close>, in a state in which lines are read.\<close>

definition cuts_line_end :: "'a HttpParser_scheme \<Rightarrow> string \<Rightarrow> string \<Rightarrow> bool" where
  "cuts_line_end p a b \<longleftrightarrow> hp_state p \<in> {START_LINE, HEADER_NAME} \<and> a \<noteq> [] \<and> last a = CR \<and> b \<noteq> [] \<and> hd b = LF"

lemma same_parser_refl [simp]: "same_parser p p"
  by (simp add: same_parser_def)

lemma same_parser_run: "same_parser p q \<Longrightarrow> same_parser (run pl s p) (run pl s q)"
proof -
  assume same: "same_parser p q"
  show ?thesis
  proof (cases "p = q")
    case False
    with same have "hp_state p = ERROR" "p\<lparr>hp_buffer := []\<rparr> = q\<lparr>hp_buffer := []\<rparr>" by (auto simp: same_parser_def)
    moreover from arg_cong [OF this(2), of hp_state] have "hp_state p = hp_state q" by simp
    ultimately show ?thesis using same by simp
  qed simp
qed

context start_line
begin

lemma start_line_append:
  assumes "find_line_end a = None" "b \<noteq> []" "\<not> (a \<noteq> [] \<and> last a = CR \<and> hd b = LF)"
    and "parse_start_line_state pl b (p\<lparr>hp_buffer := hp_buffer p @ a\<rparr>) = (r, c, p')"
  shows "\<exists>q. parse_start_line_state pl (a @ b) p = (r, length a + c, q) \<and> same_parser p' q"
proof (cases "find_line_end b")
  case None
  with assms find_line_end_None [OF assms(1-3)] show ?thesis
    by (auto simp: parse_start_line_state_def Let_def split: if_splits)
next
  case (Some e)
  let ?l = "drop_last_cr (hp_buffer p @ a @ take e b)"
  obtain ok p1 where "pl ?l p = (ok, p1)" by fastforce
  with Some assms(4) find_line_end_None [OF assms(1-3)] pl_buffer [where line = ?l and p = p and b = "hp_buffer p @ a"] show ?thesis
    by (auto simp: parse_start_line_state_def same_parser_def hp_set_error_def)
qed

lemma header_name_append:
  assumes "find_line_end a = None" "b \<noteq> []" "\<not> (a \<noteq> [] \<and> last a = CR \<and> hd b = LF)"
    and "parse_header_name_state b (p\<lparr>hp_buffer := hp_buffer p @ a\<rparr>) = (r, c, p')"
  shows "parse_header_name_state (a @ b) p = (r, length a + c, p')"
  using assms(4) find_line_end_None [OF assms(1-3)]
  by (auto simp: parse_header_name_state_def Let_def split: option.splits prod.splits if_splits)

lemma line_append:
  assumes "hp_state p = START_LINE \<or> hp_state p = HEADER_NAME" "find_line_end a = None" "b \<noteq> []"
    and "\<not> (a \<noteq> [] \<and> last a = CR \<and> hd b = LF)"
    and "parse_step pl b (p\<lparr>hp_buffer := hp_buffer p @ a\<rparr>) = (r, c, p')"
  shows "\<exists>q. parse_step pl (a @ b) p = (r, length a + c, q) \<and> same_parser p' q"
  using assms(1)
proof
  assume st: "hp_state p = START_LINE"
  with assms(5) have "parse_start_line_state pl b (p\<lparr>hp_buffer := hp_buffer p @ a\<rparr>) = (r, c, p')"
    by (simp add: parse_step_def)
  from start_line_append [OF assms(2-4) this] st show ?thesis by (simp add: parse_step_def)
next
  assume st: "hp_state p = HEADER_NAME"
  with assms(5) have "parse_header_name_state b (p\<lparr>hp_buffer := hp_buffer p @ a\<rparr>) = (r, c, p')"
    by (simp add: parse_step_def)
  from header_name_append [OF assms(2-4) this] st show ?thesis by (simp add: parse_step_def)
qed

lemma line_unfinished:
  assumes "parser_ok p" "hp_state p = START_LINE \<or> hp_state p = HEADER_NAME" "find_line_end a = None" "a \<noteq> []"
    and "\<not> overlong (run pl a p)"
  shows "run pl a p = p\<lparr>hp_buffer := hp_buffer p @ a\<rparr>"
proof -
  obtain r c p' where a: "parse_step pl a p = (r, c, p')" using prod_cases3 by blast
  with assms(2,3) have "c = length a" and
    "p' = p\<lparr>hp_buffer := hp_buffer p @ a\<rparr> \<or> overlong p'"
    by (auto simp: parse_step_def parse_start_line_state_def parse_header_name_state_def Let_def
        overlong_def hp_set_error_def split: if_splits)
  moreover have "run pl a p = run pl (drop c a) p'"
    using assms by (intro run_step [OF _ _ _ a]) auto
  ultimately show ?thesis using assms(5) by auto
qed

lemma run_body:
  assumes "parser_ok p" "hp_state p = BODY" "data \<noteq> []"
  defines "left \<equiv> unat (hp_expected_body_length p) - length (hp_body p)"
  shows "run pl data p =
    p\<lparr>hp_body := hp_body p @ take left data, hp_state := if left \<le> length data then COMPLETE else BODY\<rparr>"
proof -
  let ?p = "p\<lparr>hp_body := hp_body p @ take left data, hp_state := if left \<le> length data then COMPLETE else BODY\<rparr>"
  have step: "parse_step pl data p = (1, min (length data) left, ?p)"
    using body_state_eq [OF assms(1,2)] assms(2,3) unfolding left_def by (simp add: parse_step_def)
  have "run pl data p = run pl (drop (min (length data) left) data) ?p"
    using run_step [OF assms(1) _ _ step assms(3)] assms(2) by simp
  then show ?thesis by (cases "left \<le> length data") simp_all
qed

lemma run_append:
  assumes "parser_ok p" "\<not> overlong (run pl a p)" "\<not> cuts_line_end (run pl a p) a b"
  shows "same_parser (run pl b (run pl a p)) (run pl (a @ b) p)"
  using assms
proof (induction "length a" arbitrary: a p rule: less_induct)
  case less
  note ok = less.prems(1)
  consider "a = [] \<or> b = [] \<or> hp_state p = COMPLETE \<or> hp_state p = ERROR"
    | (line) e where "a \<noteq> []" "hp_state p = START_LINE \<or> hp_state p = HEADER_NAME" "find_line_end a = Some e"
    | (open_line) "a \<noteq> []" "b \<noteq> []" "hp_state p = START_LINE \<or> hp_state p = HEADER_NAME" "find_line_end a = None"
    | (body) "a \<noteq> []" "b \<noteq> []" "hp_state p = BODY"
    using ok by (cases "find_line_end a") (auto simp: parser_ok_def split: ParseState.splits)
  then show ?case
  proof cases
    case 1
    then show ?thesis by auto
  next
    case line
    obtain r c p' where a: "parse_step pl a p = (r, c, p')" using prod_cases3 by blast
    have c: "c = e + 2" "c \<le> length a"
      using a line find_line_end_Some [OF line(3), of b]
      by (auto simp: parse_step_def parse_start_line_state_def parse_header_name_state_def Let_def
          split: prod.splits if_splits)
    have ab: "parse_step pl (a @ b) p = (r, c, p')"
      using a line find_line_end_Some [OF line(3), of b]
      by (auto simp: parse_step_def parse_start_line_state_def parse_header_name_state_def Let_def
          split: prod.splits if_splits)
    from line have nf: "hp_state p \<noteq> COMPLETE" "hp_state p \<noteq> ERROR" by auto
    have ra: "run pl a p = run pl (drop c a) p'" by (rule run_step [OF ok nf a line(1)])
    have rab: "run pl (a @ b) p = run pl (drop c a @ b) p'"
      using run_step [OF ok nf ab] line(1) c(2) by simp
    have "cuts_line_end (run pl a p) (drop c a) b \<Longrightarrow> cuts_line_end (run pl a p) a b"
      by (auto simp: cuts_line_end_def)
    with less.hyps [of "drop c a" p'] less.prems step_ok [OF ok nf a] line(1) c show ?thesis
      by (auto simp: ra rab)
  next
    case open_line
    let ?p = "p\<lparr>hp_buffer := hp_buffer p @ a\<rparr>"
    have ra: "run pl a p = ?p" by (rule line_unfinished [OF ok open_line(3,4,1) less.prems(2)])
    then have ok': "parser_ok ?p" using run_ok [OF ok, of a] by simp
    have cut: "\<not> (a \<noteq> [] \<and> last a = CR \<and> hd b = LF)"
      using less.prems(3) open_line unfolding ra cuts_line_end_def by auto
    obtain r c p' where b: "parse_step pl b ?p = (r, c, p')" using prod_cases3 by blast
    from line_append [OF open_line(3,4,2) cut b] obtain q
      where ab: "parse_step pl (a @ b) p = (r, length a + c, q)" and same: "same_parser p' q" by blast
    from open_line have nf: "hp_state p \<noteq> COMPLETE" "hp_state p \<noteq> ERROR" by auto
    have "run pl b ?p = run pl (drop c b) p'" using run_step [OF ok' _ _ b open_line(2)] nf by simp
    moreover have "run pl (a @ b) p = run pl (drop c b) q"
      using run_step [OF ok nf ab] open_line(1) by simp
    ultimately show ?thesis using same_parser_run [OF same] ra by simp
  next
    case body
    let ?left = "unat (hp_expected_body_length p) - length (hp_body p)"
    have ra: "run pl a p = p\<lparr>hp_body := hp_body p @ take ?left a, hp_state := if ?left \<le> length a then COMPLETE else BODY\<rparr>"
      by (rule run_body [OF ok body(3,1)])
    have rab: "run pl (a @ b) p = p\<lparr>hp_body := hp_body p @ take ?left (a @ b),
        hp_state := if ?left \<le> length (a @ b) then COMPLETE else BODY\<rparr>"
      using body by (intro run_body [OF ok body(3)]) simp
    show ?thesis
    proof (cases "?left \<le> length a")
      case True
      then have "run pl b (run pl a p) = run pl a p" by (simp add: ra)
      with True show ?thesis by (simp add: ra rab)
    next
      case False
      then have ra': "run pl a p = p\<lparr>hp_body := hp_body p @ a\<rparr>" using ra body(3) by simp
      have "run pl b (run pl a p) = run pl (a @ b) p"
        using run_body [OF run_ok [OF ok, of a] _ body(2)] body(3) False unfolding ra' rab by simp
      then show ?thesis by simp
    qed
  qed
qed

end

section \<open>What is consumed\<close>

lemma find_line_end_le: "find_line_end s = Some e \<Longrightarrow> Suc (Suc e) \<le> length s"
  using find_line_end_Some [of s e "[]"] by simp

lemma parse_step_le: "parse_step pl data p = (r, c, p') \<Longrightarrow> \<not> r < 0 \<Longrightarrow> c \<le> length data"
  by (auto simp: parse_step_def parse_start_line_state_def parse_header_name_state_def parse_body_state_def
      parse_chunk_size_state_def parse_chunk_data_state_def parse_chunk_trailer_state_def Let_def
      split: ParseState.splits option.splits sum.splits prod.splits if_splits intro: find_line_end_le)

context start_line
begin

text \<open>
  A call that does not end in an error has consumed at least one byte and at most all the data, and it
  reports an error only in the error state.
\<close>

lemma loop_consumes:
  assumes "parser_ok p" "hp_state p \<noteq> COMPLETE" "hp_state p \<noteq> ERROR" "data \<noteq> []"
  shows "case fst (parse_loop pl data 0 p) of
      None \<Rightarrow> hp_state (run pl data p) = ERROR
    | Some n \<Rightarrow> 0 < n \<and> n \<le> length data \<and> hp_state (run pl data p) \<noteq> ERROR"
  using assms
proof (induction "length data" arbitrary: data p rule: less_induct)
  case less
  obtain r c p' where step: "parse_step pl data p = (r, c, p')" using prod_cases3 by blast
  note ok = step_ok [OF less.prems(1-3) step] and r = run_step [OF less.prems(1-3) step less.prems(4)]
  show ?case
  proof (cases "r < 0")
    case True
    then have "fst (parse_loop pl data 0 p) = None"
      using less.prems step by (subst parse_loop.simps) simp
    with True ok r show ?thesis by simp
  next
    case False
    then have loop: "fst (parse_loop pl data 0 p) = map_option ((+) c) (fst (parse_loop pl (drop c data) 0 p'))"
      using parse_loop_step [OF less.prems(4,2,3) step] ok less.prems(4)
        arg_cong [OF parse_loop_tot [of pl "drop c data" c p'], of fst] by simp
    have c: "0 < c" "c \<le> length data" using ok less.prems(4) parse_step_le [OF step False] by auto
    show ?thesis
    proof (cases "drop c data = [] \<or> hp_state p' = COMPLETE")
      case True
      then have "fst (parse_loop pl (drop c data) 0 p') = Some 0" by (subst parse_loop.simps) auto
      moreover have "run pl (drop c data) p' = p'" using True by auto
      ultimately show ?thesis using c ok False by (simp add: loop r)
    next
      case nf: False
      have ih: "case fst (parse_loop pl (drop c data) 0 p') of
          None \<Rightarrow> hp_state (run pl (drop c data) p') = ERROR
        | Some n \<Rightarrow> 0 < n \<and> n \<le> length (drop c data) \<and> hp_state (run pl (drop c data) p') \<noteq> ERROR"
        using less.prems(4) c ok nf False by (intro less.hyps) auto
      then show ?thesis using c by (auto simp: loop r split: option.splits)
    qed
  qed
qed

text \<open>Data behind the end of a message does not change anything.\<close>

lemma complete_append:
  assumes "parser_ok p" "hp_state (run pl a p) = COMPLETE"
  shows "parse_loop pl (a @ b) 0 p = parse_loop pl a 0 p"
  using assms
proof (induction "length a" arbitrary: a p rule: less_induct)
  case less
  note ok = less.prems(1)
  consider "hp_state p = COMPLETE \<or> hp_state p = ERROR"
    | (line) e where "a \<noteq> []" "hp_state p = START_LINE \<or> hp_state p = HEADER_NAME" "find_line_end a = Some e"
    | (open_line) "a \<noteq> []" "hp_state p = START_LINE \<or> hp_state p = HEADER_NAME" "find_line_end a = None"
    | (body) "a \<noteq> []" "hp_state p = BODY"
    using less.prems by (cases "find_line_end a"; cases "a = []") (auto simp: parser_ok_def split: ParseState.splits)
  then show ?case
  proof cases
    case 1
    then show ?thesis by (simp add: parse_loop_final)
  next
    case line
    obtain r c p' where a: "parse_step pl a p = (r, c, p')" using prod_cases3 by blast
    from line have nf: "hp_state p \<noteq> COMPLETE" "hp_state p \<noteq> ERROR" by auto
    note so = step_ok [OF ok nf a] and ra = run_step [OF ok nf a line(1)]
    have "\<not> r < 0" using so ra less.prems(2) by auto
    moreover have "parse_step pl (a @ b) p = (r, c, p')" and "c \<le> length a"
      using a line find_line_end_Some [OF line(3), of b]
      by (auto simp: parse_step_def parse_start_line_state_def parse_header_name_state_def Let_def
          split: prod.splits if_splits)
    ultimately have "parse_loop pl (a @ b) 0 p = parse_loop pl (drop c a @ b) c p'"
      "parse_loop pl a 0 p = parse_loop pl (drop c a) c p'"
      using parse_loop_step [of a p pl r c p' 0] parse_loop_step [of "a @ b" p pl r c p' 0] a nf line(1) so by auto
    moreover have eq: "parse_loop pl (drop c a @ b) 0 p' = parse_loop pl (drop c a) 0 p'"
      using so line(1) ra less.prems(2) by (intro less.hyps) auto
    moreover from arg_cong [OF eq, of snd] have "run pl (drop c a @ b) p' = run pl (drop c a) p'" by simp
    ultimately show ?thesis
      using parse_loop_tot [of pl "drop c a @ b" c p'] parse_loop_tot [of pl "drop c a" c p'] by simp
  next
    case open_line
    have "\<not> overlong (run pl a p)"
      using run_ok [OF ok, of a] less.prems(2) by (auto simp: parser_ok_def overlong_def)
    from line_unfinished [OF ok open_line(2,3,1) this] less.prems(2) open_line(2) show ?thesis by auto
  next
    case body
    let ?left = "unat (hp_expected_body_length p) - length (hp_body p)"
    have "?left \<le> length a"
      using run_body [OF ok body(2,1)] less.prems(2) by (auto split: if_splits)
    moreover have "parse_step pl d p = (1, min (length d) ?left,
        p\<lparr>hp_body := hp_body p @ take ?left d, hp_state := if ?left \<le> length d then COMPLETE else BODY\<rparr>)" if "d \<noteq> []" for d
      using body_state_eq [OF ok body(2), of d] body(2) that by (simp add: parse_step_def)
    ultimately have "parse_loop pl d 0 p = (Some ?left, p\<lparr>hp_body := hp_body p @ take ?left d, hp_state := COMPLETE\<rparr>)"
      if "d \<noteq> []" "?left \<le> length d" for d
      using that body(2) by (subst parse_loop.simps) (simp add: parse_loop_final)
    with \<open>?left \<le> length a\<close> body(1) show ?thesis by simp
  qed
qed

end

section \<open>Fragments\<close>

definition feed_all :: "'a start_line_method \<Rightarrow> string list \<Rightarrow> 'a HttpParser_scheme \<Rightarrow> 'a HttpParser_scheme" where
  "feed_all pl frags p = foldl (\<lambda>p data. snd (hp_parse pl data p)) p frags"

fun clean_cuts :: "'a start_line_method \<Rightarrow> 'a HttpParser_scheme \<Rightarrow> string list \<Rightarrow> bool" where
  "clean_cuts pl p [] \<longleftrightarrow> True"
| "clean_cuts pl p (a # fs) \<longleftrightarrow>
     (let p' = snd (hp_parse pl a p) in \<not> cuts_line_end p' a (concat fs) \<and> clean_cuts pl p' fs)"

lemma feed_all_simps [simp]:
  "feed_all pl [] p = p" "feed_all pl (a # fs) p = feed_all pl fs (run pl a p)"
  by (simp_all add: feed_all_def snd_hp_parse)

lemma feed_all_final: "hp_state p = COMPLETE \<or> hp_state p = ERROR \<Longrightarrow> feed_all pl fs p = p"
  by (induction fs) auto

lemma same_parser_trans: "same_parser p q \<Longrightarrow> same_parser q r \<Longrightarrow> same_parser p r"
  unfolding same_parser_def by metis

context start_line
begin

lemma feed_all_concat:
  assumes "parser_ok p" "clean_cuts pl p frags" "\<not> overlong (feed_all pl frags p)"
  shows "same_parser (feed_all pl frags p) (run pl (concat frags) p)"
  using assms
proof (induction frags arbitrary: p)
  case (Cons a fs)
  let ?q = "run pl a p"
  have ok: "parser_ok ?q" by (rule run_ok [OF Cons.prems(1)])
  have "\<not> overlong ?q"
  proof
    assume "overlong ?q"
    then have "hp_state ?q = ERROR" using ok by (auto simp: overlong_def parser_ok_def)
    then have "feed_all pl fs ?q = ?q" by (simp add: feed_all_final)
    with \<open>overlong ?q\<close> Cons.prems(3) show False by simp
  qed
  with Cons.prems have "same_parser (run pl (concat fs) ?q) (run pl (a @ concat fs) p)"
    by (intro run_append) (auto simp: snd_hp_parse Let_def)
  moreover have "same_parser (feed_all pl fs ?q) (run pl (concat fs) ?q)"
    using Cons.prems by (intro Cons.IH [OF ok]) (auto simp: snd_hp_parse Let_def)
  ultimately show ?case using same_parser_trans by simp
qed simp

end

text \<open>
  C3. How a message is cut does not matter. Feeding the buffers one after the other leaves a request or a
  response parser, in any reachable state, as it is after one call with all the data, unless a line
  exceeds the limit or a buffer ends between the two characters of the end of a line of the head.
\<close>

theorem fragments_parse_alike:
  assumes "parser_ok p" "clean_cuts request_start_line p frags" "\<not> overlong (feed_all request_start_line frags p)"
    and "parser_ok q" "clean_cuts response_start_line q frags'" "\<not> overlong (feed_all response_start_line frags' q)"
  shows "same_parser (feed_all request_start_line frags p) (snd (hp_parse request_start_line (concat frags) p)) \<and>
    same_parser (feed_all response_start_line frags' q) (snd (hp_parse response_start_line (concat frags') q))"
  unfolding snd_hp_parse using assms by (blast intro: reqs.feed_all_concat ress.feed_all_concat)

definition example_buffers :: "string list" where
  "example_buffers = [''POST /a HT'', ''TP/1.1'' @ CRLF @ ''Content-Length: 4'' @ CRLF, CRLF @ ''bo'', ''dy'']"

definition example_answer :: "string list" where
  "example_answer = [''HTTP/1.1 2'', ''00 OK'' @ CRLF @ CRLF]"

theorem fragments_parse_alike_witness:
  "same_parser (feed_all request_start_line example_buffers (HttpRequestParser_new GET))
     (snd (hp_parse request_start_line (concat example_buffers) (HttpRequestParser_new GET))) \<and>
   same_parser (feed_all response_start_line example_answer (HttpResponseParser_new 0))
     (snd (hp_parse response_start_line (concat example_answer) (HttpResponseParser_new 0)))"
proof (rule fragments_parse_alike)
  show "clean_cuts request_start_line (HttpRequestParser_new GET) example_buffers" by code_simp
  show "\<not> overlong (feed_all request_start_line example_buffers (HttpRequestParser_new GET))" by code_simp
  show "clean_cuts response_start_line (HttpResponseParser_new 0) example_answer" by code_simp
  show "\<not> overlong (feed_all response_start_line example_answer (HttpResponseParser_new 0))" by code_simp
qed (rule parser_ok_new)+

text \<open>
  The exception is real: cut inside the line end, the request is not recognised as complete.
\<close>

lemma cut_line_end_loses_request:
  "hp_state (snd (hp_parse request_start_line (''GET / HTTP/1.1'' @ CRLF @ CRLF) (HttpRequestParser_new GET))) = COMPLETE"
  "hp_state (feed_all request_start_line [''GET / HTTP/1.1'' @ [CR], [LF] @ CRLF] (HttpRequestParser_new GET)) = HEADER_NAME"
  by code_simp+




end
