(* ===== verification/Http_Wire.thy ===== *)
theory Http_Wire
  imports Http_Message Http_Parser_Props
begin

text \<open>
  Messages on the wire: the text that \<open>to_string\<close> produces for a request or a response is parsed back
  to the same message, exactly its bytes are consumed, and what the factory methods build can be sent.
\<close>

section \<open>Header lines\<close>

lemma of_char_upper:
  "(of_char (upper_char c) :: nat) =
     (if 97 \<le> (of_char c :: nat) \<and> (of_char c :: nat) \<le> 122 then of_char c - 32 else of_char c)"
  by (simp add: upper_char_def) (auto intro!: mod_less)

lemma lower_upper [simp]: "lower_char (upper_char c) = lower_char c"
proof -
  have "(of_char (lower_char (upper_char c)) :: nat) = of_char (lower_char c)"
    by (auto simp: of_char_lower of_char_upper simp del: of_char_eq_iff)
  then show ?thesis by simp
qed

lemma to_lower_format [simp]: "to_lower (format_name b k) = to_lower k"
  by (induction b k rule: format_name.induct) (simp_all add: to_lower_def)

lemma CR_to_lower [simp]: "CR \<in> set (to_lower s) \<longleftrightarrow> CR \<in> set s"
  unfolding to_lower_def set_map image_iff by (metis lower_char_special(4))

lemma format_name_keeps [simp]:
  "CHR '':'' \<in> set (format_name b k) \<longleftrightarrow> CHR '':'' \<in> set k" "CR \<in> set (format_name b k) \<longleftrightarrow> CR \<in> set k"
  "trimmed (format_name b k) \<longleftrightarrow> trimmed k" "format_name b k = [] \<longleftrightarrow> k = []"
proof -
  have eq: "to_lower (format_name b k) = to_lower k" by simp
  show "CHR '':'' \<in> set (format_name b k) \<longleftrightarrow> CHR '':'' \<in> set k" by (metis eq colon_to_lower)
  show "CR \<in> set (format_name b k) \<longleftrightarrow> CR \<in> set k" by (metis eq CR_to_lower)
  show "trimmed (format_name b k) \<longleftrightarrow> trimmed k" by (metis eq trimmed_lower)
  show "format_name b k = [] \<longleftrightarrow> k = []" by (cases k) simp_all
qed

text \<open>A header table whose text form is read back: in addition to \<open>headers_ok\<close> there is no carriage return.\<close>

definition printable :: "headers \<Rightarrow> bool" where
  "printable hs \<longleftrightarrow> headers_ok hs \<and> (\<forall>(k, v) \<in> set hs. CR \<notin> set k \<and> CR \<notin> set v)"

definition header_text :: "string \<times> string \<Rightarrow> string" where
  "header_text = (\<lambda>(k, v). format_name True k @ '': '' @ v)"

lemma parse_header_text:
  assumes "field_ok (k, v)"
  shows "parse_header_line (header_text (k, v)) p = (True, p\<lparr>hp_headers := memplace k v (hp_headers p)\<rparr>)"
proof -
  have k: "k \<noteq> []" "to_lower k = k" "trimmed k" "CHR '':'' \<notin> set k" and v: "trimmed v"
    using assms by (auto simp: field_ok_def)
  have "find_char (CHR '':'') (header_text (k, v)) = Some (length (format_name True k))"
    using find_char_append [of "CHR '':''" "format_name True k" "CHR '' '' # v"] k by (simp add: header_text_def)
  moreover have "trim_blanks (CHR '' '' # v) = v"
    using trim_blanks_id [OF v] by (simp add: trim_blanks_def is_blank_def)
  moreover have "trim_blanks (format_name True k) = format_name True k"
    using k(3) by (intro trim_blanks_id) simp
  ultimately show ?thesis using k by (simp add: parse_header_line_def header_text_def)
qed

section \<open>The loop on a well-formed message\<close>

text \<open>How long the body is according to the header table.\<close>

definition framed :: "headers \<Rightarrow> string \<Rightarrow> bool" where
  "framed hs body \<longleftrightarrow>
     (let n = length_value (find_header ''content-length'' hs)
      in if body = [] then n \<le> 0 else n = int (length body))"

lemma to_lower_names [simp]:
  "to_lower ''content-length'' = ''content-length''" "to_lower ''transfer-encoding'' = ''transfer-encoding''"
  "to_lower ''connection'' = ''connection''" "to_lower ''content-type'' = ''content-type''"
  by (simp_all add: to_lower_def lower_char_def)

lemma buffer_empty [simp]: "hp_buffer p = [] \<Longrightarrow> p\<lparr>hp_buffer := []\<rparr> = p"
  by (cases p) simp

lemma loop_header:
  assumes "hp_state p = HEADER_NAME" "hp_buffer p = []" "CR \<notin> set line" "line \<noteq> []"
    "parse_header_line line p = (True, p')"
  shows "parse_loop pl (line @ CR # LF # s) tot p = parse_loop pl s (tot + length line + 2) p'"
proof -
  have "parse_step pl (line @ CR # LF # s) p = (1, length line + 2, p')"
    using assms by (simp add: parse_step_def parse_header_name_state_def find_line_end_plain drop_last_cr_plain)
  from parse_loop_step [OF _ _ _ this, of tot] assms(1) show ?thesis by (simp add: add.assoc)
qed

lemma loop_end:
  assumes "hp_state p = HEADER_NAME" "hp_buffer p = []"
  shows "parse_loop pl (CR # LF # s) tot p = parse_loop pl s (tot + 2) (end_of_headers p)"
proof -
  have "parse_step pl (CR # LF # s) p = (1, 2, end_of_headers p)"
    using assms by (simp add: parse_step_def parse_header_name_state_def drop_last_cr_def)
  from parse_loop_step [OF _ _ _ this, of tot] assms(1) show ?thesis by simp
qed

lemma loop_headers:
  assumes "hp_state p = HEADER_NAME" "hp_buffer p = []" "\<forall>(k, v) \<in> set hs. field_ok (k, v) \<and> CR \<notin> set k \<and> CR \<notin> set v"
  shows "parse_loop pl (concat (map (\<lambda>f. header_text f @ CRLF) hs) @ s) tot p =
    parse_loop pl s (tot + length (concat (map (\<lambda>f. header_text f @ CRLF) hs)))
      (p\<lparr>hp_headers := foldl (\<lambda>m (k, v). memplace k v m) (hp_headers p) hs\<rparr>)"
  using assms
proof (induction hs arbitrary: p tot)
  case (Cons f hs)
  obtain k v where f: "f = (k, v)" by (cases f)
  with Cons.prems have ok: "field_ok (k, v)" "CR \<notin> set (header_text f)" "header_text f \<noteq> []"
    by (auto simp: header_text_def)
  let ?p = "p\<lparr>hp_headers := memplace k v (hp_headers p)\<rparr>"
  have "parse_loop pl (header_text f @ CR # LF # concat (map (\<lambda>f. header_text f @ CRLF) hs) @ s) tot p =
      parse_loop pl (concat (map (\<lambda>f. header_text f @ CRLF) hs) @ s) (tot + length (header_text f) + 2) ?p"
    using parse_header_text [OF ok(1)] unfolding f [symmetric] by (rule loop_header [OF Cons.prems(1,2) ok(2,3)])
  with Cons.IH [of ?p] Cons.prems f show ?case by (simp add: add.assoc)
qed simp

lemma loop_finish:
  assumes "hp_state p = HEADER_NAME" "hp_buffer p = []" "\<not> hp_chunked_encoding p" "hp_body p = []"
    and "framed (hp_headers p) body" "length body < 2 ^ 63"
  shows "\<exists>n. parse_loop pl (CR # LF # body @ rest) tot p =
    (Some (tot + 2 + length body),
     p\<lparr>hp_headers_complete := True, hp_expected_body_length := n, hp_body := body, hp_state := COMPLETE\<rparr>)"
proof (cases "body = []")
  case True
  let ?p = "p\<lparr>hp_headers_complete := True, hp_state := COMPLETE\<rparr>"
  have "end_of_headers p = ?p"
    using assms True
    by (simp add: end_of_headers_def should_read_body_def hp_is_chunked_def framed_def hp_get_content_length_def hp_get_header_def)
  moreover have "?p = p\<lparr>hp_headers_complete := True, hp_expected_body_length := hp_expected_body_length p,
      hp_body := [], hp_state := COMPLETE\<rparr>" using assms(4) by (cases p) simp
  ultimately show ?thesis
    unfolding loop_end [OF assms(1,2)] using True
    by (intro exI [of _ "hp_expected_body_length p"]) (simp add: parse_loop.simps)
next
  case False
  let ?n = "of_nat (length body) :: 64 word"
  let ?p = "p\<lparr>hp_headers_complete := True, hp_expected_body_length := ?n, hp_state := BODY\<rparr>"
  have n: "unat ?n = length body" using assms(6) by (simp add: unat_of_nat)
  have "end_of_headers p = ?p"
    using assms False
    by (simp add: end_of_headers_def should_read_body_def hp_is_chunked_def framed_def hp_get_content_length_def hp_get_header_def)
  moreover have "parse_step pl (body @ rest) ?p = (1, length body, ?p\<lparr>hp_body := body, hp_state := COMPLETE\<rparr>)"
    using False assms(4) n by (simp add: parse_step_def parse_body_state_def Let_def)
  ultimately show ?thesis
    unfolding loop_end [OF assms(1,2)] using False
    by (intro exI [of _ ?n]) (simp add: parse_loop_step [where p = ?p] parse_loop.simps [where data = rest])
qed

text \<open>A parser that has not seen any data.\<close>

definition fresh :: "'a HttpParser_scheme \<Rightarrow> bool" where
  "fresh p \<longleftrightarrow> hp_state p = START_LINE \<and> hp_buffer p = [] \<and> hp_headers p = [] \<and> hp_body p = [] \<and>
     \<not> hp_chunked_encoding p"

definition message_text :: "string \<Rightarrow> headers \<Rightarrow> string \<Rightarrow> string" where
  "message_text line hs body = line @ CRLF @ concat (map (\<lambda>f. header_text f @ CRLF) hs) @ CRLF @ body"

lemma printable_fold: "printable hs \<Longrightarrow> foldl (\<lambda>m (k, v). memplace k v m) [] hs = hs"
  using foldl_memplace [of "[]" hs] by (simp add: printable_def headers_ok_def)

context start_line
begin

lemma message_parsed:
  assumes "fresh p" "CR \<notin> set line" "pl line p = (True, p1)" "printable hs" "framed hs body"
    and "length (message_text line hs body) < 2 ^ 31"
  shows "\<exists>n. hp_parse pl (message_text line hs body @ rest) p =
    (int (length (message_text line hs body)),
     p1\<lparr>hp_state := COMPLETE, hp_headers := hs, hp_body := body, hp_buffer := [],
        hp_expected_body_length := n, hp_headers_complete := True\<rparr>)"
proof -
  let ?hs = "concat (map (\<lambda>f. header_text f @ CRLF) hs)"
  let ?p1 = "p1\<lparr>hp_buffer := [], hp_state := HEADER_NAME\<rparr>"
  let ?p2 = "?p1\<lparr>hp_headers := hs\<rparr>"
  have p1: "hp_headers p1 = []" "hp_body p1 = []" "\<not> hp_chunked_encoding p1"
    using pl_frame [of line p] assms(1,3) by (simp_all add: fresh_def)
  have "parse_step pl (line @ CR # LF # ?hs @ CR # LF # body @ rest) p = (1, length line + 2, ?p1)"
    using assms(1-3)
    by (simp add: parse_step_def parse_start_line_state_def fresh_def find_line_end_plain drop_last_cr_plain)
  from parse_loop_step [OF _ _ _ this, of 0] assms(1)
  have 1: "parse_loop pl (line @ CR # LF # ?hs @ CR # LF # body @ rest) 0 p =
      parse_loop pl (?hs @ CR # LF # body @ rest) (length line + 2) ?p1"
    by (simp add: fresh_def)
  have 2: "parse_loop pl (?hs @ CR # LF # body @ rest) (length line + 2) ?p1 =
      parse_loop pl (CR # LF # body @ rest) (length line + 2 + length ?hs) ?p2"
    using loop_headers [of ?p1 hs pl "CR # LF # body @ rest" "length line + 2"] p1(1) printable_fold [OF assms(4)] assms(4)
    by (auto simp: printable_def headers_ok_def)
  obtain n where 3: "parse_loop pl (CR # LF # body @ rest) (length line + 2 + length ?hs) ?p2 =
      (Some (length line + 2 + length ?hs + 2 + length body),
       ?p2\<lparr>hp_headers_complete := True, hp_expected_body_length := n, hp_body := body, hp_state := COMPLETE\<rparr>)"
    using loop_finish [of ?p2 body pl rest "length line + 2 + length ?hs"] p1 assms(5,6)
    by (auto simp: message_text_def)
  have "length line + 2 + length ?hs + 2 + length body = length (message_text line hs body)"
    by (simp add: message_text_def)
  with 1 2 3 assms(1,6) to_int32_nonneg show ?thesis
    by (intro exI [of _ n]) (simp add: hp_parse_def fresh_def message_text_def)
qed

end

section \<open>Start lines\<close>

definition int32 :: "int \<Rightarrow> bool" where
  "int32 i \<longleftrightarrow> - 2147483648 \<le> i \<and> i \<le> 2147483647"

lemma int_dec_chars: "c \<in> set (int_dec i) \<Longrightarrow> is_digit c \<or> c = CHR ''-''"
  using is_digit_nat_dec by (auto simp: int_dec_def split: if_splits)

lemma version_is_word: "is_word (version_to_string v)"
proof -
  have "\<not> is_space c" if "c \<in> set (int_dec i)" for c i
    using int_dec_chars [OF that] is_digit_not_space by (auto simp: is_space_def)
  then show ?thesis by (auto simp: is_word_def list_all_iff version_to_string_def is_space_def)
qed

lemma parse_version_text:
  assumes "int32 (ver_major v)" "int32 (ver_minor v)"
  shows "parse_version (version_to_string v) w = (True, v)"
proof -
  have "CHR ''.'' \<notin> set (int_dec (ver_major v))"
    using int_dec_chars by (fastforce simp: is_digit_def)
  from find_char_append [OF this] assms show ?thesis
    by (cases v; cases w) (simp add: parse_version_def version_to_string_def stoi_int_dec int32_def)
qed

lemma method_roundtrip: "m \<noteq> UNKNOWN \<Longrightarrow> string_to_method (method_to_string m) = m"
  by (cases m) (simp_all add: string_to_method_def)

lemma method_is_word: "is_word (method_to_string m)"
  by (cases m) (simp_all add: is_word_def is_space_def)

lemma word_no_CR: "is_word w \<Longrightarrow> CR \<notin> set w"
  by (auto simp: is_word_def list_all_iff)

lemma request_line_parsed:
  assumes "m \<noteq> UNKNOWN" "is_word u" "int32 (ver_major v)" "int32 (ver_minor v)"
  shows "request_start_line (method_to_string m @ '' '' @ u @ '' '' @ version_to_string v) p =
    (True, p\<lparr>rp_method := m, rp_uri := u, rp_path := fst (split_uri u), rp_query := snd (split_uri u), hp_version := v\<rparr>)"
  using next_word_first [OF method_is_word [of m], of "CHR '' ''" "u @ '' '' @ version_to_string v"]
    next_word_first [OF assms(2), of "CHR '' ''" "version_to_string v"]
    next_word_last [OF version_is_word [of v]] parse_version_text [OF assms(3,4)] assms
    method_is_word [of m] version_is_word [of v]
  by (simp add: request_start_line_def next_word_skip method_roundtrip rp_parse_uri_def is_word_def)

section \<open>Requests\<close>

text \<open>
  A request that can be sent: a known method, a target without white space with its path and query
  split off, a printable header table and a \<open>Content-Length\<close> that fits the body.
\<close>

definition sendable_request :: "HttpRequestMsg \<Rightarrow> bool" where
  "sendable_request m \<longleftrightarrow> \<not> msg_is_response m \<and> rq_method m \<noteq> UNKNOWN \<and> is_word (rq_uri m) \<and>
     (rq_path m, rq_query m) = split_uri (rq_uri m) \<and>
     int32 (ver_major (msg_version m)) \<and> int32 (ver_minor (msg_version m)) \<and>
     printable (msg_headers m) \<and> framed (msg_headers m) (msg_body m)"

lemma build_headers_text: "build_headers m = concat (map (\<lambda>f. header_text f @ CRLF) (msg_headers m)) @ CRLF"
  by (simp add: build_headers_def header_text_def case_prod_beta' cong: map_cong)

lemma rq_to_string_text: "rq_to_string m = message_text (rq_build_start_line m) (msg_headers m) (msg_body m)"
  by (simp add: rq_to_string_def message_text_def build_headers_text)

lemma fresh_new: "fresh (HttpRequestParser_new i)" "fresh (HttpResponseParser_new c)"
  by (simp_all add: fresh_def HttpRequestParser_new_def HttpResponseParser_new_def HttpParser_new_def HttpParser.defs)

lemma fresh_reset: "fresh (hp_reset p)"
  by (simp add: fresh_def hp_reset_def)

lemma to_string_nonempty: "0 < length (rq_to_string m)"
  by (simp add: rq_to_string_def)

text \<open>The parser after a whole request.\<close>

definition parsed_request :: "HttpRequestMsg \<Rightarrow> 64 word \<Rightarrow> HttpRequestParser \<Rightarrow> HttpRequestParser" where
  "parsed_request m n p = p\<lparr>rp_method := rq_method m, rp_uri := rq_uri m, rp_path := rq_path m, rp_query := rq_query m,
     hp_version := msg_version m, hp_state := COMPLETE, hp_headers := msg_headers m, hp_body := msg_body m,
     hp_buffer := [], hp_expected_body_length := n, hp_headers_complete := True\<rparr>"

lemma request_parsed:
  assumes "sendable_request m" "length (rq_to_string m) < 2 ^ 31" "fresh p"
  shows "\<exists>n. hp_parse request_start_line (rq_to_string m @ rest) p = (int (length (rq_to_string m)), parsed_request m n p)"
proof -
  note m = assms(1) [unfolded sendable_request_def]
  let ?l = "rq_build_start_line m"
  have l: "request_start_line ?l p = (True, p\<lparr>rp_method := rq_method m, rp_uri := rq_uri m,
      rp_path := rq_path m, rp_query := rq_query m, hp_version := msg_version m\<rparr>)"
    using request_line_parsed [of "rq_method m" "rq_uri m" "msg_version m" p] m
    by (metis rq_build_start_line_def fst_conv snd_conv)
  have "CR \<notin> set ?l"
    using m word_no_CR [OF method_is_word] word_no_CR [OF version_is_word] word_no_CR [of "rq_uri m"]
    by (simp add: rq_build_start_line_def)
  from reqs.message_parsed [OF assms(3) this l, of "msg_headers m" "msg_body m" rest] m assms(2)
  show ?thesis by (auto simp: rq_to_string_text parsed_request_def)
qed

lemma extract_parsed:
  assumes "sendable_request m" "\<not> msg_is_response q" "hp_parse request_start_line data (rq_parser q) = (r, parsed_request m n p)"
    and "0 < r"
  shows "rq_parse data q = (r, m\<lparr>rq_parser := parsed_request m n p\<rparr>)"
  using assms unfolding rq_parse_def by (cases m; cases q) (auto simp: parsed_request_def sendable_request_def)

text \<open>
  C4. A request survives the wire. The text of a request that can be sent, followed by anything, fed to
  a fresh or reset request object, consumes exactly the text and gives the same method, target,
  path, query, version, header table and body.
\<close>

theorem request_travels:
  assumes "sendable_request m" "length (rq_to_string m) < 2 ^ 31" "q = HttpRequest_default i \<or> q = rq_reset q0" "\<not> msg_is_response q"
  shows "\<exists>p. rq_parse (rq_to_string m @ rest) q = (int (length (rq_to_string m)), m\<lparr>rq_parser := p\<rparr>) \<and>
    hp_state p = COMPLETE"
proof -
  have "fresh (rq_parser q)"
    using assms(3) by (auto simp: HttpRequest_default_def rq_reset_def fresh_new fresh_reset HttpMessage.defs HttpRequestMsg.defs HttpMessage_new_def)
  from request_parsed [OF assms(1,2) this] obtain n where
    "hp_parse request_start_line (rq_to_string m @ rest) (rq_parser q) =
       (int (length (rq_to_string m)), parsed_request m n (rq_parser q))" by blast
  from extract_parsed [OF assms(1,4) this] to_string_nonempty [of m] show ?thesis
    by (intro exI [of _ "parsed_request m n (rq_parser q)"]) (simp add: parsed_request_def)
qed

definition example_post :: HttpRequestMsg where
  "example_post = create_post GET ''/a?x=1'' ''hello'' ''text/plain'' \<lparr>ver_major = 1, ver_minor = 1\<rparr>"

theorem request_travels_witness:
  "\<exists>p. rq_parse (rq_to_string example_post @ ''GET'') (HttpRequest_default GET) =
     (int (length (rq_to_string example_post)), example_post\<lparr>rq_parser := p\<rparr>) \<and> hp_state p = COMPLETE"
proof (rule request_travels)
  show "sendable_request example_post" by code_simp
  have "length (rq_to_string example_post) < 200" by code_simp
  then show "length (rq_to_string example_post) < 2 ^ 31" by simp
  show "HttpRequest_default GET = HttpRequest_default GET \<or> HttpRequest_default GET = rq_reset q0" for q0 by simp
  show "\<not> msg_is_response (HttpRequest_default GET)" by code_simp
qed

section \<open>Responses\<close>

definition sendable_response :: "HttpResponseMsg \<Rightarrow> bool" where
  "sendable_response m \<longleftrightarrow> msg_is_response m \<and> 100 \<le> rs_status_code m \<and> rs_status_code m \<le> 999 \<and>
     0 \<le> ver_major (msg_version m) \<and> ver_major (msg_version m) \<le> 9 \<and>
     0 \<le> ver_minor (msg_version m) \<and> ver_minor (msg_version m) \<le> 9 \<and>
     CR \<notin> set (rs_reason_phrase m) \<and> printable (msg_headers m) \<and> framed (msg_headers m) (msg_body m)"

lemma rs_to_string_text: "rs_to_string m = message_text (rs_build_start_line m) (msg_headers m) (msg_body m)"
  by (simp add: rs_to_string_def message_text_def build_headers_text)

lemma one_digit: "0 \<le> i \<Longrightarrow> i \<le> 9 \<Longrightarrow> \<exists>c. int_dec i = [c]"
  by (simp add: int_dec_def nat_dec_def digits_of.simps)

lemma three_digits:
  assumes "100 \<le> i" "i \<le> 999"
  shows "\<exists>x y z. int_dec i = [x, y, z] \<and> is_digit x \<and> is_digit y \<and> is_digit z"
proof -
  have "digits_of 10 (nat i) = [nat i div 10 div 10, nat i div 10 mod 10, nat i mod 10]"
    using assms by (subst digits_of.simps, subst digits_of.simps, subst digits_of.simps) auto
  then have "int_dec i = [dec_char (nat i div 10 div 10), dec_char (nat i div 10 mod 10), dec_char (nat i mod 10)]"
    using assms by (simp add: int_dec_def nat_dec_def)
  moreover have "is_digit c" if "c \<in> set (int_dec i)" for c
    using that assms is_digit_nat_dec by (simp add: int_dec_def)
  ultimately show ?thesis by (metis list.set_intros)
qed

text \<open>The status does not occur in the version, so the first place where the line has it is the right one.\<close>

lemma status_found:
  assumes "100 \<le> code" "code \<le> 999" "0 \<le> a" "a \<le> 9" "0 \<le> b" "b \<le> 9"
  shows "find_sub (int_dec code) (version_to_string \<lparr>ver_major = a, ver_minor = b\<rparr> @ '' '' @ int_dec code @ t) = Some 9"
proof -
  obtain c d where "int_dec a = [c]" "int_dec b = [d]" using one_digit assms(3-6) by metis
  moreover obtain x y z where "int_dec code = [x, y, z]" "is_digit x" "is_digit y" "is_digit z"
    using three_digits [OF assms(1,2)] by blast
  moreover have "h \<notin> {CHR ''H'', CHR ''T'', CHR ''P'', CHR ''/'', CHR ''.'', CHR '' ''}" if "is_digit h" for h
    using that by (auto simp: is_digit_def)
  ultimately show ?thesis by (simp add: version_to_string_def)
qed

lemma response_line_parsed:
  assumes "100 \<le> code" "code \<le> 999" "0 \<le> ver_major v" "ver_major v \<le> 9" "0 \<le> ver_minor v" "ver_minor v \<le> 9"
  shows "response_start_line (version_to_string v @ '' '' @ int_dec code @ '' '' @ reason) p =
    (True, p\<lparr>hp_version := v, sp_status_code := code, sp_reason_phrase := reason\<rparr>)"
proof -
  let ?line = "version_to_string v @ '' '' @ int_dec code @ '' '' @ reason"
  obtain x y z where d: "int_dec code = [x, y, z]" "is_digit x" "is_digit y" "is_digit z"
    using three_digits [OF assms(1,2)] by blast
  then have w: "is_word (int_dec code)" by (simp add: is_word_def is_digit_not_space)
  have v: "version_to_string v = version_to_string \<lparr>ver_major = ver_major v, ver_minor = ver_minor v\<rparr>" by (cases v) simp
  obtain c d' where "int_dec (ver_major v) = [c]" "int_dec (ver_minor v) = [d']" using one_digit assms(3-6) by metis
  then have len: "length (version_to_string v) = 8" by (simp add: version_to_string_def)
  have "status_end (int_dec code) ?line = 12"
    using status_found [OF assms, of "'' '' @ reason"] d(1) unfolding v [symmetric] by (simp add: status_end_def)
  moreover have "drop 13 ?line = reason" using len d(1) by simp
  moreover have "12 < length ?line" using len d(1) by simp
  moreover have "next_word ?line = (version_to_string v, '' '' @ int_dec code @ '' '' @ reason)"
    using next_word_first [OF version_is_word [of v]] by simp
  moreover have "next_word ('' '' @ int_dec code @ '' '' @ reason) = (int_dec code, '' '' @ reason)"
    using next_word_first [OF w] by (simp add: next_word_skip)
  moreover have "stoi (int_dec code) = Inr code" using assms(1,2) by (intro stoi_int_dec) auto
  moreover have "parse_version (version_to_string v) (hp_version p) = (True, v)"
    using assms by (intro parse_version_text) (auto simp: int32_def)
  ultimately show ?thesis
    using w version_is_word [of v] by (simp add: response_start_line_def is_word_def Let_def)
qed

text \<open>
  A response survives the wire. For a three-digit status, a version with one-digit numbers and any
  reason phrase, the text of a response, followed by anything, consumes exactly the text and gives the
  same status, reason, version, header table and body.
\<close>

theorem response_travels:
  assumes "sendable_response m" "length (rs_to_string m) < 2 ^ 31" "q = HttpResponse_default i \<or> q = rs_reset q0" "msg_is_response q"
  shows "\<exists>p. rs_parse (rs_to_string m @ rest) q = (int (length (rs_to_string m)), m\<lparr>rs_parser := p\<rparr>) \<and>
    hp_state p = COMPLETE"
proof -
  have fresh: "fresh (rs_parser q)"
    using assms(3) by (auto simp: HttpResponse_default_def rs_reset_def fresh_new fresh_reset HttpMessage.defs HttpResponseMsg.defs HttpMessage_new_def)
  note m = assms(1) [unfolded sendable_response_def]
  let ?l = "rs_build_start_line m"
  have l: "response_start_line ?l (rs_parser q) = (True, (rs_parser q)\<lparr>hp_version := msg_version m,
      sp_status_code := rs_status_code m, sp_reason_phrase := rs_reason_phrase m\<rparr>)"
    using response_line_parsed m by (simp add: rs_build_start_line_def)
  have "CR \<notin> set (int_dec (rs_status_code m))" using int_dec_chars by (fastforce simp: is_digit_def)
  then have "CR \<notin> set ?l"
    using m word_no_CR [OF version_is_word] by (simp add: rs_build_start_line_def)
  from ress.message_parsed [OF fresh this l, of "msg_headers m" "msg_body m" rest] m assms(2)
  obtain n where parse: "hp_parse response_start_line (rs_to_string m @ rest) (rs_parser q) =
      (int (length (rs_to_string m)), (rs_parser q)\<lparr>hp_version := msg_version m, sp_status_code := rs_status_code m,
         sp_reason_phrase := rs_reason_phrase m, hp_state := COMPLETE, hp_headers := msg_headers m,
         hp_body := msg_body m, hp_buffer := [], hp_expected_body_length := n, hp_headers_complete := True\<rparr>)"
    by (auto simp: rs_to_string_text)
  have "0 < length (rs_to_string m)" by (simp add: rs_to_string_def)
  then show ?thesis
    unfolding rs_parse_def parse using m assms(4) by (cases m; cases q) auto
qed

definition example_not_found :: HttpResponseMsg where
  "example_not_found = create_error 0 404 [] \<lparr>ver_major = 1, ver_minor = 1\<rparr>"

theorem response_travels_witness:
  "\<exists>p. rs_parse (rs_to_string example_not_found @ ''HTTP'') (HttpResponse_default 0) =
     (int (length (rs_to_string example_not_found)), example_not_found\<lparr>rs_parser := p\<rparr>) \<and> hp_state p = COMPLETE"
proof (rule response_travels)
  show "sendable_response example_not_found" by code_simp
  have "length (rs_to_string example_not_found) < 200" by code_simp
  then show "length (rs_to_string example_not_found) < 2 ^ 31" by simp
  show "HttpResponse_default 0 = HttpResponse_default 0 \<or> HttpResponse_default 0 = rs_reset q0" for q0 by simp
  show "msg_is_response (HttpResponse_default 0)" by code_simp
qed

section \<open>The header table\<close>

text \<open>
  \<open>set_header\<close> and \<open>remove_header\<close> make the table a map from lower-case names to values: the interface
  of the ordered maps.
\<close>

lemma map_of_memplace: "k \<notin> fst ` set m \<Longrightarrow> map_of (memplace k v m) = (map_of m)(k \<mapsto> v)"
  by (induction k v m rule: memplace.induct) (auto simp: fun_upd_twist)

definition header_put :: "string \<Rightarrow> string \<Rightarrow> headers \<Rightarrow> headers" where
  "header_put name value hs = memplace name value (merase name hs)"

lemma merase_fresh [simp]: "k \<notin> fst ` set (merase k m)"
  by (auto simp: merase_def)

lemma normalize_lower [simp]: "normalize_header_name = to_lower"
  by (rule ext) (simp add: normalize_header_name_def to_lower_def)

interpretation hdr: assoc_store map_of header_put merase "\<lambda>hs. sorted (map fst hs)"
proof
  fix k :: string and v and m :: headers
  show "map_of (header_put k v m) = (map_of m)(k \<mapsto> v)"
    by (simp add: header_put_def map_of_memplace map_of_merase)
  show "map_of (merase k m) = (map_of m)(k := None)" by (rule map_of_merase)
  assume "sorted (map fst m)"
  then have s: "sorted (map fst (merase k m))" by (simp add: merase_def sorted_filter)
  then show "sorted (map fst (merase k m))" .
  show "sorted (map fst (header_put k v m))" by (simp add: header_put_def sorted_memplace s)
qed

lemma msg_set_header_put: "msg_headers (msg_set_header name v m) = header_put (to_lower name) v (msg_headers m)"
  by (simp add: msg_set_header_def header_put_def Let_def)

lemma header_access:
  "msg_get_header name (msg_set_header name' v m) =
     (if to_lower name = to_lower name' then v else msg_get_header name m)"
  "msg_get_header name (msg_remove_header name' m) =
     (if to_lower name = to_lower name' then [] else msg_get_header name m)"
  "msg_has_header name (msg_remove_header name' m) \<longleftrightarrow> to_lower name \<noteq> to_lower name' \<and> msg_has_header name m"
  by (simp_all add: msg_get_header_def msg_has_header_def msg_set_header_put msg_remove_header_def
      find_header_def hdr.find_put hdr.find_erase)

lemma printable_put:
  assumes "printable hs" "field_ok (k, v)" "CR \<notin> set k" "CR \<notin> set v"
  shows "printable (header_put k v hs)"
proof -
  have "sorted (map fst (header_put k v hs))"
    using assms(1) by (intro hdr.ok_put) (simp add: printable_def headers_ok_def)
  with assms show ?thesis
    by (auto simp: printable_def headers_ok_def header_put_def merase_def)
qed

section \<open>What the factory methods build\<close>

definition plain_value :: "string \<Rightarrow> bool" where
  "plain_value v \<longleftrightarrow> trimmed v \<and> CR \<notin> set v"

lemma trimmed_names [simp]: "trimmed ''content-length''" "trimmed ''content-type''"
  by (simp_all add: trimmed_def is_blank_def)

lemma framed_length:
  assumes "length body < 2 ^ 63"
  shows "framed (header_put ''content-length'' (int_dec (int (length body))) hs) body"
proof -
  have "stoll (int_dec (int (length body))) = Inr (int (length body))"
    using assms by (auto simp: stoll_def intro!: sto_signed_int_dec)
  moreover have "int_dec (int (length body)) \<noteq> []" by (simp add: int_dec_def)
  ultimately show ?thesis
    by (simp add: framed_def find_header_def hdr.find_put_same length_value_def)
qed

lemma printable_length: "printable hs \<Longrightarrow> printable (header_put ''content-length'' (int_dec i) hs)"
proof (rule printable_put)
  have "CR \<notin> set (int_dec i)" using int_dec_chars by (fastforce simp: is_digit_def)
  then show "CR \<notin> set (int_dec i)" .
  show "field_ok (''content-length'', int_dec i)" by (simp add: field_ok_def int_dec_trimmed)
qed simp_all

lemma printable_type: "printable hs \<Longrightarrow> plain_value t \<Longrightarrow> printable (header_put ''content-type'' t hs)"
  by (intro printable_put) (simp_all add: field_ok_def plain_value_def)

lemma printable_Nil [simp]: "printable []"
  by (simp add: printable_def)

lemma update_length_unchunked:
  assumes "msg_get_header ''transfer-encoding'' m = []"
  shows "msg_update_content_length m =
    m\<lparr>msg_headers := header_put ''content-length'' (int_dec (int (length (msg_body m)))) (msg_headers m)\<rparr>"
  using assms
  by (simp add: msg_update_content_length_def msg_is_chunked_def msg_set_content_length_def msg_set_header_def
      header_put_def Let_def)

lemma HttpRequest_new_sel [simp]:
  "msg_headers (HttpRequest_new i x u v) = []" "msg_body (HttpRequest_new i x u v) = []"
  "msg_is_response (HttpRequest_new i x u v) = False" "msg_version (HttpRequest_new i x u v) = v"
  "rq_method (HttpRequest_new i x u v) = x" "rq_uri (HttpRequest_new i x u v) = u"
  "rq_path (HttpRequest_new i x u v) = fst (split_uri u)" "rq_query (HttpRequest_new i x u v) = snd (split_uri u)"
  by (simp_all add: HttpRequest_new_def rq_parse_uri_def msg_set_version_def HttpMessage_new_def HttpMessage.defs HttpRequestMsg.defs)

lemma HttpResponse_new_sel [simp]:
  "msg_headers (HttpResponse_new i c r v) = []" "msg_body (HttpResponse_new i c r v) = []"
  "msg_is_response (HttpResponse_new i c r v) = True" "msg_version (HttpResponse_new i c r v) = v"
  "rs_status_code (HttpResponse_new i c r v) = c"
  "rs_reason_phrase (HttpResponse_new i c r v) = (if r = [] then get_default_reason_phrase c else r)"
  by (simp_all add: HttpResponse_new_def msg_set_version_def HttpMessage_new_def HttpMessage.defs HttpResponseMsg.defs)

text \<open>A body with its type and length, as all factory methods set them.\<close>

lemma typed_body:
  fixes m :: "'a HttpMessage_scheme"
  assumes "msg_headers m = []" "plain_value t" "length body < 2 ^ 63"
  defines "m' \<equiv> msg_update_content_length (msg_set_header ''content-type'' t (msg_set_body body m))"
  shows "printable (msg_headers m') \<and> framed (msg_headers m') body \<and> (\<exists>hs. m' = m\<lparr>msg_body := body, msg_headers := hs\<rparr>)"
proof -
  let ?m = "msg_set_header ''content-type'' t (msg_set_body body m)"
  have m: "?m = m\<lparr>msg_body := body, msg_headers := header_put ''content-type'' t []\<rparr>"
    using assms(1) by (simp add: msg_set_header_def msg_set_body_def header_put_def Let_def)
  have "msg_get_header ''transfer-encoding'' ?m = []"
    using assms(1) by (simp add: header_access msg_set_body_def) (simp add: msg_get_header_def find_header_def)
  from update_length_unchunked [OF this] have "m' = ?m\<lparr>msg_headers :=
      header_put ''content-length'' (int_dec (int (length body))) (header_put ''content-type'' t [])\<rparr>"
    unfolding m'_def by (simp add: m)
  with assms(2,3) show ?thesis
    by (auto simp: m printable_length printable_type framed_length)
qed

lemma default_reason: "CR \<notin> set (get_default_reason_phrase c) \<and> length (get_default_reason_phrase c) < 100"
proof (cases "map_of reason_phrases c")
  case (Some r)
  then have "r \<in> snd ` set reason_phrases" by (metis map_of_SomeD snd_conv image_eqI)
  then have "CR \<notin> set r \<and> length r < 100" by (auto simp: reason_phrases_def)
  with Some show ?thesis by (simp add: get_default_reason_phrase_def)
qed (simp add: get_default_reason_phrase_def)

definition one_digit_version :: "HttpVersion \<Rightarrow> bool" where
  "one_digit_version v \<longleftrightarrow> 0 \<le> ver_major v \<and> ver_major v \<le> 9 \<and> 0 \<le> ver_minor v \<and> ver_minor v \<le> 9"

text \<open>
  What the factory methods build can be sent: for a target without white space, a content type
  without carriage return and outer blanks and a one-digit version, the requests of \<open>create_get\<close> and
  \<open>create_post\<close> and the responses of \<open>create_ok\<close>, \<open>create_json\<close> and \<open>create_error\<close> have a printable
  header table and a \<open>Content-Length\<close> that is the length of the body they were given.
\<close>

theorem factory_messages_sendable:
  assumes "is_word uri" "plain_value t" "one_digit_version v" "length body < 2 ^ 63"
    and "100 \<le> code" "code \<le> 999" "CR \<notin> set message" "length message < 2 ^ 62"
  shows "sendable_request (create_get i uri v) \<and>
    sendable_request (create_post i uri body t v) \<and> msg_body (create_post i uri body t v) = body \<and>
    sendable_response (create_ok j body t v) \<and> msg_body (create_ok j body t v) = body \<and>
    sendable_response (create_json j body v) \<and> sendable_response (create_error j code message v)"
proof -
  have v: "int32 (ver_major v)" "int32 (ver_minor v)" using assms(3) by (auto simp: one_digit_version_def int32_def)
  have ok: "sendable_response (create_ok j body t v) \<and> msg_body (create_ok j body t v) = body"
    if "plain_value t" for t
    using typed_body [of "HttpResponse_new j 200 ''OK'' v", OF _ that assms(4)] assms(3)
    by (auto simp: sendable_response_def create_ok_def one_digit_version_def)
  have "msg_get_header ''transfer-encoding'' (HttpRequest_new i GET uri v) = []"
    by (simp add: msg_get_header_def find_header_def)
  from update_length_unchunked [OF this] have "sendable_request (create_get i uri v)"
    using assms(1) v framed_length [of "[]" "[]"] printable_length [of "[]" 0]
    by (simp add: sendable_request_def create_get_def)
  moreover have "sendable_request (create_post i uri body t v) \<and> msg_body (create_post i uri body t v) = body"
    using typed_body [of "HttpRequest_new i POST uri v", OF _ assms(2,4)] assms(1) v
    by (auto simp: sendable_request_def create_post_def)
  moreover have "sendable_response (create_json j body v)"
    using ok [of "''application/json''"] by (simp add: create_json_def plain_value_def trimmed_def is_blank_def)
  moreover have "sendable_response (create_error j code message v)"
  proof -
    let ?r = "if message = [] then get_default_reason_phrase code else message"
    let ?b = "''<html><body><h1>'' @ int_dec code @ '' '' @ ?r @ ''</h1></body></html>''"
    obtain x y z where "int_dec code = [x, y, z]" using three_digits [OF assms(5,6)] by blast
    then have "length ?b < 2 ^ 63" using assms(8) default_reason [of code] by simp
    from typed_body [of "HttpResponse_new j code ?r v" "''text/html''", OF _ _ this] assms(3,5-7) default_reason [of code]
    show ?thesis
      by (auto simp: sendable_response_def create_error_def one_digit_version_def plain_value_def trimmed_def is_blank_def Let_def)
  qed
  ultimately show ?thesis using ok [OF assms(2)] by simp
qed

theorem factory_messages_sendable_witness:
  "sendable_request (create_post GET ''/a'' ''hello'' ''text/plain'' \<lparr>ver_major = 1, ver_minor = 1\<rparr>) \<and>
   sendable_response (create_error 0 404 ''gone'' \<lparr>ver_major = 1, ver_minor = 1\<rparr>)"
  using factory_messages_sendable [of "''/a''" "''text/plain''" "\<lparr>ver_major = 1, ver_minor = 1\<rparr>" "''hello''"
      404 "''gone''" GET 0]
  by (simp add: is_word_def is_space_def plain_value_def trimmed_def is_blank_def one_digit_version_def)

text \<open>
  \<open>set_status_code\<close> compares the reason with the default of the new code, after it has stored it: the default
  reason of the old code stays.
\<close>

lemma status_keeps_old_reason:
  "rs_status_code (set_status_code 404 (HttpResponse_default i)) = 404 \<and>
   rs_reason_phrase (set_status_code 404 (HttpResponse_default i)) = ''OK''"
  by (simp add: set_status_code_def HttpResponse_default_def HttpMessage.defs HttpResponseMsg.defs HttpMessage_new_def
      get_default_reason_phrase_def reason_phrases_def)

section \<open>Query parameters\<close>

fun query_text :: "(string \<times> string) list \<Rightarrow> string" where
  "query_text [] = []"
| "query_text [(k, v)] = k @ ''='' @ v"
| "query_text ((k, v) # ps) = k @ ''='' @ v @ ''&'' @ query_text ps"

lemma add_query_param_pair: "CHR ''='' \<notin> set k \<Longrightarrow> add_query_param m (k @ ''='' @ v) = mput k v m"
  using find_char_append [of "CHR ''=''" k v] by (simp add: add_query_param_def)

lemma query_pieces:
  assumes "\<forall>(k, v) \<in> set ps. CHR ''&'' \<notin> set k \<and> CHR ''&'' \<notin> set v"
  shows "getdelims (CHR ''&'') (query_text ps) = map (\<lambda>(k, v). k @ ''='' @ v) ps"
  using assms
proof (induction ps rule: query_text.induct)
  case (2 k v)
  then show ?case by (simp add: getdelims_last)
next
  case (3 k v p ps)
  then show ?case using getdelims_piece [of "CHR ''&''" "k @ ''='' @ v"] by simp
qed simp

text \<open>
  Query parameters are read back: for a target that ends in a question mark and pairs \<open>k=v\<close> joined by
  ampersands, looking up a name gives the value of its last pair, and nothing for other names.
\<close>

theorem query_params_read:
  assumes "\<forall>(k, v) \<in> set ps. CHR ''&'' \<notin> set k \<and> CHR ''='' \<notin> set k \<and> CHR ''&'' \<notin> set v" "CHR ''?'' \<notin> set path"
  shows "get_query_param name (rq_set_uri (path @ ''?'' @ query_text ps) m) =
    (case map_of (rev ps) name of Some v \<Rightarrow> v | None \<Rightarrow> [])"
proof -
  let ?m = "rq_set_uri (path @ ''?'' @ query_text ps) m"
  have q: "rq_query ?m = query_text ps"
    using find_char_append [OF assms(2), of "query_text ps"] by (simp add: rq_set_uri_def rq_parse_uri_def split_uri_def)
  have fold: "map_of (foldl add_query_param a (map (\<lambda>(k, v). k @ ''='' @ v) ps)) = map_of a ++ map_of (rev ps)" for a
    using assms(1)
  proof (induction ps arbitrary: a)
    case (Cons x ps)
    obtain k v where x: "x = (k, v)" by (cases x)
    with Cons.prems have "add_query_param a (k @ ''='' @ v) = mput k v a" by (intro add_query_param_pair) auto
    with Cons x show ?case by (simp add: map_of_mput map_add_upd_left map_add_assoc)
  qed simp
  have "map_of (get_query_params ?m) = map_of (rev ps)"
  proof (cases "ps = []")
    case False
    then have "query_text ps \<noteq> []" by (cases ps rule: query_text.cases) auto
    moreover have pieces: "getdelims (CHR ''&'') (query_text ps) = map (\<lambda>(k, v). k @ ''='' @ v) ps"
      using assms(1) by (intro query_pieces) auto
    ultimately show ?thesis unfolding get_query_params_def q pieces using fold [of "[]"] by simp
  next
    case True
    with q have "rq_query ?m = []" by simp
    with True show ?thesis unfolding get_query_params_def by simp
  qed
  then show ?thesis by (simp add: get_query_param_def find_header_def)
qed

theorem query_params_read_witness:
  "get_query_param ''b'' (rq_set_uri (''/x'' @ ''?'' @ query_text [(''a'', ''1''), (''b'', ''2''), (''b'', ''3'')]) (HttpRequest_default GET)) = ''3''"
  using query_params_read [of "[(''a'', ''1''), (''b'', ''2''), (''b'', ''3'')]" "''/x''" "''b''" "HttpRequest_default GET"]
  by simp

end
