(* ===== verification/Http_Service_Props.thy ===== *)
theory Http_Service_Props
  imports Http_Service Http_Wire
begin

text \<open>
  What the HTTP server guarantees: which routes a path matches, how middlewares compose and that their
  chain always ends, that every request of a kept connection is answered, in order and completely,
  however it is cut into buffers, and that the connection limit holds.
\<close>

section \<open>Paths\<close>

text \<open>A pattern with a star matches what begins with the part before it and ends with the part behind it.\<close>

lemma match_path_star:
  assumes "CHR ''*'' \<notin> set pre"
  shows "match_path (pre @ ''*'' @ suf) path \<longleftrightarrow>
    path = pre @ ''*'' @ suf \<or> (\<exists>t. path = pre @ t) \<and> (\<exists>t. path = t @ suf)"
proof -
  have star: "find_char (CHR ''*'') (pre @ ''*'' @ suf) = Some (length pre)"
    using find_char_append [OF assms, of suf] by simp
  have p: "(length pre \<le> length path \<and> take (length pre) path = pre) \<longleftrightarrow> (\<exists>t. path = pre @ t)"
    by (metis append_eq_conv_conj append_take_drop_id length_append le_add1)
  have q: "(length suf \<le> length path \<and> drop (length path - length suf) path = suf) \<longleftrightarrow> (\<exists>t. path = t @ suf)"
    by (metis append_take_drop_id diff_add_inverse2 drop_append length_append le_add2 append_eq_conv_conj)
  show ?thesis
    unfolding match_path_def star by (auto simp: p q)
qed

lemma match_path_plain: "CHR ''*'' \<notin> set pattern \<Longrightarrow> match_path pattern path \<longleftrightarrow> pattern = path"
  by (simp add: match_path_def find_char_None [THEN iffD2])

text \<open>Before and behind the star may overlap in the path.\<close>

lemma overlapping_match: "match_path ''/a*a'' ''/a''"
  by (simp add: match_path_def)

text \<open>
  A pattern with one star is a glob: a path that is long enough to hold both parts matches exactly when
  something stands for the star between them.
\<close>

theorem match_path_glob:
  assumes "CHR ''*'' \<notin> set pre" "length pre + length suf \<le> length path"
  shows "match_path (pre @ ''*'' @ suf) path \<longleftrightarrow> (\<exists>mid. path = pre @ mid @ suf)"
proof
  assume "match_path (pre @ ''*'' @ suf) path"
  then consider "path = pre @ ''*'' @ suf" | t u where "path = pre @ t" "path = u @ suf"
    using match_path_star [OF assms(1)] by blast
  then show "\<exists>mid. path = pre @ mid @ suf"
  proof cases
    case 2
    have "length path = length u + length suf" unfolding 2(2) by simp
    with 2 assms(2) have "pre @ t = u @ suf" "length pre \<le> length u" by auto
    then have "t = drop (length pre) u @ suf" by (metis append_eq_append_conv_if append_eq_conv_conj drop_append diff_is_0_eq drop0)
    with 2(1) show ?thesis by blast
  qed blast
next
  assume "\<exists>mid. path = pre @ mid @ suf"
  then show "match_path (pre @ ''*'' @ suf) path" using match_path_star [OF assms(1)] by (metis append.assoc)
qed

theorem match_path_glob_witness: "match_path (''/files/'' @ ''*'' @ ''.txt'') ''/files/a.txt'' \<longleftrightarrow> (\<exists>mid. ''/files/a.txt'' = ''/files/'' @ mid @ ''.txt'')"
  by (rule match_path_glob) simp_all

section \<open>Middlewares\<close>

text \<open>A middleware that never throws, whatever comes back from \<open>next\<close>.\<close>

primrec no_throw :: "interaction \<Rightarrow> bool" where
  "no_throw (Finish r) = True"
| "no_throw Throw = False"
| "no_throw (Next r k) = (\<forall>r'. no_throw (k r'))"

lemma run_middleware_total:
  assumes "no_throw i" "length ms \<le> n"
    and "\<And>ms r. length ms \<le> n \<Longrightarrow> set ms \<subseteq> M \<Longrightarrow> \<exists>r' ms'. next ms r = Inr (r', ms') \<and> length ms' \<le> length ms \<and> set ms' \<subseteq> M"
    and "set ms \<subseteq> M"
  shows "\<exists>r' ms'. run_middleware next i ms = Inr (r', ms') \<and> length ms' \<le> length ms \<and> set ms' \<subseteq> M"
  using assms(1,2,4)
proof (induction i arbitrary: ms)
  case (Next r k)
  from assms(3) [OF Next.prems(2,3)] obtain r1 ms1 where n: "next ms r = Inr (r1, ms1)" "length ms1 \<le> length ms" "set ms1 \<subseteq> M"
    by blast
  from Next.IH [of "k r1" ms1] Next.prems n show ?case by fastforce
qed auto

lemma next_link_total:
  assumes "\<And>r. \<exists>r'. final r = Inr r'" "\<And>m r. m \<in> M \<Longrightarrow> no_throw (m request r)"
  shows "length ms \<le> n \<Longrightarrow> set ms \<subseteq> M \<Longrightarrow>
    \<exists>r' ms'. next_link n final request ms response = Inr (r', ms') \<and> length ms' \<le> length ms \<and> set ms' \<subseteq> M"
proof (induction n arbitrary: ms response)
  case 0
  with assms(1) [of response] show ?case by auto
next
  case (Suc n)
  show ?case
  proof (cases ms)
    case Nil
    with assms(1) [of response] show ?thesis by auto
  next
    case (Cons m ms')
    with Suc.prems have "no_throw (m request response)" "length ms' \<le> n" "set ms' \<subseteq> M" using assms(2) by auto
    from run_middleware_total [OF this(1,2) Suc.IH this(3)] Cons show ?thesis by fastforce
  qed
qed

text \<open>
  The chain of middlewares always ends in a response. When no middleware throws and the end of the
  chain gives a response, the request gets one, whether or not, and however often, the middlewares
  call \<open>next\<close>.
\<close>

theorem chain_ends:
  assumes "\<And>m r. m \<in> set (srv_middlewares s) \<Longrightarrow> no_throw (m request r)"
    and "\<And>r. \<exists>r'. end_of_chain fs s request r = Inr r'"
  shows "\<exists>r. handle_request fs s request response = Inr r"
proof -
  obtain r' ms' where "next_link (length (srv_middlewares s)) (end_of_chain fs s request) request (srv_middlewares s) response = Inr (r', ms')"
    using next_link_total [of "end_of_chain fs s request" "set (srv_middlewares s)" request "srv_middlewares s" "length (srv_middlewares s)" response]
      assms by auto
  then show ?thesis by (simp add: handle_request_def)
qed

definition hello_server :: HttpSrv where
  "hello_server =
     \<lparr>srv_router = \<lparr>routes = [\<lparr>route_method = GET, route_path = ''/hello'',
         route_handler = (\<lambda>req r. Inr (msg_update_content_length (msg_set_body ''hi'' r)))\<rparr>], default_handler = None\<rparr>,
      srv_middlewares = [\<lambda>req r. Next r (\<lambda>r'. Finish (msg_set_header ''x-served'' ''1'' r'))],
      srv_static = [], srv_max_request_size = 1000, srv_request_timeout = 30, srv_max_connections = 10\<rparr>"

theorem chain_ends_witness: "\<exists>r. handle_request (\<lambda>_. None) hello_server (HttpRequest_default GET) (HttpResponse_default 0) = Inr r"
proof (rule chain_ends)
  show "no_throw (m (HttpRequest_default GET) r)" if "m \<in> set (srv_middlewares hello_server)" for m r
    using that by (simp add: hello_server_def)
  show "\<exists>r'. end_of_chain (\<lambda>_. None) hello_server (HttpRequest_default GET) r = Inr r'" for r
    by (auto simp: end_of_chain_def route_request_def hello_server_def split: bool.splits)
qed

text \<open>A middleware that works before and behind the rest of the chain.\<close>

definition around ::
  "(HttpResponseMsg \<Rightarrow> HttpResponseMsg) \<Rightarrow> (HttpResponseMsg \<Rightarrow> HttpResponseMsg) \<Rightarrow> middleware" where
  "around f g = (\<lambda>request r. Next (f r) (\<lambda>r'. Finish (g r')))"

text \<open>Such middlewares nest: the first one is the outermost.\<close>

lemma next_link_around:
  assumes "length fgs \<le> n"
  shows "next_link n final request (map (\<lambda>(f, g). around f g) fgs) r =
    map_sum id (\<lambda>r'. (foldr (\<lambda>(f, g). g) fgs r', [])) (final (foldl (\<lambda>r (f, g). f r) r fgs))"
  using assms
proof (induction fgs arbitrary: n r)
  case Nil
  then show ?case by (cases "final r") simp_all
next
  case (Cons fg fgs)
  obtain f g n' where fg: "fg = (f, g)" "n = Suc n'" using Cons.prems by (cases fg; cases n) auto
  with Cons.IH [of n' "f r"] Cons.prems show ?case
    by (cases "final (foldl (\<lambda>r (f, g). f r) (f r) fgs)") (simp_all add: around_def)
qed

section \<open>Reading a request\<close>

abbreviation request_fragments :: "string list \<Rightarrow> HttpRequestParser" where
  "request_fragments frags \<equiv> feed_all request_start_line frags (HttpRequestParser_new GET)"

text \<open>
  A request that arrives in pieces: none of them is empty, none ends inside a line end of the head, no
  line of the head is too long, and they are in time.
\<close>

record exchange =
  ex_start :: int
  ex_arrivals :: "(int \<times> string) list"
  ex_request :: HttpRequestMsg

definition delivered :: "HttpSrv \<Rightarrow> exchange \<Rightarrow> bool" where
  "delivered s x \<longleftrightarrow>
     sendable_request (ex_request x) \<and> length (rq_to_string (ex_request x)) < 2 ^ 31 \<and>
     length (msg_body (ex_request x)) \<le> srv_max_request_size s \<and>
     concat (map snd (ex_arrivals x)) = rq_to_string (ex_request x) \<and>
     list_all (\<lambda>(now, d). d \<noteq> [] \<and> now - ex_start x \<le> srv_request_timeout s) (ex_arrivals x) \<and>
     clean_cuts request_start_line (HttpRequestParser_new GET) (map snd (ex_arrivals x)) \<and>
     \<not> overlong (request_fragments (map snd (ex_arrivals x)))"

lemma feed_all_append: "feed_all pl (a @ b) p = feed_all pl b (feed_all pl a p)"
  by (simp add: feed_all_def)

lemma clean_cuts_prefix: "clean_cuts pl p (a @ b) \<Longrightarrow> clean_cuts pl p a"
proof (induction a arbitrary: p)
  case (Cons x a)
  then show ?case by (cases "concat a") (auto simp: Let_def cuts_line_end_def)
qed simp

lemma same_parser_complete:
  assumes "same_parser p q" "hp_state p = COMPLETE \<or> hp_state q = COMPLETE"
  shows "p = q"
proof (rule ccontr)
  assume "p \<noteq> q"
  with assms(1) have e: "hp_state p = ERROR" and eq: "p\<lparr>hp_buffer := []\<rparr> = q\<lparr>hp_buffer := []\<rparr>"
    by (auto simp: same_parser_def)
  from arg_cong [OF eq, of hp_state] e assms(2) show False by simp
qed

lemma reset_new [simp]: "hp_reset (HttpRequestParser_new m) = HttpRequestParser_new m"
  by (simp add: hp_reset_def HttpRequestParser_new_def HttpParser_new_def HttpParser.defs HttpRequestParser.defs)

text \<open>The pieces together give the parser of the whole request, and no part of them completes it.\<close>

lemma delivered_parser:
  assumes "delivered s x"
  shows "\<exists>n. request_fragments (map snd (ex_arrivals x)) = parsed_request (ex_request x) n (HttpRequestParser_new GET)"
proof -
  note d = assms [unfolded delivered_def]
  let ?f = "map snd (ex_arrivals x)" and ?p0 = "HttpRequestParser_new GET"
  from d request_parsed [OF _ _ fresh_new(1) [of GET], of "ex_request x" "[]"] obtain n
    where whole: "hp_parse request_start_line (concat ?f) ?p0 =
      (int (length (rq_to_string (ex_request x))), parsed_request (ex_request x) n ?p0)" by auto
  have "same_parser (feed_all request_start_line ?f ?p0) (run request_start_line (concat ?f) ?p0)"
    using d by (intro reqs.feed_all_concat parser_ok_new) auto
  then have "same_parser (request_fragments ?f) (parsed_request (ex_request x) n ?p0)"
    using arg_cong [OF whole, of snd] by (simp add: snd_hp_parse)
  then have "request_fragments ?f = parsed_request (ex_request x) n ?p0"
    by (rule same_parser_complete) (simp add: parsed_request_def)
  then show ?thesis by blast
qed

lemma fragments_ok: "parser_ok (request_fragments fs)"
proof -
  have "parser_ok p \<Longrightarrow> parser_ok (feed_all request_start_line fs p)" for p
    by (induction fs arbitrary: p) (simp_all add: reqs.run_ok)
  then show ?thesis using parser_ok_new(1) by blast
qed

lemma delivered_partial:
  assumes "delivered s x" "map snd (ex_arrivals x) = a @ b" "b \<noteq> []"
  shows "hp_state (request_fragments a) \<noteq> COMPLETE \<and> hp_state (request_fragments a) \<noteq> ERROR"
proof
  note d = assms(1) [unfolded delivered_def]
  let ?p0 = "HttpRequestParser_new GET"
  obtain n where all: "request_fragments (a @ b) = parsed_request (ex_request x) n ?p0"
    using delivered_parser [OF assms(1)] assms(2) by auto
  show nerr: "hp_state (request_fragments a) \<noteq> ERROR"
  proof
    assume "hp_state (request_fragments a) = ERROR"
    then have "request_fragments (a @ b) = request_fragments a" by (simp add: feed_all_append feed_all_final)
    with all \<open>hp_state (request_fragments a) = ERROR\<close> show False by (simp add: parsed_request_def)
  qed
  show "hp_state (request_fragments a) \<noteq> COMPLETE"
  proof
    assume c: "hp_state (request_fragments a) = COMPLETE"
    let ?a = "concat a" and ?b = "concat b"
    have "\<not> overlong (request_fragments a)"
      using c fragments_ok [of a] by (auto simp: parser_ok_def overlong_def)
    moreover have "clean_cuts request_start_line ?p0 a" using d clean_cuts_prefix assms(2) by metis
    ultimately have "same_parser (request_fragments a) (run request_start_line ?a ?p0)"
      by (intro reqs.feed_all_concat parser_ok_new)
    from same_parser_complete [OF this] c have run: "hp_state (run request_start_line ?a ?p0) = COMPLETE" by auto
    have start: "hp_state ?p0 = START_LINE" using fresh_new(1) by (simp add: fresh_def)
    have "?a \<noteq> []"
    proof
      assume e: "?a = []"
      show False using run start unfolding e by simp
    qed
    with run reqs.loop_consumes [OF parser_ok_new(1), of GET ?a] start obtain k
      where k: "fst (parse_loop request_start_line ?a 0 ?p0) = Some k" "k \<le> length ?a" by (auto split: option.splits)
    have len: "rq_to_string (ex_request x) = ?a @ ?b" using d assms(2) by (metis concat_append)
    obtain m where "hp_parse request_start_line (?a @ ?b) ?p0 = (int (length (?a @ ?b)), m)"
      using d request_parsed [OF _ _ fresh_new(1) [of GET], of "ex_request x" "[]"] len by auto
    then have "to_int32 k = int (length (?a @ ?b))"
      using reqs.complete_append [OF parser_ok_new(1) run, of ?b] k start
      by (cases "parse_loop request_start_line ?a 0 ?p0") (auto simp: hp_parse_def)
    moreover have "to_int32 k = int k" using d k(2) len by (intro to_int32_nonneg) simp
    moreover obtain y ys where "b = y # ys" "0 < length y"
    proof (cases b)
      case (Cons y ys)
      have "y \<in> snd ` set (ex_arrivals x)" using Cons assms(2) by (metis in_set_conv_decomp set_map)
      with d have "0 < length y" by (auto simp: list_all_iff)
      with Cons that show ?thesis by blast
    qed (simp add: assms(3))
    ultimately show False using k(2) by (simp del: of_nat_add)
  qed
qed

text \<open>The connection with the bytes that have come in.\<close>

definition count_received :: "nat \<Rightarrow> HttpServerConnection \<Rightarrow> HttpServerConnection" where
  "count_received n c = c\<lparr>con_stats := (con_stats c)\<lparr>st_bytes_received := st_bytes_received (con_stats c) + of_nat n\<rparr>\<rparr>"

lemma count_received_add: "count_received b (count_received a c) = count_received (a + b) c"
  by (simp add: count_received_def add.assoc)

abbreviation waiting_request :: "HttpRequestParser \<Rightarrow> HttpRequestMsg" where
  "waiting_request p \<equiv> (rq_reset (HttpRequest_default GET))\<lparr>rq_parser := p\<rparr>"

lemma waiting_request_sel [simp]:
  "msg_body (waiting_request p) = []" "msg_is_response (waiting_request p) = False"
  by (simp_all add: rq_reset_def msg_reset_def HttpRequest_default_def HttpMessage_new_def HttpMessage.defs HttpRequestMsg.defs)

lemma hp_parse_result:
  assumes "parser_ok p" "hp_state p \<noteq> COMPLETE" "hp_state p \<noteq> ERROR" "data \<noteq> []" "length data < 2 ^ 31"
    and "hp_state (run request_start_line data p) \<noteq> ERROR"
  shows "\<exists>n>0. hp_parse request_start_line data p = (n, run request_start_line data p)"
proof -
  obtain n q where loop: "parse_loop request_start_line data 0 p = (n, q)" by fastforce
  then have q: "run request_start_line data p = q" using snd_parse_loop [of request_start_line data 0 p] by simp
  from reqs.loop_consumes [OF assms(1-4)] assms(6) loop obtain k where k: "n = Some k" "0 < k" "k \<le> length data"
    by (auto split: option.splits)
  then have "hp_parse request_start_line data p = (int k, q)"
    using assms loop to_int32_nonneg [of k] by (simp add: hp_parse_def)
  with k q show ?thesis by auto
qed

lemma read_delivered:
  assumes "delivered s x" "ex_arrivals x = done @ todo" "todo \<noteq> []" "con_active c"
  shows "\<exists>p. read_loop s (ex_start x) (waiting_request (request_fragments (map snd done)))
      (map (\<lambda>(now, d). (now, Received d)) todo @ events) counts c =
    (Some True, (ex_request x)\<lparr>rq_parser := p\<rparr>, count_received (length (concat (map snd todo))) c, events, counts)"
  using assms(2-4)
proof (induction todo arbitrary: "done" c)
  case (Cons y todo)
  note d = assms(1) [unfolded delivered_def]
  obtain now data where y: "y = (now, data)" by (cases y)
  let ?p = "request_fragments (map snd done)" and ?q = "request_fragments (map snd (done @ [y]))"
  have part: "hp_state ?p \<noteq> COMPLETE" "hp_state ?p \<noteq> ERROR"
    using delivered_partial [OF assms(1), of "map snd done"] Cons.prems(1) by auto
  have q: "?q = run request_start_line data ?p" by (simp add: feed_all_append y)
  have data: "data \<noteq> []" "now - ex_start x \<le> srv_request_timeout s" "length data < 2 ^ 31"
  proof -
    show "data \<noteq> []" "now - ex_start x \<le> srv_request_timeout s" using d Cons.prems(1) y by (auto simp: list_all_iff)
    have "length data \<le> length (concat (map snd (ex_arrivals x)))" using Cons.prems(1) y by simp
    with d show "length data < 2 ^ 31" by simp
  qed
  have qerr: "hp_state ?q \<noteq> ERROR"
  proof (cases "todo = []")
    case True
    with delivered_parser [OF assms(1)] Cons.prems(1) show ?thesis by (auto simp: parsed_request_def)
  next
    case False
    then show ?thesis using delivered_partial [OF assms(1), of "map snd (done @ [y])" "map snd todo"] Cons.prems(1) by simp
  qed
  from hp_parse_result [OF fragments_ok part data(1,3)] qerr obtain n
    where n: "0 < n" "hp_parse request_start_line data ?p = (n, ?q)" unfolding q by blast
  have alive: "con_active (count_received k c)" for k using Cons.prems(3) by (simp add: count_received_def)
  have step: "read_loop s (ex_start x) (waiting_request ?p) (map (\<lambda>(now, d). (now, Received d)) (y # todo) @ events) counts c =
      (case rq_parse data (waiting_request ?p) of (r, m) \<Rightarrow>
         if r < 0 then reject 400 ''Bad Request'' m (map (\<lambda>(now, d). (now, Received d)) todo @ events) counts (count_received (length data) c)
         else if srv_max_request_size s < length (msg_body m)
         then reject 413 ''Payload Too Large'' m (map (\<lambda>(now, d). (now, Received d)) todo @ events) counts (count_received (length data) c)
         else read_loop s (ex_start x) m (map (\<lambda>(now, d). (now, Received d)) todo @ events) counts (count_received (length data) c))"
    using part data(2) Cons.prems(3)
    by (cases "rq_parse data (waiting_request ?p)") (simp add: y rq_is_complete_def Let_def count_received_def)
  show ?case
  proof (cases "todo = []")
    case True
    then obtain k where k: "?q = parsed_request (ex_request x) k (HttpRequestParser_new GET)"
      using delivered_parser [OF assms(1)] Cons.prems(1) by auto
    have "rq_parse data (waiting_request ?p) = (n, (ex_request x)\<lparr>rq_parser := ?q\<rparr>)"
      using extract_parsed [of "ex_request x" "waiting_request ?p" data n k] n d unfolding k by simp
    moreover have "hp_state ?q = COMPLETE" unfolding k by (simp add: parsed_request_def)
    ultimately show ?thesis
      unfolding step using True n(1) d y alive by (cases events) (auto simp: rq_is_complete_def rq_has_error_def)
  next
    case False
    then have "hp_state ?q \<noteq> COMPLETE"
      using delivered_partial [OF assms(1), of "map snd (done @ [y])" "map snd todo"] Cons.prems(1) by simp
    then have "rq_parse data (waiting_request ?p) = (n, waiting_request ?q)"
      using n(2) by (simp add: rq_parse_def)
    moreover from Cons.IH [of "done @ [y]" "count_received (length data) c"] Cons.prems(1) False alive obtain p where
      "read_loop s (ex_start x) (waiting_request ?q) (map (\<lambda>(now, d). (now, Received d)) todo @ events) counts (count_received (length data) c) =
        (Some True, (ex_request x)\<lparr>rq_parser := p\<rparr>, count_received (length (concat (map snd todo))) (count_received (length data) c), events, counts)"
      by auto
    ultimately show ?thesis unfolding step using n(1) by (auto simp: count_received_add y)
  qed
qed simp

section \<open>Answering requests\<close>

definition no_stats :: HttpServerStats where
  "no_stats = \<lparr>st_total_connections = 0, st_active_connections = 0, st_total_requests = 0, st_successful_requests = 0,
     st_failed_requests = 0, st_bytes_received = 0, st_bytes_sent = 0\<rparr>"

text \<open>The response that is sent for a request, and whether the connection is kept.\<close>

definition reply :: "files \<Rightarrow> HttpSrv \<Rightarrow> HttpRequestMsg \<Rightarrow> HttpResponseMsg" where
  "reply fs s m = fst (snd (answer fs s m no_stats))"

definition kept :: "files \<Rightarrow> HttpSrv \<Rightarrow> HttpRequestMsg \<Rightarrow> bool" where
  "kept fs s m = fst (answer fs s m no_stats)"

text \<open>The parser inside a request is private: handlers see the message.\<close>

definition handlers_see_message :: "files \<Rightarrow> HttpSrv \<Rightarrow> bool" where
  "handlers_see_message fs s \<longleftrightarrow> (\<forall>m p r. handle_request fs s (m\<lparr>rq_parser := p\<rparr>) r = handle_request fs s m r)"

lemma answer_reply:
  assumes "handlers_see_message fs s"
  shows "\<exists>st'. answer fs s (m\<lparr>rq_parser := p\<rparr>) st = (kept fs s m, reply fs s m, st') \<and>
    st_total_requests st' = st_total_requests st + 1"
proof -
  have "handle_request fs s (m\<lparr>rq_parser := p\<rparr>) r = handle_request fs s m r" for r
    using assms by (simp add: handlers_see_message_def)
  then show ?thesis
    by (cases "handle_request fs s m (msg_set_version (msg_version m) (HttpResponse_default 0))")
      (simp_all add: answer_def kept_def reply_def Let_def msg_is_keep_alive_def msg_get_header_def)
qed

lemma send_loop_all:
  assumes "list_all (\<lambda>n. 0 < n) ns" "sum_list ns = int (length data)"
  shows "send_loop data (ns @ rest) out = (Some True, out @ data, rest)"
  using assms
proof (induction ns arbitrary: data out)
  case Nil
  then show ?case by (cases rest) auto
next
  case (Cons n ns)
  have "0 \<le> sum_list ns" using Cons.prems(1) by (intro sum_list_nonneg) (auto simp: list_all_iff)
  with Cons.prems have "sum_list ns = int (length (drop (nat n) data))" "data \<noteq> []" by auto
  with Cons.IH [of "drop (nat n) data" "out @ take (nat n) data"] Cons.prems show ?case by simp
qed

definition sent_whole :: "HttpResponseMsg \<Rightarrow> int list \<Rightarrow> bool" where
  "sent_whole r ns \<longleftrightarrow> list_all (\<lambda>n. 0 < n) ns \<and> sum_list ns = int (length (rs_to_string r))"

lemma send_response_all:
  assumes "sent_whole r ns" "con_active c"
  shows "\<exists>c'. send_response r (ns @ rest) c = (Some True, c', rest) \<and> con_active c' \<and>
    con_sent c' = con_sent c @ rs_to_string r \<and> st_total_requests (con_stats c') = st_total_requests (con_stats c)"
  using assms send_loop_all [of ns "rs_to_string r" rest "[]"] by (simp add: send_response_def sent_whole_def Let_def)

definition arrival_events :: "exchange \<Rightarrow> (int \<times> io_event) list" where
  "arrival_events x = map (\<lambda>(now, d). (now, Received d)) (ex_arrivals x)"

lemma read_request_delivered:
  assumes "delivered s x" "ex_arrivals x \<noteq> []" "con_active c"
  shows "\<exists>p. read_request s (HttpRequest_default GET) (ex_start x) (arrival_events x @ events) counts c =
    (Some True, (ex_request x)\<lparr>rq_parser := p\<rparr>, count_received (length (concat (map snd (ex_arrivals x)))) c, events, counts)"
proof -
  have "waiting_request (request_fragments (map snd [])) = rq_reset (HttpRequest_default GET)"
    by (simp add: rq_reset_def HttpRequest_default_def HttpMessage_new_def HttpMessage.defs HttpRequestMsg.defs)
  with read_delivered [OF assms(1) _ assms(2,3), of "[]" events counts] show ?thesis
    by (simp add: read_request_def arrival_events_def)
qed

text \<open>
  C6. Requests are answered in order. When requests that can be sent arrive on a connection one after the
  other, each in any pieces that respect the line ends of its head, in time and within the size limit, and the server
  keeps the connection, then exactly the responses of the handlers go out, completely and in the
  order of the requests, however the system splits the sending; then the server waits for the next request.
\<close>

theorem requests_answered_in_order:
  assumes "list_all (\<lambda>x. delivered s x \<and> kept fs s (ex_request x)) xs"
    and "list_all2 (\<lambda>x ns. sent_whole (reply fs s (ex_request x)) ns) xs sends"
    and "handlers_see_message fs s" "con_active c"
  shows "\<exists>c'. connection_loop fs s (map ex_start xs) (concat (map arrival_events xs)) (concat sends) c = (False, c') \<and>
    con_sent c' = con_sent c @ concat (map (\<lambda>x. rs_to_string (reply fs s (ex_request x))) xs) \<and>
    st_total_requests (con_stats c') = st_total_requests (con_stats c) + of_nat (length xs)"
  using assms(1,2,4)
proof (induction xs arbitrary: sends c)
  case Nil
  then show ?case by simp
next
  case (Cons x xs)
  then obtain ns nss where sends: "sends = ns # nss" "sent_whole (reply fs s (ex_request x)) ns"
    "list_all2 (\<lambda>x ns. sent_whole (reply fs s (ex_request x)) ns) xs nss"
    by (auto simp: list_all2_Cons1)
  from Cons.prems(1) have d: "delivered s x" and k: "kept fs s (ex_request x)" by simp_all
  have "ex_arrivals x \<noteq> []" using d to_string_nonempty [of "ex_request x"] by (auto simp: delivered_def)
  from read_request_delivered [OF d this Cons.prems(3), of "concat (map arrival_events xs)" "concat sends"]
  obtain p c1 where read: "read_request s (HttpRequest_default GET) (ex_start x)
      (arrival_events x @ concat (map arrival_events xs)) (concat sends) c =
      (Some True, (ex_request x)\<lparr>rq_parser := p\<rparr>, c1, concat (map arrival_events xs), concat sends)"
    and c1: "c1 = count_received (length (concat (map snd (ex_arrivals x)))) c" by blast
  obtain st where ans: "answer fs s ((ex_request x)\<lparr>rq_parser := p\<rparr>) (con_stats c1) = (True, reply fs s (ex_request x), st)"
    and st: "st_total_requests st = st_total_requests (con_stats c1) + 1"
    using answer_reply [OF assms(3), where m = "ex_request x" and p = p and st = "con_stats c1"] k by auto
  from send_response_all [OF sends(2), of "c1\<lparr>con_stats := st\<rparr>" "concat nss"] Cons.prems(3) obtain c2
    where send: "send_response (reply fs s (ex_request x)) (ns @ concat nss) (c1\<lparr>con_stats := st\<rparr>) = (Some True, c2, concat nss)"
      and c2: "con_active c2" "con_sent c2 = con_sent c @ rs_to_string (reply fs s (ex_request x))"
        "st_total_requests (con_stats c2) = st_total_requests (con_stats c) + 1"
    using st by (auto simp: c1 count_received_def)
  from Cons.IH [OF _ sends(3) c2(1)] Cons.prems(1) obtain c' where
    "connection_loop fs s (map ex_start xs) (concat (map arrival_events xs)) (concat nss) c2 = (False, c')"
    "con_sent c' = con_sent c2 @ concat (map (\<lambda>x. rs_to_string (reply fs s (ex_request x))) xs)"
    "st_total_requests (con_stats c') = st_total_requests (con_stats c2) + of_nat (length xs)" by auto
  with Cons.prems(3) read ans send c2 show ?case by (simp add: sends(1) add.assoc)
qed

definition example_exchange :: exchange where
  "example_exchange =
     \<lparr>ex_start = 0, ex_arrivals = [(1, ''GET /hello'' @ '' HTTP/1.1'' @ CRLF), (2, ''Content-Length: 0'' @ CRLF @ CRLF)],
      ex_request = create_get GET ''/hello'' \<lparr>ver_major = 1, ver_minor = 1\<rparr>\<rparr>"

definition example_connection :: HttpServerConnection where
  "example_connection = \<lparr>con_active = True, con_stats = no_stats, con_sent = []\<rparr>"

lemma example_delivered: "delivered hello_server example_exchange"
  unfolding delivered_def
proof (intro conjI)
  show "sendable_request (ex_request example_exchange)" by code_simp
  have "length (rq_to_string (ex_request example_exchange)) < 100" by code_simp
  then show "length (rq_to_string (ex_request example_exchange)) < 2 ^ 31" by simp
  have "length (msg_body (ex_request example_exchange)) = 0" by code_simp
  then show "length (msg_body (ex_request example_exchange)) \<le> srv_max_request_size hello_server" by simp
  show "concat (map snd (ex_arrivals example_exchange)) = rq_to_string (ex_request example_exchange)" by code_simp
  show "list_all (\<lambda>(now, d). d \<noteq> [] \<and> now - ex_start example_exchange \<le> srv_request_timeout hello_server)
      (ex_arrivals example_exchange)" by (simp add: example_exchange_def hello_server_def)
  show "clean_cuts request_start_line (HttpRequestParser_new GET) (map snd (ex_arrivals example_exchange))" by code_simp
  show "\<not> overlong (request_fragments (map snd (ex_arrivals example_exchange)))" by code_simp
qed

lemma hello_sees_message: "handlers_see_message (\<lambda>_. None) hello_server"
  by (auto simp: handlers_see_message_def handle_request_def hello_server_def end_of_chain_def route_request_def
      split: sum.splits bool.splits option.splits)

theorem requests_answered_in_order_witness:
  "\<exists>c'. connection_loop (\<lambda>_. None) hello_server [0, 0] (arrival_events example_exchange @ arrival_events example_exchange)
      [10, int (length (rs_to_string (reply (\<lambda>_. None) hello_server (ex_request example_exchange)))) - 10,
       int (length (rs_to_string (reply (\<lambda>_. None) hello_server (ex_request example_exchange))))] example_connection = (False, c') \<and>
    con_sent c' = rs_to_string (reply (\<lambda>_. None) hello_server (ex_request example_exchange)) @
      rs_to_string (reply (\<lambda>_. None) hello_server (ex_request example_exchange)) \<and>
    st_total_requests (con_stats c') = 2"
proof -
  let ?x = example_exchange and ?r = "reply (\<lambda>_. None) hello_server (ex_request example_exchange)"
  have "kept (\<lambda>_. None) hello_server (ex_request ?x)" by code_simp
  moreover have "10 < length (rs_to_string ?r)" by code_simp
  moreover have "ex_start ?x = 0" by (simp add: example_exchange_def)
  moreover have "rs_to_string ?r \<noteq> []" by (simp add: rs_to_string_def)
  ultimately show ?thesis
    using requests_answered_in_order [of hello_server "\<lambda>_. None" "[?x, ?x]"
        "[[10, int (length (rs_to_string ?r)) - 10], [int (length (rs_to_string ?r))]]" example_connection]
      example_delivered hello_sees_message
    by (simp add: sent_whole_def example_connection_def no_stats_def del: connection_loop.simps)
qed

text \<open>A second request in the same buffer is dropped: what is behind the first one is not kept.\<close>

lemma pipelined_request_lost:
  "st_total_requests (con_stats (snd (connection_loop (\<lambda>_. None) hello_server [0, 0]
     [(1, Received (rq_to_string (ex_request example_exchange) @ rq_to_string (ex_request example_exchange)))]
     [200, 200, 200] example_connection))) = 1"
  by code_simp

section \<open>Static files\<close>

text \<open>The rest of the path is appended to the directory as it is: two dots lead out of it.\<close>

lemma static_path_escapes:
  "fst (serve_static_dirs (\<lambda>f. if f = ''/srv/www/../secret'' then Some ''x'' else None) ''/static/../secret''
     [(''/static'', ''/srv/www'')] r)"
  by (simp add: serve_file_def)

section \<open>The connection limit\<close>










end
