(* ===== verification/Http_Pool.thy ===== *)
theory Http_Pool
  imports CppString
begin

text \<open>
  The client connections and their pool in \<open>zsxq-cpp-ai/StdHTTPS\<close> (\<open>include/connection_pool.h\<close>,
  \<open>src/connection_pool.cpp\<close>).

  \<^item> A connection object keeps whether its socket is open, its state and the time of its last use. What
    the system calls and the TLS handshake give is an argument; TLS itself is not modelled.
  \<^item> Connections are shared between the pool and its clients: they live in a store and are named by
    numbers. The pool has a queue of idle and a list of active connections per host key.
  \<^item> \<open>get_connection\<close> releases its lock while it connects, so it is two steps: \<open>get_begin\<close> (reuse, or
    check the limit) and \<open>get_finish\<close> (connect and enter the connection). Waiting for the condition
    variable is \<open>get_wake\<close>.
  \<^item> An object that nobody points to any more stays in the store as it was: its destructor is not modelled.
\<close>

section \<open>Connections\<close>

datatype ConnectionState = CONNECTING | CONNECTED | IDLE | BUSY | CLOSING | CLOSED | CONN_ERROR

record HttpConnection =
  hc_host :: string
  hc_port :: int
  hc_use_ssl :: bool
  hc_socket_open :: bool
  hc_state :: ConnectionState
  hc_keep_alive :: bool
  hc_last_used :: time_point
  hc_ssl_ctx :: bool

definition HttpConnection_new :: "string \<Rightarrow> int \<Rightarrow> bool \<Rightarrow> time_point \<Rightarrow> HttpConnection" where
  "HttpConnection_new host port use_ssl now =
     \<lparr>hc_host = host, hc_port = port, hc_use_ssl = use_ssl, hc_socket_open = False, hc_state = CLOSED,
      hc_keep_alive = False, hc_last_used = now, hc_ssl_ctx = False\<rparr>"

definition hc_touch :: "time_point \<Rightarrow> HttpConnection \<Rightarrow> HttpConnection" where
  "hc_touch now c = c\<lparr>hc_last_used := now\<rparr>"

definition hc_cleanup :: "HttpConnection \<Rightarrow> HttpConnection" where
  "hc_cleanup c = c\<lparr>hc_socket_open := False\<rparr>"

text \<open>What the system calls of \<open>connect\<close> give.\<close>

datatype socket_result = Socket_Ok | Socket_Failed | Nonblock_Failed

record network =
  net_socket :: socket_result
  net_connect :: bool
  net_handshake :: bool

definition create_socket :: "network \<Rightarrow> HttpConnection \<Rightarrow> bool \<times> HttpConnection" where
  "create_socket net c =
     (case net_socket net of
        Socket_Failed \<Rightarrow> (False, c\<lparr>hc_socket_open := False\<rparr>)
      | Nonblock_Failed \<Rightarrow> (False, c\<lparr>hc_socket_open := True\<rparr>)
      | Socket_Ok \<Rightarrow> (True, c\<lparr>hc_socket_open := True\<rparr>))"

definition hc_connect :: "network \<Rightarrow> time_point \<Rightarrow> HttpConnection \<Rightarrow> bool \<times> HttpConnection" where
  "hc_connect net now c =
     (if hc_state c = CONNECTED then (True, c)
      else let c1 = (hc_cleanup c)\<lparr>hc_state := CONNECTING\<rparr>
           in case create_socket net c1 of
                (False, c2) \<Rightarrow> (False, c2\<lparr>hc_state := CONN_ERROR\<rparr>)
              | (True, c2) \<Rightarrow>
                  (if \<not> net_connect net then (False, (hc_cleanup c2)\<lparr>hc_state := CONN_ERROR\<rparr>)
                   else if hc_use_ssl c2 \<and> (\<not> hc_ssl_ctx c2 \<or> \<not> net_handshake net)
                   then (False, (hc_cleanup c2)\<lparr>hc_state := CONN_ERROR\<rparr>)
                   else (True, hc_touch now (c2\<lparr>hc_state := CONNECTED\<rparr>))))"

text \<open>\<open>receive\<close> on a plain connection: the results of \<open>poll\<close> and \<open>recv\<close>.\<close>

definition hc_receive :: "int \<Rightarrow> int \<Rightarrow> time_point \<Rightarrow> HttpConnection \<Rightarrow> int \<times> HttpConnection" where
  "hc_receive poll_result bytes_received now c =
     (if hc_state c \<noteq> CONNECTED then (-1, c)
      else if poll_result \<le> 0 then (-1, c)
      else if 0 < bytes_received then (bytes_received, hc_touch now c)
      else if bytes_received = 0 then (-1, c\<lparr>hc_state := CLOSED\<rparr>)
      else (-1, c))"

definition hc_close :: "HttpConnection \<Rightarrow> HttpConnection" where
  "hc_close c =
     (if hc_state c = CLOSED then c else (hc_cleanup (c\<lparr>hc_state := CLOSING\<rparr>))\<lparr>hc_state := CLOSED\<rparr>)"

text \<open>60 seconds, in nanoseconds.\<close>

definition hc_is_expired :: "time_point \<Rightarrow> HttpConnection \<Rightarrow> bool" where
  "hc_is_expired now c \<longleftrightarrow> 60000000000 < now - hc_last_used c"

definition hc_is_reusable :: "time_point \<Rightarrow> HttpConnection \<Rightarrow> bool" where
  "hc_is_reusable now c \<longleftrightarrow> hc_keep_alive c \<and> hc_state c = CONNECTED \<and> \<not> hc_is_expired now c"

definition hc_set_keep_alive :: "bool \<Rightarrow> HttpConnection \<Rightarrow> HttpConnection" where
  "hc_set_keep_alive keep_alive c = c\<lparr>hc_keep_alive := keep_alive\<rparr>"

definition make_connection_key :: "string \<Rightarrow> int \<Rightarrow> bool \<Rightarrow> string" where
  "make_connection_key host port use_ssl =
     host @ '':'' @ int_dec port @ '':'' @ (if use_ssl then ''ssl'' else ''http'')"

definition get_connection_key :: "HttpConnection \<Rightarrow> string" where
  "get_connection_key c =
     hc_host c @ '':'' @ int_dec (hc_port c) @ '':'' @ (if hc_use_ssl c then ''ssl'' else ''http'')"

section \<open>The pool\<close>

record ConnectionStats =
  cs_total_connections :: "64 word"
  cs_active_connections :: "64 word"
  cs_idle_connections :: "64 word"
  cs_failed_connections :: "64 word"

record ConnectionPool =
  cp_max_per_host :: nat
  cp_ssl_initialized :: bool
  cp_store :: "HttpConnection list"
  cp_idle :: "nat list smap"
  cp_active :: "nat list smap"
  cp_stats :: ConnectionStats

definition ConnectionPool_new :: "nat \<Rightarrow> ConnectionPool" where
  "ConnectionPool_new max_per_host =
     \<lparr>cp_max_per_host = max_per_host, cp_ssl_initialized = False, cp_store = [], cp_idle = [], cp_active = [],
      cp_stats = \<lparr>cs_total_connections = 0, cs_active_connections = 0, cs_idle_connections = 0, cs_failed_connections = 0\<rparr>\<rparr>"

definition bucket :: "string \<Rightarrow> nat list smap \<Rightarrow> nat list" where
  "bucket key m = (case map_of m key of Some ids \<Rightarrow> ids | None \<Rightarrow> [])"

definition add_active :: "string \<Rightarrow> nat \<Rightarrow> ConnectionPool \<Rightarrow> ConnectionPool" where
  "add_active key i p =
     p\<lparr>cp_active := mput key (bucket key (cp_active p) @ [i]) (cp_active p),
       cp_stats := (cp_stats p)\<lparr>cs_active_connections := cs_active_connections (cp_stats p) + 1\<rparr>\<rparr>"

datatype begun = Reused nat | Must_Wait | May_Create

text \<open>The first locked section: an idle connection is taken off the queue also when it cannot be reused.\<close>

definition limit_check :: "string \<Rightarrow> ConnectionPool \<Rightarrow> begun" where
  "limit_check key p = (if cp_max_per_host p \<le> length (bucket key (cp_active p)) then Must_Wait else May_Create)"

definition get_begin :: "string \<Rightarrow> int \<Rightarrow> bool \<Rightarrow> time_point \<Rightarrow> ConnectionPool \<Rightarrow> begun \<times> ConnectionPool" where
  "get_begin host port use_ssl now p =
     (let key = make_connection_key host port use_ssl
      in case bucket key (cp_idle p) of
           [] \<Rightarrow> (limit_check key p, p)
         | i # rest \<Rightarrow>
             (let p1 = p\<lparr>cp_idle := mput key rest (cp_idle p)\<rparr>
              in if hc_is_reusable now (cp_store p ! i)
                 then (Reused i,
                       let p2 = add_active key i p1
                       in p2\<lparr>cp_stats := (cp_stats p2)\<lparr>cs_idle_connections := cs_idle_connections (cp_stats p2) - 1\<rparr>\<rparr>)
                 else (limit_check key p1, p1)))"

text \<open>After the wait: the limit is checked again, the idle queue is not. \<open>None\<close> is the null pointer.\<close>

definition get_wake :: "string \<Rightarrow> int \<Rightarrow> bool \<Rightarrow> ConnectionPool \<Rightarrow> begun" where
  "get_wake host port use_ssl p = limit_check (make_connection_key host port use_ssl) p"

text \<open>The rest of \<open>get_connection\<close>: create and connect without the lock, then enter the connection.\<close>

definition get_finish ::
  "string \<Rightarrow> int \<Rightarrow> bool \<Rightarrow> network \<Rightarrow> time_point \<Rightarrow> ConnectionPool \<Rightarrow> nat option \<times> ConnectionPool" where
  "get_finish host port use_ssl net now p =
     (let c0 = HttpConnection_new host port use_ssl now;
          c1 = (if use_ssl \<and> cp_ssl_initialized p then c0\<lparr>hc_ssl_ctx := True\<rparr> else c0);
          i = length (cp_store p)
      in case hc_connect net now c1 of
           (False, c2) \<Rightarrow> (None, p\<lparr>cp_store := cp_store p @ [c2],
                cp_stats := (cp_stats p)\<lparr>cs_failed_connections := cs_failed_connections (cp_stats p) + 1\<rparr>\<rparr>)
         | (True, c2) \<Rightarrow>
             (Some i,
              let p1 = add_active (make_connection_key host port use_ssl) i (p\<lparr>cp_store := cp_store p @ [c2]\<rparr>)
              in p1\<lparr>cp_stats := (cp_stats p1)\<lparr>cs_total_connections := cs_total_connections (cp_stats p1) + 1\<rparr>\<rparr>))"

definition close_in_store :: "nat \<Rightarrow> ConnectionPool \<Rightarrow> ConnectionPool" where
  "close_in_store i p = p\<lparr>cp_store := (cp_store p)[i := hc_close (cp_store p ! i)]\<rparr>"

text \<open>A number without a connection is the null pointer.\<close>

definition return_connection :: "nat \<Rightarrow> bool \<Rightarrow> time_point \<Rightarrow> ConnectionPool \<Rightarrow> ConnectionPool" where
  "return_connection i reusable now p =
     (if length (cp_store p) \<le> i then p
      else let c = cp_store p ! i;
          key = get_connection_key c;
          p1 = (if map_of (cp_active p) key = None then p
                else p\<lparr>cp_active := mput key (filter (\<lambda>j. j \<noteq> i) (bucket key (cp_active p))) (cp_active p)\<rparr>);
          p2 = p1\<lparr>cp_stats := (cp_stats p1)\<lparr>cs_active_connections := cs_active_connections (cp_stats p1) - 1\<rparr>\<rparr>
      in if reusable \<and> hc_is_reusable now c
         then p2\<lparr>cp_idle := mput key (bucket key (cp_idle p2) @ [i]) (cp_idle p2),
                 cp_stats := (cp_stats p2)\<lparr>cs_idle_connections := cs_idle_connections (cp_stats p2) + 1\<rparr>\<rparr>
         else close_in_store i p2)"

definition close_connections :: "string \<Rightarrow> int \<Rightarrow> bool \<Rightarrow> ConnectionPool \<Rightarrow> ConnectionPool" where
  "close_connections host port use_ssl p =
     (let key = make_connection_key host port use_ssl;
          idle = bucket key (cp_idle p);
          active = bucket key (cp_active p);
          p1 = foldl (\<lambda>p i. close_in_store i p) p (idle @ active)
      in p1\<lparr>cp_idle := (if map_of (cp_idle p) key = None then cp_idle p else mput key [] (cp_idle p)),
            cp_active := (if map_of (cp_active p) key = None then cp_active p else mput key [] (cp_active p)),
            cp_stats := (cp_stats p)\<lparr>cs_idle_connections := cs_idle_connections (cp_stats p) - of_nat (length idle),
                                     cs_active_connections := cs_active_connections (cp_stats p) - of_nat (length active)\<rparr>\<rparr>)"

definition close_all_connections :: "ConnectionPool \<Rightarrow> ConnectionPool" where
  "close_all_connections p =
     (let p1 = foldl (\<lambda>p i. close_in_store i p) p (concat (map snd (cp_idle p)) @ concat (map snd (cp_active p)))
      in p1\<lparr>cp_idle := [], cp_active := [],
            cp_stats := (cp_stats p)\<lparr>cs_active_connections := 0, cs_idle_connections := 0\<rparr>\<rparr>)"

text \<open>One bucket of \<open>remove_expired_connections\<close>: the queue is rebuilt from the connections that are not expired.\<close>

definition expire_bucket :: "time_point \<Rightarrow> ConnectionPool \<Rightarrow> string \<times> nat list \<Rightarrow> ConnectionPool" where
  "expire_bucket now p kb =
     (let (key, ids) = kb;
          dead = filter (\<lambda>i. hc_is_expired now (cp_store p ! i)) ids;
          p1 = foldl (\<lambda>p i. close_in_store i p) p dead
      in p1\<lparr>cp_idle := mput key (filter (\<lambda>i. \<not> hc_is_expired now (cp_store p ! i)) ids) (cp_idle p1),
            cp_stats := (cp_stats p1)\<lparr>cs_idle_connections := cs_idle_connections (cp_stats p1) - of_nat (length dead)\<rparr>\<rparr>)"

definition remove_expired_connections :: "time_point \<Rightarrow> ConnectionPool \<Rightarrow> ConnectionPool" where
  "remove_expired_connections now p = foldl (expire_bucket now) p (cp_idle p)"

section \<open>Sockets\<close>

text \<open>
  Closing closes the socket unless the peer did it first: \<open>close\<close> leaves no open socket behind in any
  state but \<open>CLOSED\<close>; but when the peer has ended the connection, \<open>receive\<close> itself goes to that
  state with the socket open, and \<open>close\<close> then returns at once.
\<close>

theorem close_leaks_after_peer:
  assumes "hc_state c = CONNECTED" "hc_socket_open c"
  shows "\<not> hc_socket_open (hc_close c) \<and> hc_socket_open (hc_close (snd (hc_receive 1 0 now c)))"
  using assms by (simp add: hc_close_def hc_cleanup_def hc_receive_def)

theorem close_leaks_after_peer_witness:
  "hc_socket_open (hc_close (snd (hc_receive 1 0 5 (snd (hc_connect \<lparr>net_socket = Socket_Ok, net_connect = True, net_handshake = True\<rparr> 0
     (HttpConnection_new ''h'' 80 False 0))))))"
  using close_leaks_after_peer [of "snd (hc_connect \<lparr>net_socket = Socket_Ok, net_connect = True, net_handshake = True\<rparr> 0
      (HttpConnection_new ''h'' 80 False 0))" 5]
  by (simp add: hc_connect_def HttpConnection_new_def create_socket_def hc_cleanup_def hc_touch_def)

section \<open>Runs of the pool\<close>

text \<open>What the clients and the cleanup thread do; \<open>Begin\<close> and \<open>Finish\<close> are the two halves of \<open>get_connection\<close>.\<close>

datatype pool_op =
    Begin string int bool time_point
  | Finish string int bool network time_point
  | Receive nat int int time_point
  | Return nat bool time_point
  | Close_Host string int bool
  | Close_All
  | Expire time_point
  | Keep_Alive nat bool

fun pool_step :: "ConnectionPool \<Rightarrow> pool_op \<Rightarrow> ConnectionPool" where
  "pool_step p (Begin host port ssl now) = snd (get_begin host port ssl now p)"
| "pool_step p (Finish host port ssl net now) = snd (get_finish host port ssl net now p)"
| "pool_step p (Receive i poll n now) = p\<lparr>cp_store := (cp_store p)[i := snd (hc_receive poll n now (cp_store p ! i))]\<rparr>"
| "pool_step p (Return i reusable now) = return_connection i reusable now p"
| "pool_step p (Close_Host host port ssl) = close_connections host port ssl p"
| "pool_step p Close_All = close_all_connections p"
| "pool_step p (Expire now) = remove_expired_connections now p"
| "pool_step p (Keep_Alive i b) = p\<lparr>cp_store := (cp_store p)[i := hc_set_keep_alive b (cp_store p ! i)]\<rparr>"

definition never_kept :: "ConnectionPool \<Rightarrow> bool" where
  "never_kept p \<longleftrightarrow> (\<forall>c \<in> set (cp_store p). \<not> hc_keep_alive c) \<and> (\<forall>(key, ids) \<in> set (cp_idle p). ids = [])"

lemma hc_keep_alive_ops [simp]:
  "hc_keep_alive (hc_close c) = hc_keep_alive c" "hc_keep_alive (snd (hc_receive a b now c)) = hc_keep_alive c"
  "hc_keep_alive (snd (hc_connect net now c)) = hc_keep_alive c"
  by (auto simp: hc_close_def hc_cleanup_def hc_receive_def hc_touch_def hc_connect_def create_socket_def Let_def
      split: socket_result.split)

lemma update_all:
  "(\<forall>c \<in> set xs. P c) \<Longrightarrow> (\<And>c. P c \<Longrightarrow> P (f c)) \<Longrightarrow> \<forall>c \<in> set (xs[i := f (xs ! i)]). P c"
  by (cases "i < length xs") (auto simp: set_conv_nth nth_list_update)

lemma fold_close_frame [simp]:
  "cp_idle (foldl (\<lambda>p i. close_in_store i p) p is) = cp_idle p"
  "cp_active (foldl (\<lambda>p i. close_in_store i p) p is) = cp_active p"
  "cp_stats (foldl (\<lambda>p i. close_in_store i p) p is) = cp_stats p"
  "cp_max_per_host (foldl (\<lambda>p i. close_in_store i p) p is) = cp_max_per_host p"
  by (induction "is" arbitrary: p) (simp_all add: close_in_store_def)

lemma fold_close_all:
  assumes "\<forall>c \<in> set (cp_store p). P c" "\<And>c. P c \<Longrightarrow> P (hc_close c)"
  shows "\<forall>c \<in> set (cp_store (foldl (\<lambda>p i. close_in_store i p) p is)). P c"
  using assms(1)
proof (induction "is" arbitrary: p)
  case (Cons i "is")
  have "\<forall>c \<in> set (cp_store (close_in_store i p)). P c"
    using update_all [of "cp_store p" P hc_close i] Cons.prems assms(2) by (simp add: close_in_store_def)
  from Cons.IH [OF this] show ?case by simp
qed simp

lemma bucket_empty: "(\<forall>(key, ids) \<in> set m. ids = []) \<Longrightarrow> bucket key m = []"
  by (auto simp: bucket_def dest: map_of_SomeD split: option.split)

lemma mput_empty: "(\<forall>(key, ids) \<in> set m. ids = []) \<Longrightarrow> \<forall>(key, ids) \<in> set (mput k [] m). ids = []"
  using set_mput_subset [of k "[]" m] by blast

lemma never_kept_expire: "never_kept p \<Longrightarrow> never_kept (remove_expired_connections now p)"
proof -
  assume "never_kept p"
  have "never_kept (foldl (expire_bucket now) q kbs)" if "never_kept q" "\<forall>(key, ids) \<in> set kbs. ids = []" for q kbs
    using that
  proof (induction kbs arbitrary: q)
    case (Cons kb kbs)
    then obtain key where kb: "kb = (key, [])" by (cases kb) auto
    have "never_kept (expire_bucket now q kb)"
      using Cons.prems(1) mput_empty [of "cp_idle q" key] by (simp add: kb never_kept_def expire_bucket_def)
    with Cons show ?case by simp
  qed simp
  from this [OF \<open>never_kept p\<close>, of "cp_idle p"] \<open>never_kept p\<close> show ?thesis
    by (auto simp: remove_expired_connections_def never_kept_def)
qed

lemma close_store_not_kept:
  "\<forall>c \<in> set (cp_store p). \<not> hc_keep_alive c \<Longrightarrow>
   \<forall>c \<in> set (cp_store (foldl (\<lambda>p i. close_in_store i p) p is)). \<not> hc_keep_alive c"
  by (rule fold_close_all) simp_all

lemma get_finish_frame:
  "\<exists>c. \<not> hc_keep_alive c \<and> cp_store (snd (get_finish host port ssl net now p)) = cp_store p @ [c] \<and>
     cp_idle (snd (get_finish host port ssl net now p)) = cp_idle p"
proof -
  let ?c0 = "HttpConnection_new host port ssl now"
  define c1 where "c1 = (if ssl \<and> cp_ssl_initialized p then ?c0\<lparr>hc_ssl_ctx := True\<rparr> else ?c0)"
  obtain ok c2 where c2: "hc_connect net now c1 = (ok, c2)" by fastforce
  have "\<not> hc_keep_alive c1" by (simp add: c1_def HttpConnection_new_def)
  with hc_keep_alive_ops(3) [of net now c1] c2 have "\<not> hc_keep_alive c2" by simp
  then show ?thesis
    by (cases ok) (simp_all add: get_finish_def Let_def c1_def [symmetric] c2 add_active_def)
qed

lemma never_kept_close:
  assumes "never_kept p"
  shows "never_kept (close_connections host port ssl p)" "never_kept (close_all_connections p)"
proof -
  have store: "\<forall>c \<in> set (cp_store (foldl (\<lambda>p i. close_in_store i p) p is)). \<not> hc_keep_alive c" for "is"
    using assms by (intro close_store_not_kept) (simp add: never_kept_def)
  have idle: "\<forall>(key, ids) \<in> set (mput k [] (cp_idle p)). ids = []" for k
    using assms by (intro mput_empty) (simp add: never_kept_def)
  show "never_kept (close_connections host port ssl p)"
    using assms store idle by (simp add: close_connections_def never_kept_def Let_def del: foldl_append)
  show "never_kept (close_all_connections p)"
    using store by (simp add: close_all_connections_def never_kept_def Let_def del: foldl_append)
qed

lemma never_kept_return: "never_kept p \<Longrightarrow> never_kept (return_connection i reusable now p)"
proof (cases "i < length (cp_store p)")
  case True
  assume nk: "never_kept p"
  with True have "\<not> hc_keep_alive (cp_store p ! i)" by (simp add: never_kept_def)
  moreover from this have "\<not> hc_is_reusable now (cp_store p ! i)" by (simp add: hc_is_reusable_def)
  moreover have "\<forall>c \<in> set ((cp_store p)[i := hc_close (cp_store p ! i)]). \<not> hc_keep_alive c"
    using nk by (intro update_all) (simp_all add: never_kept_def)
  ultimately show ?thesis
    using nk True by (simp add: never_kept_def return_connection_def close_in_store_def Let_def)
qed (simp add: return_connection_def)

lemma never_kept_step:
  assumes "never_kept p" "\<And>i b. op \<noteq> Keep_Alive i b"
  shows "never_kept (pool_step p op)"
proof (cases op)
  case (Begin host port ssl now)
  have "bucket key (cp_idle p) = []" for key using assms(1) by (intro bucket_empty) (simp add: never_kept_def)
  with assms(1) Begin show ?thesis by (simp add: get_begin_def)
next
  case (Finish host port ssl net now)
  with assms(1) get_finish_frame [of host port ssl net now p] show ?thesis by (auto simp: never_kept_def)
next
  case (Receive i poll n now)
  have "\<forall>c \<in> set ((cp_store p)[i := snd (hc_receive poll n now (cp_store p ! i))]). \<not> hc_keep_alive c"
    using assms(1) by (intro update_all) (simp_all add: never_kept_def)
  with assms(1) Receive show ?thesis by (simp add: never_kept_def)
qed (use assms in \<open>simp_all add: never_kept_close never_kept_return never_kept_expire\<close>)

text \<open>
  Connections are never reused. No part of the library calls \<open>set_keep_alive\<close> on a connection; without
  that call, whatever the clients and the cleanup thread do in whatever order, the idle queues stay
  empty and \<open>get_connection\<close> never hands out a connection again.
\<close>

theorem connections_never_reused:
  assumes "\<forall>op \<in> set ops. \<forall>i b. op \<noteq> Keep_Alive i b" "p = foldl pool_step (ConnectionPool_new n) ops"
  shows "bucket key (cp_idle p) = [] \<and> fst (get_begin host port ssl now p) \<noteq> Reused i"
proof -
  have run: "never_kept q \<Longrightarrow> never_kept (foldl pool_step q ops)" for q
    using assms(1) by (induction ops arbitrary: q) (simp_all add: never_kept_step)
  have "never_kept (ConnectionPool_new n)" by (simp add: never_kept_def ConnectionPool_new_def)
  from run [OF this] have "never_kept p" by (simp only: assms(2))
  then have "bucket k (cp_idle p) = []" for k by (intro bucket_empty) (simp add: never_kept_def)
  then show ?thesis by (simp add: get_begin_def limit_check_def)
qed

definition good_network :: network where
  "good_network = \<lparr>net_socket = Socket_Ok, net_connect = True, net_handshake = True\<rparr>"

theorem connections_never_reused_witness:
  "fst (get_begin ''h'' 80 False 9 (foldl pool_step (ConnectionPool_new 8)
     [Begin ''h'' 80 False 0, Finish ''h'' 80 False good_network 0, Return 0 True 5])) \<noteq> Reused 0"
proof -
  have "\<forall>op \<in> set [Begin ''h'' 80 False 0, Finish ''h'' 80 False good_network 0, Return 0 True 5]. \<forall>i b. op \<noteq> Keep_Alive i b"
    by simp
  from connections_never_reused [OF this refl] show ?thesis by blast
qed

section \<open>The limit per host\<close>





lemma limit_check_create:
  "limit_check key p = May_Create \<longleftrightarrow> length (bucket key (cp_active p)) < cp_max_per_host p"
  by (simp add: limit_check_def)










text \<open>
  Two threads that pass the check before either of them enters its connection exceed the limit; and a
  connection that is given back after \<open>close_connections\<close> is counted down twice, below zero.
\<close>

lemma racing_threads_exceed_limit:
  "length (bucket ''h:80:http'' (cp_active (foldl pool_step (ConnectionPool_new 1)
     [Begin ''h'' 80 False 0, Begin ''h'' 80 False 0, Finish ''h'' 80 False good_network 0, Finish ''h'' 80 False good_network 0]))) = 2 \<and>
   fst (get_begin ''h'' 80 False 0 (pool_step (ConnectionPool_new 1) (Begin ''h'' 80 False 0))) = May_Create"
  by code_simp

lemma active_count_wraps:
  "cs_active_connections (cp_stats (foldl pool_step (ConnectionPool_new 1)
     [Begin ''h'' 80 False 0, Finish ''h'' 80 False good_network 0, Close_Host ''h'' 80 False, Return 0 False 1])) = - 1"
  by code_simp

end
