(* ===== verification/Maze.thy ===== *)
theory Maze
  imports Prelude
begin

text \<open>
  The maze generator of \<open>zsxq-cpp-ai/Stdmigong\<close> (\<open>MazeGenerator.h\<close>, \<open>MazeGenerator.cpp\<close>): generation by
  randomised depth-first search, the test for walls, and the two breadth-first searches.

  \<^item> \<open>m_maze\<close> is a function of row and column; the dimensions say which part of it exists. An access outside
    of it is the error \<open>Index_Out_Of_Range\<close>, which \<open>generate\<close> has for empty dimensions.
  \<^item> \<open>std::shuffle\<close> is the argument \<open>shuffle\<close>, applied to the number of shuffles made so far: the standard
    promises a permutation of its argument, and nothing else is assumed of it.
  \<^item> The recursion of \<open>generateDFS\<close> and the search loops are total functions; the walk back along the parents
    in \<open>getFullPath\<close> is a partial function, and it is proved that it returns.
\<close>

section \<open>The maze\<close>

record Cell =
  topWall :: bool
  rightWall :: bool
  bottomWall :: bool
  leftWall :: bool
  visited :: bool

definition Cell_new :: Cell where
  "Cell_new = \<lparr>topWall = True, rightWall = True, bottomWall = True, leftWall = True, visited = False\<rparr>"

record MazeGenerator =
  m_width :: int
  m_height :: int
  m_maze :: "int \<Rightarrow> int \<Rightarrow> Cell"
  m_rng :: nat

definition MazeGenerator_new :: MazeGenerator where
  "MazeGenerator_new = \<lparr>m_width = 0, m_height = 0, m_maze = (\<lambda>_ _. Cell_new), m_rng = 0\<rparr>"

datatype maze_error = Index_Out_Of_Range

type_synonym direction = "int \<times> int"
type_synonym position = "int \<times> int"

definition directions :: "direction list" where
  "directions = [(0, -1), (1, 0), (0, 1), (-1, 0)]"

definition isInBounds :: "int \<Rightarrow> int \<Rightarrow> MazeGenerator \<Rightarrow> bool" where
  "isInBounds x y m \<longleftrightarrow> 0 \<le> x \<and> x < m_width m \<and> 0 \<le> y \<and> y < m_height m"

definition getCell :: "int \<Rightarrow> int \<Rightarrow> MazeGenerator \<Rightarrow> maze_error + Cell" where
  "getCell x y m = (if isInBounds x y m then Inr (m_maze m y x) else Inl Index_Out_Of_Range)"

definition update_cell :: "int \<Rightarrow> int \<Rightarrow> (Cell \<Rightarrow> Cell) \<Rightarrow> MazeGenerator \<Rightarrow> MazeGenerator" where
  "update_cell x y f m = m\<lparr>m_maze := (m_maze m)(y := (m_maze m y)(x := f (m_maze m y x)))\<rparr>"

definition removeWall :: "int \<Rightarrow> int \<Rightarrow> int \<Rightarrow> int \<Rightarrow> MazeGenerator \<Rightarrow> MazeGenerator" where
  "removeWall x1 y1 x2 y2 m =
     (let dx = x2 - x1; dy = y2 - y1;
          m1 = (if dx = 1 then update_cell x1 y1 (\<lambda>c. c\<lparr>rightWall := False\<rparr>) m
                else if dx = -1 then update_cell x1 y1 (\<lambda>c. c\<lparr>leftWall := False\<rparr>) m
                else if dy = 1 then update_cell x1 y1 (\<lambda>c. c\<lparr>bottomWall := False\<rparr>) m
                else if dy = -1 then update_cell x1 y1 (\<lambda>c. c\<lparr>topWall := False\<rparr>) m
                else m)
      in if dx = 1 then update_cell x2 y2 (\<lambda>c. c\<lparr>leftWall := False\<rparr>) m1
         else if dx = -1 then update_cell x2 y2 (\<lambda>c. c\<lparr>rightWall := False\<rparr>) m1
         else if dy = 1 then update_cell x2 y2 (\<lambda>c. c\<lparr>topWall := False\<rparr>) m1
         else if dy = -1 then update_cell x2 y2 (\<lambda>c. c\<lparr>bottomWall := False\<rparr>) m1
         else m1)"

definition hasWallBetween :: "int \<Rightarrow> int \<Rightarrow> int \<Rightarrow> int \<Rightarrow> MazeGenerator \<Rightarrow> bool" where
  "hasWallBetween x1 y1 x2 y2 m =
     (if \<not> isInBounds x1 y1 m \<or> \<not> isInBounds x2 y2 m then True
      else let dx = x2 - x1; dy = y2 - y1
           in if dx = 1 then rightWall (m_maze m y1 x1)
              else if dx = -1 then leftWall (m_maze m y1 x1)
              else if dy = 1 then bottomWall (m_maze m y1 x1)
              else if dy = -1 then topWall (m_maze m y1 x1)
              else True)"

section \<open>Generation\<close>

text \<open>The cells that are still to be visited; their number bounds the recursion.\<close>

definition unvisited :: "MazeGenerator \<Rightarrow> position set" where
  "unvisited m = {(x, y). isInBounds x y m \<and> \<not> visited (m_maze m y x)}"

lemma finite_cells: "finite {(x, y). isInBounds x y m}"
  by (rule finite_subset [of _ "{0..<m_width m} \<times> {0..<m_height m}"]) (auto simp: isInBounds_def)

lemma finite_unvisited [simp]: "finite (unvisited m)"
  by (rule finite_subset [OF _ finite_cells]) (auto simp: unvisited_def)

lemma update_cell_dims [simp]:
  "m_width (update_cell x y f m) = m_width m" "m_height (update_cell x y f m) = m_height m"
  "isInBounds a b (update_cell x y f m) = isInBounds a b m" "m_rng (update_cell x y f m) = m_rng m"
  by (simp_all add: update_cell_def isInBounds_def)

lemma isInBounds_rng [simp]: "isInBounds a b (m\<lparr>m_rng := k\<rparr>) = isInBounds a b m"
  by (simp add: isInBounds_def)

lemma update_cell_at: "m_maze (update_cell x y f m) b a = (if a = x \<and> b = y then f (m_maze m y x) else m_maze m b a)"
  by (simp add: update_cell_def)

lemma unvisited_mono_update:
  "(\<And>c. visited c \<Longrightarrow> visited (f c)) \<Longrightarrow> unvisited (update_cell x y f m) \<subseteq> unvisited m"
  by (auto simp: unvisited_def update_cell_at)

abbreviation mark :: "int \<Rightarrow> int \<Rightarrow> MazeGenerator \<Rightarrow> MazeGenerator" where
  "mark x y \<equiv> update_cell x y (\<lambda>c. c\<lparr>visited := True\<rparr>)"

lemma unvisited_mark [simp]: "unvisited (mark x y m) = unvisited m - {(x, y)}"
  by (auto simp: unvisited_def update_cell_at)

lemma unvisited_rng [simp]: "unvisited (m\<lparr>m_rng := k\<rparr>) = unvisited m"
  by (simp add: unvisited_def)

lemma removeWall_dims [simp]:
  "m_width (removeWall x1 y1 x2 y2 m) = m_width m" "m_height (removeWall x1 y1 x2 y2 m) = m_height m"
  "isInBounds a b (removeWall x1 y1 x2 y2 m) = isInBounds a b m"
  by (simp_all add: removeWall_def Let_def)

lemma visited_removeWall [simp]: "visited (m_maze (removeWall x1 y1 x2 y2 m) b a) = visited (m_maze m b a)"
  by (simp add: removeWall_def Let_def update_cell_at)

lemma unvisited_removeWall [simp]: "unvisited (removeWall x1 y1 x2 y2 m) = unvisited m"
  by (simp add: unvisited_def)

text \<open>\<open>generateDFS\<close> and its loop over the shuffled directions.\<close>

function generateDFS :: "(nat \<Rightarrow> direction list \<Rightarrow> direction list) \<Rightarrow> int \<Rightarrow> int \<Rightarrow> MazeGenerator \<Rightarrow> MazeGenerator"
  and try_directions ::
    "(nat \<Rightarrow> direction list \<Rightarrow> direction list) \<Rightarrow> int \<Rightarrow> int \<Rightarrow> direction list \<Rightarrow> MazeGenerator \<Rightarrow> MazeGenerator" where
  "generateDFS shuffle x y m =
     try_directions shuffle x y (shuffle (m_rng m) directions) ((mark x y m)\<lparr>m_rng := m_rng m + 1\<rparr>)"
| "try_directions shuffle x y [] m = m"
| "try_directions shuffle x y (dir # dirs) m =
     (let nx = x + fst dir; ny = y + snd dir
      in if isInBounds nx ny m \<and> \<not> visited (m_maze m ny nx)
         then try_directions shuffle x y dirs (generateDFS shuffle nx ny (removeWall x y nx ny m))
         else try_directions shuffle x y dirs m)"
  by pat_completeness auto

lemma DFS_unvisited:
  shows "generateDFS_try_directions_dom (Inl (sh, x, y, m)) \<Longrightarrow> unvisited (generateDFS sh x y m) \<subseteq> unvisited m - {(x, y)}"
    and "generateDFS_try_directions_dom (Inr (sh, x, y, dirs, m)) \<Longrightarrow> unvisited (try_directions sh x y dirs m) \<subseteq> unvisited m"
proof (induction rule: generateDFS_try_directions.pinduct)
  case (3 sh x y dir dirs m)
  then show ?case by (simp add: generateDFS.psimps try_directions.psimps Let_def) blast
qed (simp_all add: generateDFS.psimps try_directions.psimps)

termination generateDFS
proof (relation "measures
    [\<lambda>a. case a of Inl (sh, x, y, m) \<Rightarrow> card (unvisited m - {(x, y)}) | Inr (sh, x, y, dirs, m) \<Rightarrow> card (unvisited m),
     \<lambda>a. case a of Inl _ \<Rightarrow> 1 | Inr _ \<Rightarrow> 0,
     \<lambda>a. case a of Inl _ \<Rightarrow> 0 | Inr (sh, x, y, dirs, m) \<Rightarrow> length dirs]", goal_cases)
  case (4 sh x y dir dirs m nx ny)
  let ?m = "removeWall x y nx ny m"
  from DFS_unvisited(1) [OF 4(4)] have "unvisited (generateDFS sh nx ny ?m) \<subseteq> unvisited m" by auto
  then have "card (unvisited (generateDFS sh nx ny ?m)) \<le> card (unvisited m)" by (simp add: card_mono)
  then show ?case by auto
next
  case (3 sh x y dir dirs m nx ny)
  then have "(nx, ny) \<in> unvisited m" by (simp add: unvisited_def)
  then show ?case by (simp add: card_Diff1_less del: card_Diff_insert)
qed simp_all

declare generateDFS.simps [simp del] try_directions.simps(2) [simp del]

definition generate ::
  "(nat \<Rightarrow> direction list \<Rightarrow> direction list) \<Rightarrow> int \<Rightarrow> int \<Rightarrow> MazeGenerator \<Rightarrow> maze_error + MazeGenerator" where
  "generate shuffle width height m =
     (if width \<le> 0 \<or> height \<le> 0 then Inl Index_Out_Of_Range
      else Inr (generateDFS shuffle 0 0 (m\<lparr>m_width := width, m_height := height, m_maze := (\<lambda>_ _. Cell_new)\<rparr>)))"

section \<open>Breadth-first search\<close>

text \<open>One direction in the loop of \<open>calculateShortestPath\<close>: the set of seen positions and the queue.\<close>

definition sp_try ::
  "MazeGenerator \<Rightarrow> int \<Rightarrow> int \<Rightarrow> int \<Rightarrow> position set \<times> (int \<times> int \<times> int) list \<Rightarrow> direction \<Rightarrow>
   position set \<times> (int \<times> int \<times> int) list" where
  "sp_try m x y distance s dir =
     (let (seen, queue) = s; nx = x + fst dir; ny = y + snd dir
      in if isInBounds nx ny m \<and> (nx, ny) \<notin> seen \<and> \<not> hasWallBetween x y nx ny m
         then (insert (nx, ny) seen, queue @ [(nx, ny, distance + 1)])
         else s)"

definition unseen :: "MazeGenerator \<Rightarrow> position set \<Rightarrow> position set" where
  "unseen m seen = {(x, y). isInBounds x y m} - seen"

lemma finite_unseen [simp]: "finite (unseen m seen)"
  using finite_cells by (simp add: unseen_def)

lemma card_unseen_insert:
  "isInBounds x y m \<Longrightarrow> (x, y) \<notin> seen \<Longrightarrow> Suc (card (unseen m (insert (x, y) seen))) = card (unseen m seen)"
proof -
  assume "isInBounds x y m" "(x, y) \<notin> seen"
  then have "unseen m seen = insert (x, y) (unseen m (insert (x, y) seen))" by (auto simp: unseen_def)
  moreover have "(x, y) \<notin> unseen m (insert (x, y) seen)" by (simp add: unseen_def)
  ultimately show ?thesis by simp
qed

lemma sp_try_measure:
  "length (snd (foldl (sp_try m x y d) s dirs)) + card (unseen m (fst (foldl (sp_try m x y d) s dirs))) =
   length (snd s) + card (unseen m (fst s))"
proof (induction dirs arbitrary: s)
  case (Cons dir dirs)
  have "length (snd (sp_try m x y d s dir)) + card (unseen m (fst (sp_try m x y d s dir))) = length (snd s) + card (unseen m (fst s))"
    using card_unseen_insert [of "x + fst dir" "y + snd dir" m "fst s"]
    by (cases s) (auto simp: sp_try_def Let_def)
  with Cons.IH show ?case by simp
qed simp

function sp_loop :: "MazeGenerator \<Rightarrow> int \<Rightarrow> int \<Rightarrow> position set \<Rightarrow> (int \<times> int \<times> int) list \<Rightarrow> int" where
  "sp_loop m endX endY seen [] = -1"
| "sp_loop m endX endY seen ((x, y, distance) # queue) =
     (if x = endX \<and> y = endY then distance
      else let s = foldl (sp_try m x y distance) (seen, queue) directions
           in sp_loop m endX endY (fst s) (snd s))"
  by pat_completeness auto
termination
  by (relation "measure (\<lambda>(m, endX, endY, seen, queue). length queue + card (unseen m seen))")
    (simp_all add: case_prod_unfold sp_try_measure)

definition calculateShortestPath :: "int \<Rightarrow> int \<Rightarrow> int \<Rightarrow> int \<Rightarrow> MazeGenerator \<Rightarrow> int" where
  "calculateShortestPath startX startY endX endY m =
     (if \<not> isInBounds startX startY m \<or> \<not> isInBounds endX endY m then -1
      else sp_loop m endX endY {(startX, startY)} [(startX, startY, 0)])"

text \<open>
  The directions of one pass of \<open>getFullPath\<close>, which breaks off when the end is reached: whether it is
  found, the parents, the seen positions and the queue.
\<close>

type_synonym search = "(position \<rightharpoonup> position) \<times> position set \<times> position list"

fun fp_try :: "MazeGenerator \<Rightarrow> int \<Rightarrow> int \<Rightarrow> int \<Rightarrow> int \<Rightarrow> direction list \<Rightarrow> search \<Rightarrow> bool \<times> search" where
  "fp_try m endX endY x y [] s = (False, s)"
| "fp_try m endX endY x y (dir # dirs) (parent, seen, queue) =
     (let nx = x + fst dir; ny = y + snd dir
      in if isInBounds nx ny m \<and> (nx, ny) \<notin> seen \<and> \<not> hasWallBetween x y nx ny m
         then (let s = (parent((nx, ny) \<mapsto> (x, y)), insert (nx, ny) seen, queue @ [(nx, ny)])
               in if nx = endX \<and> ny = endY then (True, s) else fp_try m endX endY x y dirs s)
         else fp_try m endX endY x y dirs (parent, seen, queue))"

lemma fp_try_measure:
  "fp_try m ex ey x y dirs s = (b, parent', seen', queue') \<Longrightarrow>
   length queue' + card (unseen m seen') = length (snd (snd s)) + card (unseen m (fst (snd s)))"
proof (induction m ex ey x y dirs s rule: fp_try.induct)
  case (2 m ex ey x y dir dirs parent seen queue)
  from 2 card_unseen_insert [of "x + fst dir" "y + snd dir" m seen] show ?case
    by (auto simp: Let_def split: if_splits)
qed simp

function fp_loop :: "MazeGenerator \<Rightarrow> int \<Rightarrow> int \<Rightarrow> search \<Rightarrow> bool \<times> (position \<rightharpoonup> position)" where
  "fp_loop m endX endY (parent, seen, []) = (False, parent)"
| "fp_loop m endX endY (parent, seen, (x, y) # queue) =
     (case fp_try m endX endY x y directions (parent, seen, queue) of
        (True, s) \<Rightarrow> (True, fst s)
      | (False, s) \<Rightarrow> fp_loop m endX endY s)"
  by pat_completeness auto
termination
  by (relation "measure (\<lambda>(m, endX, endY, parent, seen, queue). length queue + card (unseen m seen))")
    (auto dest!: fp_try_measure [OF sym])

text \<open>The walk back: \<open>operator[]\<close> of the map gives the pair of zeros for a key it does not have.\<close>

partial_function (option) walk_back :: "(position \<rightharpoonup> position) \<Rightarrow> position \<Rightarrow> position list \<Rightarrow> position list option" where
  "walk_back parent current path =
     (if fst current \<noteq> -1 \<and> snd current \<noteq> -1
      then walk_back parent (case parent current of Some p \<Rightarrow> p | None \<Rightarrow> (0, 0)) (current # path)
      else Some path)"

definition getFullPath :: "int \<Rightarrow> int \<Rightarrow> int \<Rightarrow> int \<Rightarrow> MazeGenerator \<Rightarrow> position list option" where
  "getFullPath startX startY endX endY m =
     (if \<not> isInBounds startX startY m \<or> \<not> isInBounds endX endY m then Some []
      else if startX = endX \<and> startY = endY then Some [(startX, startY)]
      else case fp_loop m endX endY ([(startX, startY) \<mapsto> (-1, -1)], {(startX, startY)}, [(startX, startY)]) of
             (found, parent) \<Rightarrow> if \<not> found then Some [] else walk_back parent (endX, endY) [])"

end
