(* ===== verification/Maze_Game.thy ===== *)
theory Maze_Game
  imports Maze
begin

text \<open>
  The maze game of \<open>zsxq-cpp-ai/Stdmigong\<close> (\<open>MazeGame.h\<close>, \<open>MazeGame.cpp\<close>): the player, the chaser with its
  A* search, the two timers and the winning and losing conditions, on top of the generator of \<open>Maze\<close>.

  A timer is the flag whether it runs, and a call of its slot is a step of the environment. Of the
  signals, the log \<open>m_signals\<close> keeps those that report the end of a game; the others only ask the display
  to read a property again. A search node never changes after it is made, so a pointer to the parent
  is the parent itself.
\<close>

section \<open>The state\<close>

datatype game_signal = gameWon bool | gameLost

record MazeGame =
  m_generator :: MazeGenerator
  m_timer :: bool
  m_chaserTimer :: bool
  m_chaserInterval :: int
  m_mazeWidth :: int
  m_mazeHeight :: int
  m_playerX :: int
  m_playerY :: int
  m_chaserX :: int
  m_chaserY :: int
  m_startX :: int
  m_startY :: int
  m_endX :: int
  m_endY :: int
  m_elapsedTime :: int
  m_shortestPath :: int
  m_currentSteps :: int
  m_difficulty :: int
  m_isGameRunning :: bool
  m_isGameWon :: bool
  m_isGameLost :: bool
  m_chaserActive :: bool
  m_timerStarted :: bool
  m_playerPath :: "position list"
  m_chaserPathIndex :: int
  m_optimalPath :: "position list"
  m_showPath :: bool
  m_signals :: "game_signal list"

definition MazeGame_new :: MazeGame where
  "MazeGame_new =
     \<lparr>m_generator = MazeGenerator_new, m_timer = False, m_chaserTimer = False, m_chaserInterval = 0,
      m_mazeWidth = 0, m_mazeHeight = 0, m_playerX = 0, m_playerY = 0, m_chaserX = 0, m_chaserY = 0,
      m_startX = 0, m_startY = 0, m_endX = 0, m_endY = 0, m_elapsedTime = 0, m_shortestPath = 0,
      m_currentSteps = 0, m_difficulty = 1, m_isGameRunning = False, m_isGameWon = False,
      m_isGameLost = False, m_chaserActive = False, m_timerStarted = False, m_playerPath = [],
      m_chaserPathIndex = 0, m_optimalPath = [], m_showPath = False, m_signals = []\<rparr>"

definition updateChaserSpeed :: "MazeGame \<Rightarrow> MazeGame" where
  "updateChaserSpeed g =
     g\<lparr>m_chaserInterval := (if m_difficulty g = 0 then 300 else if m_difficulty g = 1 then 250
        else if m_difficulty g = 2 then 200 else if m_difficulty g = 3 then 150 else 250)\<rparr>"

definition setDifficulty :: "int \<Rightarrow> MazeGame \<Rightarrow> MazeGame" where
  "setDifficulty difficulty g = (if m_difficulty g \<noteq> difficulty then updateChaserSpeed (g\<lparr>m_difficulty := difficulty\<rparr>) else g)"

definition startNewGame ::
  "(nat \<Rightarrow> direction list \<Rightarrow> direction list) \<Rightarrow> int \<Rightarrow> int \<Rightarrow> int \<Rightarrow> MazeGame \<Rightarrow> maze_error + MazeGame" where
  "startNewGame shuffle width height difficulty g =
     (case generate shuffle width height (m_generator g) of
        Inl e \<Rightarrow> Inl e
      | Inr maze \<Rightarrow>
          Inr (updateChaserSpeed (g\<lparr>
            m_timer := False, m_chaserTimer := False, m_isGameWon := False, m_isGameLost := False,
            m_chaserActive := False, m_difficulty := difficulty, m_mazeWidth := width, m_mazeHeight := height,
            m_generator := maze, m_startX := 0, m_startY := 0, m_endX := width - 1, m_endY := height - 1,
            m_shortestPath := calculateShortestPath 0 0 (width - 1) (height - 1) maze,
            m_playerX := 0, m_playerY := 0, m_chaserX := 0, m_chaserY := 0, m_playerPath := [(0, 0)],
            m_chaserPathIndex := 0, m_elapsedTime := 0, m_currentSteps := 0, m_isGameRunning := True,
            m_timerStarted := False\<rparr>)))"

definition resetGame :: "MazeGame \<Rightarrow> MazeGame" where
  "resetGame g = g\<lparr>
     m_timer := False, m_chaserTimer := False, m_playerX := m_startX g, m_playerY := m_startY g,
     m_chaserX := m_startX g, m_chaserY := m_startY g, m_chaserActive := False,
     m_playerPath := [(m_startX g, m_startY g)], m_chaserPathIndex := 0, m_elapsedTime := 0, m_currentSteps := 0,
     m_isGameRunning := True, m_isGameWon := False, m_isGameLost := False, m_timerStarted := False\<rparr>"

section \<open>Moves of the player\<close>

definition checkWinCondition :: "MazeGame \<Rightarrow> MazeGame" where
  "checkWinCondition g =
     (if m_playerX g = m_endX g \<and> m_playerY g = m_endY g
      then g\<lparr>m_isGameWon := True, m_isGameRunning := False, m_timer := False,
             m_signals := m_signals g @ [gameWon (m_currentSteps g = m_shortestPath g)]\<rparr>
      else g)"

definition checkLoseCondition :: "MazeGame \<Rightarrow> MazeGame" where
  "checkLoseCondition g =
     (if m_playerX g = m_chaserX g \<and> m_playerY g = m_chaserY g
      then g\<lparr>m_isGameLost := True, m_isGameRunning := False, m_timer := False, m_chaserTimer := False,
             m_signals := m_signals g @ [gameLost]\<rparr>
      else g)"

definition target :: "int \<Rightarrow> MazeGame \<Rightarrow> position option" where
  "target direction g =
     (let x = m_playerX g; y = m_playerY g
      in if direction = 0 then Some (x, y - 1) else if direction = 1 then Some (x + 1, y)
         else if direction = 2 then Some (x, y + 1) else if direction = 3 then Some (x - 1, y) else None)"

definition movePlayer :: "int \<Rightarrow> MazeGame \<Rightarrow> bool \<times> MazeGame" where
  "movePlayer direction g =
     (if \<not> m_isGameRunning g \<or> m_isGameWon g \<or> m_isGameLost g then (False, g)
      else case target direction g of
             None \<Rightarrow> (False, g)
           | Some (newX, newY) \<Rightarrow>
               (if newX < 0 \<or> m_mazeWidth g \<le> newX \<or> newY < 0 \<or> m_mazeHeight g \<le> newY then (False, g)
                else if hasWallBetween (m_playerX g) (m_playerY g) newX newY (m_generator g) then (False, g)
                else (True,
                  let g1 = g\<lparr>m_playerX := newX, m_playerY := newY, m_currentSteps := m_currentSteps g + 1,
                             m_playerPath := (if m_playerPath g = [] \<or> last (m_playerPath g) \<noteq> (newX, newY)
                                              then m_playerPath g @ [(newX, newY)] else m_playerPath g)\<rparr>;
                      g2 = (if \<not> m_timerStarted g1 then g1\<lparr>m_timerStarted := True, m_timer := True\<rparr> else g1)
                  in checkWinCondition (checkLoseCondition g2))))"

section \<open>The timers\<close>

definition getChaserDelaySeconds :: int where
  "getChaserDelaySeconds = 5"

definition checkChaserActivation :: "MazeGame \<Rightarrow> MazeGame" where
  "checkChaserActivation g =
     (if \<not> m_chaserActive g \<and> getChaserDelaySeconds \<le> m_elapsedTime g
      then g\<lparr>m_chaserActive := True, m_chaserTimer := True\<rparr> else g)"

definition updateTimer :: "MazeGame \<Rightarrow> MazeGame" where
  "updateTimer g =
     (if m_isGameRunning g \<and> \<not> m_isGameWon g \<and> \<not> m_isGameLost g
      then checkChaserActivation (g\<lparr>m_elapsedTime := m_elapsedTime g + 1\<rparr>) else g)"

definition moveChaserAlongPath :: "MazeGame \<Rightarrow> bool \<times> MazeGame" where
  "moveChaserAlongPath g =
     (if m_chaserPathIndex g < int (length (m_playerPath g)) - 1
      then let i = m_chaserPathIndex g + 1; nextPos = m_playerPath g ! nat i
           in (True, g\<lparr>m_chaserPathIndex := i, m_chaserX := fst nextPos, m_chaserY := snd nextPos\<rparr>)
      else (False, g))"

section \<open>The search of the chaser\<close>

datatype Node = Node (node_x: int) (node_y: int) (node_g: int) (node_f: int) (node_parent: "Node option")

definition Node_new :: "int \<Rightarrow> int \<Rightarrow> int \<Rightarrow> int \<Rightarrow> Node option \<Rightarrow> Node" where
  "Node_new x y g h p = Node x y g (g + h) p"

abbreviation node_pos :: "Node \<Rightarrow> position" where
  "node_pos n \<equiv> (node_x n, node_y n)"

definition heuristic :: "int \<Rightarrow> int \<Rightarrow> int \<Rightarrow> int \<Rightarrow> int" where
  "heuristic x1 y1 x2 y2 = abs (x1 - x2) + abs (y1 - y2)"

text \<open>\<open>QMultiMap\<close> in the order of its keys; an item goes in front of the older ones with the same key.\<close>

fun open_insert :: "int \<Rightarrow> Node \<Rightarrow> (int \<times> Node) list \<Rightarrow> (int \<times> Node) list" where
  "open_insert k n [] = [(k, n)]"
| "open_insert k n ((k', n') # rest) = (if k \<le> k' then (k, n) # (k', n') # rest else (k', n') # open_insert k n rest)"

definition explore ::
  "MazeGame \<Rightarrow> int \<Rightarrow> int \<Rightarrow> position set \<Rightarrow> Node \<Rightarrow> (int \<times> Node) list \<Rightarrow> direction \<Rightarrow> (int \<times> Node) list" where
  "explore g endX endY closedSet current openList dir =
     (let nx = node_x current + fst dir; ny = node_y current + snd dir
      in if nx < 0 \<or> m_mazeWidth g \<le> nx \<or> ny < 0 \<or> m_mazeHeight g \<le> ny then openList
         else if (nx, ny) \<in> closedSet then openList
         else if hasWallBetween (node_x current) (node_y current) nx ny (m_generator g) then openList
         else let neighbor = Node_new nx ny (node_g current + 1) (heuristic nx ny endX endY) (Some current)
              in open_insert (node_f neighbor) neighbor openList)"

lemma set_open_insert [simp]: "set (open_insert k n xs) = insert (k, n) (set xs)"
  by (induction k n xs rule: open_insert.induct) auto

lemma explore_cases:
  "explore g ex ey closedSet current openList dir = openList \<or>
   (\<exists>n. explore g ex ey closedSet current openList dir = open_insert (node_f n) n openList \<and>
        node_pos n \<in> {0..<m_mazeWidth g} \<times> {0..<m_mazeHeight g} - closedSet)"
  by (simp add: explore_def Let_def Node_new_def)
    (intro impI disjI2 exI [of _ "Node _ _ _ _ _"] conjI; (rule refl)?; simp)

lemma explore_new:
  "x \<in> set (foldl (explore g ex ey closedSet current) openList dirs) \<Longrightarrow>
   x \<in> set openList \<or> node_pos (snd x) \<in> {0..<m_mazeWidth g} \<times> {0..<m_mazeHeight g} - closedSet"
proof (induction dirs arbitrary: openList)
  case (Cons dir dirs)
  then have "x \<in> set (explore g ex ey closedSet current openList dir) \<or>
      node_pos (snd x) \<in> {0..<m_mazeWidth g} \<times> {0..<m_mazeHeight g} - closedSet" by simp
  with explore_cases [of g ex ey closedSet current openList dir] show ?case by auto
qed simp

definition unclosed :: "MazeGame \<Rightarrow> position set \<Rightarrow> (int \<times> Node) list \<Rightarrow> position set" where
  "unclosed g closedSet openList =
     ({0..<m_mazeWidth g} \<times> {0..<m_mazeHeight g} \<union> (node_pos \<circ> snd) ` set openList) - closedSet"

lemma finite_unclosed [simp]: "finite (unclosed g closedSet openList)"
  by (simp add: unclosed_def)

lemma length_filter_open_insert:
  "\<not> P (k, n) \<Longrightarrow> length (filter P (open_insert k n xs)) = length (filter P xs)"
  by (induction k n xs rule: open_insert.induct) auto

lemma explore_closed:
  "length (filter (\<lambda>x. node_pos (snd x) \<in> closedSet) (foldl (explore g ex ey closedSet current) openList dirs)) =
   length (filter (\<lambda>x. node_pos (snd x) \<in> closedSet) openList)"
proof (induction dirs arbitrary: openList)
  case (Cons dir dirs)
  have "length (filter (\<lambda>x. node_pos (snd x) \<in> closedSet) (explore g ex ey closedSet current openList dir)) =
      length (filter (\<lambda>x. node_pos (snd x) \<in> closedSet) openList)"
    using explore_cases [of g ex ey closedSet current openList dir] by (auto simp: length_filter_open_insert)
  with Cons.IH show ?case by simp
qed simp

function astar_loop :: "MazeGame \<Rightarrow> int \<Rightarrow> int \<Rightarrow> position set \<Rightarrow> (int \<times> Node) list \<Rightarrow> Node option" where
  "astar_loop g endX endY closedSet [] = None"
| "astar_loop g endX endY closedSet ((k, current) # openList) =
     (if node_x current = endX \<and> node_y current = endY then Some current
      else let closedSet = insert (node_pos current) closedSet
           in astar_loop g endX endY closedSet (foldl (explore g endX endY closedSet current) openList directions))"
  by pat_completeness auto
termination
proof (relation "measures
    [\<lambda>(g, ex, ey, closedSet, openList). card (unclosed g closedSet openList),
     \<lambda>(g, ex, ey, closedSet, openList). length (filter (\<lambda>x. node_pos (snd x) \<in> closedSet) openList)]", goal_cases)
  case (2 g ex ey closedSet k current openList closedSet')
  let ?new = "foldl (explore g ex ey closedSet' current) openList directions"
  let ?old = "(k, current) # openList"
  have sub: "unclosed g closedSet' ?new \<subseteq> unclosed g closedSet ?old - {node_pos current}"
  proof
    fix q
    assume q: "q \<in> unclosed g closedSet' ?new"
    then have "q \<notin> closedSet'" by (simp add: unclosed_def)
    from q consider "q \<in> {0..<m_mazeWidth g} \<times> {0..<m_mazeHeight g}" | x where "x \<in> set ?new" "q = node_pos (snd x)"
      unfolding unclosed_def by auto
    then have "q \<in> {0..<m_mazeWidth g} \<times> {0..<m_mazeHeight g} \<union> (node_pos \<circ> snd) ` set openList"
      by cases (auto dest: explore_new)
    with \<open>q \<notin> closedSet'\<close> 2(2) show "q \<in> unclosed g closedSet ?old - {node_pos current}" by (auto simp: unclosed_def)
  qed
  show ?case
  proof (cases "node_pos current \<in> closedSet")
    case True
    then have "closedSet' = closedSet" using 2(2) by auto
    moreover from sub have "card (unclosed g closedSet' ?new) \<le> card (unclosed g closedSet ?old)" by (intro card_mono) auto
    ultimately show ?thesis using True by (auto simp: explore_closed)
  next
    case False
    then have "node_pos current \<in> unclosed g closedSet ?old" by (simp add: unclosed_def)
    with sub have "card (unclosed g closedSet' ?new) < card (unclosed g closedSet ?old)" by (intro psubset_card_mono) auto
    then show ?thesis by simp
  qed
qed simp

text \<open>From the target back to the node behind the start.\<close>

fun backtrack :: "Node \<Rightarrow> Node" where
  "backtrack (Node x y g f (Some (Node x' y' g' f' (Some p)))) = backtrack (Node x' y' g' f' (Some p))"
| "backtrack n = n"

definition findNextStepToTarget :: "MazeGame \<Rightarrow> int \<Rightarrow> int \<Rightarrow> int \<Rightarrow> int \<Rightarrow> position" where
  "findNextStepToTarget g startX startY endX endY =
     (if startX = endX \<and> startY = endY then (startX, startY)
      else let startNode = Node_new startX startY 0 (heuristic startX startY endX endY) None
           in case astar_loop g endX endY {} [(node_f startNode, startNode)] of
                None \<Rightarrow> (startX, startY)
              | Some targetNode \<Rightarrow>
                  (let step = backtrack targetNode
                   in if node_parent step \<noteq> None then node_pos step else (startX, startY)))"

definition moveChaserTowardsPlayer :: "MazeGame \<Rightarrow> MazeGame" where
  "moveChaserTowardsPlayer g =
     (if \<not> m_isGameRunning g \<or> m_isGameWon g \<or> m_isGameLost g \<or> \<not> m_chaserActive g then g
      else let nextStep = findNextStepToTarget g (m_chaserX g) (m_chaserY g) (m_playerX g) (m_playerY g)
           in if fst nextStep \<noteq> m_chaserX g \<or> snd nextStep \<noteq> m_chaserY g
              then checkLoseCondition (g\<lparr>m_chaserX := fst nextStep, m_chaserY := snd nextStep\<rparr>)
              else g)"

definition calculateAndShowPath :: "MazeGame \<Rightarrow> MazeGame option" where
  "calculateAndShowPath g =
     map_option (\<lambda>path. g\<lparr>m_optimalPath := path, m_showPath := True\<rparr>)
       (getFullPath (m_startX g) (m_startY g) (m_endX g) (m_endY g) (m_generator g))"

definition hidePath :: "MazeGame \<Rightarrow> MazeGame" where
  "hidePath g = g\<lparr>m_showPath := False\<rparr>"

section \<open>What the display reads\<close>

definition isStartPosition :: "int \<Rightarrow> int \<Rightarrow> MazeGame \<Rightarrow> bool" where
  "isStartPosition x y g \<longleftrightarrow> x = m_startX g \<and> y = m_startY g"

definition isEndPosition :: "int \<Rightarrow> int \<Rightarrow> MazeGame \<Rightarrow> bool" where
  "isEndPosition x y g \<longleftrightarrow> x = m_endX g \<and> y = m_endY g"

text \<open>Position and walls (top, right, bottom, left) of every cell, row by row.\<close>

definition getMazeData :: "MazeGame \<Rightarrow> (int \<times> int \<times> bool \<times> bool \<times> bool \<times> bool) list" where
  "getMazeData g = concat (map (\<lambda>y. map (\<lambda>x. let cell = m_maze (m_generator g) y x
     in (x, y, topWall cell, rightWall cell, bottomWall cell, leftWall cell)) [0..m_mazeWidth g - 1]) [0..m_mazeHeight g - 1])"

definition getOptimalPath :: "MazeGame \<Rightarrow> position list" where
  "getOptimalPath g = m_optimalPath g"

end
