(* ===== verification/Maze_Props.thy ===== *)
theory Maze_Props
  imports Maze
begin

text \<open>
  Correctness of the maze generator: the passages of a generated maze form a spanning tree of the cells,
  \<open>calculateShortestPath\<close> gives the length of a shortest path, and \<open>getFullPath\<close> gives such a path.
\<close>

section \<open>Passages\<close>

definition cells :: "MazeGenerator \<Rightarrow> position set" where
  "cells m = {(x, y). isInBounds x y m}"

definition passages :: "MazeGenerator \<Rightarrow> (position \<times> position) set" where
  "passages m = {((x1, y1), (x2, y2)). (x2 - x1, y2 - y1) \<in> set directions \<and> \<not> hasWallBetween x1 y1 x2 y2 m}"

abbreviation step :: "position \<Rightarrow> direction \<Rightarrow> position" where
  "step p dir \<equiv> (fst p + fst dir, snd p + snd dir)"

definition diff :: "position \<Rightarrow> position \<Rightarrow> direction" where
  "diff p q = (fst q - fst p, snd q - snd p)"

lemma diff_step [simp]: "diff p (step p dir) = dir" "step p (diff p q) = q"
  by (simp_all add: diff_def)

lemma diff_inject [simp]: "diff p q = diff p r \<longleftrightarrow> q = r"
  by (cases p, cases q, cases r) (auto simp: diff_def)

lemma opposite_direction: "diff p q \<in> set directions \<longleftrightarrow> diff q p \<in> set directions"
  by (auto simp: diff_def directions_def)

lemma neighbour_cases:
  assumes "diff (x1, y1) (x2, y2) \<in> set directions"
  obtains "x2 = x1" "y2 = y1 - 1" | "x2 = x1 + 1" "y2 = y1" | "x2 = x1" "y2 = y1 + 1" | "x2 = x1 - 1" "y2 = y1"
  using assms by (auto simp: directions_def diff_def)

lemma diff_neq: "diff p q \<in> set directions \<Longrightarrow> p \<noteq> q"
  by (auto simp: diff_def directions_def)

lemma finite_cells_set [simp]: "finite (cells m)"
  using finite_cells by (simp add: cells_def)

lemma passages_cells: "passages m \<subseteq> cells m \<times> cells m"
  by (auto simp: passages_def cells_def hasWallBetween_def split: if_splits)

lemma finite_passages [simp]: "finite (passages m)"
  by (rule finite_subset [OF passages_cells]) simp

lemma unvisited_cells: "unvisited m \<subseteq> cells m"
  by (auto simp: unvisited_def cells_def)

text \<open>The wall of a cell in a direction, and the cell without it.\<close>

definition wall :: "direction \<Rightarrow> Cell \<Rightarrow> bool" where
  "wall dir c = (if dir = (1, 0) then rightWall c else if dir = (-1, 0) then leftWall c
                 else if dir = (0, 1) then bottomWall c else topWall c)"

definition open_wall :: "direction \<Rightarrow> Cell \<Rightarrow> Cell" where
  "open_wall dir c = (if dir = (1, 0) then c\<lparr>rightWall := False\<rparr> else if dir = (-1, 0) then c\<lparr>leftWall := False\<rparr>
                      else if dir = (0, 1) then c\<lparr>bottomWall := False\<rparr> else c\<lparr>topWall := False\<rparr>)"

lemma wall_open_wall:
  "d \<in> set directions \<Longrightarrow> dir \<in> set directions \<Longrightarrow> wall d (open_wall dir c) \<longleftrightarrow> wall d c \<and> d \<noteq> dir"
  by (auto simp: directions_def wall_def open_wall_def)

lemma hasWallBetween_diff:
  assumes "diff (x1, y1) (x2, y2) \<in> set directions"
  shows "hasWallBetween x1 y1 x2 y2 m \<longleftrightarrow>
     (x1, y1) \<notin> cells m \<or> (x2, y2) \<notin> cells m \<or> wall (diff (x1, y1) (x2, y2)) (m_maze m y1 x1)"
  using assms by (cases rule: neighbour_cases) (auto simp: diff_def hasWallBetween_def wall_def cells_def)

lemma in_passages:
  "(p, q) \<in> passages m \<longleftrightarrow> diff p q \<in> set directions \<and> p \<in> cells m \<and> q \<in> cells m \<and>
     \<not> wall (diff p q) (m_maze m (snd p) (fst p))"
  using hasWallBetween_diff [of "fst p" "snd p" "fst q" "snd q" m]
  by (auto simp: passages_def case_prod_unfold diff_def)

lemma passages_unchanged [simp]:
  "passages (mark x y m) = passages m" "passages (m\<lparr>m_rng := k\<rparr>) = passages m"
  "cells (mark x y m) = cells m" "cells (m\<lparr>m_rng := k\<rparr>) = cells m"
proof -
  show c: "cells (mark x y m) = cells m" "cells (m\<lparr>m_rng := k\<rparr>) = cells m" by (simp_all add: cells_def)
  have "wall dir (m_maze (mark x y m) b a) = wall dir (m_maze m b a)" for dir a b
    by (simp add: update_cell_at wall_def)
  with c have "(p, q) \<in> passages (mark x y m) \<longleftrightarrow> (p, q) \<in> passages m" "(p, q) \<in> passages (m\<lparr>m_rng := k\<rparr>) \<longleftrightarrow> (p, q) \<in> passages m"
    for p q by (simp_all only: in_passages, simp)
  then show "passages (mark x y m) = passages m" "passages (m\<lparr>m_rng := k\<rparr>) = passages m" by auto
qed

lemma cells_removeWall [simp]: "cells (removeWall x1 y1 x2 y2 m) = cells m"
  by (simp add: cells_def)

lemma maze_removeWall:
  assumes "diff (x1, y1) (x2, y2) \<in> set directions"
  shows "m_maze (removeWall x1 y1 x2 y2 m) b a =
    (if (a, b) = (x1, y1) then open_wall (diff (x1, y1) (x2, y2)) (m_maze m b a)
     else if (a, b) = (x2, y2) then open_wall (diff (x2, y2) (x1, y1)) (m_maze m b a)
     else m_maze m b a)"
  using assms by (cases rule: neighbour_cases) (simp_all add: removeWall_def Let_def update_cell_at open_wall_def diff_def)

lemma passages_removeWall:
  assumes "diff p q \<in> set directions" "p \<in> cells m" "q \<in> cells m"
  shows "passages (removeWall (fst p) (snd p) (fst q) (snd q) m) = insert (p, q) (insert (q, p) (passages m))"
proof -
  have w: "wall (diff a b) (m_maze (removeWall (fst p) (snd p) (fst q) (snd q) m) (snd a) (fst a)) \<longleftrightarrow>
    wall (diff a b) (m_maze m (snd a) (fst a)) \<and> (a, b) \<noteq> (p, q) \<and> (a, b) \<noteq> (q, p)"
    if "diff a b \<in> set directions" for a b
    using assms(1) that opposite_direction [of p q] diff_neq [OF assms(1)]
    by (cases "a = p"; cases "a = q") (simp_all add: maze_removeWall wall_open_wall)
  have "(a, b) \<in> passages (removeWall (fst p) (snd p) (fst q) (snd q) m) \<longleftrightarrow>
    (a, b) \<in> passages m \<or> (a, b) = (p, q) \<or> (a, b) = (q, p)" for a b
    using assms opposite_direction [of p q] w [of a b] by (auto simp: in_passages)
  then show ?thesis by auto
qed

section \<open>Generation builds a spanning tree\<close>

text \<open>Passages join visited cells only, in both directions.\<close>

definition carved :: "MazeGenerator \<Rightarrow> bool" where
  "carved m \<longleftrightarrow> sym (passages m) \<and> (\<forall>(p, q) \<in> passages m. p \<notin> unvisited m \<and> q \<notin> unvisited m)"

text \<open>
  What a part of the search at position \<open>p\<close> achieves: it keeps the passages and the cells, every cell it
  visits is joined to \<open>p\<close>, has only visited neighbours, and costs one passage.
\<close>

definition explored :: "position \<Rightarrow> MazeGenerator \<Rightarrow> MazeGenerator \<Rightarrow> bool" where
  "explored p m m' \<longleftrightarrow> carved m' \<and> cells m' = cells m \<and> unvisited m' \<subseteq> unvisited m \<and> passages m \<subseteq> passages m' \<and>
     card (passages m') + 2 * card (unvisited m') = card (passages m) + 2 * card (unvisited m) \<and>
     (\<forall>q \<in> unvisited m - unvisited m'. (p, q) \<in> (passages m')\<^sup>*) \<and>
     (\<forall>q \<in> unvisited m - unvisited m'. \<forall>dir \<in> set directions. step q dir \<notin> unvisited m')"

lemma explored_rng [simp]:
  "carved (m\<lparr>m_rng := k\<rparr>) = carved m" "explored p (m\<lparr>m_rng := k\<rparr>) m' = explored p m m'"
  by (simp_all add: carved_def explored_def)

lemma explored_refl: "carved m \<Longrightarrow> explored p m m"
  by (simp add: explored_def)

lemma explored_trans:
  assumes e1: "explored p m m1" and e2: "explored p m1 m2"
  shows "explored p m m2"
proof -
  have sub: "passages m1 \<subseteq> passages m2" "unvisited m2 \<subseteq> unvisited m1" using e2 by (simp_all add: explored_def)
  have reach: "(p, q) \<in> (passages m2)\<^sup>*" if "q \<in> unvisited m - unvisited m2" for q
  proof (cases "q \<in> unvisited m1")
    case True
    with that e2 show ?thesis by (simp add: explored_def)
  next
    case False
    with that e1 have "(p, q) \<in> (passages m1)\<^sup>*" by (simp add: explored_def)
    with rtrancl_mono [OF sub(1)] show ?thesis by blast
  qed
  have clos: "step q dir \<notin> unvisited m2" if "q \<in> unvisited m - unvisited m2" "dir \<in> set directions" for q dir
  proof (cases "q \<in> unvisited m1")
    case True
    with that e2 show ?thesis by (simp add: explored_def)
  next
    case False
    with that e1 have "step q dir \<notin> unvisited m1" by (simp add: explored_def)
    with sub(2) show ?thesis by blast
  qed
  have "carved m2" "cells m2 = cells m" "unvisited m2 \<subseteq> unvisited m" "passages m \<subseteq> passages m2"
    "card (passages m2) + 2 * card (unvisited m2) = card (passages m) + 2 * card (unvisited m)"
    using e1 e2 by (auto simp: explored_def)
  with reach clos show ?thesis unfolding explored_def by (intro conjI ballI)
qed

lemma explored_through:
  assumes "carved m" "p \<in> cells m" "p \<notin> unvisited m" "q \<in> unvisited m" "diff p q \<in> set directions"
    and ex: "explored q (mark (fst q) (snd q) (removeWall (fst p) (snd p) (fst q) (snd q) m)) m'"
    and closed: "\<forall>dir \<in> set directions. step q dir \<notin> unvisited m'"
  shows "explored p m m'"
proof -
  have q: "q \<in> cells m" using assms(4) unvisited_cells by auto
  note pass = passages_removeWall [OF assms(5,2) q]
  have new: "(p, q) \<notin> passages m" "(q, p) \<notin> passages m" "p \<noteq> q"
    using assms(1,4) diff_neq [OF assms(5)] by (auto simp: carved_def)
  have e: "carved m'" "cells m' = cells m" "unvisited m' \<subseteq> unvisited m - {q}"
    "insert (p, q) (insert (q, p) (passages m)) \<subseteq> passages m'"
    "card (passages m') + 2 * card (unvisited m') = card (passages m) + 2 + 2 * card (unvisited m - {q})"
    "\<And>r. r \<in> unvisited m - {q} - unvisited m' \<Longrightarrow> (q, r) \<in> (passages m')\<^sup>*"
    "\<And>r dir. r \<in> unvisited m - {q} - unvisited m' \<Longrightarrow> dir \<in> set directions \<Longrightarrow> step r dir \<notin> unvisited m'"
    using ex new by (simp_all add: explored_def pass del: fst_conv snd_conv)
  have count: "card (passages m') + 2 * card (unvisited m') = card (passages m) + 2 * card (unvisited m)"
    using e(5) card.remove [OF finite_unvisited assms(4)] by simp
  have reach: "(p, r) \<in> (passages m')\<^sup>*" if "r \<in> unvisited m - unvisited m'" for r
  proof (cases "r = q")
    case False
    with that e(4) e(6) [of r] show ?thesis by (auto intro: converse_rtrancl_into_rtrancl)
  qed (use e(4) in auto)
  have clos: "step r dir \<notin> unvisited m'" if "r \<in> unvisited m - unvisited m'" "dir \<in> set directions" for r dir
    using that closed e(7) [of r dir] by (cases "r = q") simp_all
  show ?thesis unfolding explored_def
    by (intro conjI ballI e(1,2) count reach clos) (use e(3,4) in auto)
qed

lemma carved_start:
  assumes "carved m" "p \<in> cells m" "p \<notin> unvisited m" "q \<in> unvisited m" "diff p q \<in> set directions"
  shows "carved (mark (fst q) (snd q) (removeWall (fst p) (snd p) (fst q) (snd q) m))"
proof -
  have "q \<in> cells m" using assms(4) unvisited_cells by auto
  note pass = passages_removeWall [OF assms(5,2) this]
  from assms(1,3) show ?thesis
    unfolding carved_def passages_unchanged pass unvisited_mark unvisited_removeWall by (simp add: sym_def) blast
qed

text \<open>What the standard says of \<open>std::shuffle\<close>: it permutes the elements.\<close>

definition is_shuffle :: "(nat \<Rightarrow> direction list \<Rightarrow> direction list) \<Rightarrow> bool" where
  "is_shuffle shuffle \<longleftrightarrow> (\<forall>k xs. mset (shuffle k xs) = mset xs)"

lemma set_shuffle: "is_shuffle shuffle \<Longrightarrow> set (shuffle k xs) = set xs"
  unfolding is_shuffle_def by (metis set_mset_mset)

lemma DFS_explores:
  shows "is_shuffle shuffle \<Longrightarrow> carved (mark x y m) \<Longrightarrow> (x, y) \<in> cells m \<Longrightarrow>
      explored (x, y) (mark x y m) (generateDFS shuffle x y m) \<and>
      (\<forall>dir \<in> set directions. step (x, y) dir \<notin> unvisited (generateDFS shuffle x y m))"
    and "is_shuffle shuffle \<Longrightarrow> carved m \<Longrightarrow> (x, y) \<in> cells m \<Longrightarrow> (x, y) \<notin> unvisited m \<Longrightarrow> set dirs \<subseteq> set directions \<Longrightarrow>
      explored (x, y) m (try_directions shuffle x y dirs m) \<and>
      (\<forall>dir \<in> set dirs. step (x, y) dir \<notin> unvisited (try_directions shuffle x y dirs m))"
proof (induction shuffle x y m and shuffle x y dirs m rule: generateDFS_try_directions.induct)
  case (1 shuffle x y m)
  then show ?case by (simp add: generateDFS.simps set_shuffle)
next
  case (2 shuffle x y m)
  then show ?case by (simp add: explored_refl)
next
  case (3 shuffle x y dir dirs m)
  let ?q = "(x + fst dir, y + snd dir)"
  show ?case
  proof (cases "?q \<in> unvisited m")
    case True
    let ?r = "removeWall x y (x + fst dir) (y + snd dir) m"
    let ?m = "generateDFS shuffle (x + fst dir) (y + snd dir) ?r"
    have in_bounds: "isInBounds (x + fst dir) (y + snd dir) m \<and> \<not> visited (m_maze m (y + snd dir) (x + fst dir))"
      using True by (simp add: unvisited_def)
    have diff: "diff (x, y) ?q \<in> set directions" using 3(8) by (simp add: diff_def)
    have "carved (mark (x + fst dir) (y + snd dir) ?r)" using carved_start [OF 3(5-7) True diff] by simp
    moreover have "?q \<in> cells ?r" using True unvisited_cells by auto
    ultimately have ex: "explored ?q (mark (x + fst dir) (y + snd dir) ?r) ?m"
      and closed: "\<forall>d \<in> set directions. step ?q d \<notin> unvisited ?m"
      using 3(1) [OF refl refl in_bounds 3(4)] by blast+
    have first: "explored (x, y) m ?m" using explored_through [OF 3(5-7) True diff] ex closed by simp
    then have "carved ?m" "cells ?m = cells m" "unvisited ?m \<subseteq> unvisited m" by (simp_all add: explored_def)
    with 3(2) [OF refl refl in_bounds 3(4)] 3(6-8)
    have rest: "explored (x, y) ?m (try_directions shuffle x y dirs ?m)"
      "\<forall>d \<in> set dirs. step (x, y) d \<notin> unvisited (try_directions shuffle x y dirs ?m)" by auto
    have "?q \<notin> unvisited ?m" using ex by (auto simp: explored_def)
    with rest(1) have "?q \<notin> unvisited (try_directions shuffle x y dirs ?m)" by (auto simp: explored_def)
    with rest(2) explored_trans [OF first rest(1)] in_bounds show ?thesis by (simp add: try_directions.simps Let_def)
  next
    case False
    then have no: "\<not> (isInBounds (x + fst dir) (y + snd dir) m \<and> \<not> visited (m_maze m (y + snd dir) (x + fst dir)))"
      by (simp add: unvisited_def)
    with 3(3) [OF refl refl no 3(4-7)] 3(8)
    have "explored (x, y) m (try_directions shuffle x y dirs m)"
      "\<forall>d \<in> set dirs. step (x, y) d \<notin> unvisited (try_directions shuffle x y dirs m)" by auto
    moreover from this(1) False have "?q \<notin> unvisited (try_directions shuffle x y dirs m)" by (auto simp: explored_def)
    ultimately show ?thesis using no by (auto simp: try_directions.simps Let_def)
  qed
qed

section \<open>Trees\<close>

text \<open>A connected graph on \<open>n\<close> nodes has at least \<open>n - 1\<close> edges, counted here in both directions.\<close>

lemma last_edge:
  assumes "(r, v) \<in> E\<^sup>*" "v \<noteq> r"
  obtains p where "(p, v) \<in> E" "(LEAST n. (r, v) \<in> E ^^ n) = Suc (LEAST n. (r, p) \<in> E ^^ n)"
proof -
  let ?d = "\<lambda>v. LEAST n. (r, v) \<in> E ^^ n"
  have "\<exists>n. (r, v) \<in> E ^^ n" using assms(1) by (simp add: rtrancl_power)
  then have v: "(r, v) \<in> E ^^ ?d v" by (rule LeastI_ex)
  with assms(2) obtain k where k: "?d v = Suc k" by (cases "?d v") auto
  with v obtain p where p: "(r, p) \<in> E ^^ k" "(p, v) \<in> E" by (auto elim: relpow_Suc_E)
  have "(r, p) \<in> E ^^ ?d p" using p(1) by (rule LeastI)
  then have "(r, v) \<in> E ^^ Suc (?d p)" using p(2) by (rule relpow_Suc_I)
  then have "?d v \<le> Suc (?d p)" by (rule Least_le)
  moreover have "?d p \<le> k" using p(1) by (rule Least_le)
  ultimately have "?d v = Suc (?d p)" using k by simp
  with p(2) show ?thesis by (rule that)
qed

lemma connected_edges:
  assumes "finite E" "sym E" "finite V" "r \<in> V" "\<And>v. v \<in> V \<Longrightarrow> (r, v) \<in> E\<^sup>*"
  shows "2 * (card V - 1) \<le> card E"
proof -
  let ?d = "\<lambda>v. LEAST n. (r, v) \<in> E ^^ n"
  have "\<forall>v \<in> V - {r}. \<exists>p. (p, v) \<in> E \<and> ?d v = Suc (?d p)"
  proof
    fix v
    assume "v \<in> V - {r}"
    then have "(r, v) \<in> E\<^sup>*" "v \<noteq> r" using assms(5) by auto
    then show "\<exists>p. (p, v) \<in> E \<and> ?d v = Suc (?d p)" by (rule last_edge) blast
  qed
  then obtain par where par: "\<And>v. v \<in> V - {r} \<Longrightarrow> (par v, v) \<in> E" "\<And>v. v \<in> V - {r} \<Longrightarrow> ?d v = Suc (?d (par v))"
    by metis
  let ?A = "(\<lambda>v. (par v, v)) ` (V - {r})" and ?B = "(\<lambda>v. (v, par v)) ` (V - {r})"
  have "card ?A = card V - 1" "card ?B = card V - 1"
    using assms(3,4) by (simp_all add: card_image inj_on_def)
  moreover have "?A \<inter> ?B = {}"
  proof (rule equals0I)
    fix e
    assume "e \<in> ?A \<inter> ?B"
    then obtain v w where vw: "e = (par v, v)" "v \<in> V - {r}" "e = (w, par w)" "w \<in> V - {r}" by blast
    have eq: "par v = w" "v = par w" by (rule Pair_inject [OF trans [OF vw(1) [symmetric] vw(3)]], assumption)+
    from par(2) [OF vw(2)] par(2) [OF vw(4)] show False unfolding eq(1) eq(2) [symmetric] by linarith
  qed
  ultimately have "2 * (card V - 1) = card (?A \<union> ?B)" using assms(3) by (simp add: card_Un_disjoint)
  also have "\<dots> \<le> card E" using par(1) assms(2) by (intro card_mono assms(1)) (auto dest: symD)
  finally show ?thesis .
qed

text \<open>So every edge of a connected graph with \<open>n - 1\<close> edges is the only way between its ends.\<close>

lemma tree_edge:
  assumes "finite E" "sym E" "finite V" "r \<in> V" "\<And>v. v \<in> V \<Longrightarrow> (r, v) \<in> E\<^sup>*"
    and "card E = 2 * (card V - 1)" "(a, b) \<in> E" "a \<noteq> b"
  shows "(a, b) \<notin> (E - {(a, b), (b, a)})\<^sup>*"
proof
  let ?E = "E - {(a, b), (b, a)}"
  assume ab: "(a, b) \<in> ?E\<^sup>*"
  have sym: "sym ?E" using assms(2) by (auto simp: sym_def)
  have ba: "(b, a) \<in> ?E\<^sup>*" using ab sym_rtrancl [OF sym] by (rule symD [rotated])
  have "E \<subseteq> ?E\<^sup>*" using ab ba by auto
  then have "E\<^sup>* \<subseteq> ?E\<^sup>*" by (metis rtrancl_mono rtrancl_idemp)
  then have "2 * (card V - 1) \<le> card ?E" using assms(5) by (intro connected_edges [OF _ sym assms(3,4)]) (auto simp: assms(1))
  moreover have "card ?E < card E" by (rule psubset_card_mono [OF assms(1)]) (use assms(7) in auto)
  ultimately show False using assms(6) by simp
qed

section \<open>Generated mazes\<close>

definition all_walls :: "int \<Rightarrow> int \<Rightarrow> MazeGenerator \<Rightarrow> MazeGenerator" where
  "all_walls width height m = m\<lparr>m_width := width, m_height := height, m_maze := (\<lambda>_ _. Cell_new)\<rparr>"

lemma all_walls_empty:
  "passages (all_walls w h m) = {}" "unvisited (all_walls w h m) = cells (all_walls w h m)"
  "cells (all_walls w h m) = {0..<w} \<times> {0..<h}"
proof -
  have "wall dir Cell_new" for dir by (simp add: wall_def Cell_new_def)
  then have "(p, q) \<notin> passages (all_walls w h m)" for p q by (simp only: all_walls_def in_passages) simp
  then show "passages (all_walls w h m) = {}" by auto
qed (auto simp: all_walls_def Cell_new_def unvisited_def cells_def isInBounds_def)

lemma every_cell_visited:
  assumes "(0, 0) \<notin> unvisited m'" "unvisited m' \<subseteq> {0..<w} \<times> {0..<h}"
    and "\<And>p dir. p \<in> {0..<w} \<times> {0..<h} - unvisited m' \<Longrightarrow> dir \<in> set directions \<Longrightarrow> step p dir \<notin> unvisited m'"
  shows "unvisited m' = {}"
proof -
  have "(int i, int j) \<notin> unvisited m'" if "int i < w" "int j < h" for i j
    using that
  proof (induction "i + j" arbitrary: i j)
    case (Suc n)
    show ?case
    proof (cases i)
      case 0
      with Suc obtain j' where j: "j = Suc j'" by (cases j) auto
      with Suc.prems Suc.hyps(2) 0 have "(int 0, int j') \<notin> unvisited m'" by (intro Suc.hyps(1)) auto
      with Suc.prems 0 j assms(3) [of "(int 0, int j')" "(0, 1)"] show ?thesis by (simp add: directions_def add.commute)
    next
      case (Suc i')
      with Suc.prems Suc.hyps(2) have "(int i', int j) \<notin> unvisited m'" by (intro Suc.hyps(1)) auto
      with Suc.prems \<open>i = Suc i'\<close> assms(3) [of "(int i', int j)" "(1, 0)"] show ?thesis by (simp add: directions_def add.commute)
    qed
  qed (use assms(1) in simp)
  then have "(x, y) \<notin> unvisited m'" if "0 \<le> x" "x < w" "0 \<le> y" "y < h" for x y
    using that by (metis zero_le_imp_eq_int)
  with assms(2) show ?thesis by auto
qed

lemma generated:
  assumes "is_shuffle shuffle" "0 < w" "0 < h"
  obtains m' where "generate shuffle w h m = Inr m'" "carved m'" "cells m' = {0..<w} \<times> {0..<h}"
    "card (passages m') = 2 * (card (cells m') - 1)" "\<And>p. p \<in> cells m' \<Longrightarrow> ((0, 0), p) \<in> (passages m')\<^sup>*"
proof -
  let ?m = "all_walls w h m"
  let ?m' = "generateDFS shuffle 0 0 ?m"
  have z: "(0, 0) \<in> cells ?m" using assms by (simp add: all_walls_empty)
  have "carved (mark 0 0 ?m)" by (simp add: carved_def all_walls_empty sym_def)
  note dfs = DFS_explores(1) [OF assms(1) this z]
  note ex = dfs [THEN conjunct1] and closed = dfs [THEN conjunct2]
  let ?V = "{0..<w} \<times> {0..<h}"
  have e: "carved ?m'" "cells ?m' = ?V" "unvisited ?m' \<subseteq> ?V - {(0, 0)}"
    "card (passages ?m') + 2 * card (unvisited ?m') = 2 * card (?V - {(0, 0)})"
    "\<And>p. p \<in> ?V - {(0, 0)} - unvisited ?m' \<Longrightarrow> ((0, 0), p) \<in> (passages ?m')\<^sup>*"
    "\<And>p dir. p \<in> ?V - {(0, 0)} - unvisited ?m' \<Longrightarrow> dir \<in> set directions \<Longrightarrow> step p dir \<notin> unvisited ?m'"
    using ex by (simp_all add: explored_def all_walls_empty del: split_paired_All)
  have none: "unvisited ?m' = {}"
  proof (rule every_cell_visited)
    fix p dir
    assume "p \<in> ?V - unvisited ?m'" "dir \<in> set directions"
    with e(6) [of p dir] closed show "step p dir \<notin> unvisited ?m'" by (cases "p = (0, 0)") simp_all
  qed (use e(3) in auto)
  have "(0, 0) \<in> ?V" using assms by simp
  then have count: "card (passages ?m') = 2 * (card (cells ?m') - 1)" using e(2,4) none by (simp add: card_Diff_singleton)
  have reach: "((0, 0), p) \<in> (passages ?m')\<^sup>*" if "p \<in> cells ?m'" for p
    using e(2,5) none that by (cases "p = (0, 0)") simp_all
  have gen: "generate shuffle w h m = Inr ?m'" using assms by (simp add: generate_def all_walls_def)
  from that [OF gen e(1,2) count reach] show ?thesis .
qed

text \<open>
  C5. Generated mazes are perfect. For every positive width and height and every behaviour of
  \<open>std::shuffle\<close>, \<open>generate\<close> returns a maze whose cells are all connected, whose passages can be used in
  both directions, and in which every passage is the only way between its two cells: the passages form a
  spanning tree, so between any two cells there is exactly one way.
\<close>

theorem maze_is_perfect:
  assumes "is_shuffle shuffle" "0 < width" "0 < height"
  shows "\<exists>m'. generate shuffle width height m = Inr m' \<and> cells m' = {0..<width} \<times> {0..<height} \<and>
    (\<forall>p q. p \<in> cells m' \<longrightarrow> q \<in> cells m' \<longrightarrow> (p, q) \<in> (passages m')\<^sup>*) \<and>
    (\<forall>p q. (p, q) \<in> passages m' \<longrightarrow> (q, p) \<in> passages m' \<and> (p, q) \<notin> (passages m' - {(p, q), (q, p)})\<^sup>*)"
proof -
  obtain m' where m': "generate shuffle width height m = Inr m'" "carved m'" "cells m' = {0..<width} \<times> {0..<height}"
    "card (passages m') = 2 * (card (cells m') - 1)" "\<And>p. p \<in> cells m' \<Longrightarrow> ((0, 0), p) \<in> (passages m')\<^sup>*"
    using generated [OF assms] by blast
  have sym: "sym (passages m')" using m'(2) by (simp add: carved_def)
  have root: "(0, 0) \<in> cells m'" using m'(3) assms by simp
  have "(p, q) \<in> (passages m')\<^sup>*" if "p \<in> cells m'" "q \<in> cells m'" for p q
    using m'(5) [OF that(1)] m'(5) [OF that(2)] sym_rtrancl [OF sym] by (blast dest: symD intro: rtrancl_trans)
  moreover have "(p, q) \<notin> (passages m' - {(p, q), (q, p)})\<^sup>*" if "(p, q) \<in> passages m'" for p q
    using that diff_neq by (intro tree_edge [OF finite_passages sym finite_cells_set root m'(5,4)]) (auto simp: in_passages)
  ultimately show ?thesis using m'(1,3) sym by (blast dest: symD)
qed

text \<open>A shuffle that reverses every second time.\<close>

definition alternating :: "nat \<Rightarrow> direction list \<Rightarrow> direction list" where
  "alternating k xs = (if even k then xs else rev xs)"

lemma alternating_shuffle: "is_shuffle alternating"
  by (simp add: is_shuffle_def alternating_def)

theorem maze_is_perfect_witness:
  "is_shuffle alternating \<and> (\<exists>m'. generate alternating 3 2 MazeGenerator_new = Inr m' \<and> cells m' = {0..<3} \<times> {0..<2} \<and>
    (\<forall>p q. p \<in> cells m' \<longrightarrow> q \<in> cells m' \<longrightarrow> (p, q) \<in> (passages m')\<^sup>*) \<and>
    (\<forall>p q. (p, q) \<in> passages m' \<longrightarrow> (q, p) \<in> passages m' \<and> (p, q) \<notin> (passages m' - {(p, q), (q, p)})\<^sup>*))"
  using maze_is_perfect [OF alternating_shuffle, of 3 2 MazeGenerator_new] alternating_shuffle by simp

text \<open>The comment says that cells which are not neighbours count as separated; the code looks at one coordinate only.\<close>

lemma distant_cells_without_wall:
  "(case generate alternating 3 2 MazeGenerator_new of Inr m \<Rightarrow> \<not> hasWallBetween 0 0 1 1 m | Inl _ \<Rightarrow> False)"
  by code_simp

end
