(* ===== verification/Maze_Search.thy ===== *)
theory Maze_Search
  imports Maze_Props
begin

text \<open>
  Correctness of the two breadth-first searches of \<open>MazeGenerator\<close>, for every maze: the first gives the
  length of a shortest way, the second a way of that length. The common invariant speaks of positions
  only; the queue of the first search adds the distances, that of the second the parents.
\<close>

section \<open>Distances\<close>

definition distance_is :: "('a \<times> 'a) set \<Rightarrow> 'a \<Rightarrow> 'a \<Rightarrow> nat \<Rightarrow> bool" where
  "distance_is E s q n \<longleftrightarrow> (s, q) \<in> E ^^ n \<and> (\<forall>k < n. (s, q) \<notin> E ^^ k)"

lemma distance_unique: "distance_is E s q n \<Longrightarrow> distance_is E s q k \<Longrightarrow> n = k"
  unfolding distance_is_def by (metis linorder_neqE_nat)

lemma distance_exists:
  assumes "(s, q) \<in> E ^^ n"
  obtains k where "k \<le> n" "distance_is E s q k"
proof
  show "distance_is E s q (LEAST k. (s, q) \<in> E ^^ k)"
    using LeastI [of "\<lambda>k. (s, q) \<in> E ^^ k", OF assms] not_less_Least by (auto simp: distance_is_def)
  show "(LEAST k. (s, q) \<in> E ^^ k) \<le> n" using assms by (rule Least_le)
qed

lemma reachable_distance: "(s, q) \<in> E\<^sup>* \<longleftrightarrow> (\<exists>n. distance_is E s q n)"
  by (metis distance_exists distance_is_def relpow_imp_rtrancl rtrancl_imp_relpow)

lemma distance_start [simp]: "distance_is E s q 0 \<longleftrightarrow> q = s"
  by (auto simp: distance_is_def)

lemma distance_Suc:
  assumes "distance_is E s p n" "(p, q) \<in> E" "\<And>k. k \<le> n \<Longrightarrow> \<not> distance_is E s q k"
  shows "distance_is E s q (Suc n)"
proof -
  have "(s, q) \<in> E ^^ Suc n" using assms(1,2) by (auto simp: distance_is_def)
  then obtain k where "k \<le> Suc n" "distance_is E s q k" by (rule distance_exists)
  with assms(3) show ?thesis by (cases "k = Suc n") auto
qed

lemma distance_predecessor:
  assumes "distance_is E s q (Suc n)"
  obtains p where "distance_is E s p n" "(p, q) \<in> E"
proof -
  from assms obtain p where p: "(s, p) \<in> E ^^ n" "(p, q) \<in> E" by (auto simp: distance_is_def)
  have "(s, p) \<notin> E ^^ k" if "k < n" for k
  proof
    assume "(s, p) \<in> E ^^ k"
    with p(2) have "(s, q) \<in> E ^^ Suc k" by auto
    moreover have "(s, q) \<notin> E ^^ Suc k" using assms that by (simp add: distance_is_def del: relpow.simps)
    ultimately show False by contradiction
  qed
  with p show ?thesis by (intro that [of p]) (simp_all add: distance_is_def)
qed

section \<open>The invariant of the search\<close>

text \<open>
  The queue holds positions \<open>A\<close> at distance \<open>d\<close>, then positions \<open>B\<close> at distance \<open>d + 1\<close>. Seen are all
  positions up to distance \<open>d\<close>, and \<open>B\<close>; a position that has left the queue has only seen neighbours.
\<close>

definition bfs_inv :: "('a \<times> 'a) set \<Rightarrow> 'a \<Rightarrow> nat \<Rightarrow> 'a list \<Rightarrow> 'a list \<Rightarrow> 'a set \<Rightarrow> bool" where
  "bfs_inv E s d A B seen \<longleftrightarrow>
     (\<forall>q \<in> set A. distance_is E s q d) \<and> (\<forall>q \<in> set B. distance_is E s q (Suc d)) \<and>
     seen = {q. \<exists>k \<le> d. distance_is E s q k} \<union> set B \<and>
     (\<forall>p q. (\<exists>k \<le> d. distance_is E s p k) \<longrightarrow> p \<notin> set A \<longrightarrow> (p, q) \<in> E \<longrightarrow> q \<in> seen)"

lemma bfs_init: "bfs_inv E s 0 [s] [] {s}"
  by (auto simp: bfs_inv_def)

lemma bfs_shift:
  assumes "bfs_inv E s d [] B seen"
  shows "bfs_inv E s (Suc d) B [] seen"
proof -
  have seen: "seen = {q. \<exists>k \<le> d. distance_is E s q k} \<union> set B" and B: "\<forall>q \<in> set B. distance_is E s q (Suc d)"
    and closed: "\<And>p q k. k \<le> d \<Longrightarrow> distance_is E s p k \<Longrightarrow> (p, q) \<in> E \<Longrightarrow> q \<in> seen"
    using assms by (auto simp: bfs_inv_def)
  have "q \<in> seen" if "distance_is E s q (Suc d)" for q
    using that closed [of d] by (auto elim: distance_predecessor)
  with seen B have eq: "seen = {q. \<exists>k \<le> Suc d. distance_is E s q k}" by (auto simp: le_Suc_eq)
  have "q \<in> seen" if "k \<le> Suc d" "distance_is E s p k" "p \<notin> set B" "(p, q) \<in> E" for p q k
  proof -
    have "p \<in> seen" using eq that by auto
    with seen that(3) obtain j where "j \<le> d" "distance_is E s p j" by auto
    with closed that(4) show ?thesis by blast
  qed
  with eq B show ?thesis by (auto simp: bfs_inv_def)
qed

lemma bfs_new:
  assumes "bfs_inv E s d (p # A) B seen" "(p, q) \<in> E" "q \<notin> seen"
  shows "distance_is E s q (Suc d)"
  using assms by (intro distance_Suc [of E s p]) (auto simp: bfs_inv_def)

lemma bfs_step:
  assumes inv: "bfs_inv E s d (p # A) B seen" and new: "set new = {q. (p, q) \<in> E \<and> q \<notin> seen}"
  shows "bfs_inv E s d A (B @ new) (seen \<union> set new)"
proof -
  have "\<forall>q \<in> set new. distance_is E s q (Suc d)" using bfs_new [OF inv] new by auto
  moreover have "r \<in> seen \<union> set new" if "k \<le> d" "distance_is E s q k" "q \<notin> set A" "(q, r) \<in> E" for q r k
    using that inv new by (cases "q = p") (auto simp: bfs_inv_def)
  ultimately show ?thesis using inv by (auto simp: bfs_inv_def)
qed

text \<open>An empty queue means that everything reachable has been seen.\<close>

lemma bfs_done:
  assumes "bfs_inv E s d [] [] seen"
  shows "seen = {q. (s, q) \<in> E\<^sup>*}"
proof
  show "seen \<subseteq> {q. (s, q) \<in> E\<^sup>*}" using assms by (auto simp: bfs_inv_def reachable_distance)
  have "q \<in> seen" if "(s, q) \<in> E\<^sup>*" for q
    using that
  proof (induction rule: rtrancl_induct)
    case base
    show ?case using assms distance_start [of E s s] unfolding bfs_inv_def by blast
  next
    case (step p q)
    with assms show ?case by (auto simp: bfs_inv_def)
  qed
  then show "{q. (s, q) \<in> E\<^sup>*} \<subseteq> seen" by auto
qed

text \<open>A queue that is not empty has a first position, and the rest splits again.\<close>

lemma bfs_head:
  assumes "bfs_inv E s d A B seen" "A @ B = p # queue"
  obtains d' A' B' where "bfs_inv E s d' (p # A') B' seen" "queue = A' @ B'"
    "map (\<lambda>q. (q, d)) A @ map (\<lambda>q. (q, Suc d)) B = (p, d') # map (\<lambda>q. (q, d')) A' @ map (\<lambda>q. (q, Suc d')) B'"
proof (cases A)
  case Nil
  with assms show ?thesis by (intro that [of "Suc d" queue "[]"]) (auto dest: bfs_shift)
next
  case (Cons a A')
  with assms show ?thesis by (intro that [of d A' B]) auto
qed

section \<open>The shortest distance\<close>

definition new_cells :: "MazeGenerator \<Rightarrow> position \<Rightarrow> position set \<Rightarrow> direction list \<Rightarrow> position list" where
  "new_cells m p seen dirs = filter (\<lambda>q. (p, q) \<in> passages m \<and> q \<notin> seen) (map (step p) dirs)"

lemma passage_step:
  "dir \<in> set directions \<Longrightarrow>
   ((x, y), (x + fst dir, y + snd dir)) \<in> passages m \<longleftrightarrow>
   isInBounds (x + fst dir) (y + snd dir) m \<and> \<not> hasWallBetween x y (x + fst dir) (y + snd dir) m"
  by (auto simp: passages_def hasWallBetween_def)

lemma new_cells_Cons:
  assumes "distinct (dir # dirs)"
  shows "new_cells m p seen (dir # dirs) =
    (if (p, step p dir) \<in> passages m \<and> step p dir \<notin> seen
     then step p dir # new_cells m p (insert (step p dir) seen) dirs else new_cells m p seen dirs)"
proof -
  have "step p d \<noteq> step p dir" if "d \<in> set dirs" for d
    using assms that by (cases d, cases dir) auto
  then have "new_cells m p (insert (step p dir) seen) dirs = new_cells m p seen dirs"
    unfolding new_cells_def by (intro filter_cong) auto
  then show ?thesis by (simp add: new_cells_def)
qed

lemma passage_neighbour: "(p, q) \<in> passages m \<Longrightarrow> q \<in> step p ` set directions"
  by (intro image_eqI [of _ _ "diff p q"]) (auto simp: in_passages)

lemma new_cells_all: "set (new_cells m p seen directions) = {q. (p, q) \<in> passages m \<and> q \<notin> seen}"
  using passage_neighbour by (auto simp: new_cells_def)

lemma sp_pass:
  "distinct dirs \<Longrightarrow> set dirs \<subseteq> set directions \<Longrightarrow>
   foldl (sp_try m x y d) (seen, queue) dirs =
     (seen \<union> set (new_cells m (x, y) seen dirs), queue @ map (\<lambda>q. (fst q, snd q, d + 1)) (new_cells m (x, y) seen dirs))"
proof (induction dirs arbitrary: seen queue)
  case (Cons dir dirs)
  then have "distinct dirs" "set dirs \<subseteq> set directions" by simp_all
  note IH = Cons.IH [OF this]
  have "sp_try m x y d (seen, queue) dir =
      (if ((x, y), step (x, y) dir) \<in> passages m \<and> step (x, y) dir \<notin> seen
       then (insert (step (x, y) dir) seen, queue @ [(x + fst dir, y + snd dir, d + 1)]) else (seen, queue))"
    using passage_step [of dir x y m] Cons.prems by (auto simp: sp_try_def Let_def)
  with Cons.prems show ?case by (simp add: new_cells_Cons IH del: distinct.simps)
qed (simp add: new_cells_def)

lemma distinct_directions: "distinct directions"
  by (simp add: directions_def)

lemmas sp_directions = sp_pass [OF distinct_directions subset_refl]

abbreviation with_distance :: "position \<times> nat \<Rightarrow> int \<times> int \<times> int" where
  "with_distance \<equiv> \<lambda>(q, d). (fst q, snd q, int d)"

lemma sp_loop_correct:
  assumes "bfs_inv (passages m) s d A B seen" "(ex, ey) \<in> seen \<Longrightarrow> (ex, ey) \<in> set A \<union> set B"
    and "queue = map with_distance (map (\<lambda>q. (q, d)) A @ map (\<lambda>q. (q, Suc d)) B)"
  shows "(\<exists>n. distance_is (passages m) s (ex, ey) n \<and> sp_loop m ex ey seen queue = int n) \<or>
    (s, (ex, ey)) \<notin> (passages m)\<^sup>* \<and> sp_loop m ex ey seen queue = -1"
  using assms
proof (induction m ex ey seen queue arbitrary: d A B rule: sp_loop.induct)
  case (1 m ex ey seen)
  then have "A = []" "B = []" by simp_all
  with 1 bfs_done [of "passages m" s d seen] show ?case by auto
next
  case (2 m ex ey seen x y distance queue)
  have "A @ B \<noteq> []" using 2(4) by auto
  then obtain p rest where "A @ B = p # rest" by (cases "A @ B") auto
  then obtain d' A' B' where inv: "bfs_inv (passages m) s d' (p # A') B' seen" and rest: "rest = A' @ B'"
    and q: "map (\<lambda>q. (q, d)) A @ map (\<lambda>q. (q, Suc d)) B = (p, d') # map (\<lambda>q. (q, d')) A' @ map (\<lambda>q. (q, Suc d')) B'"
    by (rule bfs_head [OF 2(2)])
  have p: "p = (x, y)" "distance = int d'" "queue = map with_distance (map (\<lambda>q. (q, d')) A' @ map (\<lambda>q. (q, Suc d')) B')"
    using 2(4) unfolding q by auto
  show ?case
  proof (cases "x = ex \<and> y = ey")
    case True
    moreover have "distance_is (passages m) s p d'" using inv by (simp add: bfs_inv_def)
    ultimately show ?thesis using p by auto
  next
    case False
    let ?new = "new_cells m p seen directions"
    have "(ex, ey) \<in> set A' \<union> set (B' @ ?new)" if "(ex, ey) \<in> seen \<union> set ?new"
      using that 2(3) False \<open>A @ B = p # rest\<close> rest p(1) by (metis Un_iff list.set_intros set_ConsD set_append prod.inject)
    moreover note bfs_step [OF inv new_cells_all]
    moreover have "queue @ map (\<lambda>q. (fst q, snd q, int d' + 1)) ?new =
        map with_distance (map (\<lambda>q. (q, d')) A' @ map (\<lambda>q. (q, Suc d')) (B' @ ?new))"
      using p(3) by (simp add: add.commute)
    ultimately show ?thesis
      using 2(1) [OF False refl, of d' A' "B' @ ?new"] False p by (auto simp: sp_directions)
  qed
qed

lemma calculate_cases:
  assumes "isInBounds startX startY m" "isInBounds endX endY m"
  obtains n where "distance_is (passages m) (startX, startY) (endX, endY) n" "calculateShortestPath startX startY endX endY m = int n"
  | "((startX, startY), (endX, endY)) \<notin> (passages m)\<^sup>*" "calculateShortestPath startX startY endX endY m = -1"
  using assms sp_loop_correct [OF bfs_init, of endX endY "(startX, startY)" _ m] by (auto simp: calculateShortestPath_def)

text \<open>
  C10. The shortest path. For cells inside of any maze, \<open>calculateShortestPath\<close> returns a number \<open>n\<close> exactly
  when \<open>n\<close> is the length of a shortest way through the passages, and -1 exactly when there is no way.
\<close>

theorem shortest_path_exact:
  assumes "isInBounds startX startY m" "isInBounds endX endY m"
  shows "(calculateShortestPath startX startY endX endY m = int n \<longleftrightarrow>
      distance_is (passages m) (startX, startY) (endX, endY) n) \<and>
    (calculateShortestPath startX startY endX endY m = -1 \<longleftrightarrow>
      ((startX, startY), (endX, endY)) \<notin> (passages m)\<^sup>*)"
  using assms by (rule calculate_cases) (auto simp: reachable_distance dest: distance_unique)

text \<open>Two cells with a passage.\<close>

definition corridor :: MazeGenerator where
  "corridor = removeWall 0 0 1 0 (MazeGenerator_new\<lparr>m_width := 2, m_height := 1\<rparr>)"

lemma corridor_bounds: "isInBounds 0 0 corridor" "isInBounds 1 0 corridor"
  by code_simp+

theorem shortest_path_exact_witness:
  "isInBounds 0 0 corridor \<and> isInBounds 1 0 corridor \<and>
   (calculateShortestPath 0 0 1 0 corridor = int 1 \<longleftrightarrow> distance_is (passages corridor) (0, 0) (1, 0) 1) \<and>
   (calculateShortestPath 0 0 1 0 corridor = -1 \<longleftrightarrow> ((0, 0), (1, 0)) \<notin> (passages corridor)\<^sup>*)"
  using shortest_path_exact [OF corridor_bounds, of 1] corridor_bounds by blast

lemma corridor_path: "calculateShortestPath 0 0 1 0 corridor = 1 \<and> getFullPath 0 0 1 0 corridor = Some [(0, 0), (1, 0)]"
  by code_simp (simp add: walk_back.simps)

section \<open>The path itself\<close>

text \<open>Every seen position except the start has a parent one step closer to the start.\<close>

definition parents_ok :: "(position \<times> position) set \<Rightarrow> position \<Rightarrow> (position \<rightharpoonup> position) \<Rightarrow> position set \<Rightarrow> bool" where
  "parents_ok E s parent seen \<longleftrightarrow> s \<in> seen \<and> parent s = Some (-1, -1) \<and>
     (\<forall>q \<in> seen - {s}. \<exists>p k. parent q = Some p \<and> p \<in> seen \<and> (p, q) \<in> E \<and> distance_is E s p k \<and> distance_is E s q (Suc k))"

lemma parents_insert:
  assumes "parents_ok E s parent seen" "p \<in> seen" "q \<notin> seen" "(p, q) \<in> E" "distance_is E s p d" "distance_is E s q (Suc d)"
  shows "parents_ok E s (parent(q \<mapsto> p)) (insert q seen)"
proof -
  have "\<exists>p' k. (parent(q \<mapsto> p)) r = Some p' \<and> p' \<in> insert q seen \<and> (p', r) \<in> E \<and> distance_is E s p' k \<and> distance_is E s r (Suc k)"
    if "r \<in> insert q seen - {s}" for r
  proof (cases "r = q")
    case True
    with assms(2,4,5,6) show ?thesis by auto
  next
    case False
    with that assms(1) show ?thesis unfolding parents_ok_def by (metis DiffE DiffI fun_upd_apply insertE insertI2)
  qed
  moreover have "s \<noteq> q" using assms(1,3) by (auto simp: parents_ok_def)
  ultimately show ?thesis using assms(1) by (simp add: parents_ok_def)
qed

lemma fp_pass:
  assumes "distinct dirs" "set dirs \<subseteq> set directions" "parents_ok (passages m) s parent seen" "(x, y) \<in> seen" "(ex, ey) \<notin> seen"
    and "distance_is (passages m) s (x, y) d"
    and "\<And>q. ((x, y), q) \<in> passages m \<Longrightarrow> q \<notin> seen \<Longrightarrow> distance_is (passages m) s q (Suc d)"
    and "fp_try m ex ey x y dirs (parent, seen, queue) = (found, parent', seen', queue')"
  shows "parents_ok (passages m) s parent' seen' \<and> (found \<longleftrightarrow> (ex, ey) \<in> seen') \<and>
    (\<not> found \<longrightarrow> seen' = seen \<union> set (new_cells m (x, y) seen dirs) \<and> queue' = queue @ new_cells m (x, y) seen dirs)"
  using assms
proof (induction dirs arbitrary: parent seen queue)
  case Nil
  then show ?case by (simp add: new_cells_def)
next
  case (Cons dir dirs)
  let ?q = "step (x, y) dir"
  have dirs: "distinct dirs" "set dirs \<subseteq> set directions" "dir \<in> set directions" using Cons.prems(1,2) by simp_all
  show ?case
  proof (cases "((x, y), ?q) \<in> passages m \<and> ?q \<notin> seen")
    case True
    with Cons.prems(3,4,6,7) have ok: "parents_ok (passages m) s (parent(?q \<mapsto> (x, y))) (insert ?q seen)"
      by (intro parents_insert) auto
    show ?thesis
    proof (cases "?q = (ex, ey)")
      case target: True
      with True Cons.prems(8) ok dirs(3) show ?thesis by (auto simp: passage_step Let_def)
    next
      case False
      then have tr: "fp_try m ex ey x y dirs (parent(?q \<mapsto> (x, y)), insert ?q seen, queue @ [?q]) = (found, parent', seen', queue')"
        using True Cons.prems(8) dirs(3) by (auto simp: passage_step Let_def)
      have e: "(ex, ey) \<notin> insert ?q seen" using False Cons.prems(5) by auto
      show ?thesis
        using Cons.IH [OF dirs(1,2) ok _ e Cons.prems(6) _ tr] Cons.prems(1,4,7) True by (simp add: new_cells_Cons del: distinct.simps)
    qed
  next
    case False
    then have "fp_try m ex ey x y dirs (parent, seen, queue) = (found, parent', seen', queue')"
      using Cons.prems(8) dirs(3) by (auto simp: passage_step Let_def)
    from Cons.IH [OF dirs(1,2) Cons.prems(3-7) this] show ?thesis
      unfolding new_cells_Cons [OF Cons.prems(1)] if_not_P [OF False] .
  qed
qed

lemma fp_loop_correct:
  assumes "bfs_inv (passages m) s d A B seen" "parents_ok (passages m) s parent seen" "(ex, ey) \<notin> seen"
    and "fp_loop m ex ey (parent, seen, queue) = (found, parent')" "queue = A @ B"
  shows "if found then \<exists>seen'. parents_ok (passages m) s parent' seen' \<and> (ex, ey) \<in> seen'
    else (s, (ex, ey)) \<notin> (passages m)\<^sup>*"
  using assms
proof (induction m ex ey "(parent, seen, queue)" arbitrary: d A B parent seen queue rule: fp_loop.induct)
  case (1 m ex ey parent seen)
  then have "A = []" "B = []" by simp_all
  with 1 bfs_done [of "passages m" s d seen] show ?case by auto
next
  case (2 m ex ey parent seen x y queue)
  obtain d' A' B' where inv: "bfs_inv (passages m) s d' ((x, y) # A') B' seen" and rest: "queue = A' @ B'"
    by (rule bfs_head [OF 2(2) 2(6) [symmetric]])
  obtain b parent1 seen1 queue1 where
    pass1: "fp_try m ex ey x y directions (parent, seen, queue) = (b, parent1, seen1, queue1)"
    by (cases "fp_try m ex ey x y directions (parent, seen, queue)") auto
  have xy: "distance_is (passages m) s (x, y) d'" using inv by (simp add: bfs_inv_def)
  then have "(x, y) \<in> seen" using inv by (auto simp: bfs_inv_def)
  note pass = fp_pass [OF distinct_directions subset_refl 2(3) this 2(4) xy bfs_new [OF inv] pass1]
  show ?case
  proof (cases b)
    case True
    with pass 2(5) pass1 show ?thesis by auto
  next
    case False
    let ?new = "new_cells m (x, y) seen directions"
    from False pass have seen1: "seen1 = seen \<union> set ?new" "queue1 = A' @ B' @ ?new"
      "parents_ok (passages m) s parent1 seen1" "(ex, ey) \<notin> seen1" unfolding rest append_assoc by blast+
    have inv1: "bfs_inv (passages m) s d' A' (B' @ ?new) seen1" using bfs_step [OF inv new_cells_all] seen1(1) by simp
    have "fp_loop m ex ey (parent1, seen1, queue1) = (found, parent')" using 2(5) pass1 False by simp
    from 2(1) [OF pass1 [symmetric] _ inv1 seen1(3,4) this] False seen1(2) show ?thesis by simp
  qed
qed

lemma distance_cells: "distance_is (passages m) s q n \<Longrightarrow> s \<in> cells m \<Longrightarrow> q \<in> cells m"
  using passages_cells [of m] by (cases n) (auto elim!: distance_predecessor)

lemma walk_back_path:
  assumes "parents_ok (passages m) s parent seen" "s \<in> cells m" "q \<in> seen" "distance_is (passages m) s q n"
  shows "\<exists>ps. walk_back parent q path = Some (ps @ path) \<and> length ps = Suc n \<and> hd ps = s \<and> last ps = q \<and>
    successively (\<lambda>a b. (a, b) \<in> passages m) ps"
  using assms(3,4)
proof (induction n arbitrary: q path)
  case 0
  then have "q = s" by simp
  moreover have "fst s \<noteq> -1 \<and> snd s \<noteq> -1" using assms(2) by (auto simp: cells_def isInBounds_def)
  moreover have "walk_back parent (-1, -1) (s # path) = Some (s # path)" by (subst walk_back.simps) simp
  ultimately have "walk_back parent q path = Some ([s] @ path)"
    using assms(1) by (subst walk_back.simps) (simp add: parents_ok_def)
  with \<open>q = s\<close> show ?case by (intro exI [of _ "[s]"]) simp
next
  case (Suc n)
  have "q \<noteq> s" using Suc.prems(2) distance_unique [of "passages m" s s 0] by force
  with Suc.prems(1) assms(1) obtain p k where p: "parent q = Some p" "p \<in> seen" "(p, q) \<in> passages m"
    "distance_is (passages m) s p k" "distance_is (passages m) s q (Suc k)" unfolding parents_ok_def by blast
  have "k = n" using distance_unique [OF p(5) Suc.prems(2)] by simp
  with Suc.IH [OF p(2), of "q # path"] p(4) obtain ps where
    ps: "walk_back parent p (q # path) = Some (ps @ q # path)" "length ps = Suc n" "hd ps = s" "last ps = p"
      "successively (\<lambda>a b. (a, b) \<in> passages m) ps" by auto
  have "q \<in> cells m" using Suc.prems(2) assms(2) by (rule distance_cells)
  then have "walk_back parent q path = Some ((ps @ [q]) @ path)"
    using p(1) ps(1) by (subst walk_back.simps) (auto simp: cells_def isInBounds_def)
  moreover have "successively (\<lambda>a b. (a, b) \<in> passages m) (ps @ [q])"
    using ps p(3) by (auto simp: successively_append_iff)
  ultimately show ?case using ps(2,3) by (intro exI [of _ "ps @ [q]"]) (auto simp: hd_append)
qed

text \<open>
  The full path. For cells inside of any maze, \<open>getFullPath\<close> returns; if the end can be reached, it
  returns a list of cells from the start to the end, each joined to the next by a passage, with one more
  cell than \<open>calculateShortestPath\<close> says steps; otherwise it returns the empty list.
\<close>

theorem full_path_exact:
  assumes "isInBounds startX startY m" "isInBounds endX endY m"
  shows "\<exists>path. getFullPath startX startY endX endY m = Some path \<and>
    (if calculateShortestPath startX startY endX endY m = -1 then path = []
     else int (length path) = calculateShortestPath startX startY endX endY m + 1 \<and>
       hd path = (startX, startY) \<and> last path = (endX, endY) \<and> successively (\<lambda>a b. (a, b) \<in> passages m) path)"
proof -
  let ?s = "(startX, startY)" and ?e = "(endX, endY)"
  have s: "?s \<in> cells m" using assms(1) by (simp add: cells_def)
  obtain found parent where run: "fp_loop m endX endY ([?s \<mapsto> (-1, -1)], {?s}, [?s]) = (found, parent)" by fastforce
  have start: "parents_ok (passages m) ?s [?s \<mapsto> (-1, -1)] {?s}" by (simp add: parents_ok_def)
  show ?thesis
  proof (cases "?s = ?e")
    case True
    then have "calculateShortestPath startX startY endX endY m = 0"
      using assms by (simp add: calculateShortestPath_def)
    with True show ?thesis using assms by (simp add: getFullPath_def)
  next
    case False
    with fp_loop_correct [OF bfs_init start _ run] have r: "if found then \<exists>seen'. parents_ok (passages m) ?s parent seen' \<and> ?e \<in> seen'
        else (?s, ?e) \<notin> (passages m)\<^sup>*" by auto
    show ?thesis
    proof (cases found)
      case True
      with r obtain seen' where seen': "parents_ok (passages m) ?s parent seen'" "?e \<in> seen'" by auto
      with False obtain n where n: "distance_is (passages m) ?s ?e n" unfolding parents_ok_def by blast
      have "calculateShortestPath startX startY endX endY m = int n"
        using assms by (rule calculate_cases) (use n in \<open>auto simp: reachable_distance dest: distance_unique\<close>)
      with walk_back_path [OF seen'(1) s seen'(2) n, of "[]"] True False assms run show ?thesis
        by (auto simp: getFullPath_def)
    next
      case no: False
      have "calculateShortestPath startX startY endX endY m = -1"
        using assms by (rule calculate_cases) (use no r in \<open>auto simp: reachable_distance\<close>)
      with no False assms run show ?thesis by (auto simp: getFullPath_def)
    qed
  qed
qed

theorem full_path_exact_witness:
  "isInBounds 0 0 corridor \<and> isInBounds 1 0 corridor \<and>
   (\<exists>path. getFullPath 0 0 1 0 corridor = Some path \<and>
    (if calculateShortestPath 0 0 1 0 corridor = -1 then path = []
     else int (length path) = calculateShortestPath 0 0 1 0 corridor + 1 \<and>
       hd path = (0, 0) \<and> last path = (1, 0) \<and> successively (\<lambda>a b. (a, b) \<in> passages corridor) path))"
  using full_path_exact [OF corridor_bounds] corridor_bounds by blast

end
