(* ===== verification/Maze_Chase.thy ===== *)
theory Maze_Chase
  imports Maze_Game Maze_Search
begin

text \<open>
  Correctness of the maze game: the A* search of the chaser finds a step on a shortest way to the player, so
  a player who stands still is caught after as many steps as the way is long; the state of a game stays
  consistent, and a game is won with a perfect score only by a shortest way.
\<close>

section \<open>Search nodes\<close>

text \<open>The positions from the start to a node.\<close>

fun node_path :: "Node \<Rightarrow> position list" where
  "node_path (Node x y g f None) = [(x, y)]"
| "node_path (Node x y g f (Some p)) = node_path p @ [(x, y)]"

lemma node_path_last: "node_path n \<noteq> [] \<and> last (node_path n) = node_pos n"
  by (cases n rule: node_path.cases) simp_all

definition node_ok :: "(position \<times> position) set \<Rightarrow> position \<Rightarrow> position \<Rightarrow> Node \<Rightarrow> bool" where
  "node_ok E s e n \<longleftrightarrow> hd (node_path n) = s \<and> successively (\<lambda>a b. (a, b) \<in> E) (node_path n) \<and>
     node_g n = int (length (node_path n)) - 1 \<and> node_f n = node_g n + heuristic (node_x n) (node_y n) (fst e) (snd e)"

lemma successively_relpow:
  "successively (\<lambda>a b. (a, b) \<in> E) xs \<Longrightarrow> xs \<noteq> [] \<Longrightarrow> (hd xs, last xs) \<in> E ^^ (length xs - 1)"
proof (induction xs rule: rev_induct)
  case (snoc x xs)
  from snoc.prems have xs: "successively (\<lambda>a b. (a, b) \<in> E) xs" "xs \<noteq> [] \<longrightarrow> (last xs, x) \<in> E"
    by (auto simp: successively_append_iff)
  show ?case
  proof (cases xs)
    case (Cons a ys)
    with snoc.IH [OF xs(1)] xs(2) have "(hd xs, last xs) \<in> E ^^ length ys" "(last xs, x) \<in> E" by simp_all
    then have "(hd xs, x) \<in> E ^^ Suc (length ys)" by (rule relpow_Suc_I)
    with Cons show ?thesis by simp
  qed simp
qed simp

lemma node_walk:
  assumes "node_ok E s e n"
  shows "\<exists>k. node_g n = int k \<and> (s, node_pos n) \<in> E ^^ k"
  using assms successively_relpow [of E "node_path n"] node_path_last [of n]
  by (intro exI [of _ "length (node_path n) - 1"]) (auto simp: node_ok_def of_nat_diff Suc_leI)

lemma node_ok_child:
  assumes "node_ok E s e n" "(node_pos n, (x, y)) \<in> E"
  shows "node_ok E s e (Node_new x y (node_g n + 1) (heuristic x y (fst e) (snd e)) (Some n))"
  using assms node_path_last [of n] by (auto simp: node_ok_def Node_new_def successively_append_iff)

text \<open>The Manhattan distance is consistent: a step changes it by one.\<close>

lemma heuristic_step: "(p, q) \<in> passages m \<Longrightarrow> heuristic (fst p) (snd p) a b \<le> 1 + heuristic (fst q) (snd q) a b"
  by (cases p, cases q) (auto simp: in_passages diff_def directions_def heuristic_def)

lemma heuristic_walk: "(p, q) \<in> passages m ^^ k \<Longrightarrow> heuristic (fst p) (snd p) a b \<le> int k + heuristic (fst q) (snd q) a b"
proof (induction k arbitrary: q)
  case (Suc k)
  then obtain r where "(p, r) \<in> passages m ^^ k" "(r, q) \<in> passages m" by auto
  with Suc.IH [of r] heuristic_step [of r q m a b] show ?case by simp
qed simp

section \<open>The invariant of the A* search\<close>

text \<open>
  The open list is in order and has valid nodes; a closed position was expanded with its exact
  distance, so each of its neighbours is closed or open with a value that is no worse.
\<close>

definition astar_inv :: "(position \<times> position) set \<Rightarrow> position \<Rightarrow> position \<Rightarrow> position set \<Rightarrow> (int \<times> Node) list \<Rightarrow> bool" where
  "astar_inv E s e cl opn \<longleftrightarrow>
     sorted (map fst opn) \<and> (\<forall>(k, n) \<in> set opn. k = node_f n \<and> node_ok E s e n) \<and> e \<notin> cl \<and>
     (s \<in> cl \<or> (\<exists>(k, n) \<in> set opn. node_pos n = s \<and> node_g n = 0)) \<and>
     (\<forall>v \<in> cl. \<exists>d. distance_is E s v d \<and>
        (\<forall>u. (v, u) \<in> E \<longrightarrow> u \<in> cl \<or> (\<exists>(k, n) \<in> set opn. node_pos n = u \<and> node_g n \<le> int d + 1)))"

text \<open>As long as a reachable position is not closed, some open node is on a shortest way to it.\<close>

lemma frontier:
  assumes inv: "astar_inv (passages m) s e cl opn" and dist: "distance_is (passages m) s u d" and u: "u \<notin> cl"
  obtains k n where "(k, n) \<in> set opn" "k \<le> int d + heuristic (fst u) (snd u) (fst e) (snd e)"
proof -
  let ?h = "\<lambda>p. heuristic (fst p) (snd p) (fst e) (snd e)"
  from dist obtain f where f: "f 0 = s" "f d = u" "\<And>i. i < d \<Longrightarrow> (f i, f (Suc i)) \<in> passages m"
    unfolding distance_is_def relpow_fun_conv by blast
  have pre: "(s, f i) \<in> passages m ^^ i" if "i \<le> d" for i
    unfolding relpow_fun_conv by (rule exI [of _ f]) (use f that in auto)
  have suf: "(f i, u) \<in> passages m ^^ (d - i)" if "i \<le> d" for i
    unfolding relpow_fun_conv by (rule exI [of _ "\<lambda>j. f (i + j)"]) (use f that in auto)
  have exact: "distance_is (passages m) s (f i) i" if i: "i \<le> d" for i
  proof -
    have "(s, f i) \<notin> passages m ^^ k" if "k < i" for k
    proof
      assume "(s, f i) \<in> passages m ^^ k"
      then have "(s, u) \<in> passages m ^^ (k + (d - i))" using suf [OF i] by (auto simp: relpow_add)
      moreover have "k + (d - i) < d" using that i by simp
      ultimately show False using dist by (auto simp: distance_is_def)
    qed
    with pre [OF i] show ?thesis by (simp add: distance_is_def)
  qed
  have good: "\<exists>(k, n) \<in> set opn. k \<le> int d + ?h u" if "i \<le> d" "(k, n) \<in> set opn" "node_pos n = f i" "node_g n \<le> int i" for i k n
  proof -
    have "k = node_g n + ?h (node_pos n)" using inv that(2) by (auto simp: astar_inv_def node_ok_def)
    moreover have "?h (node_pos n) \<le> int (d - i) + ?h u" using heuristic_walk [OF suf [OF that(1)]] unfolding that(3) .
    ultimately have "k \<le> int d + ?h u" using that(1,4) of_nat_diff [OF that(1), where 'a = int] by linarith
    with that(2) show ?thesis by auto
  qed
  have "f i \<in> cl \<or> (\<exists>(k, n) \<in> set opn. k \<le> int d + ?h u)" if "i \<le> d" for i
    using that
  proof (induction i)
    case 0
    with inv good [of 0] f(1) show ?case by (fastforce simp: astar_inv_def)
  next
    case (Suc i)
    show ?case
    proof (cases "f i \<in> cl")
      case True
      with inv obtain d' where d': "distance_is (passages m) s (f i) d'"
        "\<And>u. (f i, u) \<in> passages m \<Longrightarrow> u \<in> cl \<or> (\<exists>(k, n) \<in> set opn. node_pos n = u \<and> node_g n \<le> int d' + 1)"
        unfolding astar_inv_def by blast
      have "d' = i" using distance_unique [OF d'(1)] exact Suc.prems by simp
      with d'(2) [of "f (Suc i)"] f(3) [of i] Suc.prems good [of "Suc i"] show ?thesis by fastforce
    next
      case False
      with Suc show ?thesis by simp
    qed
  qed
  from this [of d] f(2) u that show ?thesis by auto
qed

section \<open>Expanding a node\<close>

definition sized :: "MazeGame \<Rightarrow> bool" where
  "sized g \<longleftrightarrow> m_mazeWidth g = m_width (m_generator g) \<and> m_mazeHeight g = m_height (m_generator g)"

abbreviation ways :: "MazeGame \<Rightarrow> (position \<times> position) set" where
  "ways g \<equiv> passages (m_generator g)"

definition child :: "position \<Rightarrow> Node \<Rightarrow> position \<Rightarrow> Node" where
  "child e n q = Node_new (fst q) (snd q) (node_g n + 1) (heuristic (fst q) (snd q) (fst e) (snd e)) (Some n)"

lemma child_simps [simp]: "node_pos (child e n q) = q" "node_g (child e n q) = node_g n + 1"
  by (simp_all add: child_def Node_new_def)

lemma explore_step:
  assumes "sized g" "dir \<in> set directions"
  shows "explore g ex ey cl n opn dir =
    (let q = step (node_pos n) dir; c = child (ex, ey) n q
     in if (node_pos n, q) \<in> ways g \<and> q \<notin> cl then open_insert (node_f c) c opn else opn)"
  using assms passage_step [OF assms(2), of "node_x n" "node_y n" "m_generator g"]
  by (auto simp: explore_def Let_def child_def sized_def isInBounds_def hasWallBetween_def)

lemma sorted_open_insert: "sorted (map fst xs) \<Longrightarrow> sorted (map fst (open_insert k n xs))"
  by (induction k n xs rule: open_insert.induct) auto

lemma explore_all:
  assumes "sized g" "set dirs \<subseteq> set directions" "sorted (map fst opn)"
  shows "sorted (map fst (foldl (explore g ex ey cl n) opn dirs)) \<and>
    set (foldl (explore g ex ey cl n) opn dirs) = set opn \<union>
      (\<lambda>q. (node_f (child (ex, ey) n q), child (ex, ey) n q)) ` {q \<in> step (node_pos n) ` set dirs. (node_pos n, q) \<in> ways g \<and> q \<notin> cl}"
  using assms(2,3)
proof (induction dirs arbitrary: opn)
  case (Cons dir dirs)
  let ?q = "step (node_pos n) dir"
  have "dir \<in> set directions" "set dirs \<subseteq> set directions" using Cons.prems(1) by simp_all
  note step = explore_step [OF assms(1) this(1), of ex ey cl n opn] and IH = Cons.IH [OF this(2)]
  show ?case
  proof (cases "(node_pos n, ?q) \<in> ways g \<and> ?q \<notin> cl")
    case True
    with IH [OF sorted_open_insert [OF Cons.prems(2), of "node_f (child (ex, ey) n ?q)" "child (ex, ey) n ?q"]] step
    show ?thesis by (auto simp: Let_def)
  next
    case False
    with IH [OF Cons.prems(2)] step show ?thesis by (auto simp: Let_def)
  qed
qed simp

lemma astar_pop:
  assumes "astar_inv (ways g) s e cl ((k, n) # opn)" "node_pos n \<notin> cl"
  shows "\<exists>d. node_g n = int d \<and> distance_is (ways g) s (node_pos n) d"
proof -
  have ok: "node_ok (ways g) s e n" "k = node_f n" and least: "\<And>k' n'. (k', n') \<in> set ((k, n) # opn) \<Longrightarrow> k \<le> k'"
    using assms(1) by (auto simp: astar_inv_def)
  obtain j where j: "node_g n = int j" "(s, node_pos n) \<in> ways g ^^ j" using node_walk [OF ok(1)] by blast
  obtain d where d: "d \<le> j" "distance_is (ways g) s (node_pos n) d" using distance_exists [OF j(2)] by blast
  obtain k' n' where "(k', n') \<in> set ((k, n) # opn)"
    "k' \<le> int d + heuristic (fst (node_pos n)) (snd (node_pos n)) (fst e) (snd e)"
    using frontier [OF assms(1) d(2) assms(2)] by blast
  with least [of k' n'] ok j(1) have "j \<le> d" by (auto simp: node_ok_def)
  with d j show ?thesis by auto
qed

lemma astar_expand:
  assumes inv: "astar_inv (ways g) s (ex, ey) cl ((k, n) # opn)" and "sized g" "node_pos n \<noteq> (ex, ey)"
  defines "cl' \<equiv> insert (node_pos n) cl"
  shows "astar_inv (ways g) s (ex, ey) cl' (foldl (explore g ex ey cl' n) opn directions)"
proof -
  let ?opn = "foldl (explore g ex ey cl' n) opn directions"
  have sorted: "sorted (map fst opn)" and ok: "node_ok (ways g) s (ex, ey) n"
    and nodes: "\<forall>(k, n) \<in> set opn. k = node_f n \<and> node_ok (ways g) s (ex, ey) n"
    using inv by (auto simp: astar_inv_def)
  have nb: "q \<in> step (node_pos n) ` set directions" if "(node_pos n, q) \<in> ways g" for q
    using that by (rule passage_neighbour)
  from explore_all [OF assms(2) subset_refl sorted, of ex ey cl' n] nb
  have new: "sorted (map fst ?opn)" "set ?opn = set opn \<union>
      (\<lambda>q. (node_f (child (ex, ey) n q), child (ex, ey) n q)) ` {q. (node_pos n, q) \<in> ways g \<and> q \<notin> cl'}" by auto
  have nodes': "\<forall>(k, n) \<in> set ?opn. k = node_f n \<and> node_ok (ways g) s (ex, ey) n"
    using nodes node_ok_child [OF ok] unfolding new(2) by (auto simp: child_def)
  have keep: "set opn \<subseteq> set ?opn" and cur: "node_pos n \<in> cl'" "cl \<subseteq> cl'" unfolding new(2) by (auto simp: cl'_def)
  have old: "u \<in> cl' \<or> (\<exists>(k, n) \<in> set ?opn. node_pos n = u \<and> P (node_g n))"
    if "u \<in> cl \<or> (\<exists>(k, n) \<in> set ((k, n) # opn). node_pos n = u \<and> P (node_g n))" for u P
    using that cur subsetD [OF keep] by fastforce
  have start: "s \<in> cl' \<or> (\<exists>(k, n) \<in> set ?opn. node_pos n = s \<and> node_g n = 0)"
    by (rule old) (use inv in \<open>simp add: astar_inv_def\<close>)
  have fresh: "\<exists>d. distance_is (ways g) s (node_pos n) d \<and>
      (\<forall>u. (node_pos n, u) \<in> ways g \<longrightarrow> u \<in> cl' \<or> (\<exists>(k, n) \<in> set ?opn. node_pos n = u \<and> node_g n \<le> int d + 1))"
    if "node_pos n \<notin> cl"
  proof -
    from astar_pop [OF inv that] obtain d where d: "node_g n = int d" "distance_is (ways g) s (node_pos n) d" by blast
    have "u \<in> cl' \<or> (\<exists>(k, n) \<in> set ?opn. node_pos n = u \<and> node_g n \<le> int d + 1)" if "(node_pos n, u) \<in> ways g" for u
      using that d(1) unfolding new(2) by (cases "u \<in> cl'") (auto intro!: bexI [of _ "(_, child (ex, ey) n u)"])
    with d(2) show ?thesis by blast
  qed
  have closed': "\<exists>d. distance_is (ways g) s v d \<and>
      (\<forall>u. (v, u) \<in> ways g \<longrightarrow> u \<in> cl' \<or> (\<exists>(k, n) \<in> set ?opn. node_pos n = u \<and> node_g n \<le> int d + 1))"
    if v: "v \<in> cl'" for v
  proof (cases "v \<in> cl")
    case True
    with inv obtain d where "distance_is (ways g) s v d"
      "\<And>u. (v, u) \<in> ways g \<Longrightarrow> u \<in> cl \<or> (\<exists>(k, n) \<in> set ((k, n) # opn). node_pos n = u \<and> node_g n \<le> int d + 1)"
      unfolding astar_inv_def by blast
    with old [of _ "\<lambda>x. x \<le> int d + 1"] show ?thesis by blast
  next
    case False
    with v fresh show ?thesis unfolding cl'_def by blast
  qed
  have "(ex, ey) \<notin> cl'" using inv assms(3) by (auto simp: astar_inv_def cl'_def)
  with new(1) nodes' start closed' show ?thesis unfolding astar_inv_def by blast
qed

lemma astar_correct:
  assumes "astar_inv (ways g) s (ex, ey) cl opn" "sized g"
  shows "case astar_loop g ex ey cl opn of None \<Rightarrow> (s, (ex, ey)) \<notin> (ways g)\<^sup>*
    | Some n \<Rightarrow> node_ok (ways g) s (ex, ey) n \<and> node_pos n = (ex, ey) \<and>
        (\<exists>d. node_g n = int d \<and> distance_is (ways g) s (ex, ey) d)"
  using assms
proof (induction g ex ey cl opn rule: astar_loop.induct)
  case (1 g ex ey cl)
  have "(ex, ey) \<notin> cl" using 1(1) by (simp add: astar_inv_def)
  then have "\<not> distance_is (ways g) s (ex, ey) d" for d using frontier [OF 1(1), of "(ex, ey)" d] by auto
  then show ?case by (simp add: reachable_distance)
next
  case (2 g ex ey cl k n opn)
  show ?case
  proof (cases "node_pos n = (ex, ey)")
    case True
    have "node_ok (ways g) s (ex, ey) n" "node_pos n \<notin> cl" using 2(2) True by (auto simp: astar_inv_def)
    with astar_pop [OF 2(2)] True show ?thesis by auto
  next
    case False
    from 2(1) [OF _ refl astar_expand [OF 2(2,3) False] 2(3)] False show ?thesis by (auto simp: Let_def)
  qed
qed

lemma backtrack_second:
  "node_parent (backtrack n) = None \<longleftrightarrow> length (node_path n) = 1"
  "1 < length (node_path n) \<Longrightarrow> node_pos (backtrack n) = node_path n ! 1"
proof (induction n rule: backtrack.induct)
  case (1 x y g f x' y' g' f' p)
  obtain c cs where "node_path p = c # cs" using node_path_last [of p] by (cases "node_path p") auto
  with 1 show "node_parent (backtrack (Node x y g f (Some (Node x' y' g' f' (Some p))))) = None \<longleftrightarrow>
      length (node_path (Node x y g f (Some (Node x' y' g' f' (Some p))))) = 1"
    and "1 < length (node_path (Node x y g f (Some (Node x' y' g' f' (Some p))))) \<Longrightarrow>
      node_pos (backtrack (Node x y g f (Some (Node x' y' g' f' (Some p))))) =
      node_path (Node x y g f (Some (Node x' y' g' f' (Some p)))) ! 1"
    by (cases cs; simp)+
qed simp_all

text \<open>A shortest way without its first step is a shortest way.\<close>

lemma distance_rest:
  assumes "distance_is E s e (Suc d)" "(s, p) \<in> E" "(p, e) \<in> E ^^ d"
  shows "distance_is E p e d"
proof -
  have "(p, e) \<notin> E ^^ k" if "k < d" for k
  proof
    assume "(p, e) \<in> E ^^ k"
    with assms(2) have "(s, e) \<in> E ^^ Suc k" by (rule relpow_Suc_I2)
    moreover have "(s, e) \<notin> E ^^ Suc k" using assms(1) that by (simp add: distance_is_def del: relpow.simps)
    ultimately show False by contradiction
  qed
  with assms(3) show ?thesis by (simp add: distance_is_def)
qed

lemma next_step:
  assumes "sized g" "(sx, sy) \<noteq> (ex, ey)"
  shows "if ((sx, sy), (ex, ey)) \<in> (ways g)\<^sup>*
    then \<exists>d. distance_is (ways g) (sx, sy) (ex, ey) (Suc d) \<and> ((sx, sy), findNextStepToTarget g sx sy ex ey) \<in> ways g \<and>
           distance_is (ways g) (findNextStepToTarget g sx sy ex ey) (ex, ey) d
    else findNextStepToTarget g sx sy ex ey = (sx, sy)"
proof -
  let ?start = "Node_new sx sy 0 (heuristic sx sy ex ey) None"
  have inv: "astar_inv (ways g) (sx, sy) (ex, ey) {} [(node_f ?start, ?start)]"
    by (simp add: astar_inv_def node_ok_def Node_new_def)
  note res = astar_correct [OF inv assms(1)]
  show ?thesis
  proof (cases "astar_loop g ex ey {} [(node_f ?start, ?start)]")
    case None
    with res assms(2) show ?thesis by (auto simp: findNextStepToTarget_def Let_def)
  next
    case (Some n)
    with res obtain d where n: "node_ok (ways g) (sx, sy) (ex, ey) n" "node_pos n = (ex, ey)" "node_g n = int d"
      "distance_is (ways g) (sx, sy) (ex, ey) d" by auto
    let ?ps = "node_path n"
    have ps: "hd ?ps = (sx, sy)" "last ?ps = (ex, ey)" "successively (\<lambda>a b. (a, b) \<in> ways g) ?ps" "length ?ps = Suc d"
      using n(1-3) node_path_last [of n] by (auto simp: node_ok_def)
    obtain a b rest where path: "?ps = a # b # rest"
      using ps assms(2) node_path_last [of n] by (cases ?ps rule: remdups_adj.cases) auto
    then have ab: "a = (sx, sy)" "(a, b) \<in> ways g" "d = Suc (length rest)" using ps by auto
    have "successively (\<lambda>a b. (a, b) \<in> ways g) (b # rest)" "last (b # rest) = (ex, ey)" using ps path by auto
    with successively_relpow [of "ways g" "b # rest"] have "(b, (ex, ey)) \<in> ways g ^^ length rest" by simp
    with distance_rest [of "ways g" a "(ex, ey)" "length rest" b] n(4) ab have "distance_is (ways g) b (ex, ey) (length rest)" by simp
    moreover have "findNextStepToTarget g sx sy ex ey = b"
      using Some assms(2) backtrack_second [of n] path by (auto simp: findNextStepToTarget_def Let_def)
    moreover have "((sx, sy), (ex, ey)) \<in> (ways g)\<^sup>*" using n(4) by (auto simp: reachable_distance)
    ultimately show ?thesis using n(4) ab by auto
  qed
qed

section \<open>The chase\<close>

abbreviation player :: "MazeGame \<Rightarrow> position" where
  "player g \<equiv> (m_playerX g, m_playerY g)"

abbreviation chaser :: "MazeGame \<Rightarrow> position" where
  "chaser g \<equiv> (m_chaserX g, m_chaserY g)"

definition in_play :: "MazeGame \<Rightarrow> bool" where
  "in_play g \<longleftrightarrow> m_isGameRunning g \<and> \<not> m_isGameWon g \<and> \<not> m_isGameLost g"

lemma chaser_moves:
  assumes "sized g" "in_play g" "m_chaserActive g" "distance_is (ways g) (chaser g) (player g) (Suc n)"
  obtains p where "distance_is (ways g) p (player g) n"
    "moveChaserTowardsPlayer g = checkLoseCondition (g\<lparr>m_chaserX := fst p, m_chaserY := snd p\<rparr>)" "(chaser g, p) \<in> ways g"
proof -
  let ?p = "findNextStepToTarget g (m_chaserX g) (m_chaserY g) (m_playerX g) (m_playerY g)"
  have neq: "chaser g \<noteq> player g" using assms(4) distance_unique [of "ways g" "chaser g" "player g" "Suc n" 0] by auto
  have "(chaser g, player g) \<in> (ways g)\<^sup>*" using assms(4) by (auto simp: reachable_distance)
  with next_step [OF assms(1) neq] obtain d where d: "distance_is (ways g) (chaser g) (player g) (Suc d)"
    "(chaser g, ?p) \<in> ways g" "distance_is (ways g) ?p (player g) d" by auto
  have "d = n" using distance_unique [OF d(1) assms(4)] by simp
  moreover have "?p \<noteq> chaser g" using d(2) by (auto simp: in_passages dest: diff_neq)
  then have "moveChaserTowardsPlayer g = checkLoseCondition (g\<lparr>m_chaserX := fst ?p, m_chaserY := snd ?p\<rparr>)"
    using assms(2,3) by (auto simp: moveChaserTowardsPlayer_def in_play_def Let_def prod_eq_iff)
  ultimately show ?thesis using d by (intro that [of ?p]) auto
qed

lemma caught_after:
  assumes "sized g" "in_play g" "m_chaserActive g" "distance_is (ways g) (chaser g) (player g) (Suc n)"
  shows "m_isGameLost ((moveChaserTowardsPlayer ^^ Suc n) g) \<and> (\<forall>k \<le> n. in_play ((moveChaserTowardsPlayer ^^ k) g))"
  using assms
proof (induction n arbitrary: g)
  case 0
  then obtain p where p: "distance_is (ways g) p (player g) 0"
    "moveChaserTowardsPlayer g = checkLoseCondition (g\<lparr>m_chaserX := fst p, m_chaserY := snd p\<rparr>)" "(chaser g, p) \<in> ways g"
    by (rule chaser_moves)
  then have "p = player g" by simp
  with p(2) 0 show ?case by (simp add: checkLoseCondition_def)
next
  case (Suc n)
  from Suc.prems obtain p where p: "distance_is (ways g) p (player g) (Suc n)"
    "moveChaserTowardsPlayer g = checkLoseCondition (g\<lparr>m_chaserX := fst p, m_chaserY := snd p\<rparr>)" "(chaser g, p) \<in> ways g"
    by (rule chaser_moves)
  have "p \<noteq> player g" using p(1) distance_unique [of "ways g" "player g" "player g" "Suc n" 0] by auto
  then have step: "moveChaserTowardsPlayer g = g\<lparr>m_chaserX := fst p, m_chaserY := snd p\<rparr>"
    using p(2) by (auto simp: checkLoseCondition_def prod_eq_iff)
  have "sized (moveChaserTowardsPlayer g)" "in_play (moveChaserTowardsPlayer g)" "m_chaserActive (moveChaserTowardsPlayer g)"
    "distance_is (ways (moveChaserTowardsPlayer g)) (chaser (moveChaserTowardsPlayer g)) (player (moveChaserTowardsPlayer g)) (Suc n)"
    using Suc.prems p(1) by (simp_all add: step sized_def in_play_def)
  note IH = Suc.IH [OF this]
  have "in_play ((moveChaserTowardsPlayer ^^ k) g)" if "k \<le> Suc n" for k
    using that IH Suc.prems(2) by (cases k) (simp_all add: funpow_swap1)
  with IH show ?case by (simp add: funpow_swap1)
qed

text \<open>
  C7. The chaser catches a resting player on a shortest way. In a game in play with an active chaser,
  \<open>n + 1\<close> steps away from a player who does not move, the game goes on during the next \<open>n\<close> steps of the
  chaser and is lost with the step after them. The search is complete and optimal in every maze, not only
  in generated ones.
\<close>

theorem resting_player_caught:
  assumes "m_mazeWidth g = m_width (m_generator g)" "m_mazeHeight g = m_height (m_generator g)"
    and "m_isGameRunning g" "\<not> m_isGameWon g" "\<not> m_isGameLost g" "m_chaserActive g"
    and "distance_is (passages (m_generator g)) (m_chaserX g, m_chaserY g) (m_playerX g, m_playerY g) (Suc n)"
  shows "m_isGameLost ((moveChaserTowardsPlayer ^^ Suc n) g) \<and>
    (\<forall>k. k \<le> n \<longrightarrow> m_isGameRunning ((moveChaserTowardsPlayer ^^ k) g) \<and> \<not> m_isGameLost ((moveChaserTowardsPlayer ^^ k) g))"
  using caught_after [of g n] assms by (simp add: sized_def in_play_def)

definition two_cell_game :: MazeGame where
  "two_cell_game = MazeGame_new\<lparr>m_generator := corridor, m_mazeWidth := 2, m_mazeHeight := 1, m_playerX := 1,
     m_isGameRunning := True, m_chaserActive := True\<rparr>"

lemma corridor_distance: "distance_is (passages corridor) (0, 0) (1, 0) 1"
proof -
  have "\<not> hasWallBetween 0 0 1 0 corridor" by code_simp
  then have "((0, 0), (1, 0)) \<in> passages corridor" by (simp add: passages_def directions_def)
  then show ?thesis by (auto simp: distance_is_def)
qed

theorem resting_player_caught_witness:
  "m_isGameRunning two_cell_game \<and> \<not> m_isGameLost two_cell_game \<and> m_isGameLost (moveChaserTowardsPlayer two_cell_game)"
proof -
  have "m_mazeWidth two_cell_game = m_width (m_generator two_cell_game)"
    "m_mazeHeight two_cell_game = m_height (m_generator two_cell_game)" by code_simp+
  moreover have "distance_is (passages (m_generator two_cell_game)) (m_chaserX two_cell_game, m_chaserY two_cell_game)
      (m_playerX two_cell_game, m_playerY two_cell_game) (Suc 0)"
    using corridor_distance by (simp add: two_cell_game_def MazeGame_new_def)
  moreover have "m_isGameRunning two_cell_game" "\<not> m_isGameWon two_cell_game" "\<not> m_isGameLost two_cell_game" "m_chaserActive two_cell_game"
    by (simp_all add: two_cell_game_def MazeGame_new_def)
  ultimately show ?thesis using resting_player_caught [of two_cell_game 0] by simp
qed

section \<open>The state of a game\<close>

datatype game_event = Move int | Tick | Chase | Reset | Difficulty int | Hide_Path

fun game_step :: "MazeGame \<Rightarrow> game_event \<Rightarrow> MazeGame" where
  "game_step g (Move direction) = snd (movePlayer direction g)"
| "game_step g Tick = updateTimer g"
| "game_step g Chase = moveChaserTowardsPlayer g"
| "game_step g Reset = resetGame g"
| "game_step g (Difficulty d) = setDifficulty d g"
| "game_step g Hide_Path = hidePath g"

text \<open>The maze of the game does not change; the end is reached from the start by \<open>m_shortestPath\<close> steps.\<close>

definition maze_inv :: "MazeGame \<Rightarrow> bool" where
  "maze_inv g \<longleftrightarrow> sized g \<and> (m_startX g, m_startY g) \<in> cells (m_generator g) \<and>
     (\<exists>d. m_shortestPath g = int d \<and> distance_is (ways g) (m_startX g, m_startY g) (m_endX g, m_endY g) d)"

text \<open>
  Player and chaser stand in cells, the player after a walk of \<open>m_currentSteps\<close> steps; a game is in play
  or over, and when it is won, the player is at the end and the signal has been sent.
\<close>

definition game_inv :: "MazeGame \<Rightarrow> bool" where
  "game_inv g \<longleftrightarrow> maze_inv g \<and> player g \<in> cells (m_generator g) \<and> chaser g \<in> cells (m_generator g) \<and>
     (\<exists>k. m_currentSteps g = int k \<and> ((m_startX g, m_startY g), player g) \<in> ways g ^^ k) \<and>
     (m_isGameRunning g \<longleftrightarrow> \<not> m_isGameWon g \<and> \<not> m_isGameLost g) \<and>
     (m_isGameWon g \<longrightarrow> player g = (m_endX g, m_endY g) \<and> m_signals g \<noteq> [] \<and>
        last (m_signals g) = gameWon (m_currentSteps g = m_shortestPath g))"

lemma ways_cells: "(p, q) \<in> passages m \<Longrightarrow> p \<in> cells m \<and> q \<in> cells m"
  using passages_cells by blast

lemma game_inv_move:
  assumes inv: "game_inv g"
  shows "game_inv (snd (movePlayer direction g))"
proof (cases "fst (movePlayer direction g)")
  case False
  then have "snd (movePlayer direction g) = g" by (auto simp: movePlayer_def split: option.splits if_splits)
  with inv show ?thesis by simp
next
  case True
  then obtain x y where t: "target direction g = Some (x, y)" "\<not> hasWallBetween (m_playerX g) (m_playerY g) x y (m_generator g)"
    and play: "in_play g" by (auto simp: movePlayer_def in_play_def split: option.splits if_splits)
  have "diff (player g) (x, y) \<in> set directions"
    using t(1) by (auto simp: target_def diff_def directions_def Let_def split: if_splits)
  with t(2) have way: "(player g, (x, y)) \<in> ways g" by (simp add: passages_def diff_def)
  from inv obtain k where k: "m_currentSteps g = int k" "((m_startX g, m_startY g), player g) \<in> ways g ^^ k"
    by (auto simp: game_inv_def)
  have walk: "((m_startX g, m_startY g), (x, y)) \<in> ways g ^^ Suc k" using k(2) way by (rule relpow_Suc_I)
  define g1 where "g1 = g\<lparr>m_playerX := x, m_playerY := y, m_currentSteps := m_currentSteps g + 1,
      m_playerPath := (if m_playerPath g = [] \<or> last (m_playerPath g) \<noteq> (x, y) then m_playerPath g @ [(x, y)] else m_playerPath g)\<rparr>"
  define g2 where "g2 = (if \<not> m_timerStarted g1 then g1\<lparr>m_timerStarted := True, m_timer := True\<rparr> else g1)"
  have res: "snd (movePlayer direction g) = checkWinCondition (checkLoseCondition g2)"
    using True t by (auto simp: movePlayer_def g1_def g2_def Let_def split: if_splits)
  have "maze_inv g2" "player g2 = (x, y)" "chaser g2 = chaser g" "m_currentSteps g2 = int (Suc k)" "m_generator g2 = m_generator g"
    "m_startX g2 = m_startX g" "m_startY g2 = m_startY g" "in_play g2"
    using inv k(1) play by (simp_all add: g2_def g1_def game_inv_def maze_inv_def sized_def in_play_def)
  with inv walk ways_cells [OF way] show ?thesis
    unfolding res by (auto simp: game_inv_def maze_inv_def sized_def in_play_def checkWinCondition_def checkLoseCondition_def intro!: exI [of _ "Suc k"] simp del: relpow.simps)
qed

lemma game_inv_chase:
  assumes inv: "game_inv g"
  shows "game_inv (moveChaserTowardsPlayer g)"
proof -
  let ?p = "findNextStepToTarget g (m_chaserX g) (m_chaserY g) (m_playerX g) (m_playerY g)"
  have "?p \<in> cells (m_generator g)"
  proof (cases "chaser g = player g")
    case True
    with inv show ?thesis by (simp add: findNextStepToTarget_def game_inv_def)
  next
    case False
    have "sized g" using inv by (simp add: game_inv_def maze_inv_def)
    from next_step [OF this False] inv show ?thesis
      by (cases "(chaser g, player g) \<in> (ways g)\<^sup>*") (auto simp: game_inv_def dest: ways_cells)
  qed
  with inv show ?thesis
    by (auto simp: moveChaserTowardsPlayer_def Let_def game_inv_def maze_inv_def sized_def checkLoseCondition_def)
qed

interpretation game: machine game_step game_inv
proof
  fix g e
  assume inv: "game_inv g"
  show "game_inv (game_step g e)"
  proof (cases e)
    case (Move direction)
    with inv show ?thesis by (simp add: game_inv_move)
  next
    case Chase
    with inv show ?thesis by (simp add: game_inv_chase)
  next
    case Reset
    with inv show ?thesis by (auto simp: resetGame_def game_inv_def maze_inv_def sized_def intro!: exI [of _ 0])
  qed (use inv in \<open>auto simp: updateTimer_def checkChaserActivation_def setDifficulty_def updateChaserSpeed_def hidePath_def
      game_inv_def maze_inv_def sized_def\<close>)
qed

lemma DFS_dims:
  "m_width (generateDFS sh x y m) = m_width m \<and> m_height (generateDFS sh x y m) = m_height m"
  "m_width (try_directions sh x y dirs m) = m_width m \<and> m_height (try_directions sh x y dirs m) = m_height m"
  by (induction sh x y m and sh x y dirs m rule: generateDFS_try_directions.induct)
    (simp_all add: generateDFS.simps try_directions.simps Let_def)

lemma new_game_inv:
  assumes "is_shuffle shuffle" "startNewGame shuffle w h d g0 = Inr g"
  shows "game_inv g"
proof -
  have pos: "0 < w" "0 < h" using assms(2) by (auto simp: startNewGame_def generate_def split: if_splits)
  obtain m where m: "generate shuffle w h (m_generator g0) = Inr m" "cells m = {0..<w} \<times> {0..<h}"
    "\<And>p. p \<in> cells m \<Longrightarrow> ((0, 0), p) \<in> (passages m)\<^sup>*"
    using generated [OF assms(1) pos, of "m_generator g0"] by metis
  have dims: "m_width m = w" "m_height m = h"
    using m(1) DFS_dims(1) by (auto simp: generate_def split: if_splits)
  have ends: "(0, 0) \<in> cells m" "(w - 1, h - 1) \<in> cells m" using pos m(2) by auto
  then have "isInBounds 0 0 m" "isInBounds (w - 1) (h - 1) m" by (simp_all add: cells_def)
  then obtain n where "distance_is (passages m) (0, 0) (w - 1, h - 1) n" "calculateShortestPath 0 0 (w - 1) (h - 1) m = int n"
    using m(3) [OF ends(2)] by (auto elim: calculate_cases)
  with assms(2) m(1) dims ends show ?thesis
    by (auto simp: startNewGame_def game_inv_def maze_inv_def sized_def updateChaserSpeed_def)
qed

text \<open>
  C27. The state of a game. After \<open>startNewGame\<close> and any sequence of moves, timer ticks, steps of the chaser,
  resets and changes of the difficulty, player and chaser stand inside of the maze, the game is
  running exactly when it is neither won nor lost, and a won game has the player at the end, with at least as many steps
  as the shortest path has; the signal of the win says \<open>perfect\<close> exactly when there are no more.
\<close>

theorem game_state_consistent:
  assumes "is_shuffle shuffle" "startNewGame shuffle width height difficulty g0 = Inr g1"
  shows "let g = foldl game_step g1 events in
    isInBounds (m_playerX g) (m_playerY g) (m_generator g) \<and> isInBounds (m_chaserX g) (m_chaserY g) (m_generator g) \<and>
    (m_isGameRunning g \<longleftrightarrow> \<not> m_isGameWon g \<and> \<not> m_isGameLost g) \<and>
    (m_isGameWon g \<longrightarrow> (m_playerX g, m_playerY g) = (m_endX g, m_endY g) \<and> m_shortestPath g \<le> m_currentSteps g \<and>
       last (m_signals g) = gameWon (m_currentSteps g = m_shortestPath g))"
proof -
  let ?g = "foldl game_step g1 events"
  have inv: "game_inv ?g" using new_game_inv [OF assms] by (rule game.run_inv)
  then obtain k d where k: "m_currentSteps ?g = int k" "((m_startX ?g, m_startY ?g), player ?g) \<in> ways ?g ^^ k"
    and d: "m_shortestPath ?g = int d" "distance_is (ways ?g) (m_startX ?g, m_startY ?g) (m_endX ?g, m_endY ?g) d"
    by (auto simp: game_inv_def maze_inv_def)
  have "m_shortestPath ?g \<le> m_currentSteps ?g" if "m_isGameWon ?g"
  proof (rule ccontr)
    assume "\<not> ?thesis"
    moreover have "player ?g = (m_endX ?g, m_endY ?g)" using inv that by (simp add: game_inv_def)
    ultimately show False using k d by (simp add: distance_is_def)
  qed
  with inv show ?thesis by (auto simp: Let_def game_inv_def cells_def)
qed

definition small_game :: MazeGame where
  "small_game = (case startNewGame alternating 2 1 0 MazeGame_new of Inr g \<Rightarrow> g | Inl _ \<Rightarrow> MazeGame_new)"

lemma small_game_started: "startNewGame alternating 2 1 0 MazeGame_new = Inr small_game"
proof -
  obtain m where "generate alternating 2 1 (m_generator MazeGame_new) = Inr m" by (auto simp: generate_def)
  then show ?thesis by (simp add: small_game_def startNewGame_def)
qed

lemma small_game_won:
  "m_isGameWon (foldl game_step small_game [Move 1])" "m_signals (foldl game_step small_game [Move 1]) = [gameWon True]"
  by code_simp+

theorem game_state_consistent_witness:
  "let g = foldl game_step small_game [Move 1] in
    isInBounds (m_playerX g) (m_playerY g) (m_generator g) \<and> isInBounds (m_chaserX g) (m_chaserY g) (m_generator g) \<and>
    m_isGameWon g \<and> (m_playerX g, m_playerY g) = (m_endX g, m_endY g) \<and> m_shortestPath g \<le> m_currentSteps g"
  using game_state_consistent [OF alternating_shuffle small_game_started, of "[Move 1]"] small_game_won(1) by (simp only: Let_def simp_thms)

text \<open>
  The losing condition does not ask whether the chaser is active: it waits on the start, and a player who
  steps back there within the first seconds has lost. And a new game keeps the path of the old maze on display.
\<close>

lemma stepping_back_loses:
  "case startNewGame alternating 3 1 0 MazeGame_new of Inl _ \<Rightarrow> False
   | Inr g \<Rightarrow> (let g' = foldl game_step g [Move 1, Move 3] in
       \<not> m_chaserActive g' \<and> m_elapsedTime g' = 0 \<and> m_isGameLost g')"
  by code_simp

lemma old_path_displayed:
  "startNewGame shuffle w h d g = Inr g' \<Longrightarrow> m_showPath g' = m_showPath g \<and> m_optimalPath g' = m_optimalPath g"
  by (auto simp: startNewGame_def updateChaserSpeed_def split: sum.splits)

end
