(* ===== verification/Chat_Rooms.thy ===== *)
theory Chat_Rooms
  imports CppString
begin

text \<open>
  The room manager of the video chat server (\<open>zsxq-cpp-ai/StdVideoChatRoom/src/server/RoomManager.h\<close> and
  \<open>RoomManager.cpp\<close>): rooms with their users, messages and files, and the maps from connections and files to
  rooms.

  \<^item> The unordered maps are association lists kept in key order; the set of typing users is such a map to
    \<open>unit\<close>. Only the examples show an order.
  \<^item> Every operation takes the lock \<open>globalMutex_\<close>, which is not recursive: \<open>leaveRoom\<close> has a flag that says
    whether the calling thread holds it, and locking it twice is the error \<open>Deadlock\<close>.
  \<^item> \<open>rm_disk\<close> has the uploaded files, by the components of their path below the working directory of the
    server. Removing the directory of a room succeeds, except that \<open>deleteRoomFiles\<close> has the outcome
    as an argument. Identifiers of files come from \<open>libuuid\<close> and are arguments as well.
\<close>

record UserInfo =
  ui_userId :: string
  ui_userName :: string
  ui_connectionId :: string

record ChatMessage =
  cm_messageId :: string
  cm_userId :: string
  cm_userName :: string
  cm_content :: string
  cm_timestamp :: time_point

record FileInfo =
  fi_fileId :: string
  fi_originalName :: string
  fi_uploaderUserId :: string
  fi_uploaderUserName :: string
  fi_fileSize :: "64 word"
  fi_filePath :: string
  fi_mimeType :: string
  fi_uploadTime :: time_point

record RoomInfo =
  ri_roomId :: string
  ri_users :: "UserInfo smap"
  ri_messages :: "ChatMessage list"
  ri_typingUsers :: "unit smap"
  ri_files :: "FileInfo smap"

record RoomManager =
  rm_rooms :: "RoomInfo smap"
  rm_connectionToRoom :: "string smap"
  rm_fileToRoom :: "string smap"
  rm_disk :: "(string list \<times> string) list"

definition RoomManager_new :: RoomManager where
  "RoomManager_new = \<lparr>rm_rooms = [], rm_connectionToRoom = [], rm_fileToRoom = [], rm_disk = []\<rparr>"

definition RoomInfo_new :: "string \<Rightarrow> RoomInfo" where
  "RoomInfo_new roomId = \<lparr>ri_roomId = roomId, ri_users = [], ri_messages = [], ri_typingUsers = [], ri_files = []\<rparr>"

section \<open>Paths\<close>

text \<open>The components of a relative path, with \<open>.\<close> and \<open>..\<close> resolved as the file system does.\<close>

fun resolve :: "string list \<Rightarrow> string list \<Rightarrow> string list" where
  "resolve acc [] = acc"
| "resolve acc (c # cs) =
     (if c = [] \<or> c = ''.'' then resolve acc cs
      else if c = ''..'' \<and> acc \<noteq> [] \<and> last acc \<noteq> ''..'' then resolve (butlast acc) cs
      else resolve (acc @ [c]) cs)"

definition path_of :: "string \<Rightarrow> string list" where
  "path_of p = resolve [] (getdelims (CHR ''/'') p)"

definition below :: "string list \<Rightarrow> string list \<Rightarrow> bool" where
  "below dir p \<longleftrightarrow> take (length dir) p = dir \<and> (dir = [] \<longrightarrow> p = [] \<or> hd p \<noteq> ''..'')"

definition remove_all :: "string \<Rightarrow> (string list \<times> string) list \<Rightarrow> (string list \<times> string) list" where
  "remove_all dir disk = filter (\<lambda>(p, _). \<not> below (path_of dir) p) disk"

definition upload_dir :: "string \<Rightarrow> string" where
  "upload_dir roomId = ''uploads/'' @ roomId"

section \<open>Joining and leaving\<close>

text \<open>A room whose last user has left disappears together with the entries of its files.\<close>

definition store_or_destroy :: "string \<Rightarrow> RoomInfo \<Rightarrow> RoomManager \<Rightarrow> RoomManager" where
  "store_or_destroy roomId room m =
     (if ri_users room = []
      then m\<lparr>rm_rooms := merase roomId (rm_rooms m),
             rm_fileToRoom := foldl (\<lambda>fs f. merase f fs) (rm_fileToRoom m) (map fst (ri_files room)),
             rm_disk := remove_all (upload_dir roomId) (rm_disk m)\<rparr>
      else m\<lparr>rm_rooms := mput roomId room (rm_rooms m)\<rparr>)"

definition leaveRoom :: "bool \<Rightarrow> string \<Rightarrow> string \<Rightarrow> RoomManager \<Rightarrow> sync_error + bool \<times> RoomManager" where
  "leaveRoom held roomId userId m =
     (case lock_mutex held of
        Inl e \<Rightarrow> Inl e
      | Inr _ \<Rightarrow>
          (case map_of (rm_rooms m) roomId of
             None \<Rightarrow> Inr (False, m)
           | Some room \<Rightarrow>
               (case map_of (ri_users room) userId of
                  None \<Rightarrow> Inr (False, m)
                | Some user \<Rightarrow>
                    (let room1 = room\<lparr>ri_users := merase userId (ri_users room)\<rparr>;
                         m1 = store_or_destroy roomId room1 m
                     in Inr (True, m1\<lparr>rm_connectionToRoom := merase (ui_connectionId user) (rm_connectionToRoom m1)\<rparr>)))))"

definition enter :: "string \<Rightarrow> UserInfo \<Rightarrow> RoomManager \<Rightarrow> RoomManager" where
  "enter roomId userInfo m =
     (let room = (case map_of (rm_rooms m) roomId of Some room \<Rightarrow> room | None \<Rightarrow> RoomInfo_new roomId);
          room1 = room\<lparr>ri_users := mput (ui_userId userInfo) userInfo (ri_users room)\<rparr>
      in m\<lparr>rm_rooms := mput roomId room1 (rm_rooms m),
           rm_connectionToRoom := mput (ui_connectionId userInfo) roomId (rm_connectionToRoom m)\<rparr>)"

definition joinRoom :: "string \<Rightarrow> UserInfo \<Rightarrow> RoomManager \<Rightarrow> sync_error + bool \<times> RoomManager" where
  "joinRoom roomId userInfo m =
     (case map_of (rm_connectionToRoom m) (ui_connectionId userInfo) of
        None \<Rightarrow> Inr (True, enter roomId userInfo m)
      | Some current \<Rightarrow>
          (case leaveRoom True current (ui_userId userInfo) m of
             Inl e \<Rightarrow> Inl e
           | Inr (_, m1) \<Rightarrow> Inr (True, enter roomId userInfo m1)))"

definition getRoomUsers :: "string \<Rightarrow> RoomManager \<Rightarrow> UserInfo list" where
  "getRoomUsers roomId m = (case map_of (rm_rooms m) roomId of None \<Rightarrow> [] | Some room \<Rightarrow> map snd (ri_users room))"

definition findRoomByConnection :: "string \<Rightarrow> RoomManager \<Rightarrow> string" where
  "findRoomByConnection connectionId m = (case map_of (rm_connectionToRoom m) connectionId of Some roomId \<Rightarrow> roomId | None \<Rightarrow> [])"

fun erase_first :: "('a \<Rightarrow> bool) \<Rightarrow> 'a list \<Rightarrow> 'a list" where
  "erase_first P [] = []"
| "erase_first P (x # xs) = (if P x then xs else x # erase_first P xs)"

definition removeUserByConnection :: "string \<Rightarrow> RoomManager \<Rightarrow> RoomManager" where
  "removeUserByConnection connectionId m =
     (case map_of (rm_connectionToRoom m) connectionId of
        None \<Rightarrow> m
      | Some roomId \<Rightarrow>
          (let m1 = (case map_of (rm_rooms m) roomId of
                       None \<Rightarrow> m
                     | Some room \<Rightarrow> store_or_destroy roomId
                         (room\<lparr>ri_users := erase_first (\<lambda>(_, u). ui_connectionId u = connectionId) (ri_users room)\<rparr>) m)
           in m1\<lparr>rm_connectionToRoom := merase connectionId (rm_connectionToRoom m1)\<rparr>))"

section \<open>Messages\<close>

text \<open>Operations that change one room return whether it exists.\<close>

definition update_room :: "string \<Rightarrow> (RoomInfo \<Rightarrow> RoomInfo) \<Rightarrow> RoomManager \<Rightarrow> bool \<times> RoomManager" where
  "update_room roomId f m =
     (case map_of (rm_rooms m) roomId of
        None \<Rightarrow> (False, m)
      | Some room \<Rightarrow> (True, m\<lparr>rm_rooms := mput roomId (f room) (rm_rooms m)\<rparr>))"

definition push_message :: "ChatMessage \<Rightarrow> RoomInfo \<Rightarrow> RoomInfo" where
  "push_message message room =
     (let messages = ri_messages room @ [message]
      in room\<lparr>ri_messages := (if 100 < length messages then tl messages else messages)\<rparr>)"

definition addMessage :: "string \<Rightarrow> ChatMessage \<Rightarrow> RoomManager \<Rightarrow> bool \<times> RoomManager" where
  "addMessage roomId message m = update_room roomId (push_message message) m"

definition getMessages :: "string \<Rightarrow> nat \<Rightarrow> RoomManager \<Rightarrow> ChatMessage list" where
  "getMessages roomId limit m =
     (case map_of (rm_rooms m) roomId of
        None \<Rightarrow> []
      | Some room \<Rightarrow>
          (let n = length (ri_messages room); start = (if limit < n then n - limit else 0)
           in drop start (ri_messages room)))"

definition setUserTyping :: "string \<Rightarrow> string \<Rightarrow> bool \<Rightarrow> RoomManager \<Rightarrow> bool \<times> RoomManager" where
  "setUserTyping roomId userId isTyping m =
     update_room roomId (\<lambda>room. room\<lparr>ri_typingUsers :=
       (if isTyping then mput userId () (ri_typingUsers room) else merase userId (ri_typingUsers room))\<rparr>) m"

definition getTypingUsers :: "string \<Rightarrow> RoomManager \<Rightarrow> string list" where
  "getTypingUsers roomId m = (case map_of (rm_rooms m) roomId of None \<Rightarrow> [] | Some room \<Rightarrow> map fst (ri_typingUsers room))"

section \<open>Files\<close>

definition addFile :: "string \<Rightarrow> FileInfo \<Rightarrow> RoomManager \<Rightarrow> bool \<times> RoomManager" where
  "addFile roomId fileInfo m =
     (case update_room roomId (\<lambda>room. room\<lparr>ri_files := mput (fi_fileId fileInfo) fileInfo (ri_files room)\<rparr>) m of
        (False, m1) \<Rightarrow> (False, m1)
      | (True, m1) \<Rightarrow> (True, m1\<lparr>rm_fileToRoom := mput (fi_fileId fileInfo) roomId (rm_fileToRoom m1)\<rparr>))"

definition newer :: "FileInfo \<Rightarrow> FileInfo \<Rightarrow> bool" where
  "newer a b \<longleftrightarrow> fi_uploadTime a > fi_uploadTime b"

definition getFiles :: "string \<Rightarrow> RoomManager \<Rightarrow> FileInfo list" where
  "getFiles roomId m =
     (case map_of (rm_rooms m) roomId of None \<Rightarrow> [] | Some room \<Rightarrow> isort newer (map snd (ri_files room)))"

definition getFileById :: "string \<Rightarrow> RoomManager \<Rightarrow> FileInfo option" where
  "getFileById fileId m =
     (case map_of (rm_fileToRoom m) fileId of
        None \<Rightarrow> None
      | Some roomId \<Rightarrow>
          (case map_of (rm_rooms m) roomId of None \<Rightarrow> None | Some room \<Rightarrow> map_of (ri_files room) fileId))"

definition hasFilePermission :: "string \<Rightarrow> string \<Rightarrow> RoomManager \<Rightarrow> bool" where
  "hasFilePermission fileId connectionId m =
     (case map_of (rm_connectionToRoom m) connectionId of
        None \<Rightarrow> False
      | Some room \<Rightarrow>
          (case map_of (rm_fileToRoom m) fileId of None \<Rightarrow> False | Some room' \<Rightarrow> room = room'))"

definition deleteRoomFiles :: "bool \<Rightarrow> string \<Rightarrow> RoomManager \<Rightarrow> bool \<times> RoomManager" where
  "deleteRoomFiles removed roomId m =
     (case map_of (rm_rooms m) roomId of
        None \<Rightarrow> (False, m)
      | Some room \<Rightarrow>
          (removed, m\<lparr>rm_rooms := mput roomId (room\<lparr>ri_files := []\<rparr>) (rm_rooms m),
                      rm_fileToRoom := foldl (\<lambda>fs f. merase f fs) (rm_fileToRoom m) (map fst (ri_files room)),
                      rm_disk := (if removed then remove_all (upload_dir roomId) (rm_disk m) else rm_disk m)\<rparr>))"

text \<open>The extension behind the last dot, in lower case.\<close>

definition extension :: "string \<Rightarrow> string option" where
  "extension filename = (if CHR ''.'' \<notin> set filename then None
     else Some (map lower_char (rev (takeWhile (\<lambda>c. c \<noteq> CHR ''.'') (rev filename)))))"

definition mime_table :: "string smap" where
  "mime_table =
    [(''txt'', ''text/plain''), (''pdf'', ''application/pdf''), (''doc'', ''application/msword''),
     (''docx'', ''application/vnd.openxmlformats-officedocument.wordprocessingml.document''),
     (''xls'', ''application/vnd.ms-excel''),
     (''xlsx'', ''application/vnd.openxmlformats-officedocument.spreadsheetml.sheet''),
     (''ppt'', ''application/vnd.ms-powerpoint''),
     (''pptx'', ''application/vnd.openxmlformats-officedocument.presentationml.presentation''),
     (''jpg'', ''image/jpeg''), (''jpeg'', ''image/jpeg''), (''png'', ''image/png''), (''gif'', ''image/gif''),
     (''bmp'', ''image/bmp''), (''svg'', ''image/svg+xml''), (''mp4'', ''video/mp4''), (''avi'', ''video/x-msvideo''),
     (''mkv'', ''video/x-matroska''), (''mp3'', ''audio/mpeg''), (''wav'', ''audio/wav''), (''zip'', ''application/zip''),
     (''rar'', ''application/x-rar-compressed''), (''7z'', ''application/x-7z-compressed''),
     (''tar'', ''application/x-tar''), (''gz'', ''application/gzip''), (''json'', ''application/json''),
     (''xml'', ''application/xml''), (''html'', ''text/html''), (''css'', ''text/css''), (''js'', ''application/javascript'')]"

definition getMimeType :: "string \<Rightarrow> string" where
  "getMimeType filename =
     (case extension filename of
        None \<Rightarrow> ''application/octet-stream''
      | Some ext \<Rightarrow> (case map_of mime_table ext of Some mime \<Rightarrow> mime | None \<Rightarrow> ''application/octet-stream''))"

definition allowedTypes :: "string list" where
  "allowedTypes =
    [''txt'', ''pdf'', ''doc'', ''docx'', ''xls'', ''xlsx'', ''ppt'', ''pptx'', ''jpg'', ''jpeg'', ''png'', ''gif'', ''bmp'', ''svg'',
     ''mp4'', ''avi'', ''mkv'', ''mp3'', ''wav'', ''zip'', ''rar'', ''7z'', ''tar'', ''gz'', ''json'', ''xml'', ''html'', ''css'', ''js'']"

definition dangerousTypes :: "string list" where
  "dangerousTypes = [''exe'', ''bat'', ''cmd'', ''com'', ''pif'', ''scr'', ''vbs'', ''jar'', ''app'', ''deb'', ''rpm'']"

definition isFileTypeAllowed :: "string \<Rightarrow> bool" where
  "isFileTypeAllowed filename =
     (case extension filename of
        None \<Rightarrow> False
      | Some ext \<Rightarrow> if ext \<in> set dangerousTypes then False else ext \<in> set allowedTypes)"

end
