(* ===== verification/Chat_Server.thy ===== *)
theory Chat_Server
  imports Chat_Rooms
begin

text \<open>
  The video chat server above the room manager: the WebSocket handler (\<open>WebSocketHandler.h\<close>,
  \<open>WebSocketHandler.cpp\<close>), its message types (\<open>common/Message.h\<close>) and the file requests of \<open>ChatServer.cpp\<close>.

  \<^item> A connection handle is a number, the address of the connection. Handles are alive while the server
    calls back with them.
  \<^item> A received message is a parsed JSON object: a list of members, each a string or some other value; \<open>None\<close> is a
    text that is no JSON. Reading a member as a string when it is not one is the exception \<open>Json_Error\<close>,
    which \<open>on_message\<close> catches. Sent messages are values of \<open>out_message\<close> instead of their JSON text,
    and the log \<open>outbox\<close> has them with their receivers; errors of the network while sending are ignored by the code.
  \<^item> Random numbers and the clock are arguments. Texts are valid UTF-8, so that serialising them does not throw.
\<close>

datatype MessageType =
    JOIN_ROOM | LEAVE_ROOM | USER_JOINED | USER_LEFT | ROOM_USERS | OFFER | ANSWER | ICE_CANDIDATE | ERROR
  | USER_DISCONNECTED | PING | TEXT_MESSAGE | TYPING_START | TYPING_END | FILE_UPLOADED | FILE_LIST

fun messageTypeToString :: "MessageType \<Rightarrow> string" where
  "messageTypeToString JOIN_ROOM = ''join_room''"
| "messageTypeToString LEAVE_ROOM = ''leave_room''"
| "messageTypeToString USER_JOINED = ''user_joined''"
| "messageTypeToString USER_LEFT = ''user_left''"
| "messageTypeToString ROOM_USERS = ''room_users''"
| "messageTypeToString OFFER = ''offer''"
| "messageTypeToString ANSWER = ''answer''"
| "messageTypeToString ICE_CANDIDATE = ''ice_candidate''"
| "messageTypeToString ERROR = ''error''"
| "messageTypeToString USER_DISCONNECTED = ''user_disconnected''"
| "messageTypeToString PING = ''ping''"
| "messageTypeToString TEXT_MESSAGE = ''text_message''"
| "messageTypeToString TYPING_START = ''typing_start''"
| "messageTypeToString TYPING_END = ''typing_end''"
| "messageTypeToString FILE_UPLOADED = ''file_uploaded''"
| "messageTypeToString FILE_LIST = ''file_list''"

definition stringToMessageType :: "string \<Rightarrow> MessageType" where
  "stringToMessageType str =
     (if str = ''join_room'' then JOIN_ROOM else if str = ''leave_room'' then LEAVE_ROOM
      else if str = ''user_joined'' then USER_JOINED else if str = ''user_left'' then USER_LEFT
      else if str = ''room_users'' then ROOM_USERS else if str = ''offer'' then OFFER
      else if str = ''answer'' then ANSWER else if str = ''ice_candidate'' then ICE_CANDIDATE
      else if str = ''error'' then ERROR else if str = ''user_disconnected'' then USER_DISCONNECTED
      else if str = ''ping'' then PING else if str = ''text_message'' then TEXT_MESSAGE
      else if str = ''typing_start'' then TYPING_START else if str = ''typing_end'' then TYPING_END
      else if str = ''file_uploaded'' then FILE_UPLOADED else if str = ''file_list'' then FILE_LIST else ERROR)"

section \<open>The state\<close>

datatype jvalue = J_String string | J_Other
type_synonym json = "(string \<times> jvalue) list"
type_synonym handle = nat

datatype refusal = Missing_RoomId | Join_Failed | Malformed_Message | Not_In_Room | No_Such_User | Send_Failed

datatype out_message =
    Out_Error refusal
  | Room_Users string string "(string \<times> string) list"
  | Message_History "ChatMessage list"
  | File_List "FileInfo list"
  | User_Joined string string
  | User_Left string
  | User_Disconnected string
  | Text_Message ChatMessage
  | Typing bool string
  | File_Uploaded FileInfo
  | Forwarded json

datatype handler_error = Hangs sync_error | Json_Error

record WebSocketHandler =
  connections :: "handle list"
  connection_map :: "handle smap"
  connection_id_counter :: "64 word"
  message_counter :: "64 word"
  room_manager :: RoomManager
  outbox :: "(handle \<times> out_message) list"

definition WebSocketHandler_new :: WebSocketHandler where
  "WebSocketHandler_new = \<lparr>connections = [], connection_map = [], connection_id_counter = 0, message_counter = 0,
     room_manager = RoomManager_new, outbox = []\<rparr>"

definition sendMessage :: "handle \<Rightarrow> out_message \<Rightarrow> WebSocketHandler \<Rightarrow> WebSocketHandler" where
  "sendMessage hdl message w = w\<lparr>outbox := outbox w @ [(hdl, message)]\<rparr>"

definition send_to_user :: "out_message \<Rightarrow> WebSocketHandler \<Rightarrow> UserInfo \<Rightarrow> WebSocketHandler" where
  "send_to_user message w user =
     (case map_of (connection_map w) (ui_connectionId user) of Some hdl \<Rightarrow> sendMessage hdl message w | None \<Rightarrow> w)"

definition broadcastToRoom :: "string \<Rightarrow> out_message \<Rightarrow> string \<Rightarrow> WebSocketHandler \<Rightarrow> WebSocketHandler" where
  "broadcastToRoom roomId message excludeConnection w =
     foldl (send_to_user message) w
       (filter (\<lambda>user. ui_connectionId user \<noteq> excludeConnection) (getRoomUsers roomId (room_manager w)))"

text \<open>A handle that is not in the map gets a temporary name from its address.\<close>

definition temp_id :: "handle \<Rightarrow> string" where
  "temp_id hdl = ''temp_0x'' @ map (\<lambda>d. if d < 10 then char_of (48 + d) else char_of (87 + d)) (digits_of 16 hdl)"

definition getConnectionId :: "handle \<Rightarrow> WebSocketHandler \<Rightarrow> string" where
  "getConnectionId hdl w =
     (case List.find (\<lambda>(_, h). h = hdl) (connection_map w) of Some (connId, _) \<Rightarrow> connId | None \<Rightarrow> temp_id hdl)"

definition generateRandomUsername :: "int \<Rightarrow> string" where
  "generateRandomUsername rnd = int_dec rnd"

text \<open>The two characters in front of a user name, in UTF-8.\<close>

definition user_prefix :: string where
  "user_prefix = [CHR 0xE7, CHR 0x94, CHR 0xA8, CHR 0xE6, CHR 0x88, CHR 0xB7]"

definition generateMessageId :: "time_point \<Rightarrow> WebSocketHandler \<Rightarrow> string \<times> WebSocketHandler" where
  "generateMessageId now w =
     (int_dec (tdiv now 1000000) @ ''_'' @ nat_dec (unat (message_counter w)), w\<lparr>message_counter := message_counter w + 1\<rparr>)"

section \<open>Opening and closing\<close>

definition on_open :: "handle \<Rightarrow> WebSocketHandler \<Rightarrow> WebSocketHandler" where
  "on_open hdl w =
     (let connId = ''conn_'' @ nat_dec (unat (connection_id_counter w))
      in w\<lparr>connections := (if hdl \<in> set (connections w) then connections w else connections w @ [hdl]),
           connection_id_counter := connection_id_counter w + 1,
           connection_map := mput connId hdl (connection_map w)\<rparr>)"

definition on_close :: "handle \<Rightarrow> WebSocketHandler \<Rightarrow> sync_error + WebSocketHandler" where
  "on_close hdl w =
     (let connId = getConnectionId hdl w;
          roomId = findRoomByConnection connId (room_manager w);
          forget = (\<lambda>w. w\<lparr>connection_map := merase connId (connection_map w), connections := filter (\<lambda>h. h \<noteq> hdl) (connections w)\<rparr>)
      in if roomId = [] then Inr (forget w)
         else case List.find (\<lambda>user. ui_connectionId user = connId) (getRoomUsers roomId (room_manager w)) of
                None \<Rightarrow> Inr (forget w)
              | Some user \<Rightarrow>
                  (if ui_userId user = [] then Inr (forget w)
                   else let w1 = broadcastToRoom roomId (User_Disconnected (ui_userId user)) connId w
                        in case leaveRoom False roomId (ui_userId user) (room_manager w1) of
                             Inl e \<Rightarrow> Inl e
                           | Inr (_, rm) \<Rightarrow> Inr (forget (w1\<lparr>room_manager := rm\<rparr>))))"

section \<open>Messages\<close>

text \<open>\<open>data.contains(key)\<close>, and reading a member as a string.\<close>

definition has_key :: "string \<Rightarrow> json \<Rightarrow> bool" where
  "has_key key data \<longleftrightarrow> map_of data key \<noteq> None"

definition jstring :: "string \<Rightarrow> json \<Rightarrow> handler_error + string" where
  "jstring key data = (case map_of data key of Some (J_String s) \<Rightarrow> Inr s | _ \<Rightarrow> Inl Json_Error)"

definition handleJoinRoom :: "int \<Rightarrow> handle \<Rightarrow> json \<Rightarrow> WebSocketHandler \<Rightarrow> handler_error + WebSocketHandler" where
  "handleJoinRoom rnd hdl data w =
     (if \<not> has_key ''roomId'' data then Inr (sendMessage hdl (Out_Error Missing_RoomId) w)
      else case jstring ''roomId'' data of
             Inl e \<Rightarrow> Inl e
           | Inr roomId \<Rightarrow>
               (let userId = generateRandomUsername rnd; userName = user_prefix @ userId; connId = getConnectionId hdl w;
                    userInfo = \<lparr>ui_userId = userId, ui_userName = userName, ui_connectionId = connId\<rparr>
                in case joinRoom roomId userInfo (room_manager w) of
                     Inl e \<Rightarrow> Inl (Hangs e)
                   | Inr (False, rm) \<Rightarrow> Inr (sendMessage hdl (Out_Error Join_Failed) (w\<lparr>room_manager := rm\<rparr>))
                   | Inr (True, rm) \<Rightarrow>
                       (let w1 = w\<lparr>room_manager := rm\<rparr>;
                            others = filter (\<lambda>user. ui_userId user \<noteq> userId) (getRoomUsers roomId rm);
                            w2 = sendMessage hdl (Room_Users userId userName (map (\<lambda>u. (ui_userId u, ui_userName u)) others)) w1;
                            messages = getMessages roomId 20 rm;
                            w3 = (if messages \<noteq> [] then sendMessage hdl (Message_History messages) w2 else w2);
                            files = getFiles roomId rm;
                            w4 = (if files \<noteq> [] then sendMessage hdl (File_List files) w3 else w3)
                        in Inr (broadcastToRoom roomId (User_Joined userId userName) connId w4))))"

definition handleLeaveRoom :: "handle \<Rightarrow> json \<Rightarrow> WebSocketHandler \<Rightarrow> handler_error + WebSocketHandler" where
  "handleLeaveRoom hdl data w =
     (if \<not> has_key ''roomId'' data \<or> \<not> has_key ''userId'' data then Inr w
      else case (jstring ''roomId'' data, jstring ''userId'' data) of
             (Inr roomId, Inr userId) \<Rightarrow>
               (case leaveRoom False roomId userId (room_manager w) of
                  Inl e \<Rightarrow> Inl (Hangs e)
                | Inr (left, rm) \<Rightarrow>
                    Inr (if left then broadcastToRoom roomId (User_Left userId) (getConnectionId hdl w) (w\<lparr>room_manager := rm\<rparr>)
                         else w\<lparr>room_manager := rm\<rparr>))
           | _ \<Rightarrow> Inl Json_Error)"

text \<open>A user whose identifier equals the member \<open>targetUserId\<close>; a member that is no string equals none.\<close>

definition handleWebRTCSignaling :: "handle \<Rightarrow> json \<Rightarrow> WebSocketHandler \<Rightarrow> handler_error + WebSocketHandler" where
  "handleWebRTCSignaling hdl data w =
     (if \<not> has_key ''targetUserId'' data then Inr w
      else let roomId = findRoomByConnection (getConnectionId hdl w) (room_manager w)
           in if roomId = [] then Inr w
              else case List.find (\<lambda>user. map_of data ''targetUserId'' = Some (J_String (ui_userId user)))
                          (getRoomUsers roomId (room_manager w)) of
                     None \<Rightarrow> Inr w
                   | Some user \<Rightarrow> Inr (send_to_user (Forwarded data) w user))"

definition handleTextMessage :: "time_point \<Rightarrow> handle \<Rightarrow> json \<Rightarrow> WebSocketHandler \<Rightarrow> handler_error + WebSocketHandler" where
  "handleTextMessage now hdl data w =
     (if \<not> has_key ''roomId'' data \<or> \<not> has_key ''userId'' data \<or> \<not> has_key ''content'' data
      then Inr (sendMessage hdl (Out_Error Malformed_Message) w)
      else case (jstring ''roomId'' data, jstring ''userId'' data, jstring ''content'' data) of
             (Inr roomId, Inr userId, Inr content) \<Rightarrow>
               (if findRoomByConnection (getConnectionId hdl w) (room_manager w) \<noteq> roomId
                then Inr (sendMessage hdl (Out_Error Not_In_Room) w)
                else let userName = (case List.find (\<lambda>user. ui_userId user = userId) (getRoomUsers roomId (room_manager w)) of
                                       Some user \<Rightarrow> ui_userName user | None \<Rightarrow> [])
                     in if userName = [] then Inr (sendMessage hdl (Out_Error No_Such_User) w)
                        else case generateMessageId now w of
                               (messageId, w1) \<Rightarrow>
                                 (let chatMessage = \<lparr>cm_messageId = messageId, cm_userId = userId, cm_userName = userName,
                                        cm_content = content, cm_timestamp = now\<rparr>
                                  in case addMessage roomId chatMessage (room_manager w1) of
                                       (True, rm) \<Rightarrow> Inr (broadcastToRoom roomId (Text_Message chatMessage) [] (w1\<lparr>room_manager := rm\<rparr>))
                                     | (False, rm) \<Rightarrow> Inr (sendMessage hdl (Out_Error Send_Failed) (w1\<lparr>room_manager := rm\<rparr>))))
           | _ \<Rightarrow> Inl Json_Error)"

definition handleTypingStatus :: "bool \<Rightarrow> handle \<Rightarrow> json \<Rightarrow> WebSocketHandler \<Rightarrow> handler_error + WebSocketHandler" where
  "handleTypingStatus isTyping hdl data w =
     (if \<not> has_key ''roomId'' data \<or> \<not> has_key ''userId'' data then Inr w
      else case (jstring ''roomId'' data, jstring ''userId'' data) of
             (Inr roomId, Inr userId) \<Rightarrow>
               (let connId = getConnectionId hdl w
                in if findRoomByConnection connId (room_manager w) \<noteq> roomId then Inr w
                   else case setUserTyping roomId userId isTyping (room_manager w) of
                          (True, rm) \<Rightarrow> Inr (broadcastToRoom roomId (Typing isTyping userId) connId (w\<lparr>room_manager := rm\<rparr>))
                        | (False, rm) \<Rightarrow> Inr (w\<lparr>room_manager := rm\<rparr>))
           | _ \<Rightarrow> Inl Json_Error)"

definition broadcastFileUpload :: "string \<Rightarrow> FileInfo \<Rightarrow> WebSocketHandler \<Rightarrow> WebSocketHandler" where
  "broadcastFileUpload roomId fileInfo w = broadcastToRoom roomId (File_Uploaded fileInfo) [] w"

definition dispatch :: "int \<Rightarrow> time_point \<Rightarrow> handle \<Rightarrow> json \<Rightarrow> MessageType \<Rightarrow> WebSocketHandler \<Rightarrow> handler_error + WebSocketHandler" where
  "dispatch rnd now hdl data type w =
     (case type of
        JOIN_ROOM \<Rightarrow> handleJoinRoom rnd hdl data w
      | LEAVE_ROOM \<Rightarrow> handleLeaveRoom hdl data w
      | OFFER \<Rightarrow> handleWebRTCSignaling hdl data w
      | ANSWER \<Rightarrow> handleWebRTCSignaling hdl data w
      | ICE_CANDIDATE \<Rightarrow> handleWebRTCSignaling hdl data w
      | TEXT_MESSAGE \<Rightarrow> handleTextMessage now hdl data w
      | TYPING_START \<Rightarrow> handleTypingStatus True hdl data w
      | TYPING_END \<Rightarrow> handleTypingStatus False hdl data w
      | _ \<Rightarrow> Inr w)"

text \<open>\<open>on_message\<close> catches the exceptions of the JSON library; what the handler did before stays.\<close>

definition on_message :: "int \<Rightarrow> time_point \<Rightarrow> handle \<Rightarrow> json option \<Rightarrow> WebSocketHandler \<Rightarrow> sync_error + WebSocketHandler" where
  "on_message rnd now hdl payload w =
     (case payload of
        None \<Rightarrow> Inr w
      | Some data \<Rightarrow>
          (if \<not> has_key ''type'' data then Inr w
           else case jstring ''type'' data of
                  Inl _ \<Rightarrow> Inr w
                | Inr str \<Rightarrow>
                    (case dispatch rnd now hdl data (stringToMessageType str) w of
                       Inr w1 \<Rightarrow> Inr w1
                     | Inl (Hangs e) \<Rightarrow> Inl e
                     | Inl Json_Error \<Rightarrow> Inr w)))"

section \<open>File requests\<close>

text \<open>
  The headers and parts of an HTTP request that the handlers read. \<open>fileId\<close> is the identifier that \<open>libuuid\<close>
  generates, and \<open>saved\<close> says whether the file could be opened for writing.
\<close>

record file_request =
  x_room_id :: "string option"
  x_user_id :: "string option"
  x_connection_id :: "string option"
  upload :: "(string \<times> string) option"

datatype file_answer =
    Refused nat
  | Uploaded string
  | Content string string string
  | Listing "FileInfo list"

definition validateUserPermission :: "file_request \<Rightarrow> string \<Rightarrow> WebSocketHandler \<Rightarrow> string option" where
  "validateUserPermission req roomId w =
     (case x_user_id req of
        None \<Rightarrow> None
      | Some userId \<Rightarrow>
          (if \<exists>user \<in> set (getRoomUsers roomId (room_manager w)). ui_userId user = userId then Some userId else None))"

definition disk_write :: "string \<Rightarrow> string \<Rightarrow> RoomManager \<Rightarrow> RoomManager" where
  "disk_write p content rm = rm\<lparr>rm_disk := (path_of p, content) # filter (\<lambda>(q, _). q \<noteq> path_of p) (rm_disk rm)\<rparr>"

definition disk_remove :: "string \<Rightarrow> RoomManager \<Rightarrow> RoomManager" where
  "disk_remove p rm = rm\<lparr>rm_disk := filter (\<lambda>(q, _). q \<noteq> path_of p) (rm_disk rm)\<rparr>"

definition upload_path :: "string \<Rightarrow> string \<Rightarrow> string \<Rightarrow> string" where
  "upload_path roomId fileId filename = upload_dir roomId @ ''/'' @ fileId @ ''_'' @ filename"

definition uploaded_file :: "string \<Rightarrow> time_point \<Rightarrow> string \<Rightarrow> string \<Rightarrow> string \<Rightarrow> string \<Rightarrow> RoomManager \<Rightarrow> FileInfo" where
  "uploaded_file fileId now roomId userId filename content m =
     \<lparr>fi_fileId = fileId, fi_originalName = filename, fi_uploaderUserId = userId,
      fi_uploaderUserName = (case List.find (\<lambda>user. ui_userId user = userId) (getRoomUsers roomId m) of
        Some user \<Rightarrow> ui_userName user | None \<Rightarrow> []),
      fi_fileSize = of_nat (length content), fi_filePath = upload_path roomId fileId filename,
      fi_mimeType = getMimeType filename, fi_uploadTime = now\<rparr>"

text \<open>The second half of \<open>handleFileUpload\<close>: the file is written and registered, or removed again.\<close>

definition store_upload ::
  "string \<Rightarrow> time_point \<Rightarrow> string \<Rightarrow> string \<Rightarrow> string \<Rightarrow> string \<Rightarrow> WebSocketHandler \<Rightarrow> file_answer \<times> WebSocketHandler" where
  "store_upload fileId now roomId userId filename content w =
     (let filePath = upload_path roomId fileId filename;
          w1 = w\<lparr>room_manager := disk_write filePath content (room_manager w)\<rparr>;
          fileInfo = uploaded_file fileId now roomId userId filename content (room_manager w1)
      in case addFile roomId fileInfo (room_manager w1) of
           (True, rm) \<Rightarrow> (Uploaded fileId, broadcastFileUpload roomId fileInfo (w1\<lparr>room_manager := rm\<rparr>))
         | (False, rm) \<Rightarrow> (Refused 500, w1\<lparr>room_manager := disk_remove filePath rm\<rparr>))"

definition handleFileUpload ::
  "string \<Rightarrow> bool \<Rightarrow> time_point \<Rightarrow> file_request \<Rightarrow> WebSocketHandler \<Rightarrow> file_answer \<times> WebSocketHandler" where
  "handleFileUpload fileId saved now req w =
     (case (x_room_id req, x_user_id req) of
        (Some roomId, Some userId) \<Rightarrow>
          (if validateUserPermission req roomId w \<noteq> Some userId then (Refused 403, w)
           else case upload req of
                  None \<Rightarrow> (Refused 400, w)
                | Some (filename, content) \<Rightarrow>
                    (if filename = [] \<or> content = [] then (Refused 400, w)
                     else if 10 * 1024 * 1024 < length content then (Refused 413, w)
                     else if \<not> isFileTypeAllowed filename then (Refused 400, w)
                     else if \<not> saved then (Refused 500, w)
                     else store_upload fileId now roomId userId filename content w))
      | _ \<Rightarrow> (Refused 400, w))"

definition handleFileDownload :: "string \<Rightarrow> file_request \<Rightarrow> WebSocketHandler \<Rightarrow> file_answer" where
  "handleFileDownload fileId req w =
     (case getFileById fileId (room_manager w) of
        None \<Rightarrow> Refused 404
      | Some fileInfo \<Rightarrow>
          (let connectionId = (case x_connection_id req of Some c \<Rightarrow> c | None \<Rightarrow> [])
           in if connectionId \<noteq> [] \<and> \<not> hasFilePermission fileId connectionId (room_manager w) then Refused 403
              else case map_of (rm_disk (room_manager w)) (path_of (fi_filePath fileInfo)) of
                     None \<Rightarrow> Refused 404
                   | Some content \<Rightarrow> Content content (fi_mimeType fileInfo) (fi_originalName fileInfo)))"

definition handleFileList :: "string \<Rightarrow> file_request \<Rightarrow> WebSocketHandler \<Rightarrow> file_answer" where
  "handleFileList roomId req w =
     (case validateUserPermission req roomId w of
        None \<Rightarrow> Refused 403
      | Some _ \<Rightarrow> Listing (getFiles roomId (room_manager w)))"

text \<open>
  Files of the web page: \<open>files\<close> is the file system, \<open>public_dir\<close> the directory of the page. The route of the index comes first.
\<close>

definition static_mime :: "string \<Rightarrow> string" where
  "static_mime path =
     (if CHR ''.'' \<notin> set path then ''application/octet-stream''
      else let ext = rev (takeWhile (\<lambda>c. c \<noteq> CHR ''.'') (rev path))
           in if ext = ''html'' \<or> ext = ''htm'' then ''text/html''
              else if ext = ''css'' then ''text/css''
              else if ext = ''js'' then ''application/javascript''
              else if ext = ''json'' then ''application/json''
              else if ext = ''png'' then ''image/png''
              else if ext = ''jpg'' \<or> ext = ''jpeg'' then ''image/jpeg''
              else if ext = ''gif'' then ''image/gif''
              else if ext = ''svg'' then ''image/svg+xml''
              else if ext = ''ico'' then ''image/x-icon''
              else ''application/octet-stream'')"

definition serve_page :: "(string \<Rightarrow> string option) \<Rightarrow> string \<Rightarrow> string \<Rightarrow> file_answer" where
  "serve_page files public_dir path =
     (let file_path = public_dir @ ''/'' @ path
      in if contains_sub ''..'' path then Refused 403
         else case files file_path of Some content \<Rightarrow> Content content (static_mime file_path) [] | None \<Rightarrow> Refused 404)"

definition serve_index :: "(string \<Rightarrow> string option) \<Rightarrow> string \<Rightarrow> file_answer" where
  "serve_index files public_dir =
     (case files (public_dir @ ''/index.html'') of Some content \<Rightarrow> Content content ''text/html'' [] | None \<Rightarrow> Refused 404)"

end
