(* ===== verification/Chat_Invariant.thy ===== *)
theory Chat_Invariant
  imports Chat_Rooms
begin

text \<open>
  The invariant of the room manager of \<open>Chat_Rooms\<close>: its three maps agree with each other, and every operation
  keeps them so.
\<close>

section \<open>Consistency of the room manager\<close>

text \<open>
  A room has users and at most 100 messages; the connection of each user leads back to the room, and no
  two users share one.
\<close>

definition room_ok :: "string smap \<Rightarrow> string \<Rightarrow> RoomInfo \<Rightarrow> bool" where
  "room_ok conns roomId room \<longleftrightarrow> ri_users room \<noteq> [] \<and> msorted (ri_users room) \<and> length (ri_messages room) \<le> 100 \<and>
     (\<forall>u i. map_of (ri_users room) u = Some i \<longrightarrow> ui_userId i = u \<and> map_of conns (ui_connectionId i) = Some roomId) \<and>
     (\<forall>u v i j. map_of (ri_users room) u = Some i \<longrightarrow> map_of (ri_users room) v = Some j \<longrightarrow>
        ui_connectionId i = ui_connectionId j \<longrightarrow> u = v)"

definition rooms_inv :: "RoomManager \<Rightarrow> bool" where
  "rooms_inv m \<longleftrightarrow> (\<forall>r room. map_of (rm_rooms m) r = Some room \<longrightarrow> room_ok (rm_connectionToRoom m) r room) \<and>
     (\<forall>f r. map_of (rm_fileToRoom m) f = Some r \<longrightarrow>
        (\<exists>room. map_of (rm_rooms m) r = Some room \<and> map_of (ri_files room) f \<noteq> None))"

lemma rooms_inv_new: "rooms_inv RoomManager_new"
  by (simp add: rooms_inv_def RoomManager_new_def)

lemma rooms_invD:
  assumes "rooms_inv m" "map_of (rm_rooms m) r = Some room"
  shows "room_ok (rm_connectionToRoom m) r room"
  using assms by (simp add: rooms_inv_def)

lemma rooms_inv_file:
  assumes "rooms_inv m" "map_of (rm_fileToRoom m) f = Some r"
  obtains room where "map_of (rm_rooms m) r = Some room" "map_of (ri_files room) f \<noteq> None"
  using assms unfolding rooms_inv_def by blast

lemma room_okD:
  assumes "room_ok conns r room"
  shows "ri_users room \<noteq> []" "msorted (ri_users room)" "length (ri_messages room) \<le> 100"
    and "map_of (ri_users room) u = Some i \<Longrightarrow> ui_userId i = u"
    and "map_of (ri_users room) u = Some i \<Longrightarrow> map_of conns (ui_connectionId i) = Some r"
    and "map_of (ri_users room) u = Some i \<Longrightarrow> map_of (ri_users room) v = Some j \<Longrightarrow>
      ui_connectionId i = ui_connectionId j \<Longrightarrow> u = v"
  using assms unfolding room_ok_def by blast+

text \<open>A connection that no user of a room has does not matter to the room.\<close>

lemma room_ok_other:
  assumes "room_ok conns r room" "\<And>u i. map_of (ri_users room) u = Some i \<Longrightarrow> ui_connectionId i \<noteq> c"
  shows "room_ok (mput c r' conns) r room" "room_ok (merase c conns) r room"
  using assms by (auto simp: room_ok_def cpp_lib)

lemma room_okI:
  assumes "users \<noteq> []" "msorted users" "length (ri_messages room) \<le> 100"
    and "\<And>u i. map_of users u = Some i \<Longrightarrow> ui_userId i = u"
    and "\<And>u i. map_of users u = Some i \<Longrightarrow> map_of conns (ui_connectionId i) = Some r"
    and "\<And>u v i j. map_of users u = Some i \<Longrightarrow> map_of users v = Some j \<Longrightarrow> ui_connectionId i = ui_connectionId j \<Longrightarrow> u = v"
  shows "room_ok conns r (room\<lparr>ri_users := users\<rparr>)"
proof -
  define room' where "room' = room\<lparr>ri_users := users\<rparr>"
  have "ri_users room' = users" "ri_messages room' = ri_messages room" by (simp_all add: room'_def)
  with assms show ?thesis unfolding room'_def [symmetric] room_ok_def by auto
qed

lemma rooms_inv_update:
  assumes "rooms_inv m" "map_of (rm_rooms m) r = Some room"
    and "ri_users (f room) = ri_users room" "length (ri_messages (f room)) \<le> 100"
    and "\<And>x. map_of (ri_files room) x \<noteq> None \<Longrightarrow> map_of (ri_files (f room)) x \<noteq> None"
  shows "rooms_inv (m\<lparr>rm_rooms := mput r (f room) (rm_rooms m)\<rparr>)"
proof -
  have "room_ok (rm_connectionToRoom m) r (f room)"
    using rooms_invD [OF assms(1,2)] assms(3,4) by (simp add: room_ok_def)
  moreover have "map_of (ri_files (f room)) x \<noteq> None" if "map_of (rm_fileToRoom m) x = Some r" for x
  proof -
    from assms(1) that obtain room' where "map_of (rm_rooms m) r = Some room'" "map_of (ri_files room') x \<noteq> None"
      unfolding rooms_inv_def by blast
    with assms(2) assms(5) [of x] show ?thesis by simp
  qed
  ultimately show ?thesis using assms(1) by (auto simp: rooms_inv_def cpp_lib)
qed

lemma rooms_inv_update_room:
  assumes "rooms_inv m"
    and "\<And>room. length (ri_messages room) \<le> 100 \<Longrightarrow> ri_users (f room) = ri_users room \<and> length (ri_messages (f room)) \<le> 100 \<and>
      (\<forall>x. map_of (ri_files room) x \<noteq> None \<longrightarrow> map_of (ri_files (f room)) x \<noteq> None)"
  shows "rooms_inv (snd (update_room r f m))"
proof (cases "map_of (rm_rooms m) r")
  case (Some room)
  have "length (ri_messages room) \<le> 100" using rooms_invD [OF assms(1) Some] by (simp add: room_ok_def)
  from assms(2) [OF this] rooms_inv_update [OF assms(1) Some, of f] show ?thesis by (simp add: update_room_def Some)
qed (use assms(1) in \<open>simp add: update_room_def\<close>)

lemma rooms_inv_addMessage: "rooms_inv m \<Longrightarrow> rooms_inv (snd (addMessage r message m))"
  unfolding addMessage_def by (erule rooms_inv_update_room) (auto simp: push_message_def Let_def)

lemma rooms_inv_setUserTyping: "rooms_inv m \<Longrightarrow> rooms_inv (snd (setUserTyping r u b m))"
  unfolding setUserTyping_def by (erule rooms_inv_update_room) simp

lemma rooms_inv_addFile:
  assumes "rooms_inv m"
  shows "rooms_inv (snd (addFile r file m))"
proof (cases "map_of (rm_rooms m) r")
  case (Some room)
  let ?f = "\<lambda>room. room\<lparr>ri_files := mput (fi_fileId file) file (ri_files room)\<rparr>"
  have "length (ri_messages room) \<le> 100" using rooms_invD [OF assms Some] by (simp add: room_ok_def)
  then have "rooms_inv (m\<lparr>rm_rooms := mput r (?f room) (rm_rooms m)\<rparr>)"
    by (intro rooms_inv_update [OF assms Some, of ?f]) (auto simp: cpp_lib)
  then show ?thesis by (auto simp: addFile_def update_room_def Some rooms_inv_def cpp_lib)
qed (use assms in \<open>simp add: addFile_def update_room_def\<close>)

lemma rooms_inv_disk [simp]: "rooms_inv (m\<lparr>rm_disk := d\<rparr>) = rooms_inv m"
  by (simp add: rooms_inv_def)

lemma rooms_inv_enter:
  assumes inv: "rooms_inv m" and new: "map_of (rm_connectionToRoom m) (ui_connectionId user) = None"
  shows "rooms_inv (enter r user m)"
proof -
  let ?c = "ui_connectionId user"
  have free: "ui_connectionId i \<noteq> ?c" if "map_of (rm_rooms m) r' = Some room" "map_of (ri_users room) u = Some i" for r' room u i
    using room_okD(5) [OF rooms_invD [OF inv that(1)] that(2)] new by (metis option.distinct(1))
  define room where "room = (case map_of (rm_rooms m) r of Some room \<Rightarrow> room | None \<Rightarrow> RoomInfo_new r)"
  have old: "map_of (ri_users room) u = Some i \<Longrightarrow> ui_userId i = u \<and> map_of (rm_connectionToRoom m) (ui_connectionId i) = Some r"
    "map_of (ri_users room) u = Some i \<Longrightarrow> ui_connectionId i \<noteq> ?c"
    "map_of (ri_users room) u = Some i \<Longrightarrow> map_of (ri_users room) v = Some j \<Longrightarrow> ui_connectionId i = ui_connectionId j \<Longrightarrow> u = v"
    "msorted (ri_users room)" "length (ri_messages room) \<le> 100" for u v i j
    using rooms_invD [OF inv, of r] free [of r]
    by (auto simp: room_def RoomInfo_new_def room_ok_def split: option.splits)
  let ?users = "mput (ui_userId user) user (ri_users room)"
  have users: "map_of ?users u = (if u = ui_userId user then Some user else map_of (ri_users room) u)" for u
    by (simp add: cpp_lib)
  have "room_ok (mput ?c r (rm_connectionToRoom m)) r (room\<lparr>ri_users := ?users\<rparr>)"
  proof (rule room_okI)
    show "?users \<noteq> []" using users [of "ui_userId user"] by auto
    show "msorted ?users" "length (ri_messages room) \<le> 100" using old(4,5) by (simp_all add: msorted_mput)
  next
    fix u i assume "map_of ?users u = Some i"
    then show "ui_userId i = u" "map_of (mput ?c r (rm_connectionToRoom m)) (ui_connectionId i) = Some r"
      using old(1) [of u i] unfolding users by (auto simp: cpp_lib split: if_splits)
  next
    fix u v i j assume "map_of ?users u = Some i" "map_of ?users v = Some j" "ui_connectionId i = ui_connectionId j"
    then show "u = v"
      using old(2) [of u i] old(2) [of v j] old(3) [of u i v j] unfolding users by (auto split: if_splits)
  qed
  moreover have "room_ok (mput ?c r (rm_connectionToRoom m)) r' room'" if "map_of (rm_rooms m) r' = Some room'" for r' room'
    using room_ok_other(1) [OF rooms_invD [OF inv that]] free [OF that] by blast
  moreover have "map_of (ri_files room) f \<noteq> None" if "map_of (rm_fileToRoom m) f = Some r" for f
    using rooms_inv_file [OF inv that] by (fastforce simp: room_def)
  ultimately show ?thesis using inv
    by (simp add: enter_def Let_def rooms_inv_def cpp_lib room_def [symmetric])
qed

lemma map_of_foldl_merase:
  "map_of (foldl (\<lambda>fs f. merase f fs) m keys) x = (if x \<in> set keys then None else map_of m x)"
  by (induction keys arbitrary: m) (auto simp: cpp_lib)

text \<open>A user goes: every user with the connection, and the entry of the connection.\<close>

lemma rooms_inv_remove:
  assumes inv: "rooms_inv m" and room: "map_of (rm_rooms m) r = Some room"
    and users: "msorted users" "\<And>u i. map_of users u = Some i \<Longrightarrow> map_of (ri_users room) u = Some i \<and> ui_connectionId i \<noteq> c"
    and c: "map_of (rm_connectionToRoom m) c \<in> {None, Some r}"
    and m1: "m1 = store_or_destroy r (room\<lparr>ri_users := users\<rparr>) m"
  shows "rooms_inv (m1\<lparr>rm_connectionToRoom := merase c (rm_connectionToRoom m1)\<rparr>)"
proof -
  note ok = room_okD [OF rooms_invD [OF inv room]]
  have others: "room_ok (merase c (rm_connectionToRoom m)) r' room'" if "map_of (rm_rooms m) r' = Some room'" "r' \<noteq> r" for r' room'
  proof (rule room_ok_other(2) [OF rooms_invD [OF inv that(1)]])
    fix u i assume "map_of (ri_users room') u = Some i"
    from room_okD(5) [OF rooms_invD [OF inv that(1)] this] c that(2) show "ui_connectionId i \<noteq> c" by auto
  qed
  have files: "\<exists>room. map_of (rm_rooms m) r' = Some room \<and> map_of (ri_files room) f \<noteq> None"
    if "map_of (rm_fileToRoom m) f = Some r'" for f r' using inv that by (simp add: rooms_inv_def)
  show ?thesis
  proof (cases "users = []")
    case True
    have "f \<in> fst ` set (ri_files room)" if "map_of (rm_fileToRoom m) f = Some r" for f
      using files [OF that] room by (simp add: map_of_eq_None_iff)
    then have "map_of (rm_fileToRoom m1) f \<noteq> Some r" for f
      by (auto simp: m1 store_or_destroy_def True map_of_foldl_merase)
    moreover have "map_of (rm_fileToRoom m1) f = Some r' \<Longrightarrow> map_of (rm_fileToRoom m) f = Some r'" for f r'
      by (simp add: m1 store_or_destroy_def True map_of_foldl_merase split: if_splits)
    moreover have "rm_rooms m1 = merase r (rm_rooms m)" "rm_connectionToRoom m1 = rm_connectionToRoom m"
      by (simp_all add: m1 store_or_destroy_def True)
    ultimately show ?thesis using others files unfolding rooms_inv_def by (simp add: cpp_lib)
  next
    case False
    have "room_ok (rm_connectionToRoom m) r (room\<lparr>ri_users := users\<rparr>)"
      by (rule room_okI)
        (use False users(1) ok(3) ok(4) ok(5) ok(6) users(2) in blast)+
    then have "room_ok (merase c (rm_connectionToRoom m)) r (room\<lparr>ri_users := users\<rparr>)"
      by (rule room_ok_other(2)) (use users(2) in simp)
    moreover have "map_of (ri_files room) f \<noteq> None" if "map_of (rm_fileToRoom m) f = Some r" for f
      using files [OF that] room by simp
    ultimately show ?thesis using others files False
      by (simp add: m1 store_or_destroy_def rooms_inv_def cpp_lib)
  qed
qed

lemma rooms_inv_leaveRoom:
  assumes inv: "rooms_inv m" and leave: "leaveRoom held r u m = Inr (b, m')"
  shows "rooms_inv m'"
proof (cases "b")
  case True
  with leave obtain room user where room: "map_of (rm_rooms m) r = Some room" and user: "map_of (ri_users room) u = Some user"
    and m': "m' = (let m1 = store_or_destroy r (room\<lparr>ri_users := merase u (ri_users room)\<rparr>) m
      in m1\<lparr>rm_connectionToRoom := merase (ui_connectionId user) (rm_connectionToRoom m1)\<rparr>)"
    by (auto simp: leaveRoom_def Let_def split: option.splits sum.splits)
  note ok = room_okD [OF rooms_invD [OF inv room]]
  show ?thesis unfolding m' Let_def
  proof (rule rooms_inv_remove [OF inv room, of "merase u (ri_users room)"])
    fix v i assume "map_of (merase u (ri_users room)) v = Some i"
    then have "v \<noteq> u" "map_of (ri_users room) v = Some i" by (auto simp: cpp_lib split: if_splits)
    then show "map_of (ri_users room) v = Some i \<and> ui_connectionId i \<noteq> ui_connectionId user" using ok(6) [OF _ user] by blast
  qed (use ok(2) ok(5) [OF user] in \<open>simp_all add: msorted_merase\<close>)
qed (use leave inv in \<open>auto simp: leaveRoom_def Let_def split: option.splits sum.splits\<close>)

lemma rooms_inv_joinRoom: "rooms_inv m \<Longrightarrow> joinRoom r user m = Inr (b, m') \<Longrightarrow> rooms_inv m'"
  by (auto simp: joinRoom_def leaveRoom_def lock_mutex_def rooms_inv_enter split: option.splits)

lemma erase_first_subset: "set (erase_first P xs) \<subseteq> set xs"
  by (induction xs) auto

lemma erase_first_only:
  "distinct xs \<Longrightarrow> (\<And>x y. x \<in> set xs \<Longrightarrow> y \<in> set xs \<Longrightarrow> P x \<Longrightarrow> P y \<Longrightarrow> x = y) \<Longrightarrow> z \<in> set (erase_first P xs) \<Longrightarrow> \<not> P z"
proof (induction xs)
  case (Cons x xs)
  show ?case
  proof (cases "P x")
    case True
    then have "z \<in> set xs" "x \<notin> set xs" using Cons.prems(1,3) by simp_all
    with Cons.prems(2) [of x z] True show ?thesis by auto
  next
    case False
    then show ?thesis using Cons.IH Cons.prems by (cases "z = x") auto
  qed
qed simp

lemma map_of_erase_first:
  assumes xs: "msorted xs"
    and only: "\<And>u v i j. map_of xs u = Some i \<Longrightarrow> map_of xs v = Some j \<Longrightarrow> P (u, i) \<Longrightarrow> P (v, j) \<Longrightarrow> u = v"
  shows "msorted (erase_first P xs)" "map_of (erase_first P xs) u = Some i \<Longrightarrow> map_of xs u = Some i \<and> \<not> P (u, i)"
proof -
  have "msorted ys \<Longrightarrow> msorted (erase_first P ys)" for ys
  proof (induction ys)
    case (Cons x ys)
    have "\<forall>y \<in> set (erase_first P ys). y \<in> set ys" using erase_first_subset [of P ys] by blast
    with Cons show ?case by (simp add: msorted_def)
  qed (simp add: msorted_def)
  from this [OF xs] show "msorted (erase_first P xs)" .
  assume "map_of (erase_first P xs) u = Some i"
  then have mem: "(u, i) \<in> set (erase_first P xs)" by (rule map_of_SomeD)
  have same: "x = y" if "x \<in> set xs" "y \<in> set xs" "P x" "P y" for x y
  proof (cases x, cases y)
    fix u i v j assume xy: "x = (u, i)" "y = (v, j)"
    with that(1,2) have "map_of xs u = Some i" "map_of xs v = Some j" by (simp_all add: msorted_map_of [OF xs])
    with only [of u i v j] that(3,4) xy show ?thesis by simp
  qed
  have "distinct xs" using xs by (simp add: msorted_def strict_sorted_iff distinct_map)
  then have "\<not> P (u, i)" by (rule erase_first_only [OF _ same mem])
  moreover have "(u, i) \<in> set xs" using mem erase_first_subset [of P xs] by blast
  ultimately show "map_of xs u = Some i \<and> \<not> P (u, i)" by (simp add: msorted_map_of [OF xs])
qed

lemma rooms_inv_removeUserByConnection:
  assumes inv: "rooms_inv m"
  shows "rooms_inv (removeUserByConnection c m)"
proof (cases "map_of (rm_connectionToRoom m) c")
  case conn: (Some r)
  show ?thesis
  proof (cases "map_of (rm_rooms m) r")
    case None
    have "room_ok (merase c (rm_connectionToRoom m)) r' room" if "map_of (rm_rooms m) r' = Some room" for r' room
    proof (rule room_ok_other(2) [OF rooms_invD [OF inv that]])
      fix u i assume "map_of (ri_users room) u = Some i"
      from room_okD(5) [OF rooms_invD [OF inv that] this] conn None that show "ui_connectionId i \<noteq> c" by auto
    qed
    with inv show ?thesis by (simp add: removeUserByConnection_def conn None rooms_inv_def)
  next
    case room: (Some room)
    let ?P = "\<lambda>(_ :: string, u). ui_connectionId u = c"
    note ok = room_okD [OF rooms_invD [OF inv room]]
    have only: "u = v" if "map_of (ri_users room) u = Some i" "map_of (ri_users room) v = Some j" "?P (u, i)" "?P (v, j)" for u v i j
      using ok(6) [OF that(1,2)] that(3,4) by simp
    have erased: "msorted (erase_first ?P (ri_users room))"
      "map_of (erase_first ?P (ri_users room)) u = Some i \<Longrightarrow> map_of (ri_users room) u = Some i \<and> ui_connectionId i \<noteq> c" for u i
      using map_of_erase_first(1) [of "ri_users room" ?P, OF ok(2) only] map_of_erase_first(2) [of "ri_users room" ?P u i, OF ok(2) only]
      by simp_all
    define m1 where "m1 = store_or_destroy r (room\<lparr>ri_users := erase_first ?P (ri_users room)\<rparr>) m"
    have "removeUserByConnection c m = m1\<lparr>rm_connectionToRoom := merase c (rm_connectionToRoom m1)\<rparr>"
      by (simp add: removeUserByConnection_def conn room m1_def Let_def)
    moreover have "rooms_inv (m1\<lparr>rm_connectionToRoom := merase c (rm_connectionToRoom m1)\<rparr>)"
      using conn by (intro rooms_inv_remove [OF inv room erased(1) erased(2) _ m1_def]) auto
    ultimately show ?thesis by simp
  qed
qed (simp add: removeUserByConnection_def inv)

lemma rooms_inv_deleteRoomFiles:
  assumes inv: "rooms_inv m"
  shows "rooms_inv (snd (deleteRoomFiles removed r m))"
proof (cases "map_of (rm_rooms m) r")
  case (Some room)
  have "room_ok (rm_connectionToRoom m) r (room\<lparr>ri_files := []\<rparr>)" using rooms_invD [OF inv Some] by (simp add: room_ok_def)
  moreover have "map_of (rm_fileToRoom (snd (deleteRoomFiles removed r m))) f = Some r' \<Longrightarrow> r' \<noteq> r \<and> map_of (rm_fileToRoom m) f = Some r'" for f r'
  proof -
    assume "map_of (rm_fileToRoom (snd (deleteRoomFiles removed r m))) f = Some r'"
    then have f: "map_of (rm_fileToRoom m) f = Some r'" "f \<notin> fst ` set (ri_files room)"
      by (simp_all add: deleteRoomFiles_def Some map_of_foldl_merase split: if_splits)
    from rooms_inv_file [OF inv f(1)] obtain room' where "map_of (rm_rooms m) r' = Some room'" "map_of (ri_files room') f \<noteq> None" .
    with f Some show ?thesis by (auto simp: map_of_eq_None_iff)
  qed
  ultimately show ?thesis using inv unfolding rooms_inv_def by (simp add: deleteRoomFiles_def Some cpp_lib)
qed (simp add: deleteRoomFiles_def inv)

lemmas rooms_inv_operations =
  rooms_inv_addMessage rooms_inv_setUserTyping rooms_inv_addFile rooms_inv_leaveRoom rooms_inv_joinRoom

end
