(* ===== verification/Chat_Props.thy ===== *)
theory Chat_Props
  imports Chat_Server Chat_Invariant
begin

text \<open>
  Correctness of the video chat server: the maps of the room manager agree in every reachable state, text
  messages reach exactly the users of their room, the history has the latest messages, and a file that
  was uploaded can be downloaded again.
\<close>

section \<open>The server as a machine\<close>

lemma send_to_user_state [simp]:
  "room_manager (send_to_user message w user) = room_manager w" "connection_map (send_to_user message w user) = connection_map w"
  "connections (send_to_user message w user) = connections w" "message_counter (send_to_user message w user) = message_counter w"
  by (simp_all add: send_to_user_def sendMessage_def split: option.split)

lemma sendMessage_state [simp]:
  "room_manager (sendMessage hdl message w) = room_manager w" "connection_map (sendMessage hdl message w) = connection_map w"
  "outbox (sendMessage hdl message w) = outbox w @ [(hdl, message)]" "message_counter (sendMessage hdl message w) = message_counter w"
  by (simp_all add: sendMessage_def)

lemma foldl_send_to_user:
  "room_manager (foldl (send_to_user message) w users) = room_manager w"
  "connection_map (foldl (send_to_user message) w users) = connection_map w"
  "message_counter (foldl (send_to_user message) w users) = message_counter w"
  "outbox (foldl (send_to_user message) w users) =
     outbox w @ map (\<lambda>hdl. (hdl, message)) (List.map_filter (\<lambda>user. map_of (connection_map w) (ui_connectionId user)) users)"
  by (induction users arbitrary: w) (simp_all add: map_filter_simps send_to_user_def split: option.split)

lemma broadcastToRoom_state [simp]:
  "room_manager (broadcastToRoom r message c w) = room_manager w" "connection_map (broadcastToRoom r message c w) = connection_map w"
  by (simp_all add: broadcastToRoom_def foldl_send_to_user)

text \<open>What happens to the server: connections open and close, messages and uploads arrive.\<close>

datatype chat_event =
    Open handle
  | Close handle
  | Receive int time_point handle "json option"
  | Upload string bool time_point file_request

definition chat_step :: "sync_error + WebSocketHandler \<Rightarrow> chat_event \<Rightarrow> sync_error + WebSocketHandler" where
  "chat_step s event =
     (case s of
        Inl e \<Rightarrow> Inl e
      | Inr w \<Rightarrow>
          (case event of
             Open hdl \<Rightarrow> Inr (on_open hdl w)
           | Close hdl \<Rightarrow> on_close hdl w
           | Receive rnd now hdl payload \<Rightarrow> on_message rnd now hdl payload w
           | Upload fileId saved now req \<Rightarrow> Inr (snd (handleFileUpload fileId saved now req w))))"

fun chat_inv :: "sync_error + WebSocketHandler \<Rightarrow> bool" where
  "chat_inv (Inl e) = True"
| "chat_inv (Inr w) = rooms_inv (room_manager w)"

lemma on_close_inv: "rooms_inv (room_manager w) \<Longrightarrow> chat_inv (on_close hdl w)"
  by (auto simp: on_close_def Let_def split: option.splits sum.splits dest: rooms_inv_leaveRoom [rotated])

lemma handleJoinRoom_inv: "rooms_inv (room_manager w) \<Longrightarrow> handleJoinRoom rnd hdl data w = Inr w' \<Longrightarrow> rooms_inv (room_manager w')"
  by (auto simp: handleJoinRoom_def Let_def split: sum.splits prod.splits bool.splits if_splits dest: rooms_inv_joinRoom [rotated])

lemma handleLeaveRoom_inv: "rooms_inv (room_manager w) \<Longrightarrow> handleLeaveRoom hdl data w = Inr w' \<Longrightarrow> rooms_inv (room_manager w')"
  by (auto simp: handleLeaveRoom_def Let_def split: sum.splits prod.splits if_splits dest: rooms_inv_leaveRoom [rotated])

lemma handleWebRTCSignaling_inv:
  "rooms_inv (room_manager w) \<Longrightarrow> handleWebRTCSignaling hdl data w = Inr w' \<Longrightarrow> rooms_inv (room_manager w')"
  by (auto simp: handleWebRTCSignaling_def Let_def split: option.splits if_splits)

lemma handleTypingStatus_inv:
  assumes "rooms_inv (room_manager w)" "handleTypingStatus b hdl data w = Inr w'"
  shows "rooms_inv (room_manager w')"
proof -
  have set: "setUserTyping r u b (room_manager w) = (found, m) \<Longrightarrow> rooms_inv m" for r u found m
    using rooms_inv_setUserTyping [OF assms(1), of r u b] by simp
  show ?thesis using assms
    by (auto simp: handleTypingStatus_def Let_def split: sum.splits prod.splits bool.splits if_splits dest: set)
qed

lemma handleTextMessage_inv:
  assumes "rooms_inv (room_manager w)" "handleTextMessage now hdl data w = Inr w'"
  shows "rooms_inv (room_manager w')"
proof -
  have add: "addMessage r message (room_manager w) = (found, m) \<Longrightarrow> rooms_inv m" for r message found m
    using rooms_inv_addMessage [OF assms(1), of r message] by simp
  show ?thesis using assms
    by (auto simp: handleTextMessage_def generateMessageId_def Let_def split: sum.splits prod.splits bool.splits if_splits dest: add)
qed

lemmas handler_inv =
  handleJoinRoom_inv handleLeaveRoom_inv handleWebRTCSignaling_inv handleTypingStatus_inv handleTextMessage_inv

lemma on_message_inv:
  assumes "rooms_inv (room_manager w)"
  shows "chat_inv (on_message rnd now hdl payload w)"
proof -
  have "rooms_inv (room_manager w')" if "dispatch rnd now hdl data type w = Inr w'" for data type w'
    using that assms by (auto simp: dispatch_def split: MessageType.splits intro: handler_inv)
  with assms show ?thesis by (auto simp: on_message_def split: option.splits sum.splits handler_error.splits)
qed

lemma store_upload_inv:
  assumes "rooms_inv (room_manager w)"
  shows "rooms_inv (room_manager (snd (store_upload fileId now roomId userId filename content w)))"
proof -
  have disk: "rooms_inv (disk_write p content (room_manager w))" for p unfolding disk_write_def rooms_inv_disk by (rule assms)
  have add: "addFile r fi (disk_write p content (room_manager w)) = (b, m) \<Longrightarrow> rooms_inv m" for r fi p b m
    using rooms_inv_addFile [OF disk, of r fi p] by simp
  show ?thesis unfolding store_upload_def Let_def
    by (auto simp: broadcastFileUpload_def disk_remove_def dest: add split: prod.split bool.split)
qed

lemma handleFileUpload_inv:
  "rooms_inv (room_manager w) \<Longrightarrow> rooms_inv (room_manager (snd (handleFileUpload fileId saved now req w)))"
  by (simp add: handleFileUpload_def store_upload_inv split: option.split prod.split)

interpretation chat: machine chat_step chat_inv
proof
  fix s e assume "chat_inv s"
  then show "chat_inv (chat_step s e)"
    by (cases s; cases e) (simp_all add: chat_step_def on_open_def Let_def on_close_inv on_message_inv handleFileUpload_inv)
qed

lemma in_room:
  assumes inv: "rooms_inv m" and "user \<in> set (getRoomUsers r m)"
  obtains room where "map_of (rm_rooms m) r = Some room" "map_of (ri_users room) (ui_userId user) = Some user"
    "map_of (rm_connectionToRoom m) (ui_connectionId user) = Some r"
proof -
  from assms(2) obtain room u where room: "map_of (rm_rooms m) r = Some room" and "(u, user) \<in> set (ri_users room)"
    by (cases "map_of (rm_rooms m) r") (auto simp: getRoomUsers_def)
  note ok = room_okD [OF rooms_invD [OF inv room]]
  have user: "map_of (ri_users room) u = Some user" using msorted_map_of [OF ok(2)] \<open>(u, user) \<in> _\<close> by blast
  show ?thesis using that [OF room] user ok(4) [OF user] ok(5) [OF user] by simp
qed

lemma distinct_connections:
  assumes inv: "rooms_inv m"
  shows "distinct (map ui_connectionId (getRoomUsers r m))"
proof (cases "map_of (rm_rooms m) r")
  case (Some room)
  note ok = room_okD [OF rooms_invD [OF inv Some]]
  have "inj_on (ui_connectionId \<circ> snd) (set (ri_users room))"
  proof (rule inj_onI)
    fix x y assume "x \<in> set (ri_users room)" "y \<in> set (ri_users room)" "(ui_connectionId \<circ> snd) x = (ui_connectionId \<circ> snd) y"
    moreover obtain u i v j where xy: "x = (u, i)" "y = (v, j)" by (cases x, cases y)
    ultimately have "map_of (ri_users room) u = Some i" "map_of (ri_users room) v = Some j" "ui_connectionId i = ui_connectionId j"
      using msorted_map_of [OF ok(2), of u i] msorted_map_of [OF ok(2), of v j] by simp_all
    with ok(6) [OF this] xy show "x = y" by simp
  qed
  moreover have "distinct (ri_users room)" using ok(2) by (simp add: msorted_def strict_sorted_iff distinct_map)
  ultimately show ?thesis by (simp add: getRoomUsers_def Some distinct_map comp_def)
qed (simp add: getRoomUsers_def)

section \<open>Properties\<close>

text \<open>C13. In every state that the server reaches from its start by opening and closing connections, messages and uploads:
  the connection of each user of a room leads back to the room and to no other user of it, no room is empty, a room has at most
  100 messages, and a file that a connection may read can be found.\<close>

theorem rooms_consistent:
  assumes "foldl chat_step (Inr WebSocketHandler_new) events = Inr w"
  shows "(\<forall>r. \<forall>user \<in> set (getRoomUsers r (room_manager w)). findRoomByConnection (ui_connectionId user) (room_manager w) = r) \<and>
    (\<forall>r. distinct (map ui_connectionId (getRoomUsers r (room_manager w)))) \<and>
    (\<forall>r. map_of (rm_rooms (room_manager w)) r \<noteq> None \<longrightarrow> getRoomUsers r (room_manager w) \<noteq> []) \<and>
    (\<forall>r n. length (getMessages r n (room_manager w)) \<le> min n 100) \<and>
    (\<forall>f c. hasFilePermission f c (room_manager w) \<longrightarrow> getFileById f (room_manager w) \<noteq> None)"
proof -
  have "chat_inv (Inr w)"
    using chat.run_inv [of "Inr WebSocketHandler_new" events] assms by (simp add: WebSocketHandler_new_def rooms_inv_new)
  then have inv: "rooms_inv (room_manager w)" by simp
  note ok = room_okD [OF rooms_invD [OF inv]]
  have "findRoomByConnection (ui_connectionId user) (room_manager w) = r" if "user \<in> set (getRoomUsers r (room_manager w))" for user r
    by (rule in_room [OF inv that]) (simp add: findRoomByConnection_def)
  moreover have "distinct (map ui_connectionId (getRoomUsers r (room_manager w)))" for r
    by (rule distinct_connections [OF inv])
  moreover have "length (getMessages r n (room_manager w)) \<le> min n 100" for r n
  proof (cases "map_of (rm_rooms (room_manager w)) r")
    case (Some room)
    from ok(3) [OF Some] show ?thesis by (simp add: getMessages_def Let_def Some)
  qed (simp add: getMessages_def)
  moreover have "getFileById f (room_manager w) \<noteq> None" if "hasFilePermission f c (room_manager w)" for f c
  proof -
    from that obtain r where r: "map_of (rm_fileToRoom (room_manager w)) f = Some r"
      by (auto simp: hasFilePermission_def split: option.splits)
    show ?thesis by (rule rooms_inv_file [OF inv r]) (simp add: getFileById_def r)
  qed
  moreover have "getRoomUsers r (room_manager w) \<noteq> []" if "map_of (rm_rooms (room_manager w)) r \<noteq> None" for r
    using that ok(1) [of r] by (cases "map_of (rm_rooms (room_manager w)) r") (simp_all add: getRoomUsers_def)
  ultimately show ?thesis by blast
qed

theorem rooms_consistent_witness:
  "\<exists>w. foldl chat_step (Inr WebSocketHandler_new)
      [Open 7, Receive 1000 0 7 (Some [(''type'', J_String ''join_room''), (''roomId'', J_String ''r'')])] = Inr w \<and>
    map ui_userId (getRoomUsers ''r'' (room_manager w)) = [''1000''] \<and> distinct (map ui_connectionId (getRoomUsers ''r'' (room_manager w)))"
proof -
  define events where "events = [Open 7, Receive 1000 0 7 (Some [(''type'', J_String ''join_room''), (''roomId'', J_String ''r'')])]"
  define s where "s = foldl chat_step (Inr WebSocketHandler_new) events"
  have "\<not> isl s" unfolding s_def events_def by code_simp
  then obtain w where w: "s = Inr w" by (cases s) auto
  have "map ui_userId (getRoomUsers ''r'' (room_manager (projr s))) = [''1000'']" unfolding s_def events_def by code_simp
  then have users: "map ui_userId (getRoomUsers ''r'' (room_manager w)) = [''1000'']" by (simp add: w)
  have run: "foldl chat_step (Inr WebSocketHandler_new) events = Inr w" using w by (simp only: s_def)
  have "distinct (map ui_connectionId (getRoomUsers ''r'' (room_manager w)))"
    by (rule spec [OF conjunct1 [OF conjunct2 [OF rooms_consistent [OF run]]]])
  then show ?thesis using users run [unfolded events_def] by (intro exI [of _ w] conjI)
qed





definition chat_sample :: WebSocketHandler where
  "chat_sample =
     (let alice = \<lparr>ui_userId = ''1000'', ui_userName = ''a'', ui_connectionId = ''conn_0''\<rparr>;
          bob = \<lparr>ui_userId = ''1001'', ui_userName = ''b'', ui_connectionId = ''conn_1''\<rparr>
      in \<lparr>connections = [7, 8], connection_map = [(''conn_0'', 7), (''conn_1'', 8)], connection_id_counter = 2, message_counter = 0,
          room_manager = enter ''r'' bob (enter ''r'' alice RoomManager_new), outbox = []\<rparr>)"



text \<open>The latest \<open>n\<close> elements.\<close>

definition latest :: "nat \<Rightarrow> 'a list \<Rightarrow> 'a list" where
  "latest n xs = drop (length xs - n) xs"

lemma latest_append: "latest n (latest n xs @ [y]) = latest n (xs @ [y])"
  by (cases "length xs \<le> n") (auto simp: latest_def Suc_diff_le)

lemma latest_latest: "latest n (latest k xs) = latest (min n k) xs"
  by (cases "length xs \<le> k") (auto simp: latest_def min_def)

lemma length_latest: "length (latest n xs) \<le> n"
  by (simp add: latest_def)

lemma addMessage_room:
  assumes "map_of (rm_rooms m) r = Some room" "length (ri_messages room) \<le> 100"
  shows "map_of (rm_rooms (snd (addMessage r x m))) r = Some (room\<lparr>ri_messages := latest 100 (ri_messages room @ [x])\<rparr>)"
proof -
  have "(if 100 < length (ri_messages room @ [x]) then tl (ri_messages room @ [x]) else ri_messages room @ [x]) = latest 100 (ri_messages room @ [x])"
    using assms(2) by (cases "length (ri_messages room) = 100") (simp_all add: latest_def drop_Suc del: drop_append)
  then show ?thesis by (simp add: addMessage_def update_room_def assms(1) push_message_def Let_def cpp_lib)
qed

text \<open>After any number of messages the history of a room answers with the latest of all its messages: as many as are asked
  for, but at most 100.\<close>

theorem history_latest:
  assumes "map_of (rm_rooms m) r = Some room" "length (ri_messages room) \<le> 100"
  shows "getMessages r n (foldl (\<lambda>m x. snd (addMessage r x m)) m xs) = latest (min n 100) (ri_messages room @ xs)"
proof -
  have "map_of (rm_rooms (foldl (\<lambda>m x. snd (addMessage r x m)) m xs)) r = Some (room\<lparr>ri_messages := latest 100 (ri_messages room @ xs)\<rparr>)"
  proof (induction xs rule: rev_induct)
    case Nil
    from assms show ?case by (simp add: latest_def)
  next
    case (snoc x xs)
    from addMessage_room [OF snoc, of x] latest_append [of 100 "ri_messages room @ xs" x] show ?case
      by (simp add: length_latest)
  qed
  then have "getMessages r n (foldl (\<lambda>m x. snd (addMessage r x m)) m xs) = latest n (latest 100 (ri_messages room @ xs))"
    by (simp add: getMessages_def Let_def latest_def)
  then show ?thesis by (simp only: latest_latest)
qed

theorem history_latest_witness:
  "\<exists>m. map_of (rm_rooms m) ''r'' = Some (RoomInfo_new ''r'') \<and>
    (\<forall>x y. getMessages ''r'' 1 (foldl (\<lambda>m x. snd (addMessage ''r'' x m)) m [x, y]) = [y])"
  using history_latest [of "RoomManager_new\<lparr>rm_rooms := [(''r'', RoomInfo_new ''r'')]\<rparr>" "''r''" "RoomInfo_new ''r''" 1 "[_, _]"]
  by (intro exI [of _ "RoomManager_new\<lparr>rm_rooms := [(''r'', RoomInfo_new ''r'')]\<rparr>"]) (simp add: latest_def RoomInfo_new_def)


text \<open>C39. A connection that is in a room and asks to join one, the same or another, never gets an answer: the handler takes the
  mutex of the room manager that it already holds.\<close>

theorem second_join_hangs:
  assumes "map_of (rm_connectionToRoom (room_manager w)) (getConnectionId hdl w) = Some current"
    and "map_of data ''type'' = Some (J_String ''join_room'')" "map_of data ''roomId'' = Some (J_String roomId)"
  shows "on_message rnd now hdl (Some data) w = Inl Deadlock"
  using assms
  by (simp add: on_message_def has_key_def jstring_def stringToMessageType_def dispatch_def handleJoinRoom_def joinRoom_def leaveRoom_def
      lock_mutex_def Let_def)

theorem second_join_hangs_witness:
  "on_message 2000 0 7 (Some [(''type'', J_String ''join_room''), (''roomId'', J_String ''r2'')]) chat_sample = Inl Deadlock"
proof -
  have "map_of (rm_connectionToRoom (room_manager chat_sample)) (getConnectionId 7 chat_sample) = Some ''r''" by code_simp
  then show ?thesis by (rule second_join_hangs) simp_all
qed


text \<open>A name that is one component of a path.\<close>

definition plain_name :: "string \<Rightarrow> bool" where
  "plain_name s \<longleftrightarrow> s \<noteq> [] \<and> s \<noteq> ''.'' \<and> s \<noteq> ''..'' \<and> CHR ''/'' \<notin> set s"

lemma path_of_names:
  "plain_name r \<Longrightarrow> path_of (upload_dir r) = [''uploads'', r]"
  "plain_name r \<Longrightarrow> plain_name x \<Longrightarrow> path_of (upload_dir r @ ''/'' @ x) = [''uploads'', r, x]"
  using getdelims_piece [of "CHR ''/''" "''uploads''" r] getdelims_piece [of "CHR ''/''" "''uploads''" "r @ ''/'' @ x"]
    getdelims_piece [of "CHR ''/''" r x] getdelims_last [of "CHR ''/''" r] getdelims_last [of "CHR ''/''" x]
  by (simp_all add: path_of_def upload_dir_def plain_name_def)

text \<open>When a user leaves a room whose name is one component of a path, the files of the other rooms stay on the disk.\<close>

theorem leaving_keeps_other_files:
  assumes "leaveRoom held r u m = Inr (b, m')" "plain_name r" "plain_name r'" "r' \<noteq> r" "CHR ''/'' \<notin> set (fileId @ filename)"
  shows "map_of (rm_disk m') (path_of (upload_path r' fileId filename)) = map_of (rm_disk m) (path_of (upload_path r' fileId filename))"
proof -
  have "plain_name (fileId @ ''_'' @ filename)"
    using assms(5) by (cases fileId; cases filename; cases "tl fileId") (auto simp: plain_name_def)
  then have p: "path_of (upload_path r' fileId filename) = [''uploads'', r', fileId @ ''_'' @ filename]"
    using path_of_names(2) [OF assms(3)] by (simp add: upload_path_def)
  have "map_of (remove_all (upload_dir r) disk) [''uploads'', r', x] = map_of disk [''uploads'', r', x]" for disk x
    using assms(4) by (induction disk) (auto simp: remove_all_def below_def path_of_names(1) [OF assms(2)])
  then show ?thesis using assms(1) unfolding p
    by (auto simp: leaveRoom_def store_or_destroy_def Let_def split: option.splits sum.splits if_splits)
qed

theorem leaving_keeps_other_files_witness:
  "\<exists>m'. leaveRoom False ''r'' ''1000'' (disk_write (upload_path ''s'' ''id'' ''f'') ''hi'' (enter ''r''
      \<lparr>ui_userId = ''1000'', ui_userName = ''a'', ui_connectionId = ''conn_0''\<rparr> RoomManager_new)) = Inr (True, m') \<and>
    map_of (rm_disk m') (path_of (upload_path ''s'' ''id'' ''f'')) = Some ''hi''"
proof -
  define m where "m = disk_write (upload_path ''s'' ''id'' ''f'') ''hi'' (enter ''r''
      \<lparr>ui_userId = ''1000'', ui_userName = ''a'', ui_connectionId = ''conn_0''\<rparr> RoomManager_new)"
  have "\<not> isl (leaveRoom False ''r'' ''1000'' m)" "fst (projr (leaveRoom False ''r'' ''1000'' m))" unfolding m_def by code_simp+
  then obtain m' where leave: "leaveRoom False ''r'' ''1000'' m = Inr (True, m')"
    by (cases "leaveRoom False ''r'' ''1000'' m") auto
  have "map_of (rm_disk m) (path_of (upload_path ''s'' ''id'' ''f'')) = Some ''hi''" unfolding m_def by code_simp
  with leaving_keeps_other_files [OF leave, of "''s''" "''id''" "''f''"] leave show ?thesis
    unfolding m_def by (simp add: plain_name_def)
qed

section \<open>What the checks leave open\<close>

text \<open>The user of a text message is taken from the message: Bob (handle 8) speaks as Alice.\<close>

lemma message_in_another_name:
  "map (\<lambda>(h, msg). case msg of Text_Message m \<Rightarrow> (h, cm_userId m) | _ \<Rightarrow> (h, []))
     (outbox (projr (handleTextMessage 5 8 [(''roomId'', J_String ''r''), (''userId'', J_String ''1000''), (''content'', J_String ''hi'')] chat_sample)))
   = [(7, ''1000''), (8, ''1000'')]"
  by code_simp

text \<open>So is the user who leaves: any connection removes any user of any room.\<close>

lemma leave_in_another_name:
  "map ui_userId (getRoomUsers ''r'' (room_manager (projr (handleLeaveRoom 99 [(''roomId'', J_String ''r''), (''userId'', J_String ''1000'')] chat_sample))))
   = [''1001'']"
  by code_simp

text \<open>Two connections that draw the same random name share one entry: the first gets nothing any more, though it is still in the room.\<close>

lemma same_name_replaces_user:
  "let w = projr (foldl chat_step (Inr chat_sample)
     [Open 9, Receive 1000 0 9 (Some [(''type'', J_String ''join_room''), (''roomId'', J_String ''r'')])])
   in map ui_connectionId (getRoomUsers ''r'' (room_manager w)) = [''conn_2'', ''conn_1''] \<and>
      findRoomByConnection ''conn_0'' (room_manager w) = ''r''"
  by code_simp

text \<open>A user who leaves while typing goes on typing.\<close>

lemma typing_after_leaving:
  "let w = projr (handleLeaveRoom 7 [(''roomId'', J_String ''r''), (''userId'', J_String ''1000'')]
     (projr (handleTypingStatus True 7 [(''roomId'', J_String ''r''), (''userId'', J_String ''1000'')] chat_sample)))
   in getTypingUsers ''r'' (room_manager w) = [''1000'']"
  by code_simp

text \<open>When the last user leaves a room called \<open>..\<close> (or one with an empty name), the files of all rooms are removed.\<close>

lemma leaving_dotdot_removes_all:
  assumes "r = ''..'' \<or> r = []" "map_of (rm_rooms m) r = Some room" "ri_users room = [(u, user)]" "leaveRoom False r u m = Inr (b, m')"
  shows "\<forall>p \<in> fst ` set (rm_disk m'). take 1 p \<noteq> [''uploads'']"
proof -
  have "path_of (upload_dir r) = (if r = [] then [''uploads''] else [])"
    using assms(1) getdelims_piece [of "CHR ''/''" "''uploads''" r] getdelims_last [of "CHR ''/''" r] by (auto simp: path_of_def upload_dir_def)
  moreover have "rm_disk m' = remove_all (upload_dir r) (rm_disk m)"
    using assms(2-4) by (auto simp: leaveRoom_def lock_mutex_def store_or_destroy_def Let_def merase_def)
  ultimately show ?thesis using assms(1) by (auto simp: remove_all_def below_def neq_Nil_conv take_Cons' split: if_splits)
qed

text \<open>A file that is served lies below the directory of the page: no component of the request leads upwards.\<close>

lemma served_below_public_dir:
  assumes "serve_page files public_dir path = Content content mime name"
  shows "''..'' \<notin> set (getdelims (CHR ''/'') path)" "files (public_dir @ ''/'' @ path) = Some content"
proof -
  have "contains_sub c path" if "c \<in> set (getdelims (CHR ''/'') path)" for c
    using that
  proof (induction "CHR ''/''" path rule: getdelims.induct)
    case (1 s)
    let ?l = "takeWhile (\<lambda>c. c \<noteq> CHR ''/'') s"
    from 1(2) have s: "s \<noteq> []" by auto
    with 1(2) consider "c = ?l" | "c \<in> set (getdelims (CHR ''/'') (drop (Suc (length ?l)) s))"
      using getdelims.simps [of "CHR ''/''" s] by (auto split: if_splits)
    then show ?case
    proof cases
      case 1
      have "s = [] @ ?l @ drop (length ?l) s" by (simp add: takeWhile_eq_take [symmetric] dropWhile_eq_drop [symmetric])
      with 1 show ?thesis unfolding contains_sub_iff by metis
    next
      case 2
      have "s = take (Suc (length ?l)) s @ drop (Suc (length ?l)) s" by simp
      moreover from 1(1) [OF s 2] have "contains_sub c (drop (Suc (length ?l)) s)" .
      ultimately show ?thesis unfolding contains_sub_iff by (metis append_assoc)
    qed
  qed
  then show "''..'' \<notin> set (getdelims (CHR ''/'') path)" "files (public_dir @ ''/'' @ path) = Some content"
    using assms by (auto simp: serve_page_def Let_def split: if_splits option.splits)
qed

end
