(* ===== verification/Message_Queue.thy ===== *)
theory Message_Queue
  imports CppString "HOL-Library.Product_Lexorder"
begin

text \<open>
  The message queue of \<open>zsxq-cpp-ai/StdPubcpp\<close> (\<open>message.h\<close>, \<open>message_queue.h\<close>, \<open>publisher.h\<close>, and the filtering and counting
  subscribers of \<open>sample_subscribers.h\<close>): publishers push messages into a priority queue, worker threads take them out and
  hand them to the subscribers of their topic.

  \<^item> A subscriber is its identifier; \<open>mq_delivered\<close> has the calls of \<open>onMessage\<close> in order. Exceptions of \<open>onMessage\<close>
    are caught and change nothing. The clock and random numbers are arguments.
  \<^item> Workers, publishers and the thread that calls \<open>stop\<close> are interleaved: \<open>mq_act\<close> is one step of one thread,
    from one access to shared data to the next, or \<open>None\<close> when the thread is blocked there. \<open>worker\<close> is the position of a worker in
    \<open>workerFunction\<close>; it holds \<open>queue_mutex_\<close> in \<open>Test\<close>, \<open>Commit\<close> and \<open>Check\<close>. The operations under
    \<open>subscription_mutex_\<close> are one step each.
  \<^item> \<open>mq_accepted\<close>, \<open>mq_done\<close> and \<open>mq_cleared\<close> record the messages that were published, distributed and cleared; no
    operation reads them.
\<close>

section \<open>Messages\<close>

datatype Priority = LOW | NORMAL | HIGH | URGENT

fun priority_int :: "Priority \<Rightarrow> int" where
  "priority_int LOW = 0"
| "priority_int NORMAL = 1"
| "priority_int HIGH = 2"
| "priority_int URGENT = 3"

instantiation Priority :: linorder
begin

definition less_eq_Priority :: "Priority \<Rightarrow> Priority \<Rightarrow> bool" where
  "less_eq_Priority a b \<longleftrightarrow> priority_int a \<le> priority_int b"

definition less_Priority :: "Priority \<Rightarrow> Priority \<Rightarrow> bool" where
  "less_Priority a b \<longleftrightarrow> priority_int a < priority_int b"

instance
proof
  fix a b :: Priority
  show "a \<le> b \<Longrightarrow> b \<le> a \<Longrightarrow> a = b" by (cases a; cases b) (simp_all add: less_eq_Priority_def)
qed (auto simp: less_eq_Priority_def less_Priority_def)

end

record 'd QMessage =
  qm_id :: string
  qm_topic :: string
  qm_data :: 'd
  qm_timestamp :: time_point
  qm_priority :: Priority

definition QMessage_new :: "time_point \<Rightarrow> string \<Rightarrow> string \<Rightarrow> 'd \<Rightarrow> Priority \<Rightarrow> 'd QMessage" where
  "QMessage_new now i topic d priority = \<lparr>qm_id = i, qm_topic = topic, qm_data = d, qm_timestamp = now, qm_priority = priority\<rparr>"

definition getAgeMs :: "time_point \<Rightarrow> 'd QMessage \<Rightarrow> int" where
  "getAgeMs now m = tdiv (now - qm_timestamp m) 1000000"

definition MessageComparator :: "'d QMessage \<Rightarrow> 'd QMessage \<Rightarrow> bool" where
  "MessageComparator a b =
     (if qm_priority a \<noteq> qm_priority b then qm_priority a < qm_priority b else qm_timestamp a > qm_timestamp b)"

section \<open>Subscriptions\<close>

datatype DistributionStrategy = BROADCAST | ROUND_ROBIN | RANDOM

record TopicSubscription =
  ts_subscribers :: "string list"
  ts_strategy :: DistributionStrategy
  ts_roundRobinIndex :: nat

datatype 'd worker =
    Loop | Acquire | Test | Commit | Asleep | Check | Distribute "'d QMessage" | Count | Ended

datatype stopper = Not_Stopping | Flag_Cleared | Joining

record 'd MessageQueue =
  mq_messages :: "'d QMessage list"
  mq_subscriptions :: "TopicSubscription smap"
  mq_running :: bool
  mq_processed :: "64 word"
  mq_published :: "64 word"
  mq_workers :: "'d worker list"
  mq_lock :: "nat option"
  mq_notifying :: nat
  mq_stopper :: stopper
  mq_delivered :: "(string \<times> 'd QMessage) list"
  mq_accepted :: "'d QMessage list"
  mq_done :: "'d QMessage list"
  mq_cleared :: "'d QMessage list"

definition MessageQueue_new :: "nat \<Rightarrow> 'd MessageQueue" where
  "MessageQueue_new worker_count =
     \<lparr>mq_messages = [], mq_subscriptions = [], mq_running = True, mq_processed = 0, mq_published = 0,
      mq_workers = replicate worker_count Loop, mq_lock = None, mq_notifying = 0, mq_stopper = Not_Stopping,
      mq_delivered = [], mq_accepted = [], mq_done = [], mq_cleared = []\<rparr>"

definition subscribe :: "string \<Rightarrow> string \<Rightarrow> DistributionStrategy \<Rightarrow> 'd MessageQueue \<Rightarrow> 'd MessageQueue" where
  "subscribe topic subscriber strategy q =
     (case map_of (mq_subscriptions q) topic of
        None \<Rightarrow> q\<lparr>mq_subscriptions := mput topic
          \<lparr>ts_subscribers = [subscriber], ts_strategy = strategy, ts_roundRobinIndex = 0\<rparr> (mq_subscriptions q)\<rparr>
      | Some subscription \<Rightarrow>
          (if subscriber \<in> set (ts_subscribers subscription) then q
           else q\<lparr>mq_subscriptions := mput topic
             (subscription\<lparr>ts_subscribers := ts_subscribers subscription @ [subscriber]\<rparr>) (mq_subscriptions q)\<rparr>))"

definition unsubscribe :: "string \<Rightarrow> string \<Rightarrow> 'd MessageQueue \<Rightarrow> 'd MessageQueue" where
  "unsubscribe topic subscriberId q =
     (case map_of (mq_subscriptions q) topic of
        None \<Rightarrow> q
      | Some subscription \<Rightarrow>
          (let subscribers = filter (\<lambda>s. s \<noteq> subscriberId) (ts_subscribers subscription)
           in q\<lparr>mq_subscriptions :=
             (if subscribers = [] then merase topic (mq_subscriptions q)
              else mput topic (subscription\<lparr>ts_subscribers := subscribers\<rparr>) (mq_subscriptions q))\<rparr>))"

definition setDistributionStrategy :: "string \<Rightarrow> DistributionStrategy \<Rightarrow> 'd MessageQueue \<Rightarrow> 'd MessageQueue" where
  "setDistributionStrategy topic strategy q =
     (case map_of (mq_subscriptions q) topic of
        None \<Rightarrow> q
      | Some subscription \<Rightarrow> q\<lparr>mq_subscriptions := mput topic (subscription\<lparr>ts_strategy := strategy\<rparr>) (mq_subscriptions q)\<rparr>)"

definition getSubscriberCount :: "string \<Rightarrow> 'd MessageQueue \<Rightarrow> nat" where
  "getSubscriberCount topic q =
     (case map_of (mq_subscriptions q) topic of Some subscription \<Rightarrow> length (ts_subscribers subscription) | None \<Rightarrow> 0)"

definition deliver :: "'d QMessage \<Rightarrow> 'd MessageQueue \<Rightarrow> string \<Rightarrow> 'd MessageQueue" where
  "deliver message q subscriber = q\<lparr>mq_delivered := mq_delivered q @ [(subscriber, message)]\<rparr>"

text \<open>\<open>rnd\<close> is what the generator returns; the uniform distribution brings it into the range of the subscribers.\<close>

definition distributeMessage :: "nat \<Rightarrow> 'd QMessage \<Rightarrow> 'd MessageQueue \<Rightarrow> 'd MessageQueue" where
  "distributeMessage rnd message q =
     (case map_of (mq_subscriptions q) (qm_topic message) of
        None \<Rightarrow> q
      | Some subscription \<Rightarrow>
          (let subscribers = ts_subscribers subscription; n = length subscribers
           in if subscribers = [] then q
              else case ts_strategy subscription of
                     BROADCAST \<Rightarrow> foldl (deliver message) q subscribers
                   | ROUND_ROBIN \<Rightarrow>
                       (let index = ts_roundRobinIndex subscription mod n;
                            q1 = deliver message q (subscribers ! index)
                        in q1\<lparr>mq_subscriptions := mput (qm_topic message)
                             (subscription\<lparr>ts_roundRobinIndex := (ts_roundRobinIndex subscription + 1) mod n\<rparr>) (mq_subscriptions q1)\<rparr>)
                   | RANDOM \<Rightarrow> deliver message q (subscribers ! (rnd mod n))))"

section \<open>The threads\<close>

definition moved :: "'d MessageQueue \<Rightarrow> nat \<Rightarrow> 'd worker \<Rightarrow> 'd MessageQueue" where
  "moved q i w = q\<lparr>mq_workers := (mq_workers q)[i := w]\<rparr>"

definition unlocked :: "'d MessageQueue \<Rightarrow> 'd MessageQueue" where
  "unlocked q = q\<lparr>mq_lock := None\<rparr>"

text \<open>
  One step of worker \<open>i\<close>. \<open>Test\<close> evaluates the condition of \<open>cv_.wait\<close>; a worker that found it false goes on to \<open>Commit\<close>, where
  it starts to wait and gives up the mutex at once.
\<close>

definition workerFunction :: "nat \<Rightarrow> nat \<Rightarrow> 'd MessageQueue \<Rightarrow> 'd MessageQueue option" where
  "workerFunction rnd i q =
     (case mq_workers q ! i of
        Loop \<Rightarrow> Some (moved q i (if mq_running q then Acquire else Ended))
      | Acquire \<Rightarrow> if mq_lock q = None then Some (moved (q\<lparr>mq_lock := Some i\<rparr>) i Test) else None
      | Test \<Rightarrow> Some (moved q i (if mq_messages q \<noteq> [] \<or> \<not> mq_running q then Check else Commit))
      | Commit \<Rightarrow> Some (moved (unlocked q) i Asleep)
      | Asleep \<Rightarrow> None
      | Check \<Rightarrow>
          Some (if \<not> mq_running q then moved (unlocked q) i Ended
                else case mq_messages q of
                       [] \<Rightarrow> moved (unlocked q) i Loop
                     | message # rest \<Rightarrow> moved (unlocked (q\<lparr>mq_messages := rest\<rparr>)) i (Distribute message))
      | Distribute message \<Rightarrow>
          (let q1 = distributeMessage rnd message q
           in Some (moved (q1\<lparr>mq_done := mq_done q1 @ [message]\<rparr>) i Count))
      | Count \<Rightarrow> Some (moved (q\<lparr>mq_processed := mq_processed q + 1\<rparr>) i Loop)
      | Ended \<Rightarrow> None)"

definition mq_before :: "'d QMessage \<Rightarrow> 'd QMessage \<Rightarrow> bool" where
  "mq_before a b \<longleftrightarrow> MessageComparator b a"

text \<open>\<open>publish\<close> pushes under the mutex and notifies afterwards.\<close>

definition publish :: "'d QMessage \<Rightarrow> 'd MessageQueue \<Rightarrow> 'd MessageQueue option" where
  "publish message q =
     (if mq_lock q \<noteq> None then None
      else Some (q\<lparr>mq_messages := ins_by mq_before message (mq_messages q), mq_published := mq_published q + 1,
             mq_notifying := mq_notifying q + 1, mq_accepted := mq_accepted q @ [message]\<rparr>))"

definition mq_clear :: "'d MessageQueue \<Rightarrow> 'd MessageQueue option" where
  "mq_clear q =
     (if mq_lock q \<noteq> None then None else Some (q\<lparr>mq_messages := [], mq_cleared := mq_cleared q @ mq_messages q\<rparr>))"

definition asleep :: "'d MessageQueue \<Rightarrow> nat \<Rightarrow> bool" where
  "asleep q i \<longleftrightarrow> i < length (mq_workers q) \<and> mq_workers q ! i = Asleep"

text \<open>\<open>notify_one\<close> wakes some waiting worker, if there is one.\<close>

definition notify_one :: "nat option \<Rightarrow> 'd MessageQueue \<Rightarrow> 'd MessageQueue option" where
  "notify_one choice q =
     (if mq_notifying q = 0 then None
      else let q1 = q\<lparr>mq_notifying := mq_notifying q - 1\<rparr>
           in case choice of
                None \<Rightarrow> if Asleep \<in> set (mq_workers q) then None else Some q1
              | Some i \<Rightarrow> if asleep q i then Some (moved q1 i Acquire) else None)"

text \<open>\<open>stop\<close> clears the flag without the mutex, notifies all, and joins the workers.\<close>

definition stop_flag :: "'d MessageQueue \<Rightarrow> 'd MessageQueue option" where
  "stop_flag q = (if mq_stopper q = Not_Stopping then Some (q\<lparr>mq_running := False, mq_stopper := Flag_Cleared\<rparr>) else None)"

definition stop_notify :: "'d MessageQueue \<Rightarrow> 'd MessageQueue option" where
  "stop_notify q =
     (if mq_stopper q = Flag_Cleared
      then Some (q\<lparr>mq_workers := map (\<lambda>w. if w = Asleep then Acquire else w) (mq_workers q), mq_stopper := Joining\<rparr>)
      else None)"

definition joined :: "'d MessageQueue \<Rightarrow> bool" where
  "joined q \<longleftrightarrow> mq_stopper q = Joining \<and> set (mq_workers q) \<subseteq> {Ended}"

datatype 'd action =
    Work nat nat
  | Spurious nat
  | Publish "'d QMessage"
  | Notify "nat option"
  | Subscribe string string DistributionStrategy
  | Unsubscribe string string
  | SetStrategy string DistributionStrategy
  | Clear
  | StopFlag
  | StopNotify

definition mq_act :: "'d action \<Rightarrow> 'd MessageQueue \<Rightarrow> 'd MessageQueue option" where
  "mq_act a q =
     (case a of
        Work rnd i \<Rightarrow> if i < length (mq_workers q) then workerFunction rnd i q else None
      | Spurious i \<Rightarrow> if asleep q i then Some (moved q i Acquire) else None
      | Publish message \<Rightarrow> publish message q
      | Notify choice \<Rightarrow> notify_one choice q
      | Subscribe topic subscriber strategy \<Rightarrow> Some (subscribe topic subscriber strategy q)
      | Unsubscribe topic subscriber \<Rightarrow> Some (unsubscribe topic subscriber q)
      | SetStrategy topic strategy \<Rightarrow> Some (setDistributionStrategy topic strategy q)
      | Clear \<Rightarrow> mq_clear q
      | StopFlag \<Rightarrow> stop_flag q
      | StopNotify \<Rightarrow> stop_notify q)"

fun mq_run :: "'d action list \<Rightarrow> 'd MessageQueue \<Rightarrow> 'd MessageQueue option" where
  "mq_run [] q = Some q"
| "mq_run (a # acts) q = (case mq_act a q of None \<Rightarrow> None | Some q1 \<Rightarrow> mq_run acts q1)"

inductive mq_reachable :: "nat \<Rightarrow> 'd MessageQueue \<Rightarrow> bool" for n where
  start: "mq_reachable n (MessageQueue_new n)"
| step: "mq_reachable n q \<Longrightarrow> mq_act a q = Some q' \<Longrightarrow> mq_reachable n q'"

section \<open>Publishers\<close>

record Publisher =
  publisher_id :: string
  message_counter :: "64 word"

definition Publisher_new :: "string \<Rightarrow> Publisher" where
  "Publisher_new i = \<lparr>publisher_id = i, message_counter = 0\<rparr>"

text \<open>The message that \<open>Publisher::publish\<close> makes before it hands it to the queue.\<close>

definition pub_publish :: "time_point \<Rightarrow> string \<Rightarrow> 'd \<Rightarrow> Priority \<Rightarrow> Publisher \<Rightarrow> 'd QMessage \<times> Publisher" where
  "pub_publish now topic d priority p =
     (QMessage_new now (publisher_id p @ ''_'' @ nat_dec (unat (message_counter p))) topic d priority,
      p\<lparr>message_counter := message_counter p + 1\<rparr>)"

text \<open>\<open>publishBatch\<close>: each message has its own time.\<close>

fun publishBatch :: "string \<Rightarrow> (time_point \<times> 'd) list \<Rightarrow> Priority \<Rightarrow> Publisher \<Rightarrow> 'd QMessage list \<times> Publisher" where
  "publishBatch topic [] priority p = ([], p)"
| "publishBatch topic ((now, d) # rest) priority p =
     (case pub_publish now topic d priority p of
        (message, p1) \<Rightarrow> (case publishBatch topic rest priority p1 of (messages, p2) \<Rightarrow> (message # messages, p2)))"

section \<open>Subscribers\<close>

text \<open>A filtering subscriber hands on what passes the filter; the result says whether it did.\<close>

record FilterSubscriber =
  filtered_count :: "64 word"
  processed_count :: "64 word"

definition filter_onMessage :: "('d QMessage \<Rightarrow> bool) \<Rightarrow> 'd QMessage \<Rightarrow> FilterSubscriber \<Rightarrow> bool \<times> FilterSubscriber" where
  "filter_onMessage flt message s =
     (if flt message then (True, s\<lparr>processed_count := processed_count s + 1\<rparr>)
      else (False, s\<lparr>filtered_count := filtered_count s + 1\<rparr>))"

record StatisticsSubscriber =
  total_messages :: "64 word"
  low_priority_count :: "64 word"
  normal_priority_count :: "64 word"
  high_priority_count :: "64 word"
  urgent_priority_count :: "64 word"
  total_latency_ms :: int
  topic_counts :: "64 word smap"

definition StatisticsSubscriber_new :: StatisticsSubscriber where
  "StatisticsSubscriber_new = \<lparr>total_messages = 0, low_priority_count = 0, normal_priority_count = 0, high_priority_count = 0,
     urgent_priority_count = 0, total_latency_ms = 0, topic_counts = []\<rparr>"

definition stats_onMessage :: "time_point \<Rightarrow> 'd QMessage \<Rightarrow> StatisticsSubscriber \<Rightarrow> StatisticsSubscriber" where
  "stats_onMessage now message s =
     (let s1 = s\<lparr>total_messages := total_messages s + 1\<rparr>;
          s2 = (case qm_priority message of
                  LOW \<Rightarrow> s1\<lparr>low_priority_count := low_priority_count s1 + 1\<rparr>
                | NORMAL \<Rightarrow> s1\<lparr>normal_priority_count := normal_priority_count s1 + 1\<rparr>
                | HIGH \<Rightarrow> s1\<lparr>high_priority_count := high_priority_count s1 + 1\<rparr>
                | URGENT \<Rightarrow> s1\<lparr>urgent_priority_count := urgent_priority_count s1 + 1\<rparr>);
          old = (case map_of (topic_counts s2) (qm_topic message) of Some c \<Rightarrow> c | None \<Rightarrow> 0)
      in s2\<lparr>total_latency_ms := total_latency_ms s2 + getAgeMs now message,
            topic_counts := mput (qm_topic message) (old + 1) (topic_counts s2)\<rparr>)"

end
