(* ===== verification/Message_Queue_Props.thy ===== *)
theory Message_Queue_Props
  imports Message_Queue
begin

text \<open>
  Correctness of the message queue under every interleaving of its threads: messages are neither lost nor doubled and leave in
  the order of their priority, a published message never waits while all workers sleep, and messages are shared out as
  the strategy of their topic says. A call of \<open>stop\<close> may hang.
\<close>

section \<open>The lock and the sleepers\<close>

definition holds_lock :: "'d worker \<Rightarrow> bool" where
  "holds_lock w \<longleftrightarrow> w \<in> {Test, Commit, Check}"

definition awake :: "'d worker \<Rightarrow> bool" where
  "awake w \<longleftrightarrow> w \<notin> {Commit, Asleep, Ended}"

definition lock_inv :: "'d MessageQueue \<Rightarrow> bool" where
  "lock_inv q \<longleftrightarrow> (\<forall>i. mq_lock q = Some i \<longleftrightarrow> i < length (mq_workers q) \<and> holds_lock (mq_workers q ! i)) \<and>
     (\<forall>i < length (mq_workers q). mq_workers q ! i = Commit \<longrightarrow> mq_messages q = [])"

definition wake_inv :: "'d MessageQueue \<Rightarrow> bool" where
  "wake_inv q \<longleftrightarrow> (mq_running q \<longrightarrow> (\<forall>i < length (mq_workers q). mq_workers q ! i \<noteq> Ended)) \<and>
     (mq_running q \<longrightarrow> mq_messages q \<noteq> [] \<longrightarrow> mq_workers q \<noteq> [] \<longrightarrow>
        0 < mq_notifying q \<or> (\<exists>i < length (mq_workers q). awake (mq_workers q ! i)))"

text \<open>Subscriptions and deliveries do not touch the rest of the state.\<close>

lemma foldl_deliver:
  "foldl (deliver m) q subs = q\<lparr>mq_delivered := mq_delivered q @ map (\<lambda>s. (s, m)) subs\<rparr>"
  by (induction subs arbitrary: q) (simp_all add: deliver_def)

lemma distributeMessage_frame:
  "distributeMessage rnd m q = q\<lparr>mq_subscriptions := mq_subscriptions (distributeMessage rnd m q), mq_delivered := mq_delivered (distributeMessage rnd m q)\<rparr>"
  by (simp add: distributeMessage_def Let_def foldl_deliver deliver_def split: option.split DistributionStrategy.split)

lemma subscriptions_frame:
  "subscribe t s st q = q\<lparr>mq_subscriptions := mq_subscriptions (subscribe t s st q)\<rparr>"
  "unsubscribe t s q = q\<lparr>mq_subscriptions := mq_subscriptions (unsubscribe t s q)\<rparr>"
  "setDistributionStrategy t st q = q\<lparr>mq_subscriptions := mq_subscriptions (setDistributionStrategy t st q)\<rparr>"
  by (simp_all add: subscribe_def unsubscribe_def setDistributionStrategy_def Let_def split: option.split)

text \<open>What a step does to the shared state, by thread.\<close>

lemma worker_cases:
  assumes "workerFunction rnd i q = Some q'"
  obtains (begin_pass) "mq_workers q ! i = Loop" "q' = moved q i (if mq_running q then Acquire else Ended)"
  | (lock) "mq_workers q ! i = Acquire" "mq_lock q = None" "q' = moved (q\<lparr>mq_lock := Some i\<rparr>) i Test"
  | (test) "mq_workers q ! i = Test" "q' = moved q i (if mq_messages q \<noteq> [] \<or> \<not> mq_running q then Check else Commit)"
  | (sleep) "mq_workers q ! i = Commit" "q' = moved (unlocked q) i Asleep"
  | (leave) "mq_workers q ! i = Check" "\<not> mq_running q" "q' = moved (unlocked q) i Ended"
  | (empty) "mq_workers q ! i = Check" "mq_running q" "mq_messages q = []" "q' = moved (unlocked q) i Loop"
  | (take) m ms where "mq_workers q ! i = Check" "mq_running q" "mq_messages q = m # ms"
      "q' = moved (unlocked (q\<lparr>mq_messages := ms\<rparr>)) i (Distribute m)"
  | (distribute) m subs dels where "mq_workers q ! i = Distribute m"
      "q' = moved (q\<lparr>mq_subscriptions := subs, mq_delivered := dels, mq_done := mq_done q @ [m]\<rparr>) i Count"
  | (finish) "mq_workers q ! i = Count" "q' = moved (q\<lparr>mq_processed := mq_processed q + 1\<rparr>) i Loop"
proof (cases "mq_workers q ! i")
  case Loop
  with assms show ?thesis by (intro begin_pass) (simp_all add: workerFunction_def)
next
  case Acquire
  with assms show ?thesis by (intro lock) (simp_all add: workerFunction_def split: if_splits)
next
  case Test
  with assms show ?thesis by (intro test) (simp_all add: workerFunction_def)
next
  case Commit
  with assms show ?thesis by (intro sleep) (simp_all add: workerFunction_def)
next
  case Check
  show ?thesis
  proof (cases "mq_running q")
    case True
    show ?thesis
    proof (cases "mq_messages q")
      case Nil
      with assms Check True show ?thesis by (intro empty) (simp_all add: workerFunction_def)
    next
      case (Cons m ms)
      with assms Check True show ?thesis by (intro take [of m ms]) (simp_all add: workerFunction_def)
    qed
  next
    case False
    with assms Check show ?thesis by (intro leave) (simp_all add: workerFunction_def)
  qed
next
  case (Distribute m)
  define subs where "subs = mq_subscriptions (distributeMessage rnd m q)"
  define dels where "dels = mq_delivered (distributeMessage rnd m q)"
  have "distributeMessage rnd m q = q\<lparr>mq_subscriptions := subs, mq_delivered := dels\<rparr>"
    unfolding subs_def dels_def by (rule distributeMessage_frame)
  with assms Distribute show ?thesis by (intro distribute [of m dels subs]) (simp_all add: workerFunction_def)
next
  case Count
  with assms show ?thesis by (intro finish) (simp_all add: workerFunction_def)
qed (use assms in \<open>simp_all add: workerFunction_def\<close>)

lemma moved_simps [simp]:
  "mq_workers (moved q i w) = (mq_workers q)[i := w]" "mq_lock (moved q i w) = mq_lock q" "mq_messages (moved q i w) = mq_messages q"
  "mq_running (moved q i w) = mq_running q" "mq_notifying (moved q i w) = mq_notifying q" "mq_stopper (moved q i w) = mq_stopper q"
  "mq_accepted (moved q i w) = mq_accepted q" "mq_done (moved q i w) = mq_done q" "mq_cleared (moved q i w) = mq_cleared q"
  "mq_processed (moved q i w) = mq_processed q" "mq_published (moved q i w) = mq_published q"
  by (simp_all add: moved_def)

lemma unlocked_simps [simp]:
  "mq_workers (unlocked q) = mq_workers q" "mq_lock (unlocked q) = None" "mq_messages (unlocked q) = mq_messages q"
  "mq_running (unlocked q) = mq_running q" "mq_notifying (unlocked q) = mq_notifying q" "mq_stopper (unlocked q) = mq_stopper q"
  "mq_accepted (unlocked q) = mq_accepted q" "mq_done (unlocked q) = mq_done q" "mq_cleared (unlocked q) = mq_cleared q"
  "mq_processed (unlocked q) = mq_processed q" "mq_published (unlocked q) = mq_published q"
  by (simp_all add: unlocked_def)

lemma holds_lock_simps [simp]:
  "holds_lock Test" "holds_lock Commit" "holds_lock Check" "\<not> holds_lock Loop" "\<not> holds_lock Acquire" "\<not> holds_lock Asleep"
  "\<not> holds_lock (Distribute m)" "\<not> holds_lock Count" "\<not> holds_lock Ended"
  by (simp_all add: holds_lock_def)

lemma awake_simps [simp]:
  "awake Test" "awake Check" "awake Loop" "awake Acquire" "awake (Distribute m)" "awake Count"
  "\<not> awake Commit" "\<not> awake Asleep" "\<not> awake Ended"
  by (simp_all add: awake_def)

text \<open>The invariant for a worker in isolation: who moves keeps, takes or gives up the lock.\<close>

lemma lock_invI:
  assumes inv: "lock_inv q" and i: "i < length (mq_workers q)" and ws: "mq_workers q' = (mq_workers q)[i := w]"
    and lock: "mq_lock q' = (if holds_lock w then Some i else if holds_lock (mq_workers q ! i) then None else mq_lock q)"
    and free: "holds_lock w \<Longrightarrow> \<not> holds_lock (mq_workers q ! i) \<Longrightarrow> mq_lock q = None"
    and messages: "mq_messages q = [] \<Longrightarrow> mq_messages q' = []" "w = Commit \<Longrightarrow> mq_messages q' = []"
  shows "lock_inv q'"
proof -
  have holder: "mq_lock q = Some j \<longleftrightarrow> j < length (mq_workers q) \<and> holds_lock (mq_workers q ! j)" for j
    using inv by (simp add: lock_inv_def)
  have "mq_lock q' = Some j \<longleftrightarrow> j < length (mq_workers q') \<and> holds_lock (mq_workers q' ! j)" for j
  proof (cases "holds_lock w \<or> holds_lock (mq_workers q ! i)")
    case True
    then have "mq_lock q = None \<or> mq_lock q = Some i" using free holder [of i] i by blast
    then have "\<not> holds_lock (mq_workers q ! j)" if "j \<noteq> i" "j < length (mq_workers q)" for j using holder [of j] that by auto
    then show ?thesis using True i lock by (auto simp: ws nth_list_update)
  next
    case False
    then show ?thesis using holder i lock by (auto simp: ws nth_list_update)
  qed
  moreover have "mq_messages q' = []" if "j < length (mq_workers q')" "mq_workers q' ! j = Commit" for j
    using that inv messages i by (cases "j = i") (auto simp: ws lock_inv_def)
  ultimately show ?thesis by (simp add: lock_inv_def)
qed

lemma lock_inv_worker:
  assumes inv: "lock_inv q" and i: "i < length (mq_workers q)" and step: "workerFunction rnd i q = Some q'"
  shows "lock_inv q'"
proof -
  have holder: "mq_lock q = Some i \<longleftrightarrow> holds_lock (mq_workers q ! i)"
    using inv i by (simp add: lock_inv_def)
  from step show ?thesis
  proof (cases rule: worker_cases)
    case begin_pass
    show ?thesis by (rule lock_invI [OF inv i, where w = "(if mq_running q then Acquire else Ended)"]) (use begin_pass holder in \<open>auto split: if_splits\<close>)
  next
    case lock
    show ?thesis by (rule lock_invI [OF inv i, where w = "Test"]) (use lock holder in \<open>auto split: if_splits\<close>)
  next
    case test
    show ?thesis by (rule lock_invI [OF inv i, where w = "(if mq_messages q \<noteq> [] \<or> \<not> mq_running q then Check else Commit)"]) (use test holder in \<open>auto split: if_splits\<close>)
  next
    case sleep
    show ?thesis by (rule lock_invI [OF inv i, where w = "Asleep"]) (use sleep holder in \<open>auto split: if_splits\<close>)
  next
    case leave
    show ?thesis by (rule lock_invI [OF inv i, where w = "Ended"]) (use leave holder in \<open>auto split: if_splits\<close>)
  next
    case empty
    show ?thesis by (rule lock_invI [OF inv i, where w = "Loop"]) (use empty holder in \<open>auto split: if_splits\<close>)
  next
    case (take m ms)
    show ?thesis by (rule lock_invI [OF inv i, where w = "Distribute m"]) (use take holder in \<open>auto split: if_splits\<close>)
  next
    case (distribute m subs dels)
    show ?thesis by (rule lock_invI [OF inv i, where w = "Count"]) (use distribute holder in \<open>auto split: if_splits\<close>)
  next
    case finish
    show ?thesis by (rule lock_invI [OF inv i, where w = "Loop"]) (use finish holder in \<open>auto split: if_splits\<close>)
  qed
qed

lemma wake_inv_worker:
  assumes inv: "wake_inv q" "lock_inv q" and i: "i < length (mq_workers q)" and step: "workerFunction rnd i q = Some q'"
  shows "wake_inv q'"
proof -
  have commit: "mq_messages q = []" if "mq_workers q ! i = Commit" using inv(2) i that by (simp add: lock_inv_def)
  define w where "w = mq_workers q' ! i"
  have ws: "mq_workers q' = (mq_workers q)[i := w]" and run: "mq_running q' = mq_running q"
    unfolding w_def using step i by (cases rule: worker_cases; simp)+
  have w: "mq_running q \<Longrightarrow> w \<noteq> Ended" "mq_running q \<Longrightarrow> mq_messages q' \<noteq> [] \<Longrightarrow> awake w"
    unfolding w_def using step i commit by (cases rule: worker_cases; simp)+
  have "mq_workers q' ! j \<noteq> Ended" if "mq_running q'" "j < length (mq_workers q')" for j
    using that run ws w(1) inv(1) i by (cases "j = i") (auto simp: wake_inv_def)
  moreover have "\<exists>j < length (mq_workers q'). awake (mq_workers q' ! j)" if "mq_running q'" "mq_messages q' \<noteq> []"
    using w(2) that run i by (intro exI [of _ i]) (simp add: ws)
  ultimately show ?thesis by (simp add: wake_inv_def)
qed

section \<open>Accounting\<close>

fun hand :: "'d worker \<Rightarrow> 'd QMessage list" where
  "hand (Distribute m) = [m]"
| "hand _ = []"

text \<open>The messages that workers have taken and not yet distributed.\<close>

definition in_hand :: "'d MessageQueue \<Rightarrow> 'd QMessage list" where
  "in_hand q = concat (map hand (mq_workers q))"

definition count_inv :: "'d MessageQueue \<Rightarrow> bool" where
  "count_inv q \<longleftrightarrow> mset (mq_accepted q) = mset (mq_messages q) + mset (in_hand q) + mset (mq_done q) + mset (mq_cleared q) \<and>
     mq_published q = of_nat (length (mq_accepted q)) \<and>
     of_nat (length (mq_done q)) = mq_processed q + of_nat (count (mset (mq_workers q)) Count)"

lemma hands_update:
  "i < length ws \<Longrightarrow> mset (concat (map hand (ws[i := w]))) + mset (hand (ws ! i)) = mset (concat (map hand ws)) + mset (hand w)"
  using mset_concat_update [of i "map hand ws" "hand w"] by (simp add: map_update)

lemma count_update:
  assumes "i < length ws"
  shows "count (mset (ws[i := w])) c + (if ws ! i = c then 1 else 0) = count (mset ws) c + (if w = c then 1 else 0)"
proof -
  have "0 < count (mset ws) (ws ! i)" using assms by simp
  then show ?thesis using assms by (auto simp: mset_update)
qed

lemma count_inv_worker:
  assumes inv: "count_inv q" and i: "i < length (mq_workers q)" and step: "workerFunction rnd i q = Some q'"
  shows "count_inv q'"
proof -
  have hands: "mset (concat (map hand ((mq_workers q)[i := w]))) + mset (hand (mq_workers q ! i)) = mset (in_hand q) + mset (hand w)" for w
    unfolding in_hand_def by (rule hands_update [OF i])
  have counts: "count (mset ((mq_workers q)[i := w])) Count + (if mq_workers q ! i = Count then 1 else 0) =
      count (mset (mq_workers q)) Count + (if w = Count then 1 else 0)" for w
    by (rule count_update [OF i])
  from step show ?thesis
  proof (cases rule: worker_cases)
    case (take m ms)
    then show ?thesis using inv hands [of "Distribute m"] counts [of "Distribute m"] by (simp add: count_inv_def in_hand_def)
  next
    case (distribute m subs dels)
    have c: "count (mset ((mq_workers q)[i := Count])) Count = Suc (count (mset (mq_workers q)) Count)"
      using counts [of Count] distribute(1) by simp
    have h: "mset (in_hand q) = add_mset m (mset (concat (map hand ((mq_workers q)[i := Count]))))"
      using hands [of Count] distribute(1) by simp
    show ?thesis using inv unfolding count_inv_def distribute(2) by (simp add: h c in_hand_def [of "moved _ _ _"])
  next
    case finish
    have c: "count (mset (mq_workers q)) Count = Suc (count (mset ((mq_workers q)[i := Loop])) Count)"
      using counts [of Loop] finish(1) by simp
    have h: "mset (concat (map hand ((mq_workers q)[i := Loop]))) = mset (in_hand q)" using hands [of Loop] finish(1) by simp
    show ?thesis using inv unfolding count_inv_def finish(2) by (simp add: h c in_hand_def [of "moved _ _ _"])
  next
    case begin_pass
    then show ?thesis using inv hands [of Acquire] counts [of Acquire] hands [of Ended] counts [of Ended]
      by (simp add: count_inv_def in_hand_def)
  next
    case test
    then show ?thesis using inv hands [of Check] counts [of Check] hands [of Commit] counts [of Commit]
      by (simp add: count_inv_def in_hand_def)
  next
    case lock
    then show ?thesis using inv hands [of Test] counts [of Test] by (simp add: count_inv_def in_hand_def)
  next
    case sleep
    then show ?thesis using inv hands [of Asleep] counts [of Asleep] by (simp add: count_inv_def in_hand_def)
  next
    case leave
    then show ?thesis using inv hands [of Ended] counts [of Ended] by (simp add: count_inv_def in_hand_def)
  next
    case empty
    then show ?thesis using inv hands [of Loop] counts [of Loop] by (simp add: count_inv_def in_hand_def)
  qed
qed

section \<open>The order of the queue\<close>

definition mq_key :: "'d QMessage \<Rightarrow> int \<times> int" where
  "mq_key m = (- priority_int (qm_priority m), qm_timestamp m)"

definition mq_sorted :: "'d QMessage list \<Rightarrow> bool" where
  "mq_sorted ms \<longleftrightarrow> sorted_wrt (\<lambda>a b. mq_key a \<le> mq_key b) ms"

lemma priority_int_inject: "priority_int a = priority_int b \<longleftrightarrow> a = b"
  by (cases a; cases b) simp_all

lemma mq_before_key: "mq_before a b \<longleftrightarrow> mq_key a < mq_key b"
  using priority_int_inject [of "qm_priority a" "qm_priority b"]
  by (auto simp: mq_before_def MessageComparator_def mq_key_def less_Priority_def less_prod_def)

lemma mq_sorted_push: "mq_sorted ms \<Longrightarrow> mq_sorted (ins_by mq_before m ms)"
  unfolding mq_sorted_def by (induction ms) (auto simp: mq_before_key)

interpretation mqpq: priority_queue mset "ins_by mq_before" hd tl mq_sorted mq_key
proof
  fix q :: "'d QMessage list" and e
  show "mset (ins_by mq_before e q) = add_mset e (mset q)" by simp
  show "mq_sorted q \<Longrightarrow> mq_sorted (ins_by mq_before e q)" by (rule mq_sorted_push)
  show "mq_sorted q \<Longrightarrow> mq_sorted (tl q)" by (cases q) (auto simp: mq_sorted_def)
  show "mset q \<noteq> {#} \<Longrightarrow> mset q = add_mset (hd q) (mset (tl q))" by (cases q) auto
  show "mq_sorted q \<Longrightarrow> e \<in># mset q \<Longrightarrow> mq_key (hd q) \<le> mq_key e" by (cases q) (auto simp: mq_sorted_def)
qed

section \<open>Reachable states\<close>

definition mq_inv :: "nat \<Rightarrow> 'd MessageQueue \<Rightarrow> bool" where
  "mq_inv n q \<longleftrightarrow> length (mq_workers q) = n \<and> lock_inv q \<and> wake_inv q \<and> count_inv q \<and> mq_sorted (mq_messages q) \<and>
     (mq_running q \<longleftrightarrow> mq_stopper q = Not_Stopping)"

lemma mq_invD:
  assumes "mq_inv n q"
  shows "length (mq_workers q) = n" "lock_inv q" "wake_inv q" "count_inv q" "mq_sorted (mq_messages q)"
    "mq_running q \<longleftrightarrow> mq_stopper q = Not_Stopping"
  using assms by (simp_all add: mq_inv_def)

lemma mq_invI:
  assumes "length (mq_workers q) = n" "lock_inv q" "wake_inv q" "count_inv q" "mq_sorted (mq_messages q)"
    "mq_running q \<longleftrightarrow> mq_stopper q = Not_Stopping"
  shows "mq_inv n q"
  using assms by (simp add: mq_inv_def)

text \<open>Each part of the invariant reads a few fields only.\<close>

lemma lock_inv_cong:
  assumes "lock_inv q" "mq_workers q' = mq_workers q" "mq_lock q' = mq_lock q" "mq_messages q = [] \<Longrightarrow> mq_messages q' = []"
  shows "lock_inv q'"
  using assms by (simp add: lock_inv_def)

lemma wake_inv_cong:
  assumes "wake_inv q" "mq_workers q' = mq_workers q" "mq_running q' \<Longrightarrow> mq_running q"
    "mq_messages q' \<noteq> [] \<Longrightarrow> mq_messages q \<noteq> []" "mq_notifying q' = mq_notifying q"
  shows "wake_inv q'"
  using assms by (auto simp: wake_inv_def)

lemma count_inv_cong:
  assumes "count_inv q" "mq_workers q' = mq_workers q" "mq_messages q' = mq_messages q" "mq_accepted q' = mq_accepted q"
    "mq_done q' = mq_done q" "mq_cleared q' = mq_cleared q" "mq_published q' = mq_published q" "mq_processed q' = mq_processed q"
  shows "count_inv q'"
  using assms by (simp add: count_inv_def in_hand_def)

lemma mq_inv_new: "mq_inv n (MessageQueue_new n)"
proof -
  have "concat (map hand (replicate n Loop)) = []" by (induction n) simp_all
  then show ?thesis
    by (simp add: mq_inv_def MessageQueue_new_def lock_inv_def wake_inv_def count_inv_def in_hand_def mq_sorted_def)
qed

lemma mq_inv_worker:
  assumes inv: "mq_inv n q" and i: "i < length (mq_workers q)" and step: "workerFunction rnd i q = Some q'"
  shows "mq_inv n q'"
proof (rule mq_invI)
  note D = mq_invD [OF inv]
  show "length (mq_workers q') = n" "mq_running q' \<longleftrightarrow> mq_stopper q' = Not_Stopping"
    using step D(1,6) by (cases rule: worker_cases; simp)+
  show "mq_sorted (mq_messages q')" using step D(5) by (cases rule: worker_cases; simp add: mq_sorted_def)
  show "lock_inv q'" by (rule lock_inv_worker [OF D(2) i step])
  show "wake_inv q'" by (rule wake_inv_worker [OF D(3,2) i step])
  show "count_inv q'" by (rule count_inv_worker [OF D(4) i step])
qed

lemma mq_inv_wake:
  assumes inv: "mq_inv n q" and i: "asleep q i"
  shows "mq_inv n (moved (q\<lparr>mq_notifying := k\<rparr>) i Acquire)"
proof (rule mq_invI)
  note D = mq_invD [OF inv]
  have len: "i < length (mq_workers q)" "mq_workers q ! i = Asleep" using i by (simp_all add: asleep_def)
  let ?q = "moved (q\<lparr>mq_notifying := k\<rparr>) i Acquire"
  show "lock_inv ?q" by (rule lock_invI [OF D(2), where w = Acquire and i = i]) (simp_all add: len)
  show "wake_inv ?q" using D(3) len by (auto simp: wake_inv_def nth_list_update intro!: exI [of _ i])
  show "count_inv ?q"
    using D(4) len hands_update [of i "mq_workers q" Acquire] count_update [of i "mq_workers q" Acquire Count]
    by (simp add: count_inv_def in_hand_def)
qed (use mq_invD [OF inv] in simp_all)

lemma mq_inv_subscriptions:
  assumes inv: "mq_inv n q"
  shows "mq_inv n (q\<lparr>mq_subscriptions := subs\<rparr>)"
proof (rule mq_invI)
  note D = mq_invD [OF inv]
  let ?q = "q\<lparr>mq_subscriptions := subs\<rparr>"
  show "lock_inv ?q" by (rule lock_inv_cong [OF D(2)]) simp_all
  show "wake_inv ?q" by (rule wake_inv_cong [OF D(3)]) simp_all
  show "count_inv ?q" by (rule count_inv_cong [OF D(4)]) simp_all
qed (use mq_invD [OF inv] in simp_all)

lemma no_commit:
  assumes "lock_inv q" "mq_lock q = None" "i < length (mq_workers q)"
  shows "mq_workers q ! i \<noteq> Commit"
proof
  assume "mq_workers q ! i = Commit"
  with assms(1,3) have "mq_lock q = Some i" by (simp add: lock_inv_def)
  with assms(2) show False by simp
qed

lemma mq_inv_publish:
  assumes inv: "mq_inv n q" and "publish m q = Some q'"
  shows "mq_inv n q'"
proof (rule mq_invI)
  note D = mq_invD [OF inv]
  from assms(2) have free: "mq_lock q = None" and q': "q' = q\<lparr>mq_messages := ins_by mq_before m (mq_messages q),
      mq_published := mq_published q + 1, mq_notifying := mq_notifying q + 1, mq_accepted := mq_accepted q @ [m]\<rparr>"
    by (simp_all add: publish_def split: if_splits)
  show "lock_inv q'" using D(2) no_commit [OF D(2) free] by (simp add: q' lock_inv_def)
  show "wake_inv q'" using D(3) by (simp add: q' wake_inv_def)
  show "count_inv q'" using D(4) by (simp add: q' count_inv_def in_hand_def)
  show "mq_sorted (mq_messages q')" using mq_sorted_push [OF D(5)] by (simp add: q')
  show "length (mq_workers q') = n" "mq_running q' \<longleftrightarrow> mq_stopper q' = Not_Stopping" using D(1,6) by (simp_all add: q')
qed

lemma mq_inv_clear:
  assumes inv: "mq_inv n q" and "mq_clear q = Some q'"
  shows "mq_inv n q'"
proof (rule mq_invI)
  note D = mq_invD [OF inv]
  from assms(2) have q': "q' = q\<lparr>mq_messages := [], mq_cleared := mq_cleared q @ mq_messages q\<rparr>"
    by (simp add: mq_clear_def split: if_splits)
  show "lock_inv q'" by (rule lock_inv_cong [OF D(2)]) (simp_all add: q')
  show "wake_inv q'" by (rule wake_inv_cong [OF D(3)]) (simp_all add: q')
  show "count_inv q'" using D(4) by (simp add: q' count_inv_def in_hand_def)
  show "mq_sorted (mq_messages q')" by (simp add: q' mq_sorted_def)
  show "length (mq_workers q') = n" "mq_running q' \<longleftrightarrow> mq_stopper q' = Not_Stopping" using D(1,6) by (simp_all add: q')
qed

lemma all_awake:
  assumes "lock_inv q" "wake_inv q" "mq_running q" "mq_messages q \<noteq> []" "Asleep \<notin> set (mq_workers q)" "i < length (mq_workers q)"
  shows "awake (mq_workers q ! i)"
proof -
  have "mq_workers q ! i \<noteq> Asleep" using assms(5,6) by (metis nth_mem)
  moreover have "mq_workers q ! i \<noteq> Commit" using assms(1,4,6) by (auto simp: lock_inv_def)
  moreover have "mq_workers q ! i \<noteq> Ended" using assms(2,3,6) by (simp add: wake_inv_def)
  ultimately show ?thesis by (simp add: awake_def)
qed

lemma mq_inv_notify:
  assumes inv: "mq_inv n q" and step: "notify_one choice q = Some q'"
  shows "mq_inv n q'"
proof (cases choice)
  case None
  note D = mq_invD [OF inv]
  from None step have none: "Asleep \<notin> set (mq_workers q)" and q': "q' = q\<lparr>mq_notifying := mq_notifying q - 1\<rparr>"
    by (simp_all add: notify_one_def split: if_splits)
  have "wake_inv q'" using D(3) all_awake [OF D(2,3) _ _ none, of 0] by (auto simp: q' wake_inv_def)
  moreover have "lock_inv q'" by (rule lock_inv_cong [OF D(2)]) (simp_all add: q')
  moreover have "count_inv q'" by (rule count_inv_cong [OF D(4)]) (simp_all add: q')
  ultimately show ?thesis using D(1,5,6) by (intro mq_invI) (simp_all add: q')
next
  case (Some i)
  with step have "asleep q i" and q': "q' = moved (q\<lparr>mq_notifying := mq_notifying q - 1\<rparr>) i Acquire"
    by (simp_all add: notify_one_def Let_def split: if_splits)
  then show ?thesis using mq_inv_wake [OF inv] by blast
qed

lemma mq_inv_stop_flag:
  assumes inv: "mq_inv n q" and "stop_flag q = Some q'"
  shows "mq_inv n q'"
proof (rule mq_invI)
  note D = mq_invD [OF inv]
  from assms(2) have q': "q' = q\<lparr>mq_running := False, mq_stopper := Flag_Cleared\<rparr>" by (simp add: stop_flag_def split: if_splits)
  show "lock_inv q'" by (rule lock_inv_cong [OF D(2)]) (simp_all add: q')
  show "wake_inv q'" by (rule wake_inv_cong [OF D(3)]) (simp_all add: q')
  show "count_inv q'" by (rule count_inv_cong [OF D(4)]) (simp_all add: q')
  show "length (mq_workers q') = n" "mq_sorted (mq_messages q')" "mq_running q' \<longleftrightarrow> mq_stopper q' = Not_Stopping"
    using D(1,5) by (simp_all add: q')
qed

definition woken :: "'d worker \<Rightarrow> 'd worker" where
  "woken w = (if w = Asleep then Acquire else w)"

lemma woken_same:
  "holds_lock (woken w) = holds_lock w" "woken w = Commit \<longleftrightarrow> w = Commit" "concat (map hand (map woken ws)) = concat (map hand ws)"
  "count (mset (map woken ws)) Count = count (mset ws) Count"
  by (simp add: woken_def) (simp add: woken_def, (induction ws; simp add: woken_def)+)

lemma mq_inv_stop_notify:
  assumes inv: "mq_inv n q" and "stop_notify q = Some q'"
  shows "mq_inv n q'"
proof (rule mq_invI)
  note D = mq_invD [OF inv]
  from assms(2) have "mq_stopper q = Flag_Cleared" and q': "q' = q\<lparr>mq_workers := map woken (mq_workers q), mq_stopper := Joining\<rparr>"
    by (simp_all add: stop_notify_def woken_def [abs_def] split: if_splits)
  then have "\<not> mq_running q" using D(6) by simp
  then show "wake_inv q'" "mq_running q' \<longleftrightarrow> mq_stopper q' = Not_Stopping" by (simp_all add: q' wake_inv_def)
  show "lock_inv q'" using D(2) by (simp add: q' lock_inv_def woken_same cong: conj_cong)
  have "in_hand q' = in_hand q" "count (mset (mq_workers q')) Count = count (mset (mq_workers q)) Count"
    using woken_same(3,4) [of "mq_workers q"] by (simp_all add: q' in_hand_def del: map_map)
  then show "count_inv q'" using D(4) by (simp add: count_inv_def) (simp add: q')
  show "length (mq_workers q') = n" "mq_sorted (mq_messages q')" using D(1,5) by (simp_all add: q')
qed

lemma mq_inv_act:
  assumes inv: "mq_inv n q" and act: "mq_act a q = Some q'"
  shows "mq_inv n q'"
proof (cases a)
  case (Work rnd i)
  with act show ?thesis using mq_inv_worker [OF inv] by (simp add: mq_act_def split: if_splits)
next
  case (Spurious i)
  with act have "asleep q i" "q' = moved (q\<lparr>mq_notifying := mq_notifying q\<rparr>) i Acquire" by (simp_all add: mq_act_def split: if_splits)
  then show ?thesis using mq_inv_wake [OF inv] by blast
next
  case (Subscribe t s st)
  with act have "q' = subscribe t s st q" by (simp add: mq_act_def)
  then show ?thesis using mq_inv_subscriptions [OF inv] subscriptions_frame(1) by metis
next
  case (Unsubscribe t s)
  with act have "q' = unsubscribe t s q" by (simp add: mq_act_def)
  then show ?thesis using mq_inv_subscriptions [OF inv] subscriptions_frame(2) by metis
next
  case (SetStrategy t st)
  with act have "q' = setDistributionStrategy t st q" by (simp add: mq_act_def)
  then show ?thesis using mq_inv_subscriptions [OF inv] subscriptions_frame(3) by metis
next
  case (Publish m)
  with act mq_inv_publish [OF inv] show ?thesis by (simp add: mq_act_def)
next
  case (Notify choice)
  with act mq_inv_notify [OF inv] show ?thesis by (simp add: mq_act_def)
next
  case Clear
  with act mq_inv_clear [OF inv] show ?thesis by (simp add: mq_act_def)
next
  case StopFlag
  with act mq_inv_stop_flag [OF inv] show ?thesis by (simp add: mq_act_def)
next
  case StopNotify
  with act mq_inv_stop_notify [OF inv] show ?thesis by (simp add: mq_act_def)
qed

lemma mq_reachable_inv: "mq_reachable n q \<Longrightarrow> mq_inv n q"
  by (induction rule: mq_reachable.induct) (auto intro: mq_inv_new mq_inv_act)

section \<open>Properties\<close>

text \<open>C14. No message is lost or doubled: in every reachable state the published messages are those that wait in the queue, those that a
  worker has in hand, those that were distributed and those that were cleared; the counter of published messages counts them
  modulo the size of a 64-bit word, and the counter of processed messages lags behind by the workers that are about to increment it.\<close>

theorem messages_conserved:
  assumes "mq_reachable n q"
  shows "mset (mq_accepted q) = mset (mq_messages q) + mset (in_hand q) + mset (mq_done q) + mset (mq_cleared q) \<and>
    mq_published q = of_nat (length (mq_accepted q)) \<and>
    of_nat (length (mq_done q)) = mq_processed q + of_nat (count (mset (mq_workers q)) Count)"
  using mq_invD(4) [OF mq_reachable_inv [OF assms]] by (simp only: count_inv_def)

lemma reachable_run: "mq_reachable n q \<Longrightarrow> mq_run acts q = Some q' \<Longrightarrow> mq_reachable n q'"
proof (induction acts arbitrary: q)
  case (Cons a acts)
  from Cons.prems obtain q1 where "mq_act a q = Some q1" "mq_run acts q1 = Some q'" by (auto split: option.splits)
  with Cons.IH [OF mq_reachable.step [OF Cons.prems(1)]] show ?case by blast
qed simp

definition sample_message :: "nat QMessage" where
  "sample_message = QMessage_new 5 ''id'' ''t'' 0 HIGH"

definition sample_actions :: "nat action list" where
  "sample_actions = [Subscribe ''t'' ''s'' BROADCAST, Publish sample_message, Work 0 0, Work 0 0, Work 0 0, Work 0 0]"

lemma sample_run: "mq_run sample_actions (MessageQueue_new 1) \<noteq> None"
  by code_simp

lemma butlast_run: "mq_run (butlast sample_actions) (MessageQueue_new 1) \<noteq> None"
  by code_simp

theorem messages_conserved_witness:
  "\<exists>q. mq_reachable 1 q \<and> in_hand q = [sample_message] \<and> mset (mq_accepted q) = {#sample_message#} \<and>
    mset (mq_accepted q) = mset (mq_messages q) + mset (in_hand q) + mset (mq_done q) + mset (mq_cleared q)"
proof -
  obtain q where run: "mq_run sample_actions (MessageQueue_new 1) = Some q" using sample_run by blast
  have "in_hand (the (mq_run sample_actions (MessageQueue_new 1))) = [sample_message]"
    "mq_accepted (the (mq_run sample_actions (MessageQueue_new 1))) = [sample_message]" by code_simp+
  then have "in_hand q = [sample_message]" "mset (mq_accepted q) = {#sample_message#}" unfolding run option.sel by simp_all
  moreover have reach: "mq_reachable 1 q" by (rule reachable_run [OF mq_reachable.start run])
  ultimately show ?thesis using messages_conserved [OF reach] by (intro exI [of _ q]) simp
qed

text \<open>C21. Workers take the messages in order: the message that a worker takes has the highest priority of all that wait, and among
  those of this priority the earliest time.\<close>

theorem highest_priority_first:
  assumes "mq_reachable n q" "mq_act (Work rnd i) q = Some q'" "mq_workers q ! i = Check" "mq_workers q' ! i = Distribute m"
  shows "m \<in> set (mq_messages q) \<and> mq_messages q' = tl (mq_messages q) \<and>
    (\<forall>m' \<in> set (mq_messages q). qm_priority m' \<le> qm_priority m \<and> (qm_priority m' = qm_priority m \<longrightarrow> qm_timestamp m \<le> qm_timestamp m'))"
proof -
  from assms(2) have i: "i < length (mq_workers q)" and step: "workerFunction rnd i q = Some q'" by (simp_all add: mq_act_def split: if_splits)
  obtain ms where q: "mq_messages q = m # ms" "mq_messages q' = ms"
    using step by (cases rule: worker_cases) (use assms(3,4) i in simp_all)
  have "mq_sorted (mq_messages q)" by (rule mq_invD(5) [OF mq_reachable_inv [OF assms(1)]])
  then have key: "mq_key m \<le> mq_key m'" if "m' \<in> set (mq_messages q)" for m'
    using mqpq.top_least [of "mq_messages q" m'] that q by simp
  have "qm_priority m' \<le> qm_priority m \<and> (qm_priority m' = qm_priority m \<longrightarrow> qm_timestamp m \<le> qm_timestamp m')"
    if "m' \<in> set (mq_messages q)" for m'
    using key [OF that] by (auto simp: mq_key_def less_eq_prod_def less_eq_Priority_def)
  then show ?thesis using q by simp
qed

theorem highest_priority_first_witness:
  "\<exists>q q'. mq_reachable 1 q \<and> mq_act (Work 0 0) q = Some q' \<and> sample_message \<in> set (mq_messages q) \<and> mq_messages q' = tl (mq_messages q)"
proof -
  obtain q where run: "mq_run (butlast sample_actions) (MessageQueue_new 1) = Some q"
    using butlast_run by blast
  have "mq_workers (the (mq_run (butlast sample_actions) (MessageQueue_new 1))) ! 0 = Check"
    "mq_workers (the (mq_act (Work 0 0) (the (mq_run (butlast sample_actions) (MessageQueue_new 1))))) ! 0 = Distribute sample_message"
    "mq_act (Work 0 0) (the (mq_run (butlast sample_actions) (MessageQueue_new 1))) \<noteq> None" by code_simp+
  then obtain q' where q': "mq_act (Work 0 0) q = Some q'" "mq_workers q ! 0 = Check" "mq_workers q' ! 0 = Distribute sample_message"
    unfolding run option.sel by auto
  have reach: "mq_reachable 1 q" by (rule reachable_run [OF mq_reachable.start run])
  from highest_priority_first [OF reach q'] reach q'(1) show ?thesis by blast
qed

text \<open>Steps that the queue takes without new calls from outside: of its workers, and the notifications of calls of \<open>publish\<close> under way.\<close>

fun internal :: "'d action \<Rightarrow> bool" where
  "internal (Work rnd i) = True"
| "internal (Notify choice) = True"
| "internal _ = False"

definition can_take :: "'d QMessage \<Rightarrow> 'd QMessage list \<Rightarrow> 'd MessageQueue \<Rightarrow> bool" where
  "can_take m ms q \<longleftrightarrow> (\<exists>acts q' i. list_all internal acts \<and> mq_run acts q = Some q' \<and> i < length (mq_workers q') \<and>
     mq_workers q' ! i = Distribute m \<and> mq_messages q' = ms)"

lemma can_take_step:
  assumes "mq_act a q = Some q1" "internal a" "can_take m ms q1"
  shows "can_take m ms q"
proof -
  from assms(3) obtain acts q' i where "list_all internal acts" "mq_run acts q1 = Some q'" "i < length (mq_workers q')"
    "mq_workers q' ! i = Distribute m" "mq_messages q' = ms" by (auto simp: can_take_def)
  with assms(1,2) show ?thesis unfolding can_take_def by (intro exI [of _ "a # acts"] exI [of _ q'] exI [of _ i]) simp
qed

text \<open>A worker that is awake and can get the lock takes the first message.\<close>

definition ready :: "'d QMessage \<Rightarrow> 'd QMessage list \<Rightarrow> nat \<Rightarrow> 'd MessageQueue \<Rightarrow> bool" where
  "ready m ms i q \<longleftrightarrow> mq_running q \<and> mq_messages q = m # ms \<and> i < length (mq_workers q)"

lemma can_take_work:
  assumes "ready m ms i q" "workerFunction 0 i q = Some q1" "can_take m ms q1"
  shows "can_take m ms q"
  using assms by (intro can_take_step [of "Work 0 i" q q1]) (simp_all add: mq_act_def ready_def)

lemma take_check: "ready m ms i q \<Longrightarrow> mq_workers q ! i = Check \<Longrightarrow> can_take m ms q"
proof -
  assume ready: "ready m ms i q" and pos: "mq_workers q ! i = Check"
  let ?q = "moved (unlocked (q\<lparr>mq_messages := ms\<rparr>)) i (Distribute m)"
  have "workerFunction 0 i q = Some ?q" using ready pos by (simp add: workerFunction_def ready_def)
  moreover have "can_take m ms ?q"
    unfolding can_take_def using ready by (intro exI [of _ "[]"] exI [of _ ?q] exI [of _ i]) (simp add: ready_def)
  ultimately show ?thesis by (rule can_take_work [OF ready])
qed

lemma take_test:
  assumes ready: "ready m ms i q" and pos: "mq_workers q ! i = Test"
  shows "can_take m ms q"
proof (rule can_take_work [OF ready])
  show "workerFunction 0 i q = Some (moved q i Check)" using ready pos by (simp add: workerFunction_def ready_def)
  show "can_take m ms (moved q i Check)" by (rule take_check [of m ms i]) (use ready in \<open>simp_all add: ready_def\<close>)
qed

lemma take_acquire:
  assumes ready: "ready m ms i q" and pos: "mq_workers q ! i = Acquire" and free: "mq_lock q = None"
  shows "can_take m ms q"
proof (rule can_take_work [OF ready])
  let ?q = "moved (q\<lparr>mq_lock := Some i\<rparr>) i Test"
  show "workerFunction 0 i q = Some ?q" using pos free by (simp add: workerFunction_def)
  show "can_take m ms ?q" by (rule take_test [of m ms i]) (use ready in \<open>simp_all add: ready_def\<close>)
qed

lemma take_loop:
  assumes ready: "ready m ms i q" and pos: "mq_workers q ! i = Loop" and free: "mq_lock q = None"
  shows "can_take m ms q"
proof (rule can_take_work [OF ready])
  show "workerFunction 0 i q = Some (moved q i Acquire)" using ready pos by (simp add: workerFunction_def ready_def)
  show "can_take m ms (moved q i Acquire)" by (rule take_acquire [of m ms i]) (use ready free in \<open>simp_all add: ready_def\<close>)
qed

lemma take_count:
  assumes ready: "ready m ms i q" and pos: "mq_workers q ! i = Count" and free: "mq_lock q = None"
  shows "can_take m ms q"
proof (rule can_take_work [OF ready])
  let ?q = "moved (q\<lparr>mq_processed := mq_processed q + 1\<rparr>) i Loop"
  show "workerFunction 0 i q = Some ?q" using pos by (simp add: workerFunction_def)
  show "can_take m ms ?q" by (rule take_loop [of m ms i]) (use ready free in \<open>simp_all add: ready_def\<close>)
qed

lemma take_distribute:
  assumes ready: "ready m ms i q" and pos: "mq_workers q ! i = Distribute m'" and free: "mq_lock q = None"
  shows "can_take m ms q"
proof -
  obtain q1 where step: "workerFunction 0 i q = Some q1" using pos by (simp add: workerFunction_def Let_def)
  from step pos obtain subs dels where
    q1: "q1 = moved (q\<lparr>mq_subscriptions := subs, mq_delivered := dels, mq_done := mq_done q @ [m']\<rparr>) i Count"
    by (cases rule: worker_cases) simp_all
  show ?thesis by (rule can_take_work [OF ready step], rule take_count [of m ms i]) (use ready free in \<open>simp_all add: q1 ready_def\<close>)
qed

lemma awake_takes:
  assumes inv: "mq_inv n q" and ready: "ready m ms i q" and "awake (mq_workers q ! i)" and free: "mq_lock q = None"
  shows "can_take m ms q"
proof (cases "mq_workers q ! i")
  case Test
  then show ?thesis by (rule take_test [OF ready])
next
  case Check
  then show ?thesis by (rule take_check [OF ready])
qed (use assms in \<open>auto intro: take_loop take_acquire take_count take_distribute\<close>)

text \<open>C12. A published message does not wait while everybody sleeps: in every reachable state of a running queue with at least one
  worker, the first message can be taken by steps of the workers and by the notifications of calls of \<open>publish\<close> that are
  under way, without any new call.\<close>

theorem message_can_be_taken:
  assumes "mq_reachable n q" "0 < n" "mq_running q" "mq_messages q = m # ms"
  shows "\<exists>acts q' i. list_all internal acts \<and> mq_run acts q = Some q' \<and> i < n \<and> mq_workers q' ! i = Distribute m \<and> mq_messages q' = ms"
proof -
  have inv: "mq_inv n q" by (rule mq_reachable_inv [OF assms(1)])
  note D = mq_invD [OF inv]
  have ready: "i < n \<Longrightarrow> ready m ms i q" for i using assms(3,4) D(1) by (simp add: ready_def)
  have "can_take m ms q"
  proof (cases "mq_lock q")
    case (Some j)
    then have j: "j < n" "holds_lock (mq_workers q ! j)" using D(1,2) by (auto simp: lock_inv_def)
    moreover have "mq_workers q ! j \<noteq> Commit" using D(1,2) assms(4) j(1) by (auto simp: lock_inv_def)
    ultimately show ?thesis using take_test [OF ready] take_check [OF ready] by (auto simp: holds_lock_def)
  next
    case free: None
    show ?thesis
    proof (cases "\<exists>i < n. awake (mq_workers q ! i)")
      case True
      then show ?thesis using awake_takes [OF inv ready _ free] by blast
    next
      case False
      have pending: "0 < mq_notifying q" using False D(1,3) assms by (auto simp: wake_inv_def)
      have "mq_workers q ! 0 \<noteq> Commit" "mq_workers q ! 0 \<noteq> Ended"
        using no_commit [OF D(2) free, of 0] D(1,3) assms(2,3) by (simp_all add: wake_inv_def)
      then have asleep: "asleep q 0" using False assms(2) D(1) by (auto simp: asleep_def awake_def)
      let ?q = "moved (q\<lparr>mq_notifying := mq_notifying q - 1\<rparr>) 0 Acquire"
      show ?thesis
      proof (rule can_take_step [of "Notify (Some 0)"])
        show "mq_act (Notify (Some 0)) q = Some ?q" using pending asleep by (simp add: mq_act_def notify_one_def)
        show "can_take m ms ?q" by (rule take_acquire [of m ms 0]) (use ready [OF assms(2)] free in \<open>simp_all add: ready_def\<close>)
      qed simp
    qed
  qed
  then obtain acts q' i where take: "list_all internal acts" "mq_run acts q = Some q'" "i < length (mq_workers q')"
    "mq_workers q' ! i = Distribute m" "mq_messages q' = ms" by (auto simp: can_take_def)
  moreover have "length (mq_workers q') = n" by (rule mq_invD(1) [OF mq_reachable_inv [OF reachable_run [OF assms(1) take(2)]]])
  ultimately show ?thesis by blast
qed

theorem message_can_be_taken_witness:
  "\<exists>q q'. mq_reachable 1 q \<and> mq_messages q = [sample_message] \<and> (\<exists>acts. list_all internal acts \<and> mq_run acts q = Some q') \<and> mq_messages q' = []"
proof -
  obtain q where run: "mq_run (butlast sample_actions) (MessageQueue_new 1) = Some q" using butlast_run by blast
  have "mq_messages (the (mq_run (butlast sample_actions) (MessageQueue_new 1))) = [sample_message]"
    "mq_running (the (mq_run (butlast sample_actions) (MessageQueue_new 1)))" by code_simp+
  then have q: "mq_messages q = [sample_message]" "mq_running q" unfolding run option.sel by simp_all
  have reach: "mq_reachable 1 q" by (rule reachable_run [OF mq_reachable.start run])
  from message_can_be_taken [OF reach _ q(2,1)] reach q(1) show ?thesis by auto
qed

text \<open>
  \<open>stop\<close> clears the flag without holding the mutex. A worker that has just found the queue empty and running, and has not yet
  begun to wait, misses the notification and sleeps for ever; \<open>stop\<close> then waits for it for ever. The steps that could still help
  are a new message or a spurious wakeup.
\<close>

fun quiet :: "'d action \<Rightarrow> bool" where
  "quiet (Publish m) = False"
| "quiet (Spurious i) = False"
| "quiet _ = True"

definition stop_hangs :: "'d MessageQueue \<Rightarrow> bool" where
  "stop_hangs q \<longleftrightarrow> mq_stopper q = Joining \<and> (\<forall>acts q'. list_all quiet acts \<longrightarrow> mq_run acts q = Some q' \<longrightarrow> \<not> joined q')"

definition hanging :: "'d MessageQueue \<Rightarrow> bool" where
  "hanging q \<longleftrightarrow> mq_stopper q = Joining \<and> mq_notifying q = 0 \<and> mq_workers q = [Asleep]"

lemma hanging_act: "hanging q \<Longrightarrow> quiet a \<Longrightarrow> mq_act a q = Some q' \<Longrightarrow> hanging q'"
  by (cases a) (auto simp: mq_act_def hanging_def workerFunction_def notify_one_def mq_clear_def stop_flag_def stop_notify_def
      subscribe_def unsubscribe_def setDistributionStrategy_def Let_def split: if_splits option.splits)

lemma hanging_run: "hanging q \<Longrightarrow> list_all quiet acts \<Longrightarrow> mq_run acts q = Some q' \<Longrightarrow> hanging q'"
proof (induction acts arbitrary: q)
  case (Cons a acts)
  from Cons.prems(3) obtain q1 where q1: "mq_act a q = Some q1" "mq_run acts q1 = Some q'" by (auto split: option.splits)
  have "hanging q1" using hanging_act [OF Cons.prems(1) _ q1(1)] Cons.prems(2) by simp
  then show ?case using Cons.IH Cons.prems(2) q1(2) by simp
qed simp

definition race :: "nat action list" where
  "race = [Work 0 0, Work 0 0, Work 0 0, StopFlag, StopNotify, Work 0 0]"

text \<open>C40. A call of \<open>stop\<close> may never return: a queue with one worker reaches a state in which \<open>stop\<close> waits for the worker and the
  worker for a notification that has already been given, and whatever the threads do, without a new message or a spurious
  wakeup the worker never ends.\<close>

theorem stop_may_hang: "\<exists>q :: nat MessageQueue. mq_reachable 1 q \<and> stop_hangs q"
proof -
  have "mq_run race (MessageQueue_new 1) \<noteq> None" by code_simp
  then obtain q where run: "mq_run race (MessageQueue_new 1) = Some q" by blast
  have "mq_stopper (the (mq_run race (MessageQueue_new 1))) = Joining" "mq_notifying (the (mq_run race (MessageQueue_new 1))) = 0"
    "mq_workers (the (mq_run race (MessageQueue_new 1))) = [Asleep]" by code_simp+
  then have q: "hanging q" unfolding run option.sel by (simp add: hanging_def)
  have "\<not> joined q'" if "list_all quiet acts" "mq_run acts q = Some q'" for acts q'
    using hanging_run [OF q that] by (simp add: hanging_def joined_def)
  then have "stop_hangs q" using q by (simp add: stop_hangs_def hanging_def)
  moreover have "mq_reachable 1 q" by (rule reachable_run [OF mq_reachable.start run])
  ultimately show ?thesis by blast
qed

section \<open>Sharing out\<close>

lemma distribute_round_robin:
  assumes "map_of (mq_subscriptions q) (qm_topic m) = Some sub" "ts_strategy sub = ROUND_ROBIN" "ts_subscribers sub \<noteq> []"
  shows "mq_delivered (distributeMessage rnd m q) =
      mq_delivered q @ [(ts_subscribers sub ! (ts_roundRobinIndex sub mod length (ts_subscribers sub)), m)]"
    and "map_of (mq_subscriptions (distributeMessage rnd m q)) (qm_topic m) =
      Some (sub\<lparr>ts_roundRobinIndex := (ts_roundRobinIndex sub + 1) mod length (ts_subscribers sub)\<rparr>)"
  using assms by (simp_all add: distributeMessage_def deliver_def Let_def cpp_lib)

text \<open>Under the round robin strategy the messages of a topic go to its subscribers in turn, beginning with the current index.\<close>

theorem round_robin_turns:
  assumes "map_of (mq_subscriptions q) topic = Some sub" "ts_strategy sub = ROUND_ROBIN" "ts_subscribers sub \<noteq> []"
    and "\<forall>m \<in> set ms. qm_topic m = topic"
  shows "mq_delivered (foldl (\<lambda>q m. distributeMessage rnd m q) q ms) = mq_delivered q @
    map (\<lambda>j. (ts_subscribers sub ! ((ts_roundRobinIndex sub + j) mod length (ts_subscribers sub)), ms ! j)) [0..<length ms]"
  using assms
proof (induction ms arbitrary: q sub)
  case (Cons m ms)
  let ?n = "length (ts_subscribers sub)"
  let ?sub = "sub\<lparr>ts_roundRobinIndex := (ts_roundRobinIndex sub + 1) mod ?n\<rparr>"
  have m: "map_of (mq_subscriptions q) (qm_topic m) = Some sub" using Cons.prems(1,4) by simp
  note step = distribute_round_robin [OF m Cons.prems(2,3), of rnd]
  have "map_of (mq_subscriptions (distributeMessage rnd m q)) topic = Some ?sub" using step(2) Cons.prems(4) by simp
  then have "mq_delivered (foldl (\<lambda>q m. distributeMessage rnd m q) (distributeMessage rnd m q) ms) = mq_delivered (distributeMessage rnd m q) @
      map (\<lambda>j. (ts_subscribers ?sub ! ((ts_roundRobinIndex ?sub + j) mod length (ts_subscribers ?sub)), ms ! j)) [0..<length ms]"
    by (rule Cons.IH) (use Cons.prems in simp_all)
  moreover have "((i + 1) mod ?n + j) mod ?n = (i + Suc j) mod ?n" for i j by (simp add: mod_add_left_eq)
  ultimately show ?case by (simp add: step(1) upt_conv_Cons map_Suc_upt [symmetric] del: upt_Suc)
qed simp

theorem round_robin_turns_witness:
  "let q = subscribe ''t'' ''b'' ROUND_ROBIN (subscribe ''t'' ''a'' ROUND_ROBIN (MessageQueue_new 1)) :: nat MessageQueue
   in map fst (mq_delivered (foldl (\<lambda>q m. distributeMessage 0 m q) q (replicate 3 sample_message))) = [''a'', ''b'', ''a'']"
proof -
  define q :: "nat MessageQueue" where "q = subscribe ''t'' ''b'' ROUND_ROBIN (subscribe ''t'' ''a'' ROUND_ROBIN (MessageQueue_new 1))"
  have "map_of (mq_subscriptions q) ''t'' = Some \<lparr>ts_subscribers = [''a'', ''b''], ts_strategy = ROUND_ROBIN, ts_roundRobinIndex = 0\<rparr>"
    "mq_delivered q = []" unfolding q_def by code_simp+
  with round_robin_turns [of q "''t''" "\<lparr>ts_subscribers = [''a'', ''b''], ts_strategy = ROUND_ROBIN, ts_roundRobinIndex = 0\<rparr>"
    "replicate 3 sample_message" 0]
  show ?thesis unfolding q_def [symmetric] by (simp add: sample_message_def QMessage_new_def upt_rec numeral_3_eq_3)
qed

text \<open>Broadcast hands a message to every subscriber of its topic once, in the order of subscription.\<close>

lemma broadcast_exact:
  "map_of (mq_subscriptions q) (qm_topic m) = Some sub \<Longrightarrow> ts_strategy sub = BROADCAST \<Longrightarrow>
   distributeMessage rnd m q = q\<lparr>mq_delivered := mq_delivered q @ map (\<lambda>s. (s, m)) (ts_subscribers sub)\<rparr>"
  by (simp add: distributeMessage_def Let_def foldl_deliver)

text \<open>The messages of one publisher have different identifiers, as long as its counter does not wrap around.\<close>

lemma publishBatch_ids:
  "unat (message_counter p) + length items < 2 ^ 64 \<Longrightarrow>
   map qm_id (fst (publishBatch topic items priority p)) =
     map (\<lambda>k. publisher_id p @ ''_'' @ nat_dec k) [unat (message_counter p)..<unat (message_counter p) + length items]"
proof (induction items arbitrary: p)
  case (Cons item items)
  have "unat (message_counter p + 1) = Suc (unat (message_counter p))"
    using Cons.prems by (simp add: unat_word_ariths)
  then show ?case using Cons.IH [of "p\<lparr>message_counter := message_counter p + 1\<rparr>"] Cons.prems
    by (cases item) (simp add: pub_publish_def QMessage_new_def upt_conv_Cons split_beta del: upt_Suc)
qed simp

lemma publishBatch_distinct:
  "unat (message_counter p) + length items < 2 ^ 64 \<Longrightarrow> distinct (map qm_id (fst (publishBatch topic items priority p)))"
  by (simp add: publishBatch_ids distinct_map inj_on_def)

text \<open>The statistics add up.\<close>

lemma stats_add_up:
  "total_messages (foldl (\<lambda>s (now, m). stats_onMessage now m s) StatisticsSubscriber_new calls) =
   (let s = foldl (\<lambda>s (now, m). stats_onMessage now m s) StatisticsSubscriber_new calls
    in low_priority_count s + normal_priority_count s + high_priority_count s + urgent_priority_count s)"
  by (induction calls rule: rev_induct)
    (auto simp: StatisticsSubscriber_new_def stats_onMessage_def Let_def split: Priority.split)

end
