(* ===== verification/Spec2Isabelle.thy ===== *)
theory Spec2Isabelle
  imports Http_Sbi_Server Chunked_Props Rpc_Messages Websocket_Handshake
    Round_Robin Least_Connections Consistent_Hash Indexed_Pool Delay_Queue Http_Service_Props Http_Pool
    Maze_Chase Chat_Props Message_Queue_Props
begin

text \<open>
  A verification development for the C++ programs of this repository.

  \<^bold>\<open>The program.\<close> \<open>src/\<close> holds independent programs and libraries. Modelled are
  \<^item> the access and mobility management function of a 5G core (\<open>5gc/amf\<close>): the state machine \<open>AmfSm\<close> consumes
    UE events, N1/N2 messages and SBI messages, stores contexts in \<open>UeContextManager\<close>, sends through
    \<open>N1N2InterfaceManager\<close>, finds network functions through \<open>NfManager\<close>, and is driven by an HTTP front end;
  \<^item> the HTTP library of \<open>zsxq-cpp-ai/StdHTTPS\<close>: chunked coding, incremental parser, messages, router, middlewares,
    server, and the pool of client connections;
  \<^item> the message format of \<open>zsxq-cpp-ai/StdRPC\<close>;
  \<^item> the WebSocket server of \<open>websocket/websocket\<close>: Base64, SHA-1, opening handshake and frames;
  \<^item> the load balancers of \<open>zsxq-cpp-ai/Stdbalancing\<close>, the indexed memory pool of \<open>StdMemPool\<close>, the delay queue of
    \<open>Stddelay_queue\<close>, the maze game of \<open>Stdmigong\<close>, the video chat server of \<open>StdVideoChatRoom\<close> and the message queue of
    \<open>StdPubcpp\<close>.

  \<^bold>\<open>The theories.\<close> \<open>Prelude\<close> has the containers and the interfaces (locales) that the components share,
  \<open>CppString\<close> the string functions, \<open>Byte_Layout\<close> words in memory. Above them, for each program the definitions in the order of
  the code and then their properties:
  \<^item> 5G core: \<open>Ue_Context\<close> (\<open>UeContext.cpp\<close>), \<open>N1N2_Interface\<close> (\<open>N1N2Interface.cpp\<close>), \<open>Sbi_Message\<close> (\<open>SbiMessage.cpp\<close>,
    \<open>SbiMessageFactory.cpp\<close>), \<open>Nf_Management\<close> (\<open>NfManagement.cpp\<close>), \<open>Amf_Configuration\<close>, \<open>Amf_Sm\<close> (\<open>AmfSm.cpp\<close>; one record
    for the object and the singletons it calls), \<open>Http_Sbi_Server\<close> (\<open>amf_http_server.cpp\<close>, \<open>HttpServer.cpp\<close>). \<open>Amf_Sm_Props\<close> shows
    that the machine refines an abstract model of registration and connection, \<open>Amf_Sm_Safety\<close> the invariants of every reachable
    state and the answer to every SBI message.
  \<^item> HTTP: \<open>Chunked\<close> and \<open>Chunked_Props\<close> (round trips, termination, malformed input); \<open>Http_Parser\<close>, \<open>Http_Parser_Props\<close> (a
    message parses alike however it is cut, as long as no buffer ends inside a line end); \<open>Http_Message\<close>, \<open>Http_Wire\<close> (messages travel unchanged); \<open>Http_Service\<close>,
    \<open>Http_Service_Props\<close> (requests are answered in order, middleware chains end, the connection limit holds); \<open>Http_Pool\<close>
    (limit per host).
  \<^item> RPC: \<open>Rpc_Protocol\<close>, \<open>Rpc_Messages\<close> (what is accepted, and round trips).
  \<^item> WebSocket: \<open>Base64\<close>, \<open>Sha1\<close>, \<open>Websocket\<close>, \<open>Websocket_Handshake\<close> (equivalence with reference definitions, frame round trip,
    out-of-range reads).
  \<^item> Load balancers: \<open>Load_Balancer\<close>, \<open>Round_Robin\<close>, \<open>Least_Connections\<close>, \<open>Consistent_Hash\<close>; servers are objects in an explicit store,
    shared by pointer. Fairness, small movement of keys, and below that no balancer returns a server that is down.
  \<^item> \<open>Indexed_Pool\<close> (refinement of an abstract allocator), \<open>Delay_Queue\<close> (conservation, progress).
  \<^item> Maze: \<open>Maze\<close>, \<open>Maze_Props\<close> (a generated maze is a spanning tree), \<open>Maze_Search\<close> (shortest paths), \<open>Maze_Game\<close>,
    \<open>Maze_Chase\<close> (the chaser catches a resting player; the game state is consistent).
  \<^item> Chat: \<open>Chat_Rooms\<close> (\<open>RoomManager.cpp\<close>), \<open>Chat_Server\<close> (\<open>WebSocketHandler.cpp\<close>, \<open>ChatServer.cpp\<close>), \<open>Chat_Invariant\<close>,
    \<open>Chat_Props\<close> (consistent rooms, delivery, history, files).
  \<^item> Message queue: \<open>Message_Queue\<close> and \<open>Message_Queue_Props\<close>; workers, publishers and the stopping thread are interleaved step by
    step (conservation, order, no sleeping while a message waits, and the race in which \<open>stop\<close> hangs).

  \<^bold>\<open>How the code is modelled.\<close> Objects are records, enumerations datatypes, \<open>std::map\<close> and \<open>std::unordered_map\<close> association lists
  in key order, fixed-width integers words where their width matters, exceptions and deadlocks values of a sum type. Clocks, random
  numbers, sockets and files are arguments, so the theorems hold for all their behaviours. Operations that hold a mutex
  are one step, except in the message queue, where taking and releasing the mutex are steps of their own.

  \<^bold>\<open>Loops.\<close> Loops are total functions with termination proofs. Three are \<open>partial_function (option)\<close>, because they need not end: the two loops of the
  chunked encoder, which run forever for the chunk size 0 (\<open>Chunked_Props\<close> says exactly when they return), and the walk back
  along the parents of a search (\<open>Maze_Search\<close> shows that it returns). There is no fuel: loops that serve a connection
  consume the list of its input events.

  \<^bold>\<open>Not modelled.\<close> Sockets, epoll, TLS, threads as such, and console, file and database access, in all programs: these are calls into
  the operating system. Third-party code in the tree (\<open>json.hpp\<close>, \<open>httplib.h\<close>, WebSocket++, \<open>googletest\<close>), generated code, and code that only
  calls libraries (boost, gRPC, OpenSSL, DPDK, libpcap, Qt widgets). The remaining teaching programs are listed with the reason in the
  manifest of the development.
\<close>

section \<open>What all load balancers guarantee\<close>

lemmas fresh_balancers =
  RoundRobinBalancer_new_def WeightedRoundRobinBalancer_new_def LoadBalancer_new_def
  DynamicLeastConnectionsBalancer_new_def ConsistentHashBalancer_new_def

text \<open>
  C33. No balancer hands out a server that is down. For each of the six balancers and after any
  history from a fresh one: once a server with a unique identifier has been marked down, whatever
  happens next, none of the following selections returns it until it is marked up or a server is
  added under its identifier.
\<close>

theorem down_server_never_selected:
  "down_respected rr_methods RoundRobinBalancer_new \<and>
   down_respected wrr_methods WeightedRoundRobinBalancer_new \<and>
   down_respected lc_methods LoadBalancer_new \<and>
   down_respected wlc_methods LoadBalancer_new \<and>
   down_respected dlc_methods (DynamicLeastConnectionsBalancer_new w) \<and>
   down_respected ch_methods (ConsistentHashBalancer_new n)"
proof (intro conjI)
  show "down_respected rr_methods RoundRobinBalancer_new"
    by (rule rr.down_respectedI) (simp_all add: fresh_balancers)
  show "down_respected wrr_methods WeightedRoundRobinBalancer_new"
    by (rule wrr.down_respectedI) (simp_all add: fresh_balancers)
  show "down_respected lc_methods LoadBalancer_new"
    by (rule lc.down_respectedI) (simp_all add: fresh_balancers)
  show "down_respected wlc_methods LoadBalancer_new"
    by (rule wlc.down_respectedI) (simp_all add: fresh_balancers)
  show "down_respected dlc_methods (DynamicLeastConnectionsBalancer_new w)"
    by (rule dlc.down_respectedI) (simp_all add: fresh_balancers Let_def)
  show "down_respected ch_methods (ConsistentHashBalancer_new n)"
    by (rule ch.down_respectedI) (simp_all add: fresh_balancers ch_inv_def)
qed

end
